(* ===== verification/Prelude.thy ===== *)
theory Prelude
  imports Main
begin

text \<open>
  Shared vocabulary of the development: the model's basic types, the JavaScript helpers the sources
  use on strings and optional values, the row operations that give meaning to the queries the
  sources send to the database, and the generic lemmas and interfaces the component theories rest on.
\<close>

section \<open>Collections of facts\<close>

named_theorems row_simps \<open>laws of the row operations\<close>
named_theorems js_simps \<open>evaluation of the JavaScript helpers\<close>

section \<open>Basic types\<close>

text \<open>
  Points in time are integers, the milliseconds that \<open>Date.getTime\<close> returns. Identifiers are the
  strings the database generates. A nullable column is an \<open>option\<close>.
\<close>

type_synonym time = int
type_synonym ident = string
type_synonym 'r table = "'r list"

text \<open>
  JavaScript's truthiness on the optional strings the sources test with \<open>if (x)\<close> or \<open>x ? a : b\<close>:
  \<open>undefined\<close>, \<open>null\<close> and the empty string are all false.
\<close>

fun truthy :: "string option \<Rightarrow> bool" where
  "truthy None = False"
| "truthy (Some s) = (s \<noteq> [])"

text \<open>The nullish-coalescing operator \<open>a ?? b\<close>.\<close>

fun orElse :: "'a option \<Rightarrow> 'a \<Rightarrow> 'a" where
  "orElse None b = b"
| "orElse (Some a) b = a"

text \<open>Results of fallible code are sums, \<open>Inl\<close> for an error.\<close>

lemma map_sum_Inr [simp]: "map_sum f g x = Inr y \<longleftrightarrow> (\<exists>z. x = Inr z \<and> y = g z)"
  by (cases x) auto

lemma map_sum_Inl [simp]: "map_sum f g x = Inl y \<longleftrightarrow> (\<exists>z. x = Inl z \<and> y = f z)"
  by (cases x) auto

text \<open>
  Untyped JavaScript values, for the places where the sources inspect \<open>unknown\<close> data: request
  payloads, query arguments, webhook objects. Numbers are integers (the sources only carry amounts,
  counts, sequence numbers and Unix times through such values). An object lists its own properties
  in insertion order; a missing property reads as \<open>Undefined\<close>.
\<close>

datatype jsval =
    Undefined
  | Null
  | JBool bool
  | JNum int
  | JStr string
  | JArr "jsval list"
  | JObj "(string \<times> jsval) list"

definition getProp :: "string \<Rightarrow> (string \<times> jsval) list \<Rightarrow> jsval" where
  "getProp k ps = (case map_of ps k of None \<Rightarrow> Undefined | Some v \<Rightarrow> v)"

text \<open>Property assignment: in place for an existing property, appended otherwise.\<close>

fun setProp :: "string \<Rightarrow> jsval \<Rightarrow> (string \<times> jsval) list \<Rightarrow> (string \<times> jsval) list" where
  "setProp k v [] = [(k, v)]"
| "setProp k v ((k', v') # ps) = (if k' = k then (k, v) # ps else (k', v') # setProp k v ps)"

lemma map_of_setProp [js_simps]: "map_of (setProp k v ps) k' = (if k' = k then Some v else map_of ps k')"
  by (induction k v ps rule: setProp.induct) auto

lemma getProp_setProp [js_simps]: "getProp k' (setProp k v ps) = (if k' = k then v else getProp k' ps)"
  by (simp add: getProp_def map_of_setProp)

fun jprop :: "string \<Rightarrow> jsval \<Rightarrow> jsval" where
  "jprop k (JObj ps) = getProp k ps"
| "jprop k _ = Undefined"

section \<open>Rows and queries\<close>

text \<open>
  A table is a list of rows in an arbitrary order, the order in which the database happens to
  return them; a theorem that holds for every list holds for every such order. A query is its
  \<open>where\<close> filter, a predicate on rows, and an update is its \<open>data\<close>, a function on rows. Each of the
  operations below is one statement, hence atomic.
\<close>

definition find_first :: "('r \<Rightarrow> bool) \<Rightarrow> 'r table \<Rightarrow> 'r option" where
  "find_first P rs = List.find P rs"

definition matching :: "('r \<Rightarrow> bool) \<Rightarrow> 'r table \<Rightarrow> nat" where
  "matching P rs = length (filter P rs)"

definition update_many :: "('r \<Rightarrow> bool) \<Rightarrow> ('r \<Rightarrow> 'r) \<Rightarrow> 'r table \<Rightarrow> 'r table" where
  "update_many P f rs = map (\<lambda>r. if P r then f r else r) rs"

definition delete_many :: "('r \<Rightarrow> bool) \<Rightarrow> 'r table \<Rightarrow> 'r table" where
  "delete_many P rs = filter (\<lambda>r. \<not> P r) rs"

text \<open>
  An insert is refused with the unique-constraint violation \<open>P2002\<close> when an existing row clashes
  with the new one on a unique key.
\<close>

definition clashes :: "('r \<Rightarrow> 'r \<Rightarrow> bool) \<Rightarrow> 'r \<Rightarrow> 'r table \<Rightarrow> bool" where
  "clashes same r rs = list_ex (same r) rs"

lemma find_first_None [row_simps]: "find_first P rs = None \<longleftrightarrow> (\<forall>r\<in>set rs. \<not> P r)"
  by (auto simp: find_first_def find_None_iff)

lemma find_first_SomeD: "find_first P rs = Some r \<Longrightarrow> r \<in> set rs \<and> P r"
  by (auto simp: find_first_def find_Some_iff)

lemma find_first_ex: "\<exists>r\<in>set rs. P r \<Longrightarrow> \<exists>r. find_first P rs = Some r"
  by (cases "find_first P rs") (auto simp: find_first_None)

lemma matching_zero [row_simps]: "matching P rs = 0 \<longleftrightarrow> (\<forall>r\<in>set rs. \<not> P r)"
  by (auto simp: matching_def filter_empty_conv)

lemma matching_pos [row_simps]: "0 < matching P rs \<longleftrightarrow> (\<exists>r\<in>set rs. P r)"
  using matching_zero [of P rs] by auto

lemma matching_1_ex: "matching P rs = 1 \<Longrightarrow> \<exists>r\<in>set rs. P r"
  using matching_pos [of P rs] by simp

lemma set_update_many [row_simps]:
  "set (update_many P f rs) = (\<lambda>r. if P r then f r else r) ` set rs"
  by (simp add: update_many_def)

lemma length_update_many [row_simps]: "length (update_many P f rs) = length rs"
  by (simp add: update_many_def)

lemma set_delete_many [row_simps]: "set (delete_many P rs) = {r \<in> set rs. \<not> P r}"
  by (auto simp: delete_many_def)

lemma clashes_iff [row_simps]: "clashes same r rs \<longleftrightarrow> (\<exists>x\<in>set rs. same r x)"
  by (simp add: clashes_def list_ex_iff)

lemma update_many_none: "matching P rs = 0 \<Longrightarrow> update_many P f rs = rs"
  by (auto simp: matching_zero update_many_def map_idI)

lemma map_update_many: "(\<And>r. k (f r) = k r) \<Longrightarrow> map k (update_many P f rs) = map k rs"
  by (simp add: update_many_def)

lemma find_first_Cons: "find_first P (r # rs) = (if P r then Some r else find_first P rs)"
  by (simp add: find_first_def)

text \<open>An update that does not touch what a query looks at leaves the query's answer in place.\<close>

lemma find_first_update_many:
  "(\<And>r. P (f r) = P r) \<Longrightarrow>
   find_first P (update_many Q f rs) = map_option (\<lambda>r. if Q r then f r else r) (find_first P rs)"
  by (induction rs) (auto simp: find_first_def update_many_def)

lemma distinct_map_eq: "distinct (map k rs) \<Longrightarrow> x \<in> set rs \<Longrightarrow> y \<in> set rs \<Longrightarrow> k x = k y \<Longrightarrow> x = y"
  by (auto simp: distinct_map dest: inj_onD)

lemma distinct_delete_many: "distinct (map k rs) \<Longrightarrow> distinct (map k (delete_many P rs))"
  by (simp add: delete_many_def distinct_map_filter)

text \<open>With unique row keys a filter that fixes the key matches at most one row.\<close>

lemma matching_key_le1: "distinct (map k rs) \<Longrightarrow> matching (\<lambda>r. k r = i \<and> P r) rs \<le> 1"
proof (induction rs)
  case Nil
  then show ?case by (simp add: matching_def)
next
  case (Cons r rs)
  show ?case
  proof (cases "k r = i")
    case True
    with Cons.prems have "i \<notin> k ` set rs" by auto
    then have "\<forall>x\<in>set rs. k x \<noteq> i" by blast
    then have "filter (\<lambda>r. k r = i \<and> P r) rs = []" by (auto simp: filter_empty_conv)
    then show ?thesis by (simp add: matching_def)
  next
    case False
    with Cons show ?thesis by (simp add: matching_def)
  qed
qed

lemma matching_key_1:
  assumes "distinct (map k rs)"
  shows "matching (\<lambda>r. k r = i \<and> P r) rs = 1 \<longleftrightarrow> (\<exists>r\<in>set rs. k r = i \<and> P r)"
proof -
  have "matching (\<lambda>r. k r = i \<and> P r) rs = 1 \<longleftrightarrow> 0 < matching (\<lambda>r. k r = i \<and> P r) rs"
    using matching_key_le1 [OF assms, of i P] by linarith
  then show ?thesis by (simp add: matching_pos)
qed

section \<open>Effects of a call\<close>

text \<open>
  What a call reads from its surroundings, in the order in which it reads: the \<open>n\<close>-th reading of the
  clock, the identifier the database generates for the \<open>n\<close>-th row the call inserts, and the \<open>n\<close>-th
  draw of random bytes.
\<close>

record effects =
  ef_now :: "nat \<Rightarrow> time"
  ef_id :: "nat \<Rightarrow> ident"
  ef_random :: "nat \<Rightarrow> string"

section \<open>The compare-and-set interface\<close>

text \<open>
  The sources take a resource with a guarded update followed by a check of the number of changed
  rows: \<open>updateMany({where: {id, <still open>}, data: <close it>})\<close> and \<open>count !== 1\<close>. What a client
  of that pattern relies on is stated once: the update keeps the row's key and falsifies its guard.
\<close>

locale single_use =
  fixes rid :: "'r \<Rightarrow> 'id" and is_open :: "'r \<Rightarrow> bool" and close :: "'r \<Rightarrow> 'r"
  assumes rid_close: "rid (close r) = rid r"
    and close_closes: "\<not> is_open (close r)"
begin

text \<open>Once an update has been applied the same guarded update changes no row.\<close>

lemma second_take_fails:
  "matching (\<lambda>r. rid r = i \<and> is_open r) (update_many (\<lambda>r. rid r = i \<and> is_open r) close rs) = 0"
  by (auto simp: matching_zero set_update_many close_closes split: if_splits)

lemma keys_kept: "map rid (update_many P close rs) = map rid rs"
  by (rule map_update_many) (rule rid_close)

lemma take_wins_iff:
  "distinct (map rid rs) \<Longrightarrow>
   matching (\<lambda>r. rid r = i \<and> is_open r) rs = 1 \<longleftrightarrow> (\<exists>r\<in>set rs. rid r = i \<and> is_open r)"
  by (rule matching_key_1)

lemma others_untouched:
  "x \<in> set rs \<Longrightarrow> rid x \<noteq> i \<Longrightarrow> x \<in> set (update_many (\<lambda>r. rid r = i \<and> is_open r) close rs)"
  by (force simp: set_update_many image_iff)

end

end
