(* ===== verification/Errors.thy ===== *)
theory Errors
  imports Prelude
begin

text \<open>
  The error values of \<open>src/src/lib/errors.ts\<close>, the response envelopes of
  \<open>src/src/lib/api-response.ts\<close> and the last-resort handlers of
  \<open>src/src/middleware/error-handler.ts\<close>. Everything a handler can throw is a value of \<open>thrown\<close>.
\<close>

section \<open>Application errors\<close>

datatype ErrorCode =
    BAD_REQUEST | UNAUTHENTICATED | FORBIDDEN | NOT_FOUND | CONFLICT | RATE_LIMITED
  | SERVICE_UNAVAILABLE | INVALID_CSRF_TOKEN | INTERNAL_ERROR

record AppError =
  err_statusCode :: nat
  err_code :: ErrorCode
  err_message :: string
  err_details :: "jsval option"
  err_retryAfterSeconds :: "int option"

definition mkAppError :: "nat \<Rightarrow> ErrorCode \<Rightarrow> string \<Rightarrow> AppError" where
  "mkAppError s c m = \<lparr>err_statusCode = s, err_code = c, err_message = m,
     err_details = None, err_retryAfterSeconds = None\<rparr>"

text \<open>The optional message argument of each constructor is an \<open>option\<close>, \<open>None\<close> for the default.\<close>

definition badRequest :: "string option \<Rightarrow> jsval option \<Rightarrow> AppError" where
  "badRequest m d =
     (mkAppError 400 BAD_REQUEST (orElse m ''The request is invalid''))\<lparr>err_details := d\<rparr>"

definition unauthenticated :: "string option \<Rightarrow> AppError" where
  "unauthenticated m = mkAppError 401 UNAUTHENTICATED (orElse m ''Authentication required'')"

definition forbidden :: "string option \<Rightarrow> AppError" where
  "forbidden m = mkAppError 403 FORBIDDEN
     (orElse m ''You do not have permission to perform this action'')"

definition notFound :: "string option \<Rightarrow> AppError" where
  "notFound m = mkAppError 404 NOT_FOUND (orElse m ''Resource not found'')"

definition conflict :: "string option \<Rightarrow> AppError" where
  "conflict m = mkAppError 409 CONFLICT (orElse m ''The request conflicts with current state'')"

definition rateLimited :: "string option \<Rightarrow> int option \<Rightarrow> AppError" where
  "rateLimited m retry =
     (mkAppError 429 RATE_LIMITED (orElse m ''Too many requests; try again later''))
       \<lparr>err_retryAfterSeconds := Some (max 1 (orElse retry 1))\<rparr>"

definition serviceUnavailable :: "string option \<Rightarrow> AppError" where
  "serviceUnavailable m =
     mkAppError 503 SERVICE_UNAVAILABLE (orElse m ''The requested service is unavailable'')"

definition invalidCsrf :: "AppError" where
  "invalidCsrf = mkAppError 403 INVALID_CSRF_TOKEN ''Invalid CSRF token''"

lemmas errors_defs = mkAppError_def badRequest_def unauthenticated_def forbidden_def notFound_def
  conflict_def rateLimited_def serviceUnavailable_def invalidCsrf_def

text \<open>
  What a \<open>catch\<close> clause can receive: an \<open>AppError\<close>, a known request error of the database client
  with its code, the body parser's \<open>SyntaxError\<close> (the one that has a \<open>body\<close> property), or any
  other error with its message.
\<close>

datatype thrown =
    App "AppError"
  | PrismaKnown string
  | BodySyntaxError string
  | OtherError string

section \<open>Response envelopes\<close>

record error_body =
  eb_success :: bool
  eb_message :: string
  eb_code :: ErrorCode
  eb_details :: "jsval option"
  eb_requestId :: string

record error_response =
  er_status :: nat
  er_retryAfter :: "int option"
  er_body :: "error_body"

definition sendError ::
    "string \<Rightarrow> nat \<Rightarrow> ErrorCode \<Rightarrow> string \<Rightarrow> jsval option \<Rightarrow> int option \<Rightarrow> error_response" where
  "sendError reqId status code msg details retry =
     \<lparr>er_status = status,
      er_retryAfter = (if status = 429 then Some (max 1 (orElse retry 1)) else None),
      er_body = \<lparr>eb_success = False, eb_message = msg, eb_code = code, eb_details = details,
                 eb_requestId = reqId\<rparr>\<rparr>"

record success_response =
  sr_status :: nat
  sr_success :: bool
  sr_message :: string
  sr_data :: "jsval option"
  sr_meta :: "(string \<times> string) list"

definition sendSuccess ::
    "string \<Rightarrow> nat option \<Rightarrow> string option \<Rightarrow> jsval option \<Rightarrow> (string \<times> string) list
     \<Rightarrow> success_response" where
  "sendSuccess reqId status msg data meta =
     \<lparr>sr_status = orElse status 200, sr_success = True,
      sr_message = orElse msg ''Request completed successfully'', sr_data = data,
      sr_meta = (''requestId'', reqId) # meta\<rparr>"

section \<open>The error handlers\<close>

definition notFoundHandler :: "string \<Rightarrow> string \<Rightarrow> string \<Rightarrow> error_response" where
  "notFoundHandler reqId method path =
     sendError reqId 404 NOT_FOUND (''Route '' @ method @ '' '' @ path @ '' was not found'') None None"

text \<open>The second component says whether the error was logged and captured as unexpected.\<close>

definition errorHandler :: "string \<Rightarrow> thrown \<Rightarrow> error_response \<times> bool" where
  "errorHandler reqId err =
     (let unexpected =
        (sendError reqId 500 INTERNAL_ERROR ''An unexpected error occurred'' None None, True)
      in case err of
        App e \<Rightarrow>
          (sendError reqId (err_statusCode e) (err_code e) (err_message e) (err_details e)
             (err_retryAfterSeconds e), False)
      | PrismaKnown c \<Rightarrow>
          (if c = ''P2002'' then
             (sendError reqId 409 CONFLICT ''The resource already exists'' None None, False)
           else if c = ''P2025'' then
             (sendError reqId 404 NOT_FOUND ''Resource not found'' None None, False)
           else unexpected)
      | BodySyntaxError _ \<Rightarrow>
          (sendError reqId 400 BAD_REQUEST ''Malformed JSON request body'' None None, False)
      | OtherError _ \<Rightarrow> unexpected)"

text \<open>The errors the sources construct, one per constructor of \<open>errors\<close>.\<close>

inductive known_error :: "AppError \<Rightarrow> bool" where
  "known_error (badRequest m d)"
| "known_error (unauthenticated m)"
| "known_error (forbidden m)"
| "known_error (notFound m)"
| "known_error (conflict m)"
| "known_error (rateLimited m r)"
| "known_error (serviceUnavailable m)"
| "known_error invalidCsrf"

lemma known_error_status:
  "known_error e \<Longrightarrow> err_statusCode e \<in> {400, 401, 403, 404, 409, 429, 503}"
  by (induction rule: known_error.induct) (simp_all add: errors_defs)

lemma known_error_retry:
  "known_error e \<Longrightarrow> err_statusCode e = 429 \<Longrightarrow> \<exists>n\<ge>1. err_retryAfterSeconds e = Some n"
  by (induction rule: known_error.induct) (auto simp: errors_defs)

lemma errorHandler_App:
  "errorHandler reqId (App e) =
     (sendError reqId (err_statusCode e) (err_code e) (err_message e) (err_details e)
        (err_retryAfterSeconds e), False)"
  by (simp add: errorHandler_def)

lemma errorHandler_not_App:
  "(\<And>e. err \<noteq> App e) \<Longrightarrow> er_status (fst (errorHandler reqId err)) \<in> {400, 404, 409, 500}"
  by (cases err) (auto simp: errorHandler_def sendError_def Let_def)

lemma errorHandler_status:
  assumes "\<And>e. err = App e \<Longrightarrow> known_error e"
  shows "er_status (fst (errorHandler reqId err)) \<in> {400, 401, 403, 404, 409, 429, 500, 503}"
proof (cases "\<exists>e. err = App e")
  case True
  then obtain e where "err = App e" by blast
  with assms known_error_status [of e] show ?thesis
    by (auto simp: errorHandler_App sendError_def)
next
  case False
  then show ?thesis using errorHandler_not_App [of err reqId] by auto
qed

lemma sendError_success: "eb_success (er_body (sendError r s c m d t)) = False"
  by (simp add: sendError_def)

lemma errorHandler_success: "eb_success (er_body (fst (errorHandler reqId err))) = False"
  by (simp add: errorHandler_def sendError_success Let_def split: thrown.split)

lemma errorHandler_retry:
  "(er_retryAfter (fst (errorHandler reqId err)) = None) \<longleftrightarrow> er_status (fst (errorHandler reqId err)) \<noteq> 429"
  by (simp add: errorHandler_def sendError_def Let_def split: thrown.split)

lemma errorHandler_retry_ge1:
  "er_retryAfter (fst (errorHandler reqId err)) = Some n \<Longrightarrow> 1 \<le> n"
  by (auto simp: errorHandler_def sendError_def Let_def split: thrown.splits if_splits)

end
