(* ===== verification/Rate_Limit.thy ===== *)
theory Rate_Limit
  imports Errors
begin

text \<open>
  The rate limiter of \<open>src/src/lib/rate-limit.ts\<close>: the bounded in-process fallback counter, the
  bookkeeping of Redis outages and \<open>enforceRateLimit\<close>. What the Redis script returns is an argument
  of the model (\<open>None\<close> when the call throws), the script itself is translated over the Redis
  commands it issues, which are arguments too.
\<close>

section \<open>The bounded fallback counter\<close>

record LocalCounter =
  lc_count :: int
  lc_resetAt :: time

text \<open>The \<open>Map\<close> keeps its keys in insertion order, so it is a list of entries.\<close>

type_synonym entries = "(string \<times> LocalCounter) list"

record BoundedRateLimitFallback =
  fb_maxKeys :: nat
  fb_entries :: entries

definition newFallback :: "int \<Rightarrow> thrown + BoundedRateLimitFallback" where
  "newFallback maxKeys =
     (if maxKeys < 1 then Inl (OtherError ''maxKeys must be a positive integer'')
      else Inr \<lparr>fb_maxKeys = nat maxKeys, fb_entries = []\<rparr>)"

text \<open>\<open>Math.ceil(a / b)\<close> for integers and a positive divisor.\<close>

definition ceil_div :: "int \<Rightarrow> int \<Rightarrow> int" where
  "ceil_div a b = - ((- a) div b)"

definition removeExpired :: "time \<Rightarrow> entries \<Rightarrow> entries" where
  "removeExpired now es = delete_many (\<lambda>(k, c). lc_resetAt c \<le> now) es"

text \<open>
  The eviction loop. An empty map has no oldest key and an empty key is falsy: both leave the loop.
\<close>

fun evictOldest :: "nat \<Rightarrow> entries \<Rightarrow> entries" where
  "evictOldest m [] = []"
| "evictOldest m ((k, c) # es) =
     (if m \<le> Suc (length es) then (if k = [] then (k, c) # es else evictOldest m es)
      else (k, c) # es)"

definition fb_delete :: "BoundedRateLimitFallback \<Rightarrow> string \<Rightarrow> BoundedRateLimitFallback" where
  "fb_delete fb key = fb\<lparr>fb_entries := delete_many (\<lambda>e. fst e = key) (fb_entries fb)\<rparr>"

definition fb_size :: "BoundedRateLimitFallback \<Rightarrow> nat" where
  "fb_size fb = length (fb_entries fb)"

definition increment ::
    "BoundedRateLimitFallback \<Rightarrow> string \<Rightarrow> int \<Rightarrow> time \<Rightarrow> (int \<times> int) \<times> BoundedRateLimitFallback" where
  "increment fb key windowSeconds now =
     (let fresh = (\<lambda>es.
            ((1, windowSeconds),
             fb\<lparr>fb_entries :=
                 evictOldest (fb_maxKeys fb) (removeExpired now es)
                 @ [(key, \<lparr>lc_count = 1, lc_resetAt = now + windowSeconds * 1000\<rparr>)]\<rparr>))
      in case map_of (fb_entries fb) key of
           Some ex \<Rightarrow>
             if lc_resetAt ex > now then
               ((lc_count ex + 1, max 1 (ceil_div (lc_resetAt ex - now) 1000)),
                fb\<lparr>fb_entries := update_many (\<lambda>e. fst e = key)
                     (\<lambda>(k, c). (k, c\<lparr>lc_count := lc_count c + 1\<rparr>)) (fb_entries fb)\<rparr>)
             else fresh (delete_many (\<lambda>e. fst e = key) (fb_entries fb))
         | None \<Rightarrow> fresh (fb_entries fb))"

subsection \<open>Well-formedness and boundedness\<close>

definition fb_wf :: "BoundedRateLimitFallback \<Rightarrow> bool" where
  "fb_wf fb \<longleftrightarrow> 0 < fb_maxKeys fb \<and> length (fb_entries fb) \<le> fb_maxKeys fb \<and>
     distinct (map fst (fb_entries fb)) \<and> [] \<notin> fst ` set (fb_entries fb)"

lemma newFallback_wf: "newFallback n = Inr fb \<Longrightarrow> fb_wf fb"
  by (auto simp: newFallback_def fb_wf_def split: if_splits)

lemma evictOldest_suffix: "\<exists>ds. es = ds @ evictOldest m es"
proof (induction m es rule: evictOldest.induct)
  case (1 m)
  then show ?case by simp
next
  case (2 m k c es)
  show ?case
  proof (cases "m \<le> Suc (length es) \<and> k \<noteq> []")
    case True
    with "2.IH" obtain ds where "es = ds @ evictOldest m es" by auto
    with True show ?thesis by (intro exI [of _ "(k, c) # ds"]) simp
  next
    case False
    then show ?thesis by auto
  qed
qed

lemma evictOldest_length:
  "0 < m \<Longrightarrow> [] \<notin> fst ` set es \<Longrightarrow> length (evictOldest m es) < m"
  by (induction m es rule: evictOldest.induct) auto

lemma evictOldest_keeps: "length es < m \<Longrightarrow> evictOldest m es = es"
  by (cases es) auto

lemma set_evictOldest: "set (evictOldest m es) \<subseteq> set es"
  using evictOldest_suffix [of es m] by (metis set_append sup_ge2)

lemma distinct_evictOldest: "distinct (map fst es) \<Longrightarrow> distinct (map fst (evictOldest m es))"
  using evictOldest_suffix [of es m] by (metis distinct_append map_append)

lemma fst_update_count:
  "map fst (update_many (\<lambda>e. fst e = key) (\<lambda>(k, c). (k, f c)) es) = map fst es"
  by (rule map_update_many) auto

definition pruned :: "BoundedRateLimitFallback \<Rightarrow> string \<Rightarrow> time \<Rightarrow> entries" where
  "pruned fb key now = evictOldest (fb_maxKeys fb)
     (removeExpired now (delete_many (\<lambda>e. fst e = key) (fb_entries fb)))"

lemma delete_absent: "map_of es key = None \<Longrightarrow> delete_many (\<lambda>e. fst e = key) es = es"
  by (force simp: delete_many_def map_of_eq_None_iff intro!: filter_True)

text \<open>The two ways an increment can end: count up a live window, or start a window.\<close>

lemma increment_live:
  assumes "map_of (fb_entries fb) key = Some c" "now < lc_resetAt c"
  shows "increment fb key w now =
     ((lc_count c + 1, max 1 (ceil_div (lc_resetAt c - now) 1000)),
      fb\<lparr>fb_entries := update_many (\<lambda>e. fst e = key)
           (\<lambda>(k, c). (k, c\<lparr>lc_count := lc_count c + 1\<rparr>)) (fb_entries fb)\<rparr>)"
  using assms by (simp add: increment_def)

lemma increment_fresh:
  assumes "\<And>c. map_of (fb_entries fb) key = Some c \<Longrightarrow> lc_resetAt c \<le> now"
  shows "increment fb key w now =
     ((1, w), fb\<lparr>fb_entries := pruned fb key now
                  @ [(key, \<lparr>lc_count = 1, lc_resetAt = now + w * 1000\<rparr>)]\<rparr>)"
  using assms by (auto simp: increment_def pruned_def delete_absent split: option.split)

lemma increment_cases:
  obtains (live) c where "map_of (fb_entries fb) key = Some c" "now < lc_resetAt c"
  | (fresh) "\<And>c. map_of (fb_entries fb) key = Some c \<Longrightarrow> lc_resetAt c \<le> now"
  by (cases "map_of (fb_entries fb) key") (auto simp: not_less, meson not_less)

lemma pruned_subset: "set (pruned fb key now) \<subseteq> {e \<in> set (fb_entries fb). fst e \<noteq> key}"
  using set_evictOldest
  by (fastforce simp: pruned_def removeExpired_def set_delete_many)

lemma increment_wf:
  assumes wf: "fb_wf fb" and key: "key \<noteq> []"
  shows "fb_wf (snd (increment fb key w now))"
proof (cases fb key now rule: increment_cases)
  case (live c)
  have "fst ` set (update_many (\<lambda>e. fst e = key) (\<lambda>(k, c). (k, c\<lparr>lc_count := lc_count c + 1\<rparr>))
          (fb_entries fb)) = fst ` set (fb_entries fb)"
    using fst_update_count [of key _ "fb_entries fb"] by (metis list.set_map)
  with wf live show ?thesis
    by (simp add: increment_live fb_wf_def fst_update_count length_update_many)
next
  case fresh
  let ?es = "removeExpired now (delete_many (\<lambda>e. fst e = key) (fb_entries fb))"
  have sub: "set ?es \<subseteq> set (fb_entries fb)"
    by (auto simp: removeExpired_def set_delete_many)
  with wf have "[] \<notin> fst ` set ?es" by (auto simp: fb_wf_def)
  with wf have len: "length (pruned fb key now) < fb_maxKeys fb"
    by (simp add: pruned_def fb_wf_def evictOldest_length)
  have "distinct (map fst (pruned fb key now))"
    using wf by (simp add: pruned_def removeExpired_def fb_wf_def distinct_evictOldest distinct_delete_many)
  moreover have "key \<notin> fst ` set (pruned fb key now)" "[] \<notin> fst ` set (pruned fb key now)"
    using pruned_subset [of fb key now] wf by (auto simp: fb_wf_def)
  ultimately show ?thesis
    using len wf key by (simp add: increment_fresh [OF fresh] fb_wf_def)
qed

lemma fb_delete_wf: "fb_wf fb \<Longrightarrow> fb_wf (fb_delete fb key)"
  by (auto simp: fb_wf_def fb_delete_def distinct_delete_many set_delete_many)
     (simp add: delete_many_def le_trans [OF length_filter_le])

section \<open>The counter interface\<close>

text \<open>
  What the limiter relies on in a counter: while its window is live every hit returns the level
  plus one and raises the level by one. The fallback and the Redis script both provide it.
\<close>

fun hits :: "('s \<Rightarrow> 't \<Rightarrow> int \<times> 's) \<Rightarrow> 's \<Rightarrow> 't list \<Rightarrow> int list \<times> 's" where
  "hits hit s [] = ([], s)"
| "hits hit s (t # ts) =
     (let (c, s') = hit s t; (cs, s'') = hits hit s' ts in (c # cs, s''))"

locale window_counter =
  fixes hit :: "'s \<Rightarrow> 't \<Rightarrow> int \<times> 's" and level :: "'s \<Rightarrow> int" and live :: "'s \<Rightarrow> 't \<Rightarrow> bool"
  assumes hit_count: "live s t \<Longrightarrow> fst (hit s t) = level s + 1"
    and hit_level: "live s t \<Longrightarrow> level (snd (hit s t)) = level s + 1"
    and hit_live: "live s t \<Longrightarrow> live s t' \<Longrightarrow> live (snd (hit s t)) t'"
begin

lemma hits_count_up:
  "\<forall>t\<in>set ts. live s t \<Longrightarrow> fst (hits hit s ts) = map (\<lambda>i. level s + 1 + int i) [0..<length ts]"
proof (induction ts arbitrary: s)
  case Nil
  then show ?case by simp
next
  case (Cons t ts)
  obtain c s' where h: "hit s t = (c, s')" by (cases "hit s t")
  have "live s t" using Cons.prems by simp
  then have c: "c = level s + 1" and l: "level s' = level s + 1"
    using hit_count [of s t] hit_level [of s t] by (simp_all add: h)
  have "\<forall>t'\<in>set ts. live s' t'"
    using Cons.prems hit_live [OF \<open>live s t\<close>] by (simp add: h)
  from Cons.IH [OF this] have "fst (hits hit s' ts) = map (\<lambda>i. level s + 2 + int i) [0..<length ts]"
    by (simp add: l)
  moreover have "map (\<lambda>i. level s + 1 + int i) [0..<Suc (length ts)]
      = (level s + 1) # map (\<lambda>i. level s + 2 + int i) [0..<length ts]"
    by (subst upt_conv_Cons) (simp_all add: map_Suc_upt [symmetric] comp_def del: upt_Suc)
  ultimately show ?case
    by (simp add: h c Let_def split_beta del: upt_Suc)
qed

text \<open>The admission decision compares the count with the limit: the first hits pass, the rest do not.\<close>

lemma admitted_prefix:
  assumes "\<forall>t\<in>set ts. live s t" "i < length ts"
  shows "fst (hits hit s ts) ! i \<le> limit \<longleftrightarrow> int i < limit - level s"
  using assms by (simp add: hits_count_up) linarith

end

definition fb_hit :: "string \<Rightarrow> int \<Rightarrow> BoundedRateLimitFallback \<Rightarrow> time \<Rightarrow> int \<times> BoundedRateLimitFallback" where
  "fb_hit key w fb now = (let ((c, _), fb') = increment fb key w now in (c, fb'))"

definition fb_level :: "string \<Rightarrow> BoundedRateLimitFallback \<Rightarrow> int" where
  "fb_level key fb = (case map_of (fb_entries fb) key of None \<Rightarrow> 0 | Some c \<Rightarrow> lc_count c)"

definition fb_live :: "string \<Rightarrow> BoundedRateLimitFallback \<Rightarrow> time \<Rightarrow> bool" where
  "fb_live key fb now =
     (case map_of (fb_entries fb) key of None \<Rightarrow> False | Some c \<Rightarrow> now < lc_resetAt c)"

lemma map_of_update_key:
  "map_of (update_many (\<lambda>e. fst e = key) (\<lambda>(k, c). (k, f c)) es) k' =
     (if k' = key then map_option f (map_of es key) else map_of es k')"
  by (induction es) (auto simp: update_many_def)

lemma fb_live_fresh:
  assumes "\<And>c. map_of (fb_entries fb) key = Some c \<Longrightarrow> lc_resetAt c \<le> now"
  shows "fb_level key (snd (increment fb key w now)) = 1"
    and "fb_live key (snd (increment fb key w now)) t \<longleftrightarrow> t < now + w * 1000"
proof -
  have "map_of (pruned fb key now) key = None"
    using pruned_subset [of fb key now] by (force simp: map_of_eq_None_iff)
  then show "fb_level key (snd (increment fb key w now)) = 1"
    and "fb_live key (snd (increment fb key w now)) t \<longleftrightarrow> t < now + w * 1000"
    by (simp_all add: increment_fresh [OF assms] fb_level_def fb_live_def map_add_def)
qed

interpretation fb: window_counter "fb_hit key w" "fb_level key" "fb_live key" for key w
proof
  fix s t t'
  assume "fb_live key s t"
  then obtain c where c: "map_of (fb_entries s) key = Some c" "t < lc_resetAt c"
    by (auto simp: fb_live_def split: option.splits)
  show "fst (fb_hit key w s t) = fb_level key s + 1"
    and "fb_level key (snd (fb_hit key w s t)) = fb_level key s + 1"
    by (simp_all add: fb_hit_def increment_live [OF c] fb_level_def c map_of_update_key)
  assume "fb_live key s t'"
  then show "fb_live key (snd (fb_hit key w s t)) t'"
    by (simp add: fb_hit_def increment_live [OF c] fb_live_def c map_of_update_key)
qed

section \<open>Redis outage bookkeeping\<close>

datatype failureMode = local_mode | deny_mode

text \<open>
  The module's mutable state. Reported metrics, warnings and captured exceptions are the lists
  \<open>rs_rejections\<close> (scopes), \<open>rs_capacityAlerts\<close> and \<open>rs_captured\<close>.
\<close>

record rate_state =
  rs_fallback :: BoundedRateLimitFallback
  rs_failureCount :: nat
  rs_outageStartedAt :: "time option"
  rs_lastAlertAt :: "time option"
  rs_rejections :: "string list"
  rs_capacityAlerts :: "string list"
  rs_captured :: "string list"

definition REDIS_ALERT_INTERVAL_MS :: int where
  "REDIS_ALERT_INTERVAL_MS = 60000"

definition recordRejection :: "string \<Rightarrow> rate_state \<Rightarrow> rate_state" where
  "recordRejection scope st = st\<lparr>rs_rejections := rs_rejections st @ [scope]\<rparr>"

definition recordRedisFailure :: "string \<Rightarrow> time \<Rightarrow> rate_state \<Rightarrow> rate_state" where
  "recordRedisFailure scope now st =
     (let st1 = st\<lparr>rs_failureCount := rs_failureCount st + 1,
                  rs_outageStartedAt := Some (orElse (rs_outageStartedAt st) now)\<rparr>
      in if (case rs_lastAlertAt st1 of None \<Rightarrow> True
             | Some l \<Rightarrow> REDIS_ALERT_INTERVAL_MS \<le> now - l)
         then st1\<lparr>rs_lastAlertAt := Some now, rs_captured := rs_captured st1 @ [scope]\<rparr>
         else st1)"

definition recordRedisRecovery :: "rate_state \<Rightarrow> rate_state" where
  "recordRedisRecovery st =
     (if rs_failureCount st = 0 then st
      else st\<lparr>rs_failureCount := 0, rs_outageStartedAt := None, rs_lastAlertAt := None\<rparr>)"

section \<open>enforceRateLimit\<close>

text \<open>
  \<open>alertAt\<close> is the capacity threshold \<open>Math.max(1, Math.ceil(limit * alertAtRatio))\<close>, \<open>None\<close> when no
  ratio is configured.
\<close>

record RateLimitOptions =
  opt_redisFailureMode :: "failureMode option"
  opt_alertAt :: "int option"

record RateLimitResult =
  rl_count :: int
  rl_limit :: int
  rl_retryAfterSeconds :: int

definition rateKey :: "(string \<Rightarrow> string) \<Rightarrow> string \<Rightarrow> string \<Rightarrow> string" where
  "rateKey hashMetadata scope val = ''rate:'' @ scope @ '':'' @ hashMetadata val"

text \<open>
  \<open>reply\<close> is what \<open>appRedis.eval\<close> gives: \<open>None\<close> when it throws, else the pair of counter and
  time to live. \<open>now\<close> and \<open>now'\<close> are the two clock readings of the outage path.
\<close>

definition enforceRateLimit ::
    "(string \<Rightarrow> string) \<Rightarrow> string \<Rightarrow> string \<Rightarrow> int \<Rightarrow> int \<Rightarrow> RateLimitOptions
     \<Rightarrow> (int \<times> int) option \<Rightarrow> time \<Rightarrow> time \<Rightarrow> rate_state
     \<Rightarrow> (thrown + RateLimitResult) \<times> rate_state" where
  "enforceRateLimit hashMetadata scope val limit windowSeconds options reply now now' st =
     (let key = rateKey hashMetadata scope val in
      case reply of
        None \<Rightarrow>
          (let failureMode = orElse (opt_redisFailureMode options) local_mode;
               st1 = recordRedisFailure scope now st
           in if failureMode = deny_mode then
                (Inl (App (serviceUnavailable
                   (Some ''Request protection is temporarily unavailable; try again''))), st1)
              else
                let ((c, retry), fb') = increment (rs_fallback st1) key windowSeconds now';
                    st2 = st1\<lparr>rs_fallback := fb'\<rparr>
                in if c > limit
                   then (Inl (App (rateLimited None (Some retry))), recordRejection scope st2)
                   else (Inr \<lparr>rl_count = c, rl_limit = limit, rl_retryAfterSeconds = retry\<rparr>, st2))
      | Some (count, ttl) \<Rightarrow>
          (let st1 = recordRedisRecovery st;
               st2 = st1\<lparr>rs_fallback := fb_delete (rs_fallback st1) key\<rparr>;
               retry = (if ttl > 0 then ttl else windowSeconds);
               st3 = (if opt_alertAt options = Some count
                      then st2\<lparr>rs_capacityAlerts := rs_capacityAlerts st2 @ [scope]\<rparr> else st2)
           in if count > limit
              then (Inl (App (rateLimited None (Some retry))), recordRejection scope st3)
              else (Inr \<lparr>rl_count = count, rl_limit = limit, rl_retryAfterSeconds = retry\<rparr>, st3)))"

section \<open>The Redis script\<close>

record 'rd redis_cmds =
  INCR :: "'rd \<Rightarrow> string \<Rightarrow> int \<times> 'rd"
  EXPIRE :: "'rd \<Rightarrow> string \<Rightarrow> int \<Rightarrow> 'rd"
  TTL :: "'rd \<Rightarrow> string \<Rightarrow> int"

definition incrementScript :: "'rd redis_cmds \<Rightarrow> string \<Rightarrow> int \<Rightarrow> 'rd \<Rightarrow> (int \<times> int) \<times> 'rd" where
  "incrementScript cmds key windowSeconds r =
     (let (count, r1) = INCR cmds r key;
          r2 = (if count = 1 then EXPIRE cmds r1 key windowSeconds else r1)
      in ((count, TTL cmds r2 key), r2))"

text \<open>
  The documented behaviour of the commands that the limiter relies on, for a stretch of time in
  which the key does not expire: \<open>INCR\<close> adds one to the key's value (an absent key counts as zero)
  and \<open>EXPIRE\<close> sets a deadline without touching values.
\<close>

definition redis_laws :: "'rd redis_cmds \<Rightarrow> ('rd \<Rightarrow> string \<Rightarrow> int) \<Rightarrow> bool" where
  "redis_laws cmds val \<longleftrightarrow>
     (\<forall>r k. fst (INCR cmds r k) = val r k + 1 \<and>
            val (snd (INCR cmds r k)) = (val r)(k := val r k + 1)) \<and>
     (\<forall>r k w. val (EXPIRE cmds r k w) = val r)"

definition script_hit :: "'rd redis_cmds \<Rightarrow> string \<Rightarrow> int \<Rightarrow> 'rd \<Rightarrow> unit \<Rightarrow> int \<times> 'rd" where
  "script_hit cmds key w r u = (let ((c, _), r') = incrementScript cmds key w r in (c, r'))"

lemma script_window_counter:
  "redis_laws cmds val \<Longrightarrow>
   window_counter (script_hit cmds key w) (\<lambda>r. val r key) (\<lambda>_ _. True)"
  by unfold_locales
     (auto simp: redis_laws_def script_hit_def incrementScript_def Let_def split_beta)

section \<open>Runs of the limiter\<close>

text \<open>Repeated calls for one key, during an outage and against a working Redis.\<close>

fun enforceOutage ::
    "(string \<Rightarrow> string) \<Rightarrow> string \<Rightarrow> string \<Rightarrow> int \<Rightarrow> int \<Rightarrow> RateLimitOptions \<Rightarrow> (time \<times> time) list
     \<Rightarrow> rate_state \<Rightarrow> (thrown + RateLimitResult) list" where
  "enforceOutage h scope v limit w opts [] st = []"
| "enforceOutage h scope v limit w opts ((t, t') # ts) st =
     (let (r, st') = enforceRateLimit h scope v limit w opts None t t' st
      in r # enforceOutage h scope v limit w opts ts st')"

fun enforceRedis ::
    "'rd redis_cmds \<Rightarrow> (string \<Rightarrow> string) \<Rightarrow> string \<Rightarrow> string \<Rightarrow> int \<Rightarrow> int \<Rightarrow> RateLimitOptions \<Rightarrow> nat
     \<Rightarrow> 'rd \<Rightarrow> rate_state \<Rightarrow> (thrown + RateLimitResult) list" where
  "enforceRedis cmds h scope v limit w opts 0 rd st = []"
| "enforceRedis cmds h scope v limit w opts (Suc n) rd st =
     (let (reply, rd') = incrementScript cmds (rateKey h scope v) w rd;
          (r, st') = enforceRateLimit h scope v limit w opts (Some reply) 0 0 st
      in r # enforceRedis cmds h scope v limit w opts n rd' st')"

definition admitted :: "(thrown + RateLimitResult) \<Rightarrow> bool" where
  "admitted r = (case r of Inl _ \<Rightarrow> False | Inr _ \<Rightarrow> True)"

lemma rateKey_nonempty [simp]: "rateKey h scope v \<noteq> []"
  by (simp add: rateKey_def)

lemma recordRedisFailure_fallback [simp]:
  "rs_fallback (recordRedisFailure scope now st) = rs_fallback st"
  by (simp add: recordRedisFailure_def Let_def)

lemma recordRedisRecovery_fallback [simp]: "rs_fallback (recordRedisRecovery st) = rs_fallback st"
  by (simp add: recordRedisRecovery_def)

lemma recordRejection_fallback [simp]: "rs_fallback (recordRejection scope st) = rs_fallback st"
  by (simp add: recordRejection_def)

lemma enforce_fallback:
  "rs_fallback (snd (enforceRateLimit h scope v limit w opts reply t t' st)) =
     (case reply of
        None \<Rightarrow> (if opt_redisFailureMode opts = Some deny_mode then rs_fallback st
                 else snd (fb_hit (rateKey h scope v) w (rs_fallback st) t'))
      | Some _ \<Rightarrow> fb_delete (rs_fallback st) (rateKey h scope v))"
  by (cases "opt_redisFailureMode opts")
     (auto simp: enforceRateLimit_def Let_def fb_hit_def split_beta split: option.split)

lemma enforce_fallback_wf:
  assumes "fb_wf (rs_fallback st)"
  shows "fb_wf (rs_fallback (snd (enforceRateLimit h scope v limit w opts reply t t' st)))"
  using assms increment_wf [of "rs_fallback st" "rateKey h scope v" w t']
  by (auto simp: enforce_fallback fb_delete_wf fb_hit_def Let_def split_beta split: option.split)

lemma increment_maxKeys: "fb_maxKeys (snd (increment fb key w now)) = fb_maxKeys fb"
  by (simp add: increment_def Let_def split: option.split)

lemma enforce_maxKeys:
  "fb_maxKeys (rs_fallback (snd (enforceRateLimit h scope v limit w opts reply t t' st)))
   = fb_maxKeys (rs_fallback st)"
  by (simp add: enforce_fallback fb_delete_def fb_hit_def split_beta Let_def increment_maxKeys
        split: option.split)

lemma enforce_outage_admits:
  assumes "opt_redisFailureMode opts \<noteq> Some deny_mode"
  shows "admitted (fst (enforceRateLimit h scope v limit w opts None t t' st)) \<longleftrightarrow>
         fst (fb_hit (rateKey h scope v) w (rs_fallback st) t') \<le> limit"
  using assms
  by (cases "opt_redisFailureMode opts"; cases "the (opt_redisFailureMode opts)")
     (auto simp: enforceRateLimit_def Let_def fb_hit_def split_beta admitted_def)

lemma enforceOutage_hits:
  assumes "opt_redisFailureMode opts \<noteq> Some deny_mode"
  shows "map admitted (enforceOutage h scope v limit w opts ts st) =
     map (\<lambda>c. c \<le> limit) (fst (hits (fb_hit (rateKey h scope v) w) (rs_fallback st) (map snd ts)))"
proof (induction ts arbitrary: st)
  case Nil
  then show ?case by simp
next
  case (Cons p ts)
  obtain t t' where p: "p = (t, t')" by (cases p)
  let ?r = "enforceRateLimit h scope v limit w opts None t t' st"
  have "rs_fallback (snd ?r) = snd (fb_hit (rateKey h scope v) w (rs_fallback st) t')"
    using assms by (simp add: enforce_fallback)
  with Cons.IH [of "snd ?r"] show ?case
    by (simp add: p Let_def split_beta enforce_outage_admits [OF assms])
qed

lemma enforceRedis_hits:
  "map admitted (enforceRedis cmds h scope v limit w opts n rd st) =
     map (\<lambda>c. c \<le> limit) (fst (hits (script_hit cmds (rateKey h scope v) w) rd (replicate n ())))"
proof (induction n arbitrary: rd st)
  case 0
  then show ?case by simp
next
  case (Suc n)
  then show ?case
    by (auto simp: Let_def split_beta script_hit_def enforceRateLimit_def admitted_def)
qed

text \<open>Every refusal of the limiter is one of its two errors.\<close>

lemma enforce_refusal:
  assumes "fst (enforceRateLimit h scope v limit w opts reply t t' st) = Inl e"
  shows "e = App (serviceUnavailable
              (Some ''Request protection is temporarily unavailable; try again'')) \<or>
         (\<exists>n. e = App (rateLimited None (Some n)))"
  using assms
  by (auto simp: enforceRateLimit_def Let_def split_beta split: option.splits if_splits)

section \<open>Properties\<close>

lemma le_count_eq: "(1 + int i \<le> limit) = (int i < limit)" for limit :: int
  by linarith

lemma redis_window:
  assumes "redis_laws cmds val" and "val rd (rateKey h scope v) = 0"
  shows "map admitted (enforceRedis cmds h scope v limit w opts n rd st) = map (\<lambda>i. int i < limit) [0..<n]"
  using assms(2)
  by (simp add: enforceRedis_hits comp_def le_count_eq
        window_counter.hits_count_up [OF script_window_counter [OF assms(1)]])

text \<open>
  during a Redis outage, with the local failure mode and no live window for the key, a run of
  calls whose clock stays inside the window opened by the first one is admitted exactly as long as
  the limit allows: the first \<open>limit\<close> calls pass and every later one is refused.
\<close>

theorem enforceOutage_window:
  assumes mode: "opt_redisFailureMode opts \<noteq> Some deny_mode"
    and fresh: "\<And>c. map_of (fb_entries (rs_fallback st)) (rateKey h scope v) = Some c
                  \<Longrightarrow> lc_resetAt c \<le> t0'"
    and window: "\<forall>p\<in>set ts. snd p < t0' + w * 1000"
  shows "map admitted (enforceOutage h scope v limit w opts ((t0, t0') # ts) st) =
         map (\<lambda>i. int i < limit) [0..<Suc (length ts)]"
proof -
  let ?k = "rateKey h scope v"
  let ?fb = "rs_fallback st"
  let ?s1 = "snd (increment ?fb ?k w t0')"
  have first: "fb_hit ?k w ?fb t0' = (1, ?s1)"
    by (simp add: fb_hit_def increment_fresh [OF fresh] Let_def)
  have "\<forall>t\<in>set (map snd ts). fb_live ?k ?s1 t"
    using window by (auto simp: fb_live_fresh [OF fresh])
  from fb.hits_count_up [OF this]
  have rest: "fst (hits (fb_hit ?k w) ?s1 (map snd ts)) = map (\<lambda>i. 2 + int i) [0..<length ts]"
    by (simp add: fb_live_fresh [OF fresh])
  have "map admitted (enforceOutage h scope v limit w opts ((t0, t0') # ts) st) =
        map (\<lambda>c. c \<le> limit) (1 # map (\<lambda>i. 2 + int i) [0..<length ts])"
    using enforceOutage_hits [OF mode, of h scope v limit w "(t0, t0') # ts" st]
    by (simp add: first rest Let_def split_beta del: enforceOutage.simps)
  also have "1 # map (\<lambda>i. 2 + int i) [0..<length ts] = map (\<lambda>i. 1 + int i) [0..<Suc (length ts)]"
    by (subst upt_conv_Cons) (simp_all add: map_Suc_upt [symmetric] comp_def del: upt_Suc)
  finally show ?thesis by (simp add: comp_def le_count_eq del: enforceOutage.simps upt_Suc)
qed

definition rate_state0 :: "nat \<Rightarrow> rate_state" where
  "rate_state0 n = \<lparr>rs_fallback = \<lparr>fb_maxKeys = n, fb_entries = []\<rparr>, rs_failureCount = 0,
     rs_outageStartedAt = None, rs_lastAlertAt = None, rs_rejections = [],
     rs_capacityAlerts = [], rs_captured = []\<rparr>"

theorem enforceOutage_window_witness:
  "map admitted (enforceOutage id ''login'' ''a'' 2 60
      \<lparr>opt_redisFailureMode = None, opt_alertAt = None\<rparr> [(5, 5), (7, 7), (9, 9)] (rate_state0 4)) =
   [True, True, False]"
  using enforceOutage_window
    [of "\<lparr>opt_redisFailureMode = None, opt_alertAt = None\<rparr>" "rate_state0 4" id "''login''" "''a''" 5
        "[(7, 7), (9, 9)]" 60 2 5]
  by (simp add: rate_state0_def numeral_eq_Suc del: enforceOutage.simps)

text \<open>
  Against a Redis whose commands obey their documented laws and whose key starts at zero, the
  limiter admits exactly the first \<open>limit\<close> of any number of calls made before the key expires.
\<close>

theorem enforceRedis_window:
  assumes "redis_laws cmds val" and "val rd (rateKey h scope v) = 0"
  shows "map admitted (enforceRedis cmds h scope v limit w opts n rd st) =
         map (\<lambda>i. int i < limit) [0..<n]"
  by (rule redis_window [OF assms])

definition mem_redis :: "(string \<Rightarrow> int) redis_cmds" where
  "mem_redis = \<lparr>INCR = (\<lambda>r k. (r k + 1, r(k := r k + 1))), EXPIRE = (\<lambda>r k w. r), TTL = (\<lambda>r k. 30)\<rparr>"

theorem enforceRedis_window_witness:
  "redis_laws mem_redis (\<lambda>r. r) \<and>
   map admitted (enforceRedis mem_redis id ''login'' ''a'' 2 60
      \<lparr>opt_redisFailureMode = None, opt_alertAt = None\<rparr> 3 (\<lambda>_. 0) (rate_state0 4)) =
   [True, True, False]"
proof -
  have laws: "redis_laws mem_redis (\<lambda>r. r)" by (simp add: redis_laws_def mem_redis_def)
  show ?thesis
    using laws enforceRedis_window [OF laws, of "\<lambda>_. 0" id "''login''" "''a''" 2 60
        "\<lparr>opt_redisFailureMode = None, opt_alertAt = None\<rparr>" 3 "rate_state0 4"]
    by (simp add: numeral_eq_Suc del: enforceRedis.simps)
qed

text \<open>
  No call of the limiter, whatever Redis answers, lets the in-process fallback grow beyond its
  configured number of keys: the well-formedness of the fallback (distinct non-empty keys, at most
  \<open>maxKeys\<close> of them) is an invariant.
\<close>

theorem enforceRateLimit_fallback_bounded:
  assumes "fb_wf (rs_fallback st)"
  shows "fb_wf (rs_fallback (snd (enforceRateLimit h scope v limit w opts reply t t' st))) \<and>
         fb_size (rs_fallback (snd (enforceRateLimit h scope v limit w opts reply t t' st)))
           \<le> fb_maxKeys (rs_fallback st)"
  using enforce_fallback_wf [OF assms, of h scope v limit w opts reply t t']
    enforce_maxKeys [of h scope v limit w opts reply t t' st]
  by (simp add: fb_size_def fb_wf_def)

theorem enforceRateLimit_fallback_bounded_witness:
  "fb_size (rs_fallback (snd (enforceRateLimit id ''login'' ''b'' 2 60
      \<lparr>opt_redisFailureMode = None, opt_alertAt = None\<rparr> None 8 8
      ((rate_state0 1)\<lparr>rs_fallback :=
         \<lparr>fb_maxKeys = 1, fb_entries = [(''rate:login:a'', \<lparr>lc_count = 1, lc_resetAt = 100\<rparr>)]\<rparr>\<rparr>))))
   \<le> 1"
proof -
  let ?st = "(rate_state0 1)\<lparr>rs_fallback :=
         \<lparr>fb_maxKeys = 1, fb_entries = [(''rate:login:a'', \<lparr>lc_count = 1, lc_resetAt = 100\<rparr>)]\<rparr>\<rparr>"
  have "fb_wf (rs_fallback ?st)" by (simp add: fb_wf_def)
  from enforceRateLimit_fallback_bounded [OF this, of id "''login''" "''b''" 2 60
      "\<lparr>opt_redisFailureMode = None, opt_alertAt = None\<rparr>" None 8 8]
  show ?thesis by simp
qed

end
