(* ===== verification/Tenant_Scope.thy ===== *)
theory Tenant_Scope
  imports Errors
begin

text \<open>
  The ambient request context of \<open>src/src/lib/request-context.ts\<close>, the mandatory tenant scope that
  \<open>src/src/lib/tenant-scope.ts\<close> injects into every query, and the soft-delete filter of
  \<open>src/src/lib/prisma.ts\<close>. The generated data model (names of the models and of their fields) and the
  query engine are arguments of the definitions.
\<close>

section \<open>Request context\<close>

datatype RequestContext =
    RequestCtx string "string option" "string option"  \<comment> \<open>request id, user, organization\<close>
  | UnscopedCtx string  \<comment> \<open>reason\<close>

text \<open>
  A computation that reads the asynchronous local storage is a function of the stored context;
  \<open>None\<close> is the absence of a store.
\<close>

type_synonym 'a ambient = "RequestContext option \<Rightarrow> 'a"

definition getRequestContext :: "RequestContext option ambient" where
  "getRequestContext ctx = ctx"

definition runWithRequestContext :: "RequestContext \<Rightarrow> 'a ambient \<Rightarrow> 'a ambient" where
  "runWithRequestContext context callback = (\<lambda>_. callback (Some context))"

definition withoutTenantScope :: "string \<Rightarrow> 'a ambient \<Rightarrow> 'a ambient" where
  "withoutTenantScope reason callback = (\<lambda>_. callback (Some (UnscopedCtx reason)))"

definition setRequestIdentity ::
    "string option \<Rightarrow> string option \<Rightarrow> RequestContext option \<Rightarrow> RequestContext option" where
  "setRequestIdentity userId organizationId ctx =
     (case ctx of
        Some (RequestCtx rid u org) \<Rightarrow>
          Some (RequestCtx rid (if userId = None then u else userId)
                              (if organizationId = None then org else organizationId))
      | _ \<Rightarrow> ctx)"

text \<open>The organization of a request context; the other contexts have none.\<close>

definition activeOrganization :: "RequestContext option \<Rightarrow> string option" where
  "activeOrganization ctx = (case ctx of Some (RequestCtx _ _ org) \<Rightarrow> org | _ \<Rightarrow> None)"

section \<open>Models and operations\<close>

text \<open>The data model: each model's name with the names of its fields.\<close>

type_synonym dmmf = "(string \<times> string list) list"

definition tenantScopeExemptModels :: "string list" where
  "tenantScopeExemptModels = [''Membership'', ''Invitation'', ''Role'']"

definition nullableGlobalOwnerModels :: "string list" where
  "nullableGlobalOwnerModels =
     [''NotificationPreference'', ''PaymentMethod'', ''StripePayment'',
      ''StripeRefundOperation'', ''StripeSubscription'']"

definition tenantScopedModels :: "dmmf \<Rightarrow> string list" where
  "tenantScopedModels models =
     map fst (filter (\<lambda>(name, fields). List.member fields ''organizationId'' \<and>
                        \<not> List.member tenantScopeExemptModels name) models)"

definition softDeleteModels :: "dmmf \<Rightarrow> string list" where
  "softDeleteModels models =
     map fst (filter (\<lambda>(name, fields). name \<noteq> ''Message'' \<and> List.member fields ''deletedAt'') models)"

definition filterOperations :: "string list" where
  "filterOperations =
     [''findUnique'', ''findUniqueOrThrow'', ''findFirst'', ''findFirstOrThrow'', ''findMany'',
      ''count'', ''aggregate'', ''groupBy'', ''update'', ''updateMany'', ''delete'', ''deleteMany'']"

definition createOperations :: "string list" where
  "createOperations = [''create'', ''createMany'', ''createManyAndReturn'']"

section \<open>Rewriting query arguments\<close>

fun asRecord :: "jsval \<Rightarrow> (string \<times> jsval) list option" where
  "asRecord (JObj ps) = Some ps"
| "asRecord _ = None"

fun assertAgrees :: "jsval \<Rightarrow> string \<Rightarrow> string \<Rightarrow> thrown + unit" where
  "assertAgrees Undefined org loc = Inr ()"
| "assertAgrees Null org loc = Inr ()"
| "assertAgrees (JStr s) org loc =
     (if s = org then Inr ()
      else Inl (OtherError (loc @ '' targets organization '' @ s @ '' while the request resolved '' @ org)))"
| "assertAgrees _ org loc =
     Inl (OtherError (loc @
       '' sets organizationId to a non-literal filter, which cannot be proven single-tenant''))"

definition scopeWhere ::
    "string \<Rightarrow> (string \<times> jsval) list \<Rightarrow> string \<Rightarrow> string \<Rightarrow> thrown + (string \<times> jsval) list" where
  "scopeWhere model args org loc =
     (let whr = orElse (asRecord (getProp ''where'' args)) [] in
      if getProp ''organizationId'' whr = Null \<and> List.member nullableGlobalOwnerModels model
      then Inr (setProp ''where'' (JObj whr) args)
      else case assertAgrees (getProp ''organizationId'' whr) org loc of
             Inl e \<Rightarrow> Inl e
           | Inr _ \<Rightarrow> Inr (setProp ''where'' (JObj (setProp ''organizationId'' (JStr org) whr)) args))"

definition scopeCreateRow :: "string \<Rightarrow> jsval \<Rightarrow> string \<Rightarrow> string \<Rightarrow> thrown + jsval" where
  "scopeCreateRow model row org loc =
     (case asRecord row of
        None \<Rightarrow> Inr row
      | Some rec \<Rightarrow>
          if getProp ''organization'' rec \<noteq> Undefined
          then Inl (OtherError (loc @
                 '' connects the organization relation; set the scalar organizationId instead''))
          else if getProp ''organizationId'' rec = Null \<and> List.member nullableGlobalOwnerModels model
          then Inr row
          else case assertAgrees (getProp ''organizationId'' rec) org loc of
                 Inl e \<Rightarrow> Inl e
               | Inr _ \<Rightarrow> Inr (JObj (setProp ''organizationId'' (JStr org) rec)))"

fun scopeCreateRows :: "string \<Rightarrow> jsval list \<Rightarrow> string \<Rightarrow> string \<Rightarrow> thrown + jsval list" where
  "scopeCreateRows model [] org loc = Inr []"
| "scopeCreateRows model (row # rows) org loc =
     (case scopeCreateRow model row org loc of
        Inl e \<Rightarrow> Inl e
      | Inr row' \<Rightarrow>
          (case scopeCreateRows model rows org loc of Inl e \<Rightarrow> Inl e | Inr rows' \<Rightarrow> Inr (row' # rows')))"

text \<open>
  The rows are the caller's objects, rewritten in place, so the result is the new value of the
  property the rows were read from.
\<close>

definition scopeCreateData :: "string \<Rightarrow> jsval \<Rightarrow> string \<Rightarrow> string \<Rightarrow> thrown + jsval" where
  "scopeCreateData model data org loc =
     (case data of
        JArr rows \<Rightarrow> (case scopeCreateRows model rows org loc of
                        Inl e \<Rightarrow> Inl e | Inr rows' \<Rightarrow> Inr (JArr rows'))
      | _ \<Rightarrow> scopeCreateRow model data org loc)"

text \<open>Rewriting a property that is absent leaves it absent.\<close>

definition putProp :: "string \<Rightarrow> jsval \<Rightarrow> (string \<times> jsval) list \<Rightarrow> (string \<times> jsval) list" where
  "putProp k v ps = (if v = Undefined then ps else setProp k v ps)"

definition applyTenantScope :: "string \<Rightarrow> string \<Rightarrow> jsval \<Rightarrow> string \<Rightarrow> thrown + jsval" where
  "applyTenantScope model operation args org =
     (let loc = model @ ''.'' @ operation; rec = orElse (asRecord args) [] in
      if operation = ''upsert'' then
        (case scopeWhere model rec org loc of
           Inl e \<Rightarrow> Inl e
         | Inr rec1 \<Rightarrow>
             (case scopeCreateData model (getProp ''create'' rec1) org loc of
                Inl e \<Rightarrow> Inl e
              | Inr c \<Rightarrow> Inr (JObj (putProp ''create'' c rec1))))
      else if List.member filterOperations operation then
        map_sum id JObj (scopeWhere model rec org loc)
      else if List.member createOperations operation then
        (case scopeCreateData model (getProp ''data'' rec) org loc of
           Inl e \<Rightarrow> Inl e
         | Inr d \<Rightarrow> Inr (JObj (putProp ''data'' d rec)))
      else Inl (OtherError (loc @
        '' is not a tenant-scopable operation; wrap it in withoutTenantScope() if it is trusted'')))"

section \<open>Deciding the scope\<close>

definition nullOwner :: "jsval \<Rightarrow> bool" where
  "nullOwner v = (case asRecord v of None \<Rightarrow> False | Some ps \<Rightarrow> getProp ''organizationId'' ps = Null)"

definition explicitlyGlobal :: "string \<Rightarrow> string \<Rightarrow> jsval \<Rightarrow> bool" where
  "explicitlyGlobal model operation args =
     (List.member nullableGlobalOwnerModels model \<and>
      (List.member filterOperations operation \<and> nullOwner (jprop ''where'' args) \<or>
       List.member createOperations operation \<and>
         (case jprop ''data'' args of JArr rows \<Rightarrow> list_all nullOwner rows | d \<Rightarrow> nullOwner d) \<or>
       operation = ''upsert'' \<and> nullOwner (jprop ''where'' args) \<and> nullOwner (jprop ''create'' args)))"

definition resolveScopeOrganization ::
    "dmmf \<Rightarrow> string option \<Rightarrow> string \<Rightarrow> jsval \<Rightarrow> (thrown + string option) ambient" where
  "resolveScopeOrganization models model operation args ctx =
     (if \<not> truthy model \<or> \<not> List.member (tenantScopedModels models) (the model) then Inr None
      else case getRequestContext ctx of
        Some (UnscopedCtx _) \<Rightarrow> Inr None
      | None \<Rightarrow> Inl (OtherError (the model @ ''.'' @ operation @
          '' ran outside a request context; wrap trusted background work in withoutTenantScope()''))
      | Some (RequestCtx _ _ org) \<Rightarrow>
          if \<not> truthy org then
            (if explicitlyGlobal (the model) operation args then Inr None
             else Inl (OtherError (the model @ ''.'' @ operation @
                    '' ran before an organization was resolved for the request'')))
          else Inr org)"

text \<open>The client extension: \<open>query\<close> is the rest of the client, reached with the final arguments.\<close>

definition tenantScopeExtension ::
    "dmmf \<Rightarrow> string option \<Rightarrow> string \<Rightarrow> jsval \<Rightarrow> (jsval \<Rightarrow> thrown + 'r) \<Rightarrow> (thrown + 'r) ambient" where
  "tenantScopeExtension models model operation args query ctx =
     (case resolveScopeOrganization models model operation args ctx of
        Inl e \<Rightarrow> Inl e
      | Inr None \<Rightarrow> query args
      | Inr (Some org) \<Rightarrow>
          (case applyTenantScope (the model) operation args org of
             Inl e \<Rightarrow> Inl e
           | Inr args' \<Rightarrow> query args'))"

section \<open>The soft-delete filter\<close>

text \<open>By its type \<open>where\<close> is an object or missing.\<close>

definition activeWhere :: "jsval \<Rightarrow> jsval" where
  "activeWhere args =
     (case args of
        JObj ps \<Rightarrow>
          (let whr = (case getProp ''where'' ps of JObj w \<Rightarrow> w | _ \<Rightarrow> []) in
           JObj (setProp ''where''
             (JObj (if map_of whr ''deletedAt'' = None then setProp ''deletedAt'' Null whr else whr)) ps))
      | _ \<Rightarrow> args)"

definition softDeleteExtension ::
    "dmmf \<Rightarrow> string option \<Rightarrow> string \<Rightarrow> jsval \<Rightarrow> (jsval \<Rightarrow> thrown + 'r) \<Rightarrow> thrown + 'r" where
  "softDeleteExtension models model operation args query =
     (if truthy model \<and> List.member (softDeleteModels models) (the model) \<and>
         List.member filterOperations operation
      then query (activeWhere args) else query args)"

section \<open>The composed client\<close>

datatype tenancyMode = tenancy_disabled | tenancy_single | tenancy_multi

text \<open>
  Extensions wrap each other, the last one installed outermost; the pool-metrics extension between
  the two passes its arguments through unchanged.
\<close>

definition createPrismaClient ::
    "tenancyMode \<Rightarrow> dmmf \<Rightarrow> string option \<Rightarrow> string \<Rightarrow> jsval \<Rightarrow> (jsval \<Rightarrow> thrown + 'r)
     \<Rightarrow> (thrown + 'r) ambient" where
  "createPrismaClient mode models model operation args engine ctx =
     (let client = (\<lambda>a. softDeleteExtension models model operation a engine) in
      if mode = tenancy_disabled then client args
      else tenantScopeExtension models model operation args client ctx)"

section \<open>Lemmas\<close>

lemma getProp_putProp [js_simps]: "getProp k (putProp k v ps) = (if v = Undefined then getProp k ps else v)"
  by (simp add: putProp_def getProp_setProp)

lemma getProp_other [js_simps]: "k' \<noteq> k \<Longrightarrow> getProp k' (putProp k v ps) = getProp k' ps"
  by (simp add: putProp_def getProp_setProp)

lemma getProp_orElse_asRecord: "getProp k (orElse (asRecord v) []) = jprop k v"
  by (cases v) (simp_all add: getProp_def)

lemma scopeWhere_cases:
  assumes "scopeWhere model args org loc = Inr args'"
  obtains (global) "List.member nullableGlobalOwnerModels model" "nullOwner (getProp ''where'' args)"
      "jprop ''organizationId'' (getProp ''where'' args') = Null"
  | (scoped) "jprop ''organizationId'' (getProp ''where'' args') = JStr org"
proof -
  let ?w = "orElse (asRecord (getProp ''where'' args)) []"
  show thesis
  proof (cases "getProp ''organizationId'' ?w = Null \<and> List.member nullableGlobalOwnerModels model")
    case True
    then have "nullOwner (getProp ''where'' args)"
      by (cases "getProp ''where'' args") (auto simp: nullOwner_def getProp_def)
    with True assms show thesis
      by (intro global) (auto simp: scopeWhere_def Let_def js_simps)
  next
    case False
    with assms show thesis
      by (intro scoped) (auto simp: scopeWhere_def Let_def js_simps simp del: List.member_iff split: sum.splits)
  qed
qed

lemma scopeWhere_create: "scopeWhere model args org loc = Inr args' \<Longrightarrow> k \<noteq> ''where'' \<Longrightarrow>
   getProp k args' = getProp k args"
  by (auto simp: scopeWhere_def Let_def js_simps split: if_splits sum.splits)

text \<open>A row of a create call is stamped, or it is an explicitly global row, or no object at all.\<close>

definition stamped :: "string \<Rightarrow> string \<Rightarrow> jsval \<Rightarrow> bool" where
  "stamped model org row \<longleftrightarrow>
     jprop ''organizationId'' row = JStr org \<or>
     (List.member nullableGlobalOwnerModels model \<and> jprop ''organizationId'' row = Null) \<or>
     asRecord row = None"

lemma scopeCreateRow_stamped: "scopeCreateRow model row org loc = Inr row' \<Longrightarrow> stamped model org row'"
  by (cases row) (auto simp: scopeCreateRow_def stamped_def js_simps split: if_splits sum.splits)

lemma scopeCreateRows_stamped:
  "scopeCreateRows model rows org loc = Inr rows' \<Longrightarrow> list_all (stamped model org) rows'"
proof (induction rows arbitrary: rows')
  case Nil
  then show ?case by simp
next
  case (Cons row rows)
  then show ?case by (auto split: sum.splits dest: scopeCreateRow_stamped)
qed

fun createdRows :: "jsval \<Rightarrow> jsval list" where
  "createdRows (JArr rows) = rows"
| "createdRows d = [d]"

lemma scopeCreateRow_arr: "scopeCreateRow model row org loc = Inr (JArr xs) \<Longrightarrow> row = JArr xs"
  by (cases row) (auto simp: scopeCreateRow_def split: if_splits sum.splits)

lemma createdRows_single: "(\<And>xs. d \<noteq> JArr xs) \<Longrightarrow> createdRows d = [d]"
  by (cases d) auto

lemma scopeCreateData_stamped:
  assumes "scopeCreateData model data org loc = Inr d"
  shows "list_all (stamped model org) (createdRows d)"
proof (cases "\<exists>rows. data = JArr rows")
  case True
  with assms show ?thesis
    using scopeCreateRows_stamped by (fastforce simp: scopeCreateData_def split: sum.splits)
next
  case False
  then have r: "scopeCreateRow model data org loc = Inr d"
    using assms by (cases data) (auto simp: scopeCreateData_def)
  have "\<And>xs. d \<noteq> JArr xs" using False r scopeCreateRow_arr by blast
  then show ?thesis using scopeCreateRow_stamped [OF r] by (simp add: createdRows_single)
qed

lemma scopeCreateRow_undefined: "scopeCreateRow model row org loc = Inr Undefined \<Longrightarrow> row = Undefined"
  by (cases row) (auto simp: scopeCreateRow_def split: if_splits sum.splits)

lemma scopeCreateData_undefined: "scopeCreateData model data org loc = Inr Undefined \<Longrightarrow> data = Undefined"
  by (cases data) (auto simp: scopeCreateData_def split: sum.splits dest: scopeCreateRow_undefined)

text \<open>How a call of a tenant-scoped model can reach the query engine.\<close>

lemma extension_reaches:
  assumes "tenantScopeExtension models (Some model) operation args Inr ctx = Inr args'"
    and "List.member (tenantScopedModels models) model" and "model \<noteq> []"
  obtains (unscoped) reason where "ctx = Some (UnscopedCtx reason)" "args' = args"
  | (global) rid u org where "ctx = Some (RequestCtx rid u org)" "\<not> truthy org"
      "explicitlyGlobal model operation args" "args' = args"
  | (scoped) rid u org where "ctx = Some (RequestCtx rid u (Some org))" "org \<noteq> []"
      "applyTenantScope model operation args org = Inr args'"
proof (cases ctx)
  case None
  with assms show thesis
    by (simp add: tenantScopeExtension_def resolveScopeOrganization_def getRequestContext_def)
next
  case (Some c)
  show thesis
  proof (cases c)
    case (UnscopedCtx r)
    with Some assms show thesis
      by (intro unscoped) (auto simp: tenantScopeExtension_def resolveScopeOrganization_def
            getRequestContext_def)
  next
    case (RequestCtx rid u org)
    show thesis
    proof (cases "truthy org")
      case True
      then obtain g where "org = Some g" "g \<noteq> []" by (cases org) auto
      with Some RequestCtx assms show thesis
        by (intro scoped [of rid u g])
           (auto simp: tenantScopeExtension_def resolveScopeOrganization_def getRequestContext_def
             split: sum.splits)
    next
      case False
      with Some RequestCtx assms show thesis
        by (intro global [of rid u org])
           (auto simp: tenantScopeExtension_def resolveScopeOrganization_def getRequestContext_def
             simp del: List.member_iff split: if_splits)
    qed
  qed
qed

lemma extension_request:
  assumes "tenantScopeExtension models (Some model) operation args Inr
             (Some (RequestCtx rid u (Some org))) = Inr args'"
    and "List.member (tenantScopedModels models) model" "model \<noteq> []" "org \<noteq> []"
  shows "applyTenantScope model operation args org = Inr args'"
  using assms
  by (simp add: tenantScopeExtension_def resolveScopeOrganization_def getRequestContext_def
      del: List.member_iff split: sum.splits)

text \<open>What the query engine documents about a filter object: its top-level scalar conditions are conjuncts.\<close>

definition where_law :: "(jsval \<Rightarrow> 'row \<Rightarrow> bool) \<Rightarrow> ('row \<Rightarrow> string \<Rightarrow> jsval) \<Rightarrow> bool" where
  "where_law matches col \<longleftrightarrow>
     (\<forall>ps row k v. matches (JObj ps) row \<longrightarrow> map_of ps k = Some v \<longrightarrow> (v = Null \<or> (\<exists>s. v = JStr s)) \<longrightarrow>
        col row k = v)"

lemma where_lawD:
  assumes "where_law matches col" "matches w row" "jprop k w = v" "v = Null \<or> (\<exists>s. v = JStr s)"
  shows "col row k = v"
  using assms by (cases w) (auto simp: where_law_def getProp_def split: option.splits)

lemma where_law_str:
  "where_law matches col \<Longrightarrow> matches w row \<Longrightarrow> jprop k w = JStr s \<Longrightarrow> col row k = JStr s"
  using where_lawD [of matches col] by blast

lemma where_law_null:
  "where_law matches col \<Longrightarrow> matches w row \<Longrightarrow> jprop k w = Null \<Longrightarrow> col row k = Null"
  using where_lawD [of matches col] by blast

lemma applyTenantScope_where:
  assumes "applyTenantScope model operation args org = Inr args'"
    and "operation = ''upsert'' \<or> List.member filterOperations operation"
  obtains (global) "List.member nullableGlobalOwnerModels model" "nullOwner (jprop ''where'' args)"
      "jprop ''organizationId'' (jprop ''where'' args') = Null"
  | (scoped) "jprop ''organizationId'' (jprop ''where'' args') = JStr org"
proof -
  let ?rec = "orElse (asRecord args) []"
  let ?loc = "model @ ''.'' @ operation"
  have "\<exists>rec1. scopeWhere model ?rec org ?loc = Inr rec1 \<and> getProp ''where'' rec1 = jprop ''where'' args'"
  proof (cases "operation = ''upsert''")
    case True
    with assms(1) show ?thesis
      by (auto simp: applyTenantScope_def Let_def js_simps split: sum.splits)
  next
    case False
    with assms show ?thesis
      by (cases "scopeWhere model ?rec org ?loc")
         (auto simp: applyTenantScope_def Let_def simp del: List.member_iff)
  qed
  then obtain rec1 where w: "scopeWhere model ?rec org ?loc = Inr rec1"
    and w': "getProp ''where'' rec1 = jprop ''where'' args'" by blast
  show thesis
    using w by (cases rule: scopeWhere_cases)
      (use global scoped w' in \<open>auto simp: getProp_orElse_asRecord\<close>)
qed

lemma activeWhere_other: "k \<noteq> ''deletedAt'' \<Longrightarrow>
   jprop k (jprop ''where'' (activeWhere args)) = jprop k (jprop ''where'' args)"
  by (auto simp: activeWhere_def js_simps Let_def getProp_def [of _ "[]"] split: jsval.split)

lemma jprop_missing: "jprop ''deletedAt'' v = Undefined \<Longrightarrow>
   map_of (orElse (asRecord v) []) ''deletedAt'' \<in> {None, Some Undefined}"
  by (cases v) (auto simp: getProp_def split: option.splits)

lemma activeWhere_deletedAt:
  assumes "args = JObj ps"
  shows "jprop ''deletedAt'' (jprop ''where'' (activeWhere args)) =
     (case map_of (orElse (asRecord (jprop ''where'' args)) []) ''deletedAt'' of
        None \<Rightarrow> Null | Some v \<Rightarrow> v)"
proof -
  let ?w = "getProp ''where'' ps"
  have "(case ?w of JObj w \<Rightarrow> w | _ \<Rightarrow> []) = orElse (asRecord ?w) []" by (cases ?w) simp_all
  then show ?thesis using assms
    by (auto simp: activeWhere_def js_simps Let_def getProp_def [of "''deletedAt''"]
             split: option.split)
qed

lemma scopeWhere_deletedAt:
  assumes "scopeWhere model ps org loc = Inr qs"
    and "map_of (orElse (asRecord (getProp ''where'' ps)) []) ''deletedAt'' = None"
  shows "map_of (orElse (asRecord (getProp ''where'' qs)) []) ''deletedAt'' = None"
  using assms
  by (auto simp: scopeWhere_def Let_def js_simps simp del: List.member_iff split: sum.splits if_splits)

text \<open>A small data model, a table of rows and the filter semantics, for the concrete instances.\<close>

definition demo_models :: dmmf where
  "demo_models = [(''Upload'', [''id'', ''organizationId'', ''deletedAt'']), (''User'', [''id'', ''deletedAt'']),
     (''PaymentMethod'', [''id'', ''organizationId'', ''deletedAt''])]"

definition eq_matches :: "jsval \<Rightarrow> (string \<times> jsval) list \<Rightarrow> bool" where
  "eq_matches w row = list_all (\<lambda>(k, v). getProp k row = v) (orElse (asRecord w) [])"

lemma eq_matches_law: "where_law eq_matches (\<lambda>row k. getProp k row)"
  by (auto simp: where_law_def eq_matches_def list_all_iff dest!: map_of_SomeD)

section \<open>Properties\<close>

text \<open>
  C1: tenant isolation of reads, updates and deletes. When the client extension lets a filtering
  operation (or an upsert) on a tenant-scoped model through for a request acting in organization
  \<open>org\<close>, every row the rewritten filter can match belongs to \<open>org\<close>, whatever filter the caller wrote;
  the one exception is a model with explicit user-global rows, when the caller asked for the rows
  with no organization.
\<close>

theorem tenant_scope_isolates:
  assumes law: "where_law matches col"
    and scoped: "List.member (tenantScopedModels models) model" "model \<noteq> []"
    and op: "operation = ''upsert'' \<or> List.member filterOperations operation"
    and sent: "tenantScopeExtension models (Some model) operation args Inr
                 (Some (RequestCtx rid u (Some org))) = Inr args'"
    and org: "org \<noteq> []" and row: "matches (jprop ''where'' args') row"
  shows "col row ''organizationId'' = JStr org \<or>
         (List.member nullableGlobalOwnerModels model \<and> nullOwner (jprop ''where'' args) \<and>
          col row ''organizationId'' = Null)"
proof -
  from extension_request [OF sent scoped org] op show ?thesis
  proof (cases rule: applyTenantScope_where)
    case global
    with where_law_null [OF law, OF row global(3)] show ?thesis by (intro disjI2 conjI)
  next
    case scoped
    from where_law_str [OF law, OF row scoped] show ?thesis by (rule disjI1)
  qed
qed

theorem tenant_scope_isolates_witness:
  "getProp ''organizationId'' [(''organizationId'', JStr ''org1''), (''id'', JStr ''u1'')] = JStr ''org1''"
proof -
  let ?row = "[(''organizationId'', JStr ''org1''), (''id'', JStr ''u1'')]"
  let ?args = "JObj [(''where'', JObj [(''id'', JStr ''u1'')])]"
  let ?args' = "JObj [(''where'', JObj [(''id'', JStr ''u1''), (''organizationId'', JStr ''org1'')])]"
  have sent: "tenantScopeExtension demo_models (Some ''Upload'') ''findMany'' ?args Inr
      (Some (RequestCtx ''r'' None (Some ''org1''))) = Inr ?args'"
    by code_simp
  have "eq_matches (jprop ''where'' ?args') ?row" by code_simp
  moreover have "List.member (tenantScopedModels demo_models) ''Upload''"
    "List.member filterOperations ''findMany''" by code_simp+
  ultimately have "getProp ''organizationId'' ?row = JStr ''org1'' \<or>
      (List.member nullableGlobalOwnerModels ''Upload'' \<and> nullOwner (jprop ''where'' ?args) \<and>
       getProp ''organizationId'' ?row = Null)"
    using tenant_scope_isolates [OF eq_matches_law _ _ _ sent, of ?row] by simp
  then show ?thesis by (simp add: getProp_def)
qed

text \<open>
  tenant isolation of creates. Every row object that a create call on a tenant-scoped model
  sends to the database for a request acting in \<open>org\<close> is stamped with \<open>org\<close>, or the model has
  user-global rows and the row is explicitly global; this includes each row of \<open>createMany\<close> and the
  create branch of an upsert.
\<close>

theorem tenant_scope_stamps_creates:
  assumes scoped: "List.member (tenantScopedModels models) model" "model \<noteq> []" and org: "org \<noteq> []"
    and op: "operation = ''upsert'' \<and> k = ''create'' \<or> List.member createOperations operation \<and> k = ''data''"
    and sent: "tenantScopeExtension models (Some model) operation args Inr
                 (Some (RequestCtx rid u (Some org))) = Inr args'"
    and row: "row \<in> set (createdRows (jprop k args'))" "asRecord row \<noteq> None"
  shows "jprop ''organizationId'' row = JStr org \<or>
         (List.member nullableGlobalOwnerModels model \<and> jprop ''organizationId'' row = Null)"
proof -
  let ?loc = "model @ ''.'' @ operation"
  note ap = extension_request [OF sent scoped org]
  have "\<exists>rec d. scopeCreateData model (getProp k rec) org ?loc = Inr d \<and> args' = JObj (putProp k d rec)"
  proof (cases "operation = ''upsert''")
    case True
    with ap op show ?thesis
      by (auto simp: applyTenantScope_def Let_def createOperations_def split: sum.splits)
  next
    case False
    with op have "List.member createOperations operation" "k = ''data''"
      "\<not> List.member filterOperations operation"
      by (auto simp: createOperations_def filterOperations_def)
    with ap False show ?thesis
      by (auto simp: applyTenantScope_def Let_def simp del: List.member_iff split: sum.splits)
  qed
  then obtain rec d where d: "scopeCreateData model (getProp k rec) org ?loc = Inr d"
    and a: "args' = JObj (putProp k d rec)" by blast
  have "jprop k args' = d \<or> (d = Undefined \<and> jprop k args' = getProp k rec)"
    by (auto simp: a js_simps)
  moreover have "d = Undefined \<Longrightarrow> getProp k rec = Undefined"
    using d scopeCreateData_undefined by blast
  ultimately have "jprop k args' = d" by auto
  with row scopeCreateData_stamped [OF d] show ?thesis
    by (auto simp: list_all_iff stamped_def simp del: List.member_iff)
qed

theorem tenant_scope_stamps_creates_witness:
  "jprop ''organizationId'' (JObj [(''id'', JStr ''u1''), (''organizationId'', JStr ''org1'')]) = JStr ''org1''"
proof -
  let ?row = "JObj [(''id'', JStr ''u1''), (''organizationId'', JStr ''org1'')]"
  have sent: "tenantScopeExtension demo_models (Some ''Upload'') ''createMany''
      (JObj [(''data'', JArr [JObj [(''id'', JStr ''u1'')]])]) Inr
      (Some (RequestCtx ''r'' None (Some ''org1''))) = Inr (JObj [(''data'', JArr [?row])])"
    by code_simp
  have "List.member (tenantScopedModels demo_models) ''Upload''"
    "List.member createOperations ''createMany''" "\<not> List.member nullableGlobalOwnerModels ''Upload''"
    by code_simp+
  moreover have "?row \<in> set (createdRows (jprop ''data'' (JObj [(''data'', JArr [?row])])))"
    by (simp add: getProp_def)
  ultimately show ?thesis
    using tenant_scope_stamps_creates [OF _ _ _ _ sent, of "''data''" ?row] by simp
qed



text \<open>
  soft-deleted rows stay invisible. Through the composed client, in every tenancy mode and
  whatever the context, a filtering operation on a model with a soft-delete column whose caller did
  not mention that column is sent to the database with a filter that only live rows match.
\<close>

theorem soft_deleted_rows_invisible:
  assumes law: "where_law matches col"
    and soft: "List.member (softDeleteModels models) model" "model \<noteq> []"
    and op: "List.member filterOperations operation" "operation \<noteq> ''upsert''"
    and args: "args = JObj ps" "map_of (orElse (asRecord (jprop ''where'' args)) []) ''deletedAt'' = None"
    and sent: "createPrismaClient mode models (Some model) operation args Inr ctx = Inr args'"
    and row: "matches (jprop ''where'' args') row"
  shows "col row ''deletedAt'' = Null"
proof -
  let ?r = "resolveScopeOrganization models (Some model) operation args ctx"
  have sd: "\<And>a. softDeleteExtension models (Some model) operation a Inr = Inr (activeWhere a)"
    using soft op by (simp add: softDeleteExtension_def del: List.member_iff)
  obtain a qs where a: "args' = activeWhere a" "a = JObj qs"
    "map_of (orElse (asRecord (jprop ''where'' a)) []) ''deletedAt'' = None"
  proof (cases "mode = tenancy_disabled \<or> ?r = Inr None")
    case True
    with sent have "args' = activeWhere args"
      by (auto simp: createPrismaClient_def sd tenantScopeExtension_def split: if_splits)
    with args show ?thesis by (intro that)
  next
    case False
    with sent obtain org b where b: "applyTenantScope model operation args org = Inr b" "args' = activeWhere b"
      by (auto simp: createPrismaClient_def sd tenantScopeExtension_def
          simp del: List.member_iff split: sum.splits option.splits)
    from b(1) op args(1) obtain qs where "b = JObj qs"
      and w: "scopeWhere model ps org (model @ ''.'' @ operation) = Inr qs"
      by (cases "scopeWhere model ps org (model @ ''.'' @ operation)")
         (auto simp: applyTenantScope_def Let_def simp del: List.member_iff)
    with b(2) args scopeWhere_deletedAt [OF w] show ?thesis by (intro that [of b qs]) simp_all
  qed
  then have "jprop ''deletedAt'' (jprop ''where'' args') = Null"
    by (simp add: activeWhere_deletedAt)
  then show ?thesis by (rule where_law_null [OF law, OF row])
qed

theorem soft_deleted_rows_invisible_witness:
  "getProp ''deletedAt'' [(''id'', JStr ''u1''), (''deletedAt'', Null)] = Null"
proof -
  let ?args' = "JObj [(''where'', JObj [(''id'', JStr ''u1''), (''deletedAt'', Null)])]"
  have sent: "createPrismaClient tenancy_disabled demo_models (Some ''User'') ''findFirst''
      (JObj [(''where'', JObj [(''id'', JStr ''u1'')])]) Inr None = Inr ?args'"
    by code_simp
  have m: "List.member (softDeleteModels demo_models) ''User''" "List.member filterOperations ''findFirst''"
    "map_of (orElse (asRecord (jprop ''where'' (JObj [(''where'', JObj [(''id'', JStr ''u1'')])]))) [])
       ''deletedAt'' = None" by code_simp+
  have "eq_matches (jprop ''where'' ?args') [(''id'', JStr ''u1''), (''deletedAt'', Null)]" by code_simp
  then show ?thesis
    using soft_deleted_rows_invisible [OF eq_matches_law m(1) _ m(2) _ refl m(3) sent] by simp
qed

text \<open>
  Only the filter of an update is inspected: its data may name another organization, and the row then
  moves there.
\<close>

lemma update_may_move_row:
  "tenantScopeExtension demo_models (Some ''Upload'') ''update''
     (JObj [(''where'', JObj [(''id'', JStr ''u1'')]), (''data'', JObj [(''organizationId'', JStr ''org2'')])]) Inr
     (Some (RequestCtx ''r'' None (Some ''org1''))) =
   Inr (JObj [(''where'', JObj [(''id'', JStr ''u1''), (''organizationId'', JStr ''org1'')]),
              (''data'', JObj [(''organizationId'', JStr ''org2'')])])"
  by code_simp

end
