(* ===== verification/Crypto.thy ===== *)
theory Crypto
  imports Errors "HOL-Library.Word"
begin

text \<open>
  The keyring, the token and metadata hashes, the secret encryption and the string helpers of
  \<open>src/src/lib/crypto.ts\<close>, and the identifiers of \<open>src/src/lib/id.ts\<close>. Buffers are lists of characters
  read as bytes; the cryptographic primitives (HKDF, HMAC, SHA-256, AES-GCM, Argon2) are arguments,
  while base64url, decimal printing, splitting and joining are defined here.
\<close>

section \<open>Text encodings\<close>

definition base64url_alphabet :: string where
  "base64url_alphabet = ''ABCDEFGHIJKLMNOPQRSTUVWXYZabcdefghijklmnopqrstuvwxyz0123456789-_''"

definition sextet :: "nat \<Rightarrow> char" where
  "sextet n = base64url_alphabet ! n"

fun position :: "'a \<Rightarrow> 'a list \<Rightarrow> nat" where
  "position x [] = 0"
| "position x (y # ys) = (if x = y then 0 else Suc (position x ys))"

definition unsextet :: "char \<Rightarrow> nat" where
  "unsextet c = position c base64url_alphabet"

abbreviation byte :: "char \<Rightarrow> nat" where
  "byte c \<equiv> of_char c"

abbreviation unbyte :: "nat \<Rightarrow> char" where
  "unbyte n \<equiv> char_of n"

text \<open>\<open>buffer.toString('base64url')\<close>: three bytes become four characters, without padding.\<close>

fun base64url :: "string \<Rightarrow> string" where
  "base64url [] = []"
| "base64url [a] = [sextet (byte a div 4), sextet (byte a mod 4 * 16)]"
| "base64url [a, b] =
     [sextet (byte a div 4), sextet (byte a mod 4 * 16 + byte b div 16), sextet (byte b mod 16 * 4)]"
| "base64url (a # b # c # bs) =
     [sextet (byte a div 4), sextet (byte a mod 4 * 16 + byte b div 16),
      sextet (byte b mod 16 * 4 + byte c div 64), sextet (byte c mod 64)] @ base64url bs"

fun unbase64url :: "string \<Rightarrow> string" where
  "unbase64url (p # q # r # s # cs) =
     [unbyte (unsextet p * 4 + unsextet q div 16), unbyte (unsextet q mod 16 * 16 + unsextet r div 4),
      unbyte (unsextet r mod 4 * 64 + unsextet s)] @ unbase64url cs"
| "unbase64url [p, q, r] =
     [unbyte (unsextet p * 4 + unsextet q div 16), unbyte (unsextet q mod 16 * 16 + unsextet r div 4)]"
| "unbase64url [p, q] = [unbyte (unsextet p * 4 + unsextet q div 16)]"
| "unbase64url _ = []"

text \<open>\<open>value.split(sep)\<close> for a one-character separator, and \<open>parts.join(sep)\<close>.\<close>

fun split_on :: "char \<Rightarrow> string \<Rightarrow> string list" where
  "split_on sep [] = [[]]"
| "split_on sep (c # cs) =
     (if c = sep then [] # split_on sep cs
      else case split_on sep cs of [] \<Rightarrow> [[c]] | p # ps \<Rightarrow> (c # p) # ps)"

fun join_with :: "string \<Rightarrow> string list \<Rightarrow> string" where
  "join_with sep [] = []"
| "join_with sep [p] = p"
| "join_with sep (p # q # ps) = p @ sep @ join_with sep (q # ps)"

text \<open>\<open>n.toString()\<close> of a non-negative integer and \<open>s.padStart(n, c)\<close>.\<close>

definition digit :: "nat \<Rightarrow> char" where
  "digit d = char_of (48 + d)"

fun decimal :: "nat \<Rightarrow> string" where
  "decimal n = (if n < 10 then [digit n] else decimal (n div 10) @ [digit (n mod 10)])"

declare decimal.simps [simp del]

definition padStart :: "nat \<Rightarrow> char \<Rightarrow> string \<Rightarrow> string" where
  "padStart n c s = replicate (n - length s) c @ s"

section \<open>Configuration and primitives\<close>

record crypto_env =
  TOKEN_HASH_SECRET :: string
  CRYPTO_KEYRING :: "(string \<times> string) list"
  CRYPTO_ACTIVE_KEY_ID :: string

text \<open>
  The primitives of \<open>node:crypto\<close> and \<open>argon2\<close>: \<open>hkdf master purpose\<close> is HKDF-SHA-256 with the fixed
  salt, \<open>hmac key message\<close> the raw digest, \<open>gcm_seal key iv plaintext\<close> the tag and the ciphertext,
  \<open>gcm_open\<close> fails on a tag that does not authenticate, \<open>argon_verify\<close> fails on a malformed hash.
\<close>

record crypto_prims =
  hkdf :: "string \<Rightarrow> string \<Rightarrow> string"
  hmac :: "string \<Rightarrow> string \<Rightarrow> string"
  sha256 :: "string \<Rightarrow> string"
  gcm_seal :: "string \<Rightarrow> string \<Rightarrow> string \<Rightarrow> string \<times> string"
  gcm_open :: "string \<Rightarrow> string \<Rightarrow> string \<Rightarrow> string \<Rightarrow> string option"
  argon_hash :: "string \<Rightarrow> string"
  argon_verify :: "string \<Rightarrow> string \<Rightarrow> bool option"

section \<open>Random values\<close>

text \<open>The random bytes are an argument; the one-time code reads four of them as a big-endian integer.\<close>

definition randomToken :: "string \<Rightarrow> string" where
  "randomToken bytes = base64url bytes"

fun readUInt32BE :: "string \<Rightarrow> nat" where
  "readUInt32BE [a, b, c, d] = ((byte a * 256 + byte b) * 256 + byte c) * 256 + byte d"
| "readUInt32BE _ = 0"

definition randomOtp :: "string \<Rightarrow> string" where
  "randomOtp bytes = padStart 6 CHR ''0'' (decimal (readUInt32BE bytes mod 1000000))"

section \<open>Keyring and hashes\<close>

definition cryptoKeyring :: "crypto_env \<Rightarrow> (string \<times> string) list" where
  "cryptoKeyring env =
     (if CRYPTO_KEYRING env \<noteq> [] then CRYPTO_KEYRING env
      else [(CRYPTO_ACTIVE_KEY_ID env, TOKEN_HASH_SECRET env)])"

datatype CryptoPurpose = opaque_token | metadata_hash | encryption

fun purpose_text :: "CryptoPurpose \<Rightarrow> string" where
  "purpose_text opaque_token = ''opaque-token''"
| "purpose_text metadata_hash = ''metadata''"
| "purpose_text encryption = ''encryption''"

definition derivedKey :: "crypto_env \<Rightarrow> crypto_prims \<Rightarrow> string \<Rightarrow> CryptoPurpose \<Rightarrow> thrown + string" where
  "derivedKey env P keyId purpose =
     (let master = map_of (cryptoKeyring env) keyId in
      if \<not> truthy master then Inl (OtherError (''Unknown cryptographic key id: '' @ keyId))
      else Inr (hkdf P (the master) (purpose_text purpose)))"

definition versionedHmac ::
    "crypto_env \<Rightarrow> crypto_prims \<Rightarrow> string \<Rightarrow> CryptoPurpose \<Rightarrow> string \<Rightarrow> thrown + string" where
  "versionedHmac env P keyId purpose value =
     (case derivedKey env P keyId purpose of
        Inl e \<Rightarrow> Inl e
      | Inr key \<Rightarrow> Inr (''v1.'' @ keyId @ ''.'' @ base64url (hmac P key value)))"

fun versionedHmacs ::
    "crypto_env \<Rightarrow> crypto_prims \<Rightarrow> string list \<Rightarrow> CryptoPurpose \<Rightarrow> string \<Rightarrow> thrown + string list" where
  "versionedHmacs env P [] purpose value = Inr []"
| "versionedHmacs env P (k # ks) purpose value =
     (case versionedHmac env P k purpose value of
        Inl e \<Rightarrow> Inl e
      | Inr h \<Rightarrow> (case versionedHmacs env P ks purpose value of Inl e \<Rightarrow> Inl e | Inr hs \<Rightarrow> Inr (h # hs)))"

definition legacyHash :: "crypto_env \<Rightarrow> crypto_prims \<Rightarrow> string \<Rightarrow> string" where
  "legacyHash env P value = base64url (hmac P (TOKEN_HASH_SECRET env) value)"

definition hashOpaqueToken :: "crypto_env \<Rightarrow> crypto_prims \<Rightarrow> string \<Rightarrow> thrown + string" where
  "hashOpaqueToken env P token = versionedHmac env P (CRYPTO_ACTIVE_KEY_ID env) opaque_token token"

definition candidateOpaqueTokenHashes :: "crypto_env \<Rightarrow> crypto_prims \<Rightarrow> string \<Rightarrow> thrown + string list" where
  "candidateOpaqueTokenHashes env P token =
     (case versionedHmacs env P (map fst (cryptoKeyring env)) opaque_token token of
        Inl e \<Rightarrow> Inl e
      | Inr hs \<Rightarrow> Inr (hs @ [legacyHash env P token]))"

definition hashMetadata :: "crypto_env \<Rightarrow> crypto_prims \<Rightarrow> string \<Rightarrow> thrown + string" where
  "hashMetadata env P value = versionedHmac env P (CRYPTO_ACTIVE_KEY_ID env) metadata_hash value"

definition candidateMetadataHashes :: "crypto_env \<Rightarrow> crypto_prims \<Rightarrow> string \<Rightarrow> thrown + string list" where
  "candidateMetadataHashes env P value =
     (case versionedHmacs env P (map fst (cryptoKeyring env)) metadata_hash value of
        Inl e \<Rightarrow> Inl e
      | Inr hs \<Rightarrow> Inr (hs @ [legacyHash env P value]))"

section \<open>Encryption of secrets\<close>

definition encryptSecret :: "crypto_env \<Rightarrow> crypto_prims \<Rightarrow> string \<Rightarrow> string \<Rightarrow> thrown + string" where
  "encryptSecret env P iv value =
     (case derivedKey env P (CRYPTO_ACTIVE_KEY_ID env) encryption of
        Inl e \<Rightarrow> Inl e
      | Inr key \<Rightarrow>
          (case gcm_seal P key iv value of
             (tag, ciphertext) \<Rightarrow>
               Inr (join_with ''.'' [''v1'', CRYPTO_ACTIVE_KEY_ID env, base64url iv, base64url tag,
                                     base64url ciphertext])))"

definition openWith :: "crypto_prims \<Rightarrow> string \<Rightarrow> string \<Rightarrow> string \<Rightarrow> string \<Rightarrow> thrown + string" where
  "openWith P key ivPart tagPart ciphertextPart =
     (case gcm_open P key (unbase64url ivPart) (unbase64url tagPart) (unbase64url ciphertextPart) of
        None \<Rightarrow> Inl (OtherError ''Unsupported state or unable to authenticate data'')
      | Some plaintext \<Rightarrow> Inr plaintext)"

definition decryptSecret :: "crypto_env \<Rightarrow> crypto_prims \<Rightarrow> string \<Rightarrow> thrown + string" where
  "decryptSecret env P value =
     (case split_on CHR ''.'' value of
        [v, keyId, iv, tag, ciphertext] \<Rightarrow>
          if v = ''v1'' then
            (case derivedKey env P keyId encryption of
               Inl e \<Rightarrow> Inl e
             | Inr key \<Rightarrow> openWith P key iv tag ciphertext)
          else Inl (OtherError ''Invalid encrypted payload'')
      | [iv, tag, ciphertext] \<Rightarrow> openWith P (sha256 P (TOKEN_HASH_SECRET env)) iv tag ciphertext
      | _ \<Rightarrow> Inl (OtherError ''Invalid encrypted payload''))"

section \<open>Passwords and comparisons\<close>

definition hashSecret :: "crypto_prims \<Rightarrow> string \<Rightarrow> string" where
  "hashSecret P value = argon_hash P value"

definition verifySecret :: "crypto_prims \<Rightarrow> string \<Rightarrow> string \<Rightarrow> bool" where
  "verifySecret P hash candidate = (case argon_verify P hash candidate of None \<Rightarrow> False | Some b \<Rightarrow> b)"

text \<open>\<open>timingSafeEqual\<close> compares byte by byte and requires equal lengths.\<close>

definition timingSafeEqual :: "string \<Rightarrow> string \<Rightarrow> bool" where
  "timingSafeEqual left right = list_all2 (=) left right"

definition constantTimeEqual :: "string \<Rightarrow> string \<Rightarrow> bool" where
  "constantTimeEqual left right = (if length left \<noteq> length right then False else timingSafeEqual left right)"

text \<open>White space and letter case of the ASCII range.\<close>

definition white :: "char \<Rightarrow> bool" where
  "white c \<longleftrightarrow> c = CHR '' '' \<or> (9 \<le> byte c \<and> byte c \<le> 13)"

definition trim :: "string \<Rightarrow> string" where
  "trim s = rev (dropWhile white (rev (dropWhile white s)))"

definition lower_char :: "char \<Rightarrow> char" where
  "lower_char c = (if 65 \<le> byte c \<and> byte c \<le> 90 then unbyte (byte c + 32) else c)"

definition toLowerCase :: "string \<Rightarrow> string" where
  "toLowerCase s = map lower_char s"

definition normalizeEmail :: "string \<Rightarrow> string" where
  "normalizeEmail email = toLowerCase (trim email)"

definition normalizePhone :: "string \<Rightarrow> string" where
  "normalizePhone phone = filter (\<lambda>c. \<not> (white c \<or> c = CHR ''('' \<or> c = CHR '')'' \<or> c = CHR ''-'')) phone"

section \<open>Identifiers\<close>

text \<open>
  The loop of \<open>uuidV7\<close> that writes the six low bytes of the time in milliseconds, most significant
  byte first, into the random bytes.
\<close>

fun stampTime :: "nat \<Rightarrow> int \<Rightarrow> 8 word list \<Rightarrow> 8 word list" where
  "stampTime index timestamp bytes =
     (let bytes' = bytes[index := word_of_int (take_bit 8 timestamp)] in
      case index of 0 \<Rightarrow> bytes' | Suc i \<Rightarrow> stampTime i (drop_bit 8 timestamp) bytes')"

definition hex_alphabet :: string where
  "hex_alphabet = ''0123456789abcdef''"

definition hexdigit :: "nat \<Rightarrow> char" where
  "hexdigit n = hex_alphabet ! n"

definition hexbyte :: "8 word \<Rightarrow> string" where
  "hexbyte b = [hexdigit (unat b div 16), hexdigit (unat b mod 16)]"

definition slice :: "nat \<Rightarrow> nat \<Rightarrow> string \<Rightarrow> string" where
  "slice i j s = take (j - i) (drop i s)"

unbundle bit_operations_syntax

definition uuidV7 :: "8 word list \<Rightarrow> int \<Rightarrow> string" where
  "uuidV7 random now =
     (let b0 = stampTime 5 now random;
          b1 = b0[6 := (b0 ! 6 AND 0x0f) OR 0x70];
          bytes = b1[8 := (b1 ! 8 AND 0x3f) OR 0x80];
          hex = concat (map hexbyte bytes)
      in slice 0 8 hex @ ''-'' @ slice 8 12 hex @ ''-'' @ slice 12 16 hex @ ''-'' @ slice 16 20 hex @ ''-'' @
         drop 20 hex)"

section \<open>Lemmas on the encodings\<close>

lemma position_nth: "distinct xs \<Longrightarrow> i < length xs \<Longrightarrow> position (xs ! i) xs = i"
proof (induction xs arbitrary: i)
  case Nil
  then show ?case by simp
next
  case (Cons x xs)
  then show ?case by (cases i) (auto simp: nth_eq_iff_index_eq)
qed

lemma alphabet_facts: "length base64url_alphabet = 64" "distinct base64url_alphabet"
  "CHR ''.'' \<notin> set base64url_alphabet"
  by (simp_all add: base64url_alphabet_def)

lemma unsextet_sextet [simp]: "n < 64 \<Longrightarrow> unsextet (sextet n) = n"
  by (simp add: unsextet_def sextet_def position_nth alphabet_facts)

lemma sextet_not_dot: "n < 64 \<Longrightarrow> sextet n \<noteq> CHR ''.''"
  using alphabet_facts nth_mem [of n base64url_alphabet] by (metis sextet_def)

lemma byte_parts [simp]:
  "byte c div 4 < (64 :: nat)" "byte c div 16 < (16 :: nat)" "byte c div 64 < (4 :: nat)"
  "byte c div 16 div 16 = (0 :: nat)" "byte c div 64 div 4 = (0 :: nat)"
  "byte c div 16 mod 16 = (byte c div 16 :: nat)" "byte c div 64 mod 4 = (byte c div 64 :: nat)"
proof -
  have "x < 256 \<Longrightarrow> x div 4 < 64 \<and> x div 16 < 16 \<and> x div 64 < 4" for x :: nat by auto
  from this [OF nat_of_char_less_256 [of c]] show "byte c div 4 < (64 :: nat)" "byte c div 16 < (16 :: nat)"
    "byte c div 64 < (4 :: nat)" by blast+
  then show "byte c div 16 div 16 = (0 :: nat)" "byte c div 64 div 4 = (0 :: nat)"
    "byte c div 16 mod 16 = (byte c div 16 :: nat)" "byte c div 64 mod 4 = (byte c div 64 :: nat)"
    by (simp_all only: div_less mod_less)
qed

lemma sextet_ranges [simp]:
  "byte a mod 4 * 16 + byte b div 16 < (64 :: nat)" "byte b mod 16 * 4 + byte c div 64 < (64 :: nat)"
  "byte a mod 4 * 16 < (64 :: nat)" "byte b mod 16 * 4 < (64 :: nat)" "byte c mod 64 < (64 :: nat)"
proof -
  have p: "p < 4 \<Longrightarrow> q < 16 \<Longrightarrow> p * 16 + q < 64" and q: "q < 16 \<Longrightarrow> p < 4 \<Longrightarrow> q * 4 + p < 64"
    for p q :: nat by auto
  show "byte a mod 4 * 16 + byte b div 16 < (64 :: nat)" by (rule p) simp_all
  show "byte b mod 16 * 4 + byte c div 64 < (64 :: nat)" by (rule q) simp_all
qed simp_all

lemma unbase64url_base64url [simp]: "unbase64url (base64url bs) = bs"
  by (induction bs rule: base64url.induct) simp_all

lemma base64url_no_dot: "CHR ''.'' \<notin> set (base64url bs)"
  by (induction bs rule: base64url.induct) (simp_all add: sextet_not_dot [symmetric])

lemma base64url_inject: "base64url x = base64url y \<longleftrightarrow> x = y"
  by (metis unbase64url_base64url)

lemma split_on_nonempty: "split_on sep s \<noteq> []"
  by (cases s) (auto split: list.split)

lemma split_on_plain: "sep \<notin> set p \<Longrightarrow> split_on sep p = [p]"
  by (induction p) auto

lemma split_on_append: "sep \<notin> set p \<Longrightarrow> split_on sep (p @ sep # s) = p # split_on sep s"
  by (induction p) auto

lemma split_on_join:
  "ps \<noteq> [] \<Longrightarrow> \<forall>p\<in>set ps. sep \<notin> set p \<Longrightarrow> split_on sep (join_with [sep] ps) = ps"
  by (induction "[sep]" ps rule: join_with.induct) (simp_all add: split_on_plain split_on_append)

lemma length_decimal: "n < 10 ^ Suc k \<Longrightarrow> length (decimal n) \<le> Suc k"
proof (induction k arbitrary: n)
  case 0
  then show ?case by (simp add: decimal.simps)
next
  case (Suc k)
  show ?case
  proof (cases "n < 10")
    case True
    then show ?thesis by (simp add: decimal.simps)
  next
    case False
    moreover have "n div 10 < 10 ^ Suc k" using Suc.prems by (simp add: less_mult_imp_div_less)
    ultimately show ?thesis using Suc.IH [of "n div 10"] by (simp add: decimal.simps [of n])
  qed
qed

definition digits :: string where
  "digits = ''0123456789''"

lemma digit_digits: "d < 10 \<Longrightarrow> digit d \<in> set digits"
proof -
  have "list_all (\<lambda>d. List.member digits (digit d)) [0..<10]" by code_simp
  then show "d < 10 \<Longrightarrow> digit d \<in> set digits" by (simp add: list_all_iff del: upt_Suc)
qed

lemma set_decimal: "set (decimal n) \<subseteq> set digits"
proof (induction n rule: decimal.induct)
  case (1 n)
  then show ?case by (cases "n < 10") (auto simp: decimal.simps [of n] digit_digits)
qed

text \<open>Reading a decimal numeral back.\<close>

definition undigit :: "char \<Rightarrow> nat" where
  "undigit c = byte c - 48"

definition undecimal :: "string \<Rightarrow> nat" where
  "undecimal s = foldl (\<lambda>n c. n * 10 + undigit c) 0 s"

lemma undigit_digit: "d < 10 \<Longrightarrow> undigit (digit d) = d"
  by (simp add: undigit_def digit_def of_char_of)

lemma undecimal_decimal [simp]: "undecimal (decimal n) = n"
proof (induction n rule: decimal.induct)
  case (1 n)
  then show ?case
    by (cases "n < 10") (simp_all add: decimal.simps [of n] undecimal_def undigit_digit)
qed

lemma decimal_inject: "decimal m = decimal n \<longleftrightarrow> m = n"
  by (metis undecimal_decimal)

lemma undecimal_zeros: "foldl (\<lambda>n c. n * 10 + undigit c) 0 (replicate k CHR ''0'' @ s) = undecimal s"
  by (induction k) (simp_all add: undecimal_def undigit_def)

section \<open>Lemmas on hashes and comparisons\<close>

lemma constantTimeEqual_eq [simp]: "constantTimeEqual left right \<longleftrightarrow> left = right"
  by (auto simp: constantTimeEqual_def timingSafeEqual_def list.rel_eq)

lemma versionedHmacs_map:
  "versionedHmacs env P ks purpose v = Inr hs \<Longrightarrow> k \<in> set ks \<Longrightarrow>
     \<exists>h\<in>set hs. versionedHmac env P k purpose v = Inr h"
  by (induction ks arbitrary: hs) (auto split: sum.splits)

lemma versionedHmacs_total:
  "\<forall>k\<in>set ks. \<exists>h. versionedHmac env P k purpose v = Inr h \<Longrightarrow>
     \<exists>hs. versionedHmacs env P ks purpose v = Inr hs"
  by (induction ks) (auto split: sum.splits)

text \<open>What the configuration checks promise: every secret is non-empty, the active key is present.\<close>

definition crypto_env_ok :: "crypto_env \<Rightarrow> bool" where
  "crypto_env_ok env \<longleftrightarrow>
     TOKEN_HASH_SECRET env \<noteq> [] \<and> list_all (\<lambda>(k, s). s \<noteq> [] \<and> CHR ''.'' \<notin> set k) (CRYPTO_KEYRING env) \<and>
     distinct (map fst (CRYPTO_KEYRING env)) \<and> CHR ''.'' \<notin> set (CRYPTO_ACTIVE_KEY_ID env) \<and>
     (CRYPTO_KEYRING env = [] \<or> CRYPTO_ACTIVE_KEY_ID env \<in> fst ` set (CRYPTO_KEYRING env))"

lemma keyring_key:
  assumes "crypto_env_ok env" "k \<in> fst ` set (cryptoKeyring env)"
  obtains s where "map_of (cryptoKeyring env) k = Some s" "s \<noteq> []"
proof -
  obtain s where s: "map_of (cryptoKeyring env) k = Some s"
    using assms(2) by (metis (no_types) map_of_eq_None_iff not_None_eq)
  moreover have "s \<noteq> []"
    using map_of_SomeD [OF s] assms(1)
    by (auto simp: cryptoKeyring_def crypto_env_ok_def list_all_iff split: if_splits)
  ultimately show thesis by (rule that)
qed

lemma derivedKey_present:
  "crypto_env_ok env \<Longrightarrow> k \<in> fst ` set (cryptoKeyring env) \<Longrightarrow> \<exists>key. derivedKey env P k purpose = Inr key"
  by (elim keyring_key) (auto simp: derivedKey_def)

lemma versionedHmac_present:
  "crypto_env_ok env \<Longrightarrow> k \<in> fst ` set (cryptoKeyring env) \<Longrightarrow> \<exists>h. versionedHmac env P k purpose v = Inr h"
  using derivedKey_present [of env k P purpose] by (auto simp: versionedHmac_def)

lemma active_present: "crypto_env_ok env \<Longrightarrow> CRYPTO_ACTIVE_KEY_ID env \<in> fst ` set (cryptoKeyring env)"
  by (auto simp: crypto_env_ok_def cryptoKeyring_def)

text \<open>
  A configuration that keeps an older key: what was derived from that key before the rotation is
  derived again after it.
\<close>

definition keeps_active_key :: "crypto_env \<Rightarrow> crypto_env \<Rightarrow> bool" where
  "keeps_active_key old new \<longleftrightarrow>
     map_of (cryptoKeyring new) (CRYPTO_ACTIVE_KEY_ID old) = map_of (cryptoKeyring old) (CRYPTO_ACTIVE_KEY_ID old)"

lemma kept_derivedKey:
  "keeps_active_key old new \<Longrightarrow>
     derivedKey new P (CRYPTO_ACTIVE_KEY_ID old) purpose = derivedKey old P (CRYPTO_ACTIVE_KEY_ID old) purpose"
  by (simp add: keeps_active_key_def derivedKey_def)

lemma kept_in_keyring:
  assumes "keeps_active_key old new" "crypto_env_ok old"
  shows "CRYPTO_ACTIVE_KEY_ID old \<in> fst ` set (cryptoKeyring new)"
  using keyring_key [OF assms(2) active_present [OF assms(2)]] assms(1)
  by (metis keeps_active_key_def map_of_eq_None_iff option.distinct(1))

lemma candidates_contain:
  assumes "crypto_env_ok old" "crypto_env_ok new" "keeps_active_key old new"
  shows "\<exists>h hs. versionedHmac old P (CRYPTO_ACTIVE_KEY_ID old) purpose v = Inr h \<and>
           versionedHmacs new P (map fst (cryptoKeyring new)) purpose v = Inr hs \<and> h \<in> set hs"
proof -
  have "versionedHmac new P (CRYPTO_ACTIVE_KEY_ID old) purpose v = versionedHmac old P (CRYPTO_ACTIVE_KEY_ID old) purpose v"
    by (simp add: versionedHmac_def kept_derivedKey [OF assms(3)])
  moreover obtain hs where "versionedHmacs new P (map fst (cryptoKeyring new)) purpose v = Inr hs"
    using versionedHmacs_total [of "map fst (cryptoKeyring new)"] versionedHmac_present [OF assms(2)] by force
  ultimately show ?thesis
    using versionedHmacs_map kept_in_keyring [OF assms(3,1)] by fastforce
qed

text \<open>What AES-GCM promises: opening what was sealed under the same key and nonce returns the plaintext.\<close>

definition gcm_law :: "crypto_prims \<Rightarrow> bool" where
  "gcm_law P \<longleftrightarrow> (\<forall>k iv v. case gcm_seal P k iv v of (tag, ct) \<Rightarrow> gcm_open P k iv tag ct = Some v)"

lemma encrypt_decrypt_secret:
  assumes ok: "crypto_env_ok old" and keeps: "keeps_active_key old new" and law: "gcm_law P"
  shows "\<exists>c. encryptSecret old P iv value = Inr c \<and> decryptSecret new P c = Inr value"
proof -
  let ?k = "CRYPTO_ACTIVE_KEY_ID old"
  obtain key where key: "derivedKey old P ?k encryption = Inr key"
    using derivedKey_present [OF ok active_present [OF ok]] by blast
  obtain tag ct where seal: "gcm_seal P key iv value = (tag, ct)" by (cases "gcm_seal P key iv value")
  have "gcm_open P key iv tag ct = Some value" using law seal by (auto simp: gcm_law_def split: prod.splits)
  moreover have "CHR ''.'' \<notin> set ?k" using ok by (simp add: crypto_env_ok_def)
  then have "split_on CHR ''.'' (join_with ''.'' [''v1'', ?k, base64url iv, base64url tag, base64url ct]) =
      [''v1'', ?k, base64url iv, base64url tag, base64url ct]"
    by (intro split_on_join) (simp_all add: base64url_no_dot)
  ultimately show ?thesis
    by (simp add: encryptSecret_def key seal decryptSecret_def kept_derivedKey [OF keeps] openWith_def
        del: join_with.simps)
qed

text \<open>Transparent stand-ins for the primitives and two configurations, for the concrete instances.\<close>

definition demo_prims :: crypto_prims where
  "demo_prims = \<lparr>hkdf = (\<lambda>m p. m @ p), hmac = (\<lambda>k v. CHR ''h'' # k @ v), sha256 = (\<lambda>v. v),
     gcm_seal = (\<lambda>k iv v. (k @ iv, v)), gcm_open = (\<lambda>k iv tag ct. if tag = k @ iv then Some ct else None),
     argon_hash = (\<lambda>v. v), argon_verify = (\<lambda>h c. Some (h = c))\<rparr>"

definition demo_env :: crypto_env where
  "demo_env = \<lparr>TOKEN_HASH_SECRET = ''s0'', CRYPTO_KEYRING = [], CRYPTO_ACTIVE_KEY_ID = ''legacy''\<rparr>"

definition demo_env_rotated :: crypto_env where
  "demo_env_rotated = \<lparr>TOKEN_HASH_SECRET = ''s0'', CRYPTO_KEYRING = [(''k2'', ''s2''), (''legacy'', ''s0'')],
     CRYPTO_ACTIVE_KEY_ID = ''k2''\<rparr>"

lemma demo_crypto: "crypto_env_ok demo_env" "crypto_env_ok demo_env_rotated"
  "keeps_active_key demo_env demo_env_rotated" "gcm_law demo_prims"
  by (auto simp: crypto_env_ok_def keeps_active_key_def cryptoKeyring_def demo_env_def demo_env_rotated_def
      demo_prims_def gcm_law_def)

section \<open>Properties\<close>

text \<open>
  Key rotation never loses a lookup. A token hashed under the key that was active before a
  rotation is among the candidate hashes computed after it, as long as the keyring keeps that key;
  with no rotation in between, a token's own hash is always a candidate.
\<close>

theorem token_hash_survives_rotation:
  assumes "crypto_env_ok old" "crypto_env_ok new" "keeps_active_key old new"
  shows "\<exists>h hs. hashOpaqueToken old P token = Inr h \<and> candidateOpaqueTokenHashes new P token = Inr hs \<and> h \<in> set hs"
  using candidates_contain [OF assms, of P opaque_token token]
  by (auto simp: hashOpaqueToken_def candidateOpaqueTokenHashes_def)

theorem token_hash_survives_rotation_witness:
  "\<exists>h hs. hashOpaqueToken demo_env demo_prims ''t'' = Inr h \<and>
     candidateOpaqueTokenHashes demo_env_rotated demo_prims ''t'' = Inr hs \<and> h \<in> set hs"
  by (rule token_hash_survives_rotation [OF demo_crypto(1-3)])

text \<open>
  Encrypted secrets survive key rotation. What was encrypted under the old active key decrypts
  to the same plaintext under any later configuration that keeps the key, whatever nonce was used.
\<close>

theorem secret_roundtrip:
  assumes "crypto_env_ok old" "keeps_active_key old new" "gcm_law P"
  shows "\<exists>c. encryptSecret old P iv value = Inr c \<and> decryptSecret new P c = Inr value"
  by (rule encrypt_decrypt_secret [OF assms])

theorem secret_roundtrip_witness:
  "\<exists>c. encryptSecret demo_env demo_prims ''nonce'' ''secret'' = Inr c \<and>
     decryptSecret demo_env_rotated demo_prims c = Inr ''secret''"
  by (rule secret_roundtrip [OF demo_crypto(1,3,4)])

text \<open>
  A one-time code is six decimal digits that denote the random value modulo one million,
  leading zeros included.
\<close>

theorem randomOtp_six_digits:
  "length (randomOtp bytes) = 6 \<and> set (randomOtp bytes) \<subseteq> set digits \<and>
   undecimal (randomOtp bytes) = readUInt32BE bytes mod 1000000"
proof -
  let ?n = "readUInt32BE bytes mod 1000000"
  have "length (decimal ?n) \<le> 6" using length_decimal [of ?n 5] by simp
  moreover have "undecimal (randomOtp bytes) = ?n"
    unfolding randomOtp_def padStart_def undecimal_def by (simp only: undecimal_zeros undecimal_decimal)
  moreover have "CHR ''0'' \<in> set digits" by (simp add: digits_def)
  ultimately show ?thesis using set_decimal [of ?n] by (auto simp: randomOtp_def padStart_def)
qed

text \<open>Reading the time back from the hexadecimal prefix of an identifier.\<close>

definition unhexdigit :: "char \<Rightarrow> nat" where
  "unhexdigit c = position c hex_alphabet"

definition unhex :: "string \<Rightarrow> nat" where
  "unhex s = foldl (\<lambda>n c. n * 16 + unhexdigit c) 0 s"

lemma unhexdigit_hexdigit: "n < 16 \<Longrightarrow> unhexdigit (hexdigit n) = n"
proof -
  have "length hex_alphabet = 16" "distinct hex_alphabet" by (simp_all add: hex_alphabet_def)
  then show "n < 16 \<Longrightarrow> unhexdigit (hexdigit n) = n" by (simp add: unhexdigit_def hexdigit_def position_nth)
qed

lemma byte_nibbles [simp]: "unat (b :: 8 word) div 16 < 16"
  using unsigned_less [of b, where 'a = nat] by (simp add: less_mult_imp_div_less)

lemma unhex_snoc: "unhex (s @ hexbyte b) = unhex s * 256 + unat b"
proof -
  have "unhex (s @ hexbyte b) = (unhex s * 16 + unat b div 16) * 16 + unat b mod 16"
    by (simp add: unhex_def hexbyte_def unhexdigit_hexdigit)
  then show ?thesis using div_mult_mod_eq [of "unat b" 16] by (simp add: algebra_simps)
qed

lemma stampTime_shape:
  assumes "length random = 16"
  obtains r6 r7 r8 rs where "stampTime 5 now random =
      [word_of_int (drop_bit 40 now), word_of_int (drop_bit 32 now), word_of_int (drop_bit 24 now),
       word_of_int (drop_bit 16 now), word_of_int (drop_bit 8 now), word_of_int now, r6, r7, r8] @ rs"
    "length rs = 7"
proof -
  have "word_of_int (take_bit 8 x) = (word_of_int x :: 8 word)" for x by (simp add: word_of_int_eq_iff)
  with assms show thesis
    by (intro that [of "random ! 6" "random ! 7" "random ! 8" "drop 9 random"])
       (auto simp: Let_def numeral_eq_Suc length_Suc_conv)
qed

lemma unhex_nil: "unhex [] = 0"
  by (simp add: unhex_def)

lemma version_nibble: "unat ((b AND 0x0f) OR 0x70 :: 8 word) div 16 = 7"
proof -
  have "unat ((b AND 0x0f) OR 0x70 :: 8 word) div 16 = unat (drop_bit 4 ((b AND 0x0f) OR 0x70 :: 8 word))"
    using unsigned_less [of "(b AND 0x0f) OR 0x70 :: 8 word", where 'a = nat]
    by (simp only: unsigned_drop_bit_eq) (simp add: drop_bit_eq_div take_bit_eq_mod)
  then show ?thesis by simp
qed

lemma unat_stamp: "0 \<le> t \<Longrightarrow> int (unat (word_of_int (drop_bit k t) :: 8 word)) = t div 2 ^ k mod 256"
  by (simp add: unsigned_of_int drop_bit_eq_div take_bit_eq_mod)

lemma base256: "0 \<le> t \<Longrightarrow> t < 2 ^ 48 \<Longrightarrow>
   ((((((t div 2 ^ 40 mod 256) * 256 + t div 2 ^ 32 mod 256) * 256 + t div 2 ^ 24 mod 256) * 256 +
      t div 2 ^ 16 mod 256) * 256 + t div 2 ^ 8 mod 256) * 256 + t mod 256) = (t :: int)"
proof -
  assume t: "0 \<le> t" "t < 2 ^ 48"
  have step: "x div 256 * 256 + x mod 256 = x" for x :: int by simp
  have top: "t div 2 ^ 40 mod 256 = t div 2 ^ 40" using t by (simp add: div_less_iff_less_mult)
  have "t div 2 ^ 40 = t div 2 ^ 32 div 256" "t div 2 ^ 32 = t div 2 ^ 24 div 256"
    "t div 2 ^ 24 = t div 2 ^ 16 div 256" "t div 2 ^ 16 = t div 2 ^ 8 div 256" "t div 2 ^ 8 = t div 256"
    by (simp_all flip: div_mult2_eq zdiv_zmult2_eq)
  with top show ?thesis by (metis step)
qed

text \<open>
  Identifiers are ordered by time. A generated identifier is 36 characters long, carries
  version 7, and its first twelve hexadecimal digits are the creation time in milliseconds, so that
  a later identifier has a larger prefix.
\<close>

theorem uuidV7_time_prefix:
  assumes "length random = 16" "0 \<le> now" "now < 2 ^ 48"
  shows "length (uuidV7 random now) = 36 \<and> uuidV7 random now ! 14 = CHR ''7'' \<and>
         int (unhex (slice 0 8 (uuidV7 random now) @ slice 9 13 (uuidV7 random now))) = now"
proof -
  obtain r6 r7 r8 rs where st: "stampTime 5 now random =
      [word_of_int (drop_bit 40 now), word_of_int (drop_bit 32 now), word_of_int (drop_bit 24 now),
       word_of_int (drop_bit 16 now), word_of_int (drop_bit 8 now), word_of_int now, r6, r7, r8] @ rs"
    and len: "length rs = 7"
    using stampTime_shape [OF assms(1)] by metis
  define w where "w k = (word_of_int (drop_bit k now) :: 8 word)" for k
  let ?r6 = "(r6 AND 0x0f) OR 0x70" and ?r8 = "(r8 AND 0x3f) OR 0x80"
  have u: "uuidV7 random now =
     concat (map hexbyte [w 40, w 32, w 24, w 16]) @ ''-'' @ concat (map hexbyte [w 8, w 0]) @ ''-'' @
     hexbyte ?r6 @ hexbyte r7 @ ''-'' @ hexbyte ?r8 @ hexbyte (hd rs) @ ''-'' @ concat (map hexbyte (tl rs))"
    using len by (cases rs) (simp_all add: uuidV7_def st Let_def slice_def hexbyte_def w_def del: stampTime.simps)
  have lt: "length (concat (map hexbyte xs)) = 2 * length xs" for xs
    by (induction xs) (simp_all add: hexbyte_def)
  have "length (uuidV7 random now) = 36" using len by (cases rs) (simp_all add: u hexbyte_def lt)
  moreover have "uuidV7 random now ! 14 = CHR ''7''"
    by (simp add: u hexbyte_def version_nibble hexdigit_def hex_alphabet_def)
  moreover have "slice 0 8 (uuidV7 random now) @ slice 9 13 (uuidV7 random now) =
      ((((([] @ hexbyte (w 40)) @ hexbyte (w 32)) @ hexbyte (w 24)) @ hexbyte (w 16)) @ hexbyte (w 8)) @ hexbyte (w 0)"
    by (simp add: u slice_def hexbyte_def)
  moreover have "int (unat (w k)) = now div 2 ^ k mod 256" for k
    unfolding w_def by (rule unat_stamp [OF assms(2)])
  then have "int (unhex (((((([] @ hexbyte (w 40)) @ hexbyte (w 32)) @ hexbyte (w 24)) @ hexbyte (w 16)) @
      hexbyte (w 8)) @ hexbyte (w 0))) = now"
    using base256 [OF assms(2,3)]
    by (simp only: unhex_snoc unhex_nil of_nat_add of_nat_mult of_nat_numeral) simp
  ultimately show ?thesis by (simp only:)
qed

theorem uuidV7_time_prefix_witness:
  "int (unhex (slice 0 8 (uuidV7 (replicate 16 255) 1700000000000) @
     slice 9 13 (uuidV7 (replicate 16 255) 1700000000000))) = 1700000000000"
  using uuidV7_time_prefix [of "replicate 16 255" 1700000000000] by simp

end
