(* ===== verification/Canonical_Json.thy ===== *)
theory Canonical_Json
  imports Crypto "HOL-Library.Char_ord" "HOL-Library.List_Lexorder" "HOL-Library.Multiset"
begin

text \<open>
  The canonical JSON text of \<open>canonicalizeIdempotencyInput\<close> in \<open>src/src/lib/idempotency.ts\<close>, which
  fingerprints a request, and of \<open>canonicalJson\<close> in \<open>src/src/modules/audit/audit.integrity.ts\<close>, which
  is what an audit signature covers. Both sort the keys of every object and print no white space.
\<close>

section \<open>Printing\<close>

text \<open>\<open>JSON.stringify\<close> of a string: the quote, the backslash and the control characters are escaped.\<close>

definition jsonEscape :: "char \<Rightarrow> string" where
  "jsonEscape c =
     (let n = byte c in
      if c = CHR 0x22 then [CHR 0x5C, CHR 0x22]
      else if c = CHR 0x5C then [CHR 0x5C, CHR 0x5C]
      else if n = 8 then CHR 0x5C # ''b''
      else if n = 9 then CHR 0x5C # ''t''
      else if n = 10 then CHR 0x5C # ''n''
      else if n = 12 then CHR 0x5C # ''f''
      else if n = 13 then CHR 0x5C # ''r''
      else if n < 32 then CHR 0x5C # ''u00'' @ [hexdigit (n div 16), hexdigit (n mod 16)]
      else [c])"

definition jsonString :: "string \<Rightarrow> string" where
  "jsonString s = CHR 0x22 # concat (map jsonEscape s) @ [CHR 0x22]"

definition jsonNumber :: "int \<Rightarrow> string" where
  "jsonNumber n = (if n < 0 then ''-'' @ decimal (nat (- n)) else decimal (nat n))"

text \<open>
  An object lists its properties in insertion order and without repeated keys; the sort is the one
  of \<open>Array.prototype.sort\<close> on strings, by code units.
\<close>

function canonicalJson :: "jsval \<Rightarrow> string" where
  "canonicalJson Undefined = ''null''"
| "canonicalJson Null = ''null''"
| "canonicalJson (JBool b) = (if b then ''true'' else ''false'')"
| "canonicalJson (JNum n) = jsonNumber n"
| "canonicalJson (JStr s) = jsonString s"
| "canonicalJson (JArr xs) = ''['' @ join_with '','' (map canonicalJson xs) @ '']''"
| "canonicalJson (JObj ps) =
     ''{'' @ join_with '','' (map (\<lambda>(k, v). jsonString k @ '':'' @ canonicalJson v) (sort_key fst ps)) @ ''}''"
  by pat_completeness auto

lemma size_member: "x \<in> set xs \<Longrightarrow> size x \<le> size_list size xs"
  by (induction xs) auto

lemma size_prop_value: "(k, v) \<in> set ps \<Longrightarrow> size v \<le> size_list (size_prod (\<lambda>_. 0) size) ps"
  by (induction ps) auto

termination canonicalJson
  by (relation "measure size") (auto simp: less_Suc_eq_le dest: size_member size_prop_value)

text \<open>The request fingerprint uses the same text.\<close>

definition canonicalizeIdempotencyInput :: "jsval \<Rightarrow> string" where
  "canonicalizeIdempotencyInput value = canonicalJson value"

text \<open>
  What the text identifies: the value up to the order of an object's keys, with \<open>undefined\<close> printed
  like \<open>null\<close>.
\<close>

function normal :: "jsval \<Rightarrow> jsval" where
  "normal Undefined = Null"
| "normal Null = Null"
| "normal (JBool b) = JBool b"
| "normal (JNum n) = JNum n"
| "normal (JStr s) = JStr s"
| "normal (JArr xs) = JArr (map normal xs)"
| "normal (JObj ps) = JObj (map (\<lambda>(k, v). (k, normal v)) (sort_key fst ps))"
  by pat_completeness auto

termination normal
  by (relation "measure size") (auto simp: less_Suc_eq_le dest: size_member size_prop_value)

section \<open>Unique reading\<close>

text \<open>
  No canonical text is a proper prefix of another where a delimiter or the end follows, so a text
  can be read back in one way only.
\<close>

definition delimited :: "string \<Rightarrow> bool" where
  "delimited r \<longleftrightarrow> r = [] \<or> hd r \<in> set '',]}''"

text \<open>The printer \<open>f\<close> can be read back up to \<open>g\<close> at \<open>x\<close>.\<close>

definition readable :: "('a \<Rightarrow> string) \<Rightarrow> ('a \<Rightarrow> 'b) \<Rightarrow> 'a \<Rightarrow> bool" where
  "readable f g x \<longleftrightarrow>
     (\<forall>y r s. delimited r \<longrightarrow> delimited s \<longrightarrow> f x @ r = f y @ s \<longrightarrow> g x = g y \<and> r = s)"

lemma readableD:
  "readable f g x \<Longrightarrow> f x @ r = f y @ s \<Longrightarrow> delimited r \<Longrightarrow> delimited s \<Longrightarrow> g x = g y \<and> r = s"
  by (simp add: readable_def)

lemma delimited_simps [simp]: "delimited []" "delimited (CHR '','' # r)" "delimited (CHR '']'' # r)"
  "delimited (CHR ''}'' # r)"
  by (simp_all add: delimited_def)

lemma join_with_Cons: "join_with sep (p # ps) = p @ (if ps = [] then [] else sep @ join_with sep ps)"
  by (cases ps) simp_all

lemma readable_join:
  assumes "\<forall>x\<in>set xs. readable f g x"
    and starts: "\<And>x. f x \<noteq> [] \<and> hd (f x) \<noteq> c \<and> hd (f x) \<noteq> CHR '',''" and c: "c \<in> set '']}''"
    and "join_with '','' (map f xs) @ c # r = join_with '','' (map f ys) @ c # s"
  shows "map g xs = map g ys \<and> r = s"
  using assms(1,4)
proof (induction xs arbitrary: ys)
  case Nil
  show ?case
  proof (cases ys)
    case (Cons y ys')
    with Nil.prems starts [of y] show ?thesis
      by (cases "f y") (auto simp: join_with_Cons split: if_splits)
  qed (use Nil in simp)
next
  case (Cons x xs)
  let ?tail = "\<lambda>zs t. (if zs = [] then [] else '','' @ join_with '','' zs) @ c # t"
  have del: "delimited (?tail zs t)" for zs t using c by (auto simp: delimited_def)
  show ?case
  proof (cases ys)
    case Nil
    with Cons.prems starts [of x] show ?thesis
      by (cases "f x") (auto simp: join_with_Cons split: if_splits)
  next
    case ys: (Cons y ys')
    with Cons.prems have eq: "f x @ ?tail (map f xs) r = f y @ ?tail (map f ys') s"
      by (simp add: join_with_Cons)
    have rx: "readable f g x" using Cons.prems(1) by simp
    have "g x = g y \<and> ?tail (map f xs) r = ?tail (map f ys') s"
      by (rule readableD [OF rx eq]) (rule del)+
    then have xy: "g x = g y" and t: "?tail (map f xs) r = ?tail (map f ys') s" by blast+
    show ?thesis
    proof (cases "xs = [] \<or> ys' = []")
      case True
      with t c show ?thesis by (auto simp: xy ys split: if_splits)
    next
      case False
      with t have "join_with '','' (map f xs) @ c # r = join_with '','' (map f ys') @ c # s" by simp
      with Cons xy ys show ?thesis by auto
    qed
  qed
qed

text \<open>Strings: each escape sequence can be read back from the front of a text.\<close>

definition readEscape :: "string \<Rightarrow> char \<times> string" where
  "readEscape s =
     (let d = s ! 1 in
      if hd s \<noteq> CHR 0x5C then (hd s, tl s)
      else if d = CHR ''b'' then (char_of (8 :: nat), drop 2 s)
      else if d = CHR ''t'' then (char_of (9 :: nat), drop 2 s)
      else if d = CHR ''n'' then (char_of (10 :: nat), drop 2 s)
      else if d = CHR ''f'' then (char_of (12 :: nat), drop 2 s)
      else if d = CHR ''r'' then (char_of (13 :: nat), drop 2 s)
      else if d = CHR ''u'' then (char_of (unhexdigit (s ! 4) * 16 + unhexdigit (s ! 5)), drop 6 s)
      else (d, drop 2 s))"

lemma readEscape_jsonEscape: "readEscape (jsonEscape c @ r) = (c, r)"
proof -
  have nat_byte: "byte c = k \<Longrightarrow> char_of k = c" for k :: nat by (metis char_of_char)
  show ?thesis
  proof (cases "byte c \<in> {8, 9, 10, 12, 13 :: nat}")
    case True
    then show ?thesis
      by (elim insertE emptyE) (frule nat_byte, auto simp: jsonEscape_def readEscape_def Let_def)+
  next
    case False
    then have nb: "byte c \<noteq> (8 :: nat)" "byte c \<noteq> (9 :: nat)" "byte c \<noteq> (10 :: nat)" "byte c \<noteq> (12 :: nat)"
      "byte c \<noteq> (13 :: nat)" by simp_all
    consider (q) "c = CHR 0x22" | (b) "c = CHR 0x5C" | (ctl) "c \<noteq> CHR 0x22" "c \<noteq> CHR 0x5C" "byte c < (32 :: nat)"
      | (plain) "c \<noteq> CHR 0x22" "c \<noteq> CHR 0x5C" "\<not> byte c < (32 :: nat)" by blast
    then show ?thesis
    proof cases
      case ctl
      with nb show ?thesis by (simp add: jsonEscape_def Let_def readEscape_def unhexdigit_hexdigit)
    next
      case plain
      with nb show ?thesis by (simp add: jsonEscape_def Let_def readEscape_def)
    qed (simp_all add: jsonEscape_def readEscape_def Let_def)
  qed
qed

lemma jsonEscape_inj: "jsonEscape c @ r = jsonEscape d @ s \<Longrightarrow> c = d \<and> r = s"
  by (metis readEscape_jsonEscape prod.inject)

lemma jsonEscape_start: "jsonEscape c \<noteq> [] \<and> hd (jsonEscape c) \<noteq> CHR 0x22"
  by (simp add: jsonEscape_def Let_def)

lemma escaped_inj:
  "concat (map jsonEscape s) @ CHR 0x22 # r = concat (map jsonEscape t) @ CHR 0x22 # u \<Longrightarrow> s = t \<and> r = u"
proof (induction s arbitrary: t)
  case Nil
  then show ?case using jsonEscape_start [of "hd t"] by (cases t; cases "jsonEscape (hd t)") auto
next
  case (Cons c s)
  show ?case
  proof (cases t)
    case Nil
    with Cons.prems jsonEscape_start [of c] show ?thesis by (cases "jsonEscape c") auto
  next
    case (Cons d t')
    with Cons.prems have "jsonEscape c @ concat (map jsonEscape s) @ CHR 0x22 # r =
        jsonEscape d @ concat (map jsonEscape t') @ CHR 0x22 # u" by simp
    from jsonEscape_inj [OF this] Cons.IH Cons show ?thesis by blast
  qed
qed

lemma jsonString_inj: "jsonString s @ r = jsonString t @ u \<Longrightarrow> s = t \<and> r = u"
  using escaped_inj [of s r t u] by (simp add: jsonString_def)

text \<open>Numbers: the digits end where a delimiter begins.\<close>

lemma decimal_nonempty: "decimal n \<noteq> []"
  by (simp add: decimal.simps [of n])

lemma decimal_digit: "c \<in> set (decimal n) \<Longrightarrow> c \<in> set digits"
  using set_decimal by blast

definition numchar :: "char \<Rightarrow> bool" where
  "numchar c \<longleftrightarrow> c \<in> set (CHR ''-'' # digits)"

lemma jsonNumber_chars: "\<forall>c\<in>set (jsonNumber n). numchar c" "jsonNumber n \<noteq> []"
  by (auto simp: jsonNumber_def numchar_def decimal_nonempty dest: decimal_digit)

lemma jsonNumber_eq: "jsonNumber m = jsonNumber n \<Longrightarrow> m = n"
proof -
  have "CHR ''-'' \<notin> set digits" by (simp add: digits_def)
  then have neg: "decimal k \<noteq> CHR ''-'' # x" for k x using decimal_digit [of "CHR ''-''" k] by fastforce
  assume "jsonNumber m = jsonNumber n"
  then show "m = n"
    using neg neg [symmetric] by (auto simp: jsonNumber_def decimal_inject split: if_splits)
qed

lemma jsonNumber_take: "delimited r \<Longrightarrow> takeWhile numchar (jsonNumber n @ r) = jsonNumber n"
  using jsonNumber_chars(1) [of n]
  by (cases r) (auto simp: takeWhile_append delimited_def numchar_def digits_def)

lemma jsonNumber_inj:
  assumes "jsonNumber m @ r = jsonNumber n @ s" "delimited r" "delimited s"
  shows "m = n \<and> r = s"
proof -
  have "jsonNumber m = jsonNumber n"
    using jsonNumber_take [OF assms(2), of m] jsonNumber_take [OF assms(3), of n] assms(1) by simp
  with assms(1) jsonNumber_eq show ?thesis by auto
qed

text \<open>The first character tells the constructor.\<close>

definition kind_of_head :: "char \<Rightarrow> nat" where
  "kind_of_head c =
     (if c = CHR ''n'' then 0 else if c = CHR ''t'' \<or> c = CHR ''f'' then 1 else if c = CHR 0x22 then 3
      else if c = CHR ''['' then 4 else if c = CHR ''{'' then 5 else if numchar c then 2 else 6)"

fun kind :: "jsval \<Rightarrow> nat" where
  "kind Undefined = 0"
| "kind Null = 0"
| "kind (JBool _) = 1"
| "kind (JNum _) = 2"
| "kind (JStr _) = 3"
| "kind (JArr _) = 4"
| "kind (JObj _) = 5"

lemma canonicalJson_head: "canonicalJson v \<noteq> [] \<and> kind_of_head (hd (canonicalJson v)) = kind v"
proof (cases v)
  case (JNum n)
  have "numchar (hd (jsonNumber n))" using jsonNumber_chars [of n] by simp
  with JNum jsonNumber_chars(2) [of n] show ?thesis
    by (auto simp: kind_of_head_def numchar_def digits_def)
qed (simp_all add: kind_of_head_def jsonString_def)

lemma canonicalJson_kind: "canonicalJson v @ r = canonicalJson w @ s \<Longrightarrow> kind v = kind w"
  by (metis canonicalJson_head hd_append2)

lemma kind_cases:
  "kind v = 0 \<Longrightarrow> normal v = Null" "kind v = 1 \<Longrightarrow> \<exists>b. v = JBool b" "kind v = 2 \<Longrightarrow> \<exists>n. v = JNum n"
  "kind v = 3 \<Longrightarrow> \<exists>s. v = JStr s" "kind v = 4 \<Longrightarrow> \<exists>xs. v = JArr xs" "kind v = 5 \<Longrightarrow> \<exists>ps. v = JObj ps"
  by (cases v; simp)+

lemma canonicalJson_start: "hd (canonicalJson v) \<notin> set '',]}''"
proof -
  have "list_all (\<lambda>c. kind_of_head c = 6) '',]}''" by code_simp
  moreover have "kind v < 6" by (cases v) simp_all
  ultimately show ?thesis using canonicalJson_head [of v] by auto
qed

lemma canonicalJson_null:
  assumes "''null'' @ r = canonicalJson y @ s"
  shows "normal y = Null \<and> r = s"
proof -
  from assms canonicalJson_kind [of Null r y s] have "kind y = 0" by simp
  with assms show ?thesis by (cases y) simp_all
qed

lemma canonicalJson_readable: "readable canonicalJson normal v"
proof (induction v rule: canonicalJson.induct)
  case (6 xs)
  show ?case
    unfolding readable_def
  proof (intro allI impI)
    fix y r s
    assume eq: "canonicalJson (JArr xs) @ r = canonicalJson y @ s"
    obtain ys where y: "y = JArr ys"
      using canonicalJson_kind [OF eq] kind_cases(5) [of y] by auto
    have "map normal xs = map normal ys \<and> r = s"
      by (rule readable_join [where f = canonicalJson and c = "CHR '']''"])
         (use 6 eq y canonicalJson_head canonicalJson_start in auto)
    with y show "normal (JArr xs) = normal y \<and> r = s" by simp
  qed
next
  case (7 ps)
  let ?f = "\<lambda>(k, v). jsonString k @ '':'' @ canonicalJson v" and ?g = "\<lambda>(k, v). (k, normal v)"
  have rd: "\<forall>x\<in>set (sort_key fst ps). readable ?f ?g x"
  proof
    fix x assume x: "x \<in> set (sort_key fst ps)"
    obtain k v where kv: "x = (k, v)" by (cases x)
    have v: "readable canonicalJson normal v" using 7 x kv by blast
    show "readable ?f ?g x"
      unfolding readable_def kv
      by (auto dest!: jsonString_inj readableD [OF v])
  qed
  show ?case
    unfolding readable_def
  proof (intro allI impI)
    fix y r s
    assume eq: "canonicalJson (JObj ps) @ r = canonicalJson y @ s"
    obtain qs where y: "y = JObj qs"
      using canonicalJson_kind [OF eq] kind_cases(6) [of y] by auto
    have "map ?g (sort_key fst ps) = map ?g (sort_key fst qs) \<and> r = s"
      by (rule readable_join [where f = ?f and c = "CHR ''}''", OF rd])
         (use eq y in \<open>auto simp: jsonString_def\<close>)
    with y show "normal (JObj ps) = normal y \<and> r = s" by simp
  qed
next
  case (3 b)
  show ?case unfolding readable_def
  proof (intro allI impI)
    fix y r s assume eq: "canonicalJson (JBool b) @ r = canonicalJson y @ s"
    moreover obtain c where "y = JBool c"
      using canonicalJson_kind [OF eq] kind_cases(2) [of y] by auto
    ultimately show "normal (JBool b) = normal y \<and> r = s" by (auto split: if_splits)
  qed
next
  case (4 n)
  show ?case unfolding readable_def
  proof (intro allI impI)
    fix y r s assume del: "delimited r" "delimited s" and eq: "canonicalJson (JNum n) @ r = canonicalJson y @ s"
    moreover obtain m where "y = JNum m"
      using canonicalJson_kind [OF eq] kind_cases(3) [of y] by auto
    ultimately show "normal (JNum n) = normal y \<and> r = s" using jsonNumber_inj [of n r m s] by simp
  qed
next
  case (5 t)
  show ?case unfolding readable_def
  proof (intro allI impI)
    fix y r s assume eq: "canonicalJson (JStr t) @ r = canonicalJson y @ s"
    moreover obtain u where "y = JStr u"
      using canonicalJson_kind [OF eq] kind_cases(4) [of y] by auto
    ultimately show "normal (JStr t) = normal y \<and> r = s" using jsonString_inj [of t r u s] by simp
  qed
next
  case 1
  show ?case unfolding readable_def canonicalJson.simps normal.simps
    by (metis canonicalJson_null)
next
  case 2
  show ?case unfolding readable_def canonicalJson.simps normal.simps
    by (metis canonicalJson_null)
qed

lemma canonicalJson_normal: "canonicalJson (normal v) = canonicalJson v"
proof (induction v rule: canonicalJson.induct)
  case (6 xs)
  have "map (canonicalJson \<circ> normal) xs = map canonicalJson xs" using 6 by simp
  then show ?case by (simp only: canonicalJson.simps normal.simps map_map)
next
  case (7 ps)
  let ?g = "\<lambda>(k, v). (k, normal v)" and ?f = "\<lambda>(k, v). jsonString k @ '':'' @ canonicalJson v"
  have "map fst (map ?g (sort_key fst ps)) = map fst (sort_key fst ps)" by (simp add: case_prod_beta comp_def)
  then have "sort_key fst (map ?g (sort_key fst ps)) = map ?g (sort_key fst ps)"
    by (intro sort_key_id_if_sorted) (metis sorted_sort_key)
  moreover have "?f (?g x) = ?f x" if "x \<in> set (sort_key fst ps)" for x using 7 that by (cases x) simp
  then have "map ?f (map ?g (sort_key fst ps)) = map ?f (sort_key fst ps)" by simp
  ultimately show ?case by (simp only: canonicalJson.simps normal.simps)
qed simp_all

lemma canonicalJson_eq_iff: "canonicalJson v = canonicalJson w \<longleftrightarrow> normal v = normal w"
proof
  assume "canonicalJson v = canonicalJson w"
  then show "normal v = normal w"
    using readableD [OF canonicalJson_readable, of v "[]" w "[]"] by simp
qed (metis canonicalJson_normal)

text \<open>Objects that differ only in the order of their keys have the same normal form.\<close>

lemma normal_reorder:
  assumes "distinct (map fst ps)" "mset ps = mset qs"
  shows "normal (JObj ps) = normal (JObj qs)"
proof -
  have "inj_on fst (set ps)" using assms(1) by (simp add: distinct_map)
  then have "sort_key fst ps = sort_key fst qs"
    using assms(2) by (intro sort_key_inj_key_eq) simp_all
  then show ?thesis by simp
qed

section \<open>Properties\<close>

text \<open>
  C36: a request fingerprint is exact. Two requests have the same canonical text precisely when they
  are the same value up to the order of object keys and \<open>undefined\<close> standing for \<open>null\<close>; no two
  other values, however nested, can be confused through quoting, commas or brackets.
\<close>

theorem canonicalizeIdempotencyInput_exact:
  "canonicalizeIdempotencyInput v = canonicalizeIdempotencyInput w \<longleftrightarrow> normal v = normal w"
  by (simp add: canonicalizeIdempotencyInput_def canonicalJson_eq_iff)

end
