(* ===== verification/Pagination.thy ===== *)
theory Pagination
  imports Errors
begin

text \<open>
  Cursor and offset pagination, \<open>src/src/lib/cursor-pagination.ts\<close> and
  \<open>src/src/lib/offset-pagination.ts\<close>, and the list options of \<open>src/src/middleware/query-options.ts\<close>.
  The rows a query selects are a list in the query's order.
\<close>

section \<open>Cursor pagination\<close>

record CursorPaginationInput =
  in_cursor :: "string option"
  in_limit :: nat

record CursorPaginationQuery =
  q_take :: nat
  q_cursor :: "string option"
  q_skip :: nat

record 'r CursorPage =
  pg_items :: "'r list"
  pg_nextCursor :: "string option"

definition paginateCursor ::
    "('r \<Rightarrow> string) \<Rightarrow> CursorPaginationInput \<Rightarrow> (CursorPaginationQuery \<Rightarrow> 'r list) \<Rightarrow> 'r CursorPage" where
  "paginateCursor rid input fetchPage =
     (let items = fetchPage
            (if truthy (in_cursor input)
             then \<lparr>q_take = in_limit input + 1, q_cursor = in_cursor input, q_skip = 1\<rparr>
             else \<lparr>q_take = in_limit input + 1, q_cursor = None, q_skip = 0\<rparr>);
          hasMore = length items > in_limit input;
          pageItems = (if hasMore then take (in_limit input) items else items)
      in \<lparr>pg_items = pageItems,
          pg_nextCursor = (if hasMore then (if pageItems = [] then None else Some (rid (last pageItems)))
                           else None)\<rparr>)"

text \<open>
  What the database returns for such a query: the rows from the cursor row on, without the first
  \<open>skip\<close> of them, at most \<open>take\<close>; nothing when the cursor row is not selected.
\<close>

definition fetch_rows :: "('r \<Rightarrow> string) \<Rightarrow> 'r list \<Rightarrow> CursorPaginationQuery \<Rightarrow> 'r list" where
  "fetch_rows rid rows q =
     take (q_take q) (drop (q_skip q)
       (case q_cursor q of None \<Rightarrow> rows | Some c \<Rightarrow> dropWhile (\<lambda>r. rid r \<noteq> c) rows))"

text \<open>A client that follows \<open>nextCursor\<close> until there is none; the fuel bounds the number of requests.\<close>

fun walkPages :: "nat \<Rightarrow> ('r \<Rightarrow> string) \<Rightarrow> 'r list \<Rightarrow> nat \<Rightarrow> string option \<Rightarrow> 'r list option" where
  "walkPages 0 rid rows limit cursor = None"
| "walkPages (Suc fuel) rid rows limit cursor =
     (let page = paginateCursor rid \<lparr>in_cursor = cursor, in_limit = limit\<rparr> (fetch_rows rid rows) in
      case pg_nextCursor page of
        None \<Rightarrow> Some (pg_items page)
      | Some c \<Rightarrow> map_option (\<lambda>rest. pg_items page @ rest) (walkPages fuel rid rows limit (Some c)))"

section \<open>Offset pagination\<close>

record OffsetPagination =
  op_page :: int
  op_pageSize :: int
  op_totalItems :: int
  op_totalPages :: int
  op_hasNext :: bool
  op_hasPrevious :: bool

definition MAX_OFFSET_ROWS :: int where
  "MAX_OFFSET_ROWS = 50000"

definition assertValidInput :: "int \<Rightarrow> int \<Rightarrow> thrown + unit" where
  "assertValidInput page pageSize =
     (if page < 1 then Inl (OtherError ''page must be a positive integer'')
      else if pageSize < 1 then Inl (OtherError ''pageSize must be a positive integer'')
      else Inr ())"

text \<open>\<open>Math.ceil(a / b)\<close> on integers.\<close>

definition ceil_div :: "int \<Rightarrow> int \<Rightarrow> int" where
  "ceil_div a b = - ((- a) div b)"

definition buildOffsetPagination :: "int \<Rightarrow> int \<Rightarrow> int \<Rightarrow> thrown + OffsetPagination" where
  "buildOffsetPagination page pageSize totalItems =
     (case assertValidInput page pageSize of
        Inl e \<Rightarrow> Inl e
      | Inr _ \<Rightarrow>
          let totalPages = (if totalItems = 0 then 0 else ceil_div totalItems pageSize) in
          Inr \<lparr>op_page = page, op_pageSize = pageSize, op_totalItems = totalItems, op_totalPages = totalPages,
               op_hasNext = page < totalPages, op_hasPrevious = page > 1 \<and> totalItems > 0\<rparr>)"

text \<open>The error message of a page beyond the depth limit quotes the page number, given as text.\<close>

definition paginateOffset ::
    "(int \<Rightarrow> string) \<Rightarrow> int \<Rightarrow> int \<Rightarrow> (int \<Rightarrow> int \<Rightarrow> 'r list) \<Rightarrow> int \<Rightarrow> thrown + 'r list \<times> OffsetPagination" where
  "paginateOffset show_int page pageSize fetchPage countTotal =
     (case assertValidInput page pageSize of
        Inl e \<Rightarrow> Inl e
      | Inr _ \<Rightarrow>
          let skip = (page - 1) * pageSize in
          if skip > MAX_OFFSET_ROWS
          then Inl (App (badRequest (Some (''Page '' @ show_int page @
                 '' is beyond the maximum offset depth; use cursor pagination for deeper results'')) None))
          else map_sum id (\<lambda>p. (fetchPage skip pageSize, p)) (buildOffsetPagination page pageSize countTotal))"

section \<open>List options\<close>

datatype sort_order = asc | desc

definition deterministicOrder :: "string \<Rightarrow> sort_order \<Rightarrow> (string \<times> sort_order) list" where
  "deterministicOrder field order = (if field = ''id'' then [(''id'', order)] else [(field, order), (''id'', order)])"

definition textSearch :: "string option \<Rightarrow> string list \<Rightarrow> (string \<times> string) list option" where
  "textSearch search columns =
     (if \<not> truthy search then None else Some (map (\<lambda>field. (field, the search)) columns))"

section \<open>Lemmas\<close>

lemma fetch_after:
  assumes "distinct (map rid (xs @ r # ys))"
  shows "fetch_rows rid (xs @ r # ys) \<lparr>q_take = n, q_cursor = Some (rid r), q_skip = 1\<rparr> = take n ys"
proof -
  have "dropWhile (\<lambda>x. rid x \<noteq> rid r) (xs @ r # ys) = r # ys"
    using assms by (subst dropWhile_append2) (auto simp: image_iff)
  then show ?thesis by (simp add: fetch_rows_def)
qed

lemma fetch_first: "fetch_rows rid rows \<lparr>q_take = n, q_cursor = None, q_skip = 0\<rparr> = take n rows"
  by (simp add: fetch_rows_def)

text \<open>One request reads the next \<open>limit\<close> rows and says whether there are more.\<close>

lemma page_of:
  assumes "0 < limit" and fetch: "fetch_rows rid rows
      (if truthy cursor then \<lparr>q_take = limit + 1, q_cursor = cursor, q_skip = 1\<rparr>
       else \<lparr>q_take = limit + 1, q_cursor = None, q_skip = 0\<rparr>) = take (limit + 1) ys"
  shows "paginateCursor rid \<lparr>in_cursor = cursor, in_limit = limit\<rparr> (fetch_rows rid rows) =
     \<lparr>pg_items = take limit ys,
      pg_nextCursor = (if limit < length ys then Some (rid (last (take limit ys))) else None)\<rparr>"
  unfolding paginateCursor_def Let_def
  by (simp only: CursorPaginationInput.select_convs fetch) (use assms(1) in \<open>auto simp: min_def\<close>)

text \<open>A full page of a longer list ends in a row that splits the list.\<close>

lemma page_split:
  assumes "0 < n" "n < length xs"
  shows "xs = take (n - 1) xs @ xs ! (n - 1) # drop n xs" "last (take n xs) = xs ! (n - 1)"
    "insert (xs ! (n - 1)) (set (drop n xs)) \<subseteq> set xs"
proof -
  show "xs = take (n - 1) xs @ xs ! (n - 1) # drop n xs"
    using assms id_take_nth_drop [of "n - 1" xs] by simp
  have "take n xs \<noteq> []" "length (take n xs) = n" using assms by auto
  then show "last (take n xs) = xs ! (n - 1)" using assms by (metis diff_less last_conv_nth nth_take zero_less_one)
  show "insert (xs ! (n - 1)) (set (drop n xs)) \<subseteq> set xs"
    using assms set_drop_subset [of n xs] by (auto intro: nth_mem)
qed

lemma walkPages_from:
  assumes "0 < limit" "distinct (map rid (xs @ r # ys))" "\<forall>x\<in>set (r # ys). rid x \<noteq> []" "length ys < fuel"
  shows "walkPages fuel rid (xs @ r # ys) limit (Some (rid r)) = Some ys"
  using assms(2-4)
proof (induction fuel arbitrary: xs r ys)
  case 0
  then show ?case by simp
next
  case (Suc fuel)
  let ?rows = "xs @ r # ys"
  have page: "paginateCursor rid \<lparr>in_cursor = Some (rid r), in_limit = limit\<rparr> (fetch_rows rid ?rows) =
     \<lparr>pg_items = take limit ys,
      pg_nextCursor = (if limit < length ys then Some (rid (last (take limit ys))) else None)\<rparr>"
    using assms(1) Suc.prems(2) fetch_after [OF Suc.prems(1)] by (intro page_of) simp_all
  show ?case
  proof (cases "limit < length ys")
    case False
    with page show ?thesis by simp
  next
    case True
    let ?a = "take (limit - 1) ys" and ?r = "ys ! (limit - 1)" and ?b = "drop limit ys"
    note split = page_split [OF assms(1) True]
    have rows: "?rows = (xs @ r # ?a) @ ?r # ?b" using split(1) by simp
    have ids: "\<forall>x\<in>set (?r # ?b). rid x \<noteq> []" using Suc.prems(2) split(3) by auto
    have "walkPages fuel rid ((xs @ r # ?a) @ ?r # ?b) limit (Some (rid ?r)) = Some ?b"
    proof (rule Suc.IH [OF _ ids])
      show "distinct (map rid ((xs @ r # ?a) @ ?r # ?b))" using Suc.prems(1) by (simp only: rows [symmetric])
    qed (use Suc.prems(3) True assms(1) in simp)
    then have "walkPages fuel rid ?rows limit (Some (rid ?r)) = Some ?b" by (simp only: rows [symmetric])
    with page True split(2) show ?thesis by simp
  qed
qed

lemma ceil_div_bounds: "0 < b \<Longrightarrow> (ceil_div a b - 1) * b < a \<and> a \<le> ceil_div a b * b"
proof -
  assume "0 < b"
  then have "(- a) div b * b \<le> - a \<and> - a < (- a) div b * b + b"
    by (metis add.commute div_mult_mod_eq le_add_same_cancel1 pos_mod_bound pos_mod_sign add_less_cancel_left)
  then show ?thesis by (simp add: ceil_div_def algebra_simps)
qed

section \<open>Properties\<close>

text \<open>
  Following cursors visits every row exactly once. For rows with distinct, non-empty
  identifiers and a positive page size, a client that starts without a cursor and follows
  \<open>nextCursor\<close> gets an answer after finitely many requests and has then received all rows, in order
  and without repetition.
\<close>

theorem paginateCursor_visits_all:
  assumes "0 < limit" "distinct (map rid rows)" "\<forall>r\<in>set rows. rid r \<noteq> []" "length rows < fuel"
  shows "walkPages fuel rid rows limit None = Some rows"
proof -
  obtain fuel' where fuel: "fuel = Suc fuel'" using assms(4) by (cases fuel) simp_all
  have page: "paginateCursor rid \<lparr>in_cursor = None, in_limit = limit\<rparr> (fetch_rows rid rows) =
     \<lparr>pg_items = take limit rows,
      pg_nextCursor = (if limit < length rows then Some (rid (last (take limit rows))) else None)\<rparr>"
    using assms(1) by (intro page_of) (simp_all add: fetch_first)
  show ?thesis
  proof (cases "limit < length rows")
    case False
    with page fuel show ?thesis by simp
  next
    case True
    let ?a = "take (limit - 1) rows" and ?r = "rows ! (limit - 1)" and ?b = "drop limit rows"
    note split = page_split [OF assms(1) True]
    have "walkPages fuel' rid (?a @ ?r # ?b) limit (Some (rid ?r)) = Some ?b"
    proof (rule walkPages_from [OF assms(1)])
      show "distinct (map rid (?a @ ?r # ?b))" using assms(2) by (simp only: split(1) [symmetric])
      show "\<forall>x\<in>set (?r # ?b). rid x \<noteq> []" using assms(3) split(3) by auto
    qed (use assms fuel True in simp)
    then have "walkPages fuel' rid rows limit (Some (rid ?r)) = Some ?b" by (simp only: split(1) [symmetric])
    with page True split(2) fuel show ?thesis by simp
  qed
qed

theorem paginateCursor_visits_all_witness:
  "walkPages 6 (\<lambda>r. r) [''a'', ''b'', ''c'', ''d'', ''e''] 2 None = Some [''a'', ''b'', ''c'', ''d'', ''e'']"
  by (rule paginateCursor_visits_all) simp_all

text \<open>
  offset pages are consistent with the total. For a valid request, the number of pages is the
  least that holds all rows, \<open>hasNext\<close> holds exactly when a later page has a row, and a page is
  refused exactly when its offset exceeds 50000 rows.
\<close>

theorem paginateOffset_consistent:
  assumes "1 \<le> page" "1 \<le> pageSize" "0 \<le> totalItems"
  shows "(\<exists>p. paginateOffset show_int page pageSize fetch totalItems = Inr (fetch ((page - 1) * pageSize) pageSize, p) \<and>
            (op_hasNext p \<longleftrightarrow> page * pageSize < totalItems) \<and>
            totalItems \<le> op_totalPages p * pageSize \<and> (op_totalPages p - 1) * pageSize < max 1 totalItems)
         \<longleftrightarrow> (page - 1) * pageSize \<le> 50000"
proof -
  let ?n = "if totalItems = 0 then 0 else ceil_div totalItems pageSize"
  note c = ceil_div_bounds [of pageSize totalItems]
  have tot: "totalItems \<le> ?n * pageSize \<and> (?n - 1) * pageSize < max 1 totalItems" using c assms by auto
  have "page < ?n \<longleftrightarrow> page * pageSize < totalItems"
  proof
    assume "page < ?n"
    then have "page * pageSize \<le> (?n - 1) * pageSize" using assms by (intro mult_right_mono) auto
    moreover from \<open>page < ?n\<close> assms have "totalItems \<noteq> 0" by auto
    ultimately have "page * pageSize \<le> (ceil_div totalItems pageSize - 1) * pageSize" by simp
    then show "page * pageSize < totalItems" using c assms by linarith
  next
    assume "page * pageSize < totalItems"
    with tot assms have "page * pageSize < ?n * pageSize" by linarith
    with assms show "page < ?n" by (simp add: mult_less_cancel_right)
  qed
  with tot assms show ?thesis
    by (auto simp: paginateOffset_def buildOffsetPagination_def assertValidInput_def Let_def MAX_OFFSET_ROWS_def
        simp del: max_less_iff_conj)
qed

theorem paginateOffset_consistent_witness:
  "(\<exists>p. paginateOffset (\<lambda>_. []) 2 10 (\<lambda>s t. [s, t]) 25 = Inr ([10, 10], p) \<and> op_hasNext p)"
  using paginateOffset_consistent [of 2 10 25 "\<lambda>_. []" "\<lambda>s t. [s, t]"] by auto

end
