(* ===== verification/Audit_Trail.thy ===== *)
theory Audit_Trail
  imports Canonical_Json Tenant_Scope Pagination
begin

text \<open>
  The audit trail: signatures of \<open>src/src/modules/audit/audit.integrity.ts\<close>, the writer and the
  reader of \<open>src/src/modules/audit/audit.service.ts\<close>, and the maintenance jobs \<open>audit-verify.job.ts\<close> and
  \<open>audit-backfill.ts\<close> under \<open>src/src/maintenance/\<close>. The ISO text of a date is an argument.
\<close>

section \<open>Signatures\<close>

record AuditIntegrityRecord =
  au_id :: ident
  au_organizationId :: "string option"
  au_actorUserId :: "string option"
  au_action :: string
  au_entityType :: string
  au_entityId :: "string option"
  au_requestId :: "string option"
  au_ipHash :: "string option"
  au_userAgent :: "string option"
  au_metadata :: "jsval option"
  au_createdAt :: time
  au_updatedAt :: "time option"
  au_deletedAt :: "time option"
  au_integrityVersion :: "int option"

text \<open>A stored event also has its signature; it is nullable only in rows older than the column.\<close>

record AuditEvent = AuditIntegrityRecord +
  au_integrityHash :: "string option"

record audit_env =
  AUDIT_INTEGRITY_SECRET :: string
  COOKIE_SECRET :: string

definition jsonOrNull :: "string option \<Rightarrow> jsval" where
  "jsonOrNull x = (case x of None \<Rightarrow> Null | Some s \<Rightarrow> JStr s)"

definition signedPayload :: "(time \<Rightarrow> string) \<Rightarrow> ('a) AuditIntegrityRecord_scheme \<Rightarrow> jsval" where
  "signedPayload toISO r =
     (let version = orElse (au_integrityVersion r) 1 in
      JObj ([(''version'', JNum version)] @
        (if version \<ge> 2 then [(''organizationId'', jsonOrNull (au_organizationId r))] else []) @
        [(''id'', JStr (au_id r)),
         (''actorUserId'', jsonOrNull (au_actorUserId r)),
         (''action'', JStr (au_action r)),
         (''entityType'', JStr (au_entityType r)),
         (''entityId'', jsonOrNull (au_entityId r)),
         (''requestId'', jsonOrNull (au_requestId r)),
         (''ipHash'', jsonOrNull (au_ipHash r)),
         (''userAgent'', jsonOrNull (au_userAgent r)),
         (''metadata'', orElse (au_metadata r) Null),
         (''createdAt'', JStr (toISO (au_createdAt r))),
         (''updatedAt'', JStr (toISO (orElse (au_updatedAt r) (au_createdAt r)))),
         (''deletedAt'', jsonOrNull (map_option toISO (au_deletedAt r)))]))"

definition signingSecret :: "audit_env \<Rightarrow> string \<Rightarrow> string" where
  "signingSecret env secret = (if secret \<noteq> [] then secret else COOKIE_SECRET env)"

definition signAuditEvent ::
    "audit_env \<Rightarrow> crypto_prims \<Rightarrow> (time \<Rightarrow> string) \<Rightarrow> ('a) AuditIntegrityRecord_scheme \<Rightarrow> string \<Rightarrow> string" where
  "signAuditEvent env P toISO record secret =
     base64url (hmac P (signingSecret env secret) (canonicalJson (signedPayload toISO record)))"

definition verifyAuditEvent ::
    "audit_env \<Rightarrow> crypto_prims \<Rightarrow> (time \<Rightarrow> string) \<Rightarrow> AuditEvent \<Rightarrow> string \<Rightarrow> bool" where
  "verifyAuditEvent env P toISO record secret =
     (let key = signingSecret env secret in
      if \<not> truthy (au_integrityHash record) \<or> key = [] then False
      else let expected = signAuditEvent env P toISO record key; actual = the (au_integrityHash record) in
           length actual = length expected \<and> timingSafeEqual actual expected)"

section \<open>Writing and reading events\<close>

record AuditInput =
  ai_actorUserId :: "string option"
  ai_action :: string
  ai_entityType :: string
  ai_entityId :: "string option"
  ai_requestId :: "string option"
  ai_ip :: "string option"
  ai_userAgent :: "string option"
  ai_metadata :: "jsval option"

definition AUDIT_INTEGRITY_VERSION :: int where
  "AUDIT_INTEGRITY_VERSION = 2"

text \<open>
  The environment of the writer: configuration, primitives, the ambient context, and per call the
  generated identifier and the clock reading.
\<close>

record audit_deps =
  ad_env :: audit_env
  ad_crypto :: crypto_env
  ad_prims :: crypto_prims
  ad_iso :: "time \<Rightarrow> string"

definition writeAuditEvent ::
    "audit_deps \<Rightarrow> RequestContext option \<Rightarrow> ident \<Rightarrow> time \<Rightarrow> AuditInput \<Rightarrow> AuditEvent table \<Rightarrow>
     thrown + AuditEvent table" where
  "writeAuditEvent D ctx eid createdAt input events =
     (case (if truthy (ai_ip input)
            then map_sum (\<lambda>e. e) Some (hashMetadata (ad_crypto D) (ad_prims D) (the (ai_ip input)))
            else Inr None) of
        Inl e \<Rightarrow> Inl e
      | Inr ipHash \<Rightarrow>
          let row = \<lparr>au_id = eid, au_organizationId = activeOrganization ctx,
                     au_actorUserId = ai_actorUserId input, au_action = ai_action input,
                     au_entityType = ai_entityType input, au_entityId = ai_entityId input,
                     au_requestId = ai_requestId input, au_ipHash = ipHash,
                     au_userAgent = map_option (take 500) (ai_userAgent input),
                     au_metadata = ai_metadata input, au_createdAt = createdAt,
                     au_updatedAt = Some createdAt, au_deletedAt = None,
                     au_integrityVersion = Some AUDIT_INTEGRITY_VERSION,
                     au_integrityHash = None\<rparr>;
              integrityHash = signAuditEvent (ad_env D) (ad_prims D) (ad_iso D) row
                                (AUDIT_INTEGRITY_SECRET (ad_env D))
          in Inr (row\<lparr>au_integrityHash := Some integrityHash\<rparr> # events))"

definition listAuditEvents ::
    "CursorPaginationInput \<Rightarrow> string option \<Rightarrow> string option \<Rightarrow> AuditEvent list \<Rightarrow> AuditEvent CursorPage" where
  "listAuditEvents input actorUserId entityType ordered =
     paginateCursor au_id input (fetch_rows au_id
       (filter (\<lambda>e. au_deletedAt e = None \<and>
          (actorUserId = None \<or> au_actorUserId e = actorUserId) \<and>
          (entityType = None \<or> Some (au_entityType e) = entityType)) ordered))"

section \<open>Maintenance jobs\<close>

definition BATCH_SIZE :: nat where
  "BATCH_SIZE = 500"

record AuditIntegrityResult =
  res_signed :: nat
  res_unsigned :: nat
  res_invalid :: nat

definition tally ::
    "audit_env \<Rightarrow> crypto_prims \<Rightarrow> (time \<Rightarrow> string) \<Rightarrow> AuditEvent \<Rightarrow> AuditIntegrityResult \<Rightarrow> AuditIntegrityResult" where
  "tally env P toISO event res =
     (if \<not> truthy (au_integrityHash event) then res\<lparr>res_unsigned := res_unsigned res + 1\<rparr>
      else if verifyAuditEvent env P toISO event (AUDIT_INTEGRITY_SECRET env)
      then res\<lparr>res_signed := res_signed res + 1\<rparr>
      else res\<lparr>res_invalid := res_invalid res + 1\<rparr>)"

text \<open>The scan over the events in the order of their identifiers, one batch per round of the loop.\<close>

fun verifyAuditIntegrity ::
    "nat \<Rightarrow> audit_env \<Rightarrow> crypto_prims \<Rightarrow> (time \<Rightarrow> string) \<Rightarrow> AuditEvent list \<Rightarrow> string option \<Rightarrow>
     AuditIntegrityResult \<Rightarrow> AuditIntegrityResult option" where
  "verifyAuditIntegrity 0 env P toISO ordered cursor res = None"
| "verifyAuditIntegrity (Suc fuel) env P toISO ordered cursor res =
     (let events = fetch_rows au_id ordered
            (if truthy cursor then \<lparr>q_take = BATCH_SIZE, q_cursor = cursor, q_skip = 1\<rparr>
             else \<lparr>q_take = BATCH_SIZE, q_cursor = None, q_skip = 0\<rparr>);
          res' = fold (tally env P toISO) events res
      in if length events < BATCH_SIZE then Some res'
         else verifyAuditIntegrity fuel env P toISO ordered (Some (au_id (last events))) res')"

definition backfillOne ::
    "audit_env \<Rightarrow> crypto_prims \<Rightarrow> (time \<Rightarrow> string) \<Rightarrow> AuditEvent \<Rightarrow> AuditEvent table \<times> nat \<Rightarrow>
     AuditEvent table \<times> nat" where
  "backfillOne env P toISO event st =
     (let integrityHash = signAuditEvent env P toISO event (AUDIT_INTEGRITY_SECRET env);
          guard = (\<lambda>e. au_id e = au_id event \<and> au_integrityHash e = None)
      in (update_many guard (\<lambda>e. e\<lparr>au_integrityHash := Some integrityHash\<rparr>) (fst st),
          snd st + matching guard (fst st)))"

fun backfill ::
    "nat \<Rightarrow> audit_env \<Rightarrow> crypto_prims \<Rightarrow> (time \<Rightarrow> string) \<Rightarrow> AuditEvent table \<times> nat \<Rightarrow>
     (AuditEvent table \<times> nat) option" where
  "backfill 0 env P toISO st = None"
| "backfill (Suc fuel) env P toISO st =
     (let events = take BATCH_SIZE (filter (\<lambda>e. au_integrityHash e = None) (fst st)) in
      if events = [] then Some st else backfill fuel env P toISO (fold (backfillOne env P toISO) events st))"

section \<open>Lemmas\<close>

lemma base64url_nonempty: "base64url x = [] \<longleftrightarrow> x = []"
  by (cases x rule: base64url.cases) simp_all

lemma verify_iff:
  "verifyAuditEvent env P toISO r secret \<longleftrightarrow>
     signingSecret env secret \<noteq> [] \<and> truthy (au_integrityHash r) \<and>
     au_integrityHash r = Some (signAuditEvent env P toISO r secret)"
  by (cases "au_integrityHash r")
     (auto simp: verifyAuditEvent_def Let_def timingSafeEqual_def list.rel_eq signAuditEvent_def signingSecret_def)

text \<open>The signature does not cover the signature itself.\<close>

lemma signedPayload_hash [simp]:
  "signedPayload toISO (r\<lparr>au_integrityHash := h\<rparr>) = signedPayload toISO r"
  by (cases "orElse (au_integrityVersion r) 1 \<ge> 2") (simp_all add: signedPayload_def)

lemma sign_hash [simp]:
  "signAuditEvent env P toISO (r\<lparr>au_integrityHash := h\<rparr>) secret = signAuditEvent env P toISO r secret"
  by (simp add: signAuditEvent_def)

text \<open>Equal normal forms of two objects give equal normal forms of each property.\<close>

lemma map_of_sort_key: "distinct (map fst ps) \<Longrightarrow> map_of (sort_key fst ps) = map_of ps"
proof -
  assume "distinct (map fst ps)"
  moreover from this have "distinct (map fst (sort_key fst ps))"
    by (metis distinct_map distinct_sort set_sort)
  ultimately show ?thesis by (simp add: map_of_inject_set)
qed

lemma normal_obj_prop:
  assumes "normal (JObj ps) = normal (JObj qs)" "distinct (map fst ps)" "distinct (map fst qs)"
  shows "map_option normal (map_of ps k) = map_option normal (map_of qs k)"
proof -
  have "map_of (map (\<lambda>(k, v). (k, normal v)) (sort_key fst ps)) k =
        map_of (map (\<lambda>(k, v). (k, normal v)) (sort_key fst qs)) k" using assms(1) by simp
  then show ?thesis by (simp add: map_of_map map_of_sort_key assms(2,3))
qed

lemma jsonOrNull_normal [simp]: "normal (jsonOrNull x) = jsonOrNull x"
  by (simp add: jsonOrNull_def split: option.split)

lemma jsonOrNull_eq [simp]: "jsonOrNull x = jsonOrNull y \<longleftrightarrow> x = y"
  by (auto simp: jsonOrNull_def split: option.splits)

text \<open>The fields a signature covers.\<close>

definition same_event :: "AuditEvent \<Rightarrow> AuditEvent \<Rightarrow> bool" where
  "same_event r r' \<longleftrightarrow>
     au_id r = au_id r' \<and> au_actorUserId r = au_actorUserId r' \<and> au_action r = au_action r' \<and>
     au_entityType r = au_entityType r' \<and> au_entityId r = au_entityId r' \<and>
     au_requestId r = au_requestId r' \<and> au_ipHash r = au_ipHash r' \<and> au_userAgent r = au_userAgent r' \<and>
     normal (orElse (au_metadata r) Null) = normal (orElse (au_metadata r') Null) \<and>
     au_createdAt r = au_createdAt r' \<and> au_deletedAt r = au_deletedAt r' \<and>
     orElse (au_integrityVersion r) 1 = orElse (au_integrityVersion r') 1 \<and>
     (orElse (au_integrityVersion r) 1 \<ge> 2 \<longrightarrow> au_organizationId r = au_organizationId r')"

fun properties_of :: "jsval \<Rightarrow> (string \<times> jsval) list" where
  "properties_of (JObj ps) = ps"
| "properties_of _ = []"

lemma payload_obj: "signedPayload toISO r = JObj (properties_of (signedPayload toISO r))"
  "distinct (map fst (properties_of (signedPayload toISO r)))"
  by (auto simp: signedPayload_def Let_def split: if_split)

lemma payload_lookup:
  fixes toISO :: "time \<Rightarrow> string"
  defines "look \<equiv> \<lambda>r k. map_of (properties_of (signedPayload toISO r)) k"
  shows "look r ''version'' = Some (JNum (orElse (au_integrityVersion r) 1))"
    "look r ''id'' = Some (JStr (au_id r))"
    "look r ''actorUserId'' = Some (jsonOrNull (au_actorUserId r))"
    "look r ''action'' = Some (JStr (au_action r))"
    "look r ''entityType'' = Some (JStr (au_entityType r))"
    "look r ''entityId'' = Some (jsonOrNull (au_entityId r))"
    "look r ''requestId'' = Some (jsonOrNull (au_requestId r))"
    "look r ''ipHash'' = Some (jsonOrNull (au_ipHash r))"
    "look r ''userAgent'' = Some (jsonOrNull (au_userAgent r))"
    "look r ''metadata'' = Some (orElse (au_metadata r) Null)"
    "look r ''createdAt'' = Some (JStr (toISO (au_createdAt r)))"
    "look r ''deletedAt'' = Some (jsonOrNull (map_option toISO (au_deletedAt r)))"
    "orElse (au_integrityVersion r) 1 \<ge> 2 \<Longrightarrow> look r ''organizationId'' = Some (jsonOrNull (au_organizationId r))"
  by (cases "orElse (au_integrityVersion r) 1 \<ge> 2"; simp add: look_def signedPayload_def)+

lemma signedPayload_same:
  assumes "normal (signedPayload toISO r) = normal (signedPayload toISO r')" "inj toISO"
  shows "same_event r r'"
proof -
  have "normal (JObj (properties_of (signedPayload toISO r))) = normal (JObj (properties_of (signedPayload toISO r')))"
    using assms(1) by (metis payload_obj(1))
  note p = normal_obj_prop [OF this payload_obj(2) payload_obj(2)]
  have v: "orElse (au_integrityVersion r) 1 = orElse (au_integrityVersion r') 1"
    using p [of "''version''"] by (simp add: payload_lookup)
  have "map_option toISO (au_deletedAt r) = map_option toISO (au_deletedAt r')"
    using p [of "''deletedAt''"] by (simp add: payload_lookup)
  then have "au_deletedAt r = au_deletedAt r'" by (rule injD [OF option.inj_map [OF assms(2)]])
  moreover have "au_createdAt r = au_createdAt r'"
    using p [of "''createdAt''"] assms(2) by (simp add: payload_lookup inj_eq)
  moreover have "orElse (au_integrityVersion r) 1 \<ge> 2 \<longrightarrow> au_organizationId r = au_organizationId r'"
    using p [of "''organizationId''"] v by (auto simp: payload_lookup)
  ultimately show ?thesis
    using v p [of "''id''"] p [of "''actorUserId''"] p [of "''action''"] p [of "''entityType''"]
      p [of "''entityId''"] p [of "''requestId''"] p [of "''ipHash''"] p [of "''userAgent''"] p [of "''metadata''"]
    by (simp add: same_event_def payload_lookup)
qed

text \<open>The three-way count of a scan.\<close>

definition count_events ::
    "audit_env \<Rightarrow> crypto_prims \<Rightarrow> (time \<Rightarrow> string) \<Rightarrow> AuditEvent list \<Rightarrow> AuditIntegrityResult" where
  "count_events env P toISO es =
     \<lparr>res_signed = matching (\<lambda>e. verifyAuditEvent env P toISO e (AUDIT_INTEGRITY_SECRET env)) es,
      res_unsigned = matching (\<lambda>e. \<not> truthy (au_integrityHash e)) es,
      res_invalid = matching (\<lambda>e. truthy (au_integrityHash e) \<and>
                       \<not> verifyAuditEvent env P toISO e (AUDIT_INTEGRITY_SECRET env)) es\<rparr>"

lemma fold_tally_snoc:
  "fold (tally env P toISO) ys (count_events env P toISO xs) = count_events env P toISO (xs @ ys)"
proof (induction ys arbitrary: xs)
  case Nil
  then show ?case by simp
next
  case (Cons y ys)
  have "tally env P toISO y (count_events env P toISO xs) = count_events env P toISO (xs @ [y])"
    by (auto simp: tally_def count_events_def matching_def verify_iff)
  then show ?case using Cons [of "xs @ [y]"] by simp
qed

lemma verify_from:
  assumes "distinct (map au_id (xs @ r # ys))" "\<forall>x\<in>set (r # ys). au_id x \<noteq> []" "length ys < fuel"
  shows "verifyAuditIntegrity fuel env P toISO (xs @ r # ys) (Some (au_id r)) (count_events env P toISO (xs @ [r]))
     = Some (count_events env P toISO (xs @ r # ys))"
  using assms
proof (induction fuel arbitrary: xs r ys)
  case 0
  then show ?case by simp
next
  case (Suc fuel)
  let ?es = "take BATCH_SIZE ys" and ?rows = "xs @ r # ys"
  have es: "fetch_rows au_id ?rows \<lparr>q_take = BATCH_SIZE, q_cursor = Some (au_id r), q_skip = 1\<rparr> = ?es"
    by (rule fetch_after [OF Suc.prems(1)])
  have run: "verifyAuditIntegrity (Suc fuel) env P toISO ?rows (Some (au_id r)) (count_events env P toISO (xs @ [r]))
     = (if length ?es < BATCH_SIZE then Some (count_events env P toISO (xs @ r # ?es))
        else verifyAuditIntegrity fuel env P toISO ?rows (Some (au_id (last ?es))) (count_events env P toISO (xs @ r # ?es)))"
  proof -
    have "truthy (Some (au_id r))" using Suc.prems(2) by simp
    then show ?thesis
      by (simp only: verifyAuditIntegrity.simps Let_def es if_True fold_tally_snoc append_assoc append_Cons append_Nil)
  qed
  show ?case
  proof (cases "length ys < BATCH_SIZE")
    case True
    then show ?thesis unfolding run by simp
  next
    case False
    let ?a = "take (BATCH_SIZE - 1) ys" and ?r = "ys ! (BATCH_SIZE - 1)" and ?b = "drop BATCH_SIZE ys"
    have ne: "0 < BATCH_SIZE" "BATCH_SIZE - 1 < length ys" using False by (auto simp: BATCH_SIZE_def)
    have split: "ys = ?a @ ?r # ?b" and es2: "?es = ?a @ [?r]"
      using id_take_nth_drop [OF ne(2)] take_Suc_conv_app_nth [OF ne(2)] ne(1) by simp_all
    have rows: "?rows = (xs @ r # ?a) @ ?r # ?b" using split by simp
    have "verifyAuditIntegrity fuel env P toISO ((xs @ r # ?a) @ ?r # ?b) (Some (au_id ?r))
        (count_events env P toISO ((xs @ r # ?a) @ [?r])) = Some (count_events env P toISO ((xs @ r # ?a) @ ?r # ?b))"
    proof (rule Suc.IH)
      show "distinct (map au_id ((xs @ r # ?a) @ ?r # ?b))" using Suc.prems(1) by (simp only: rows [symmetric])
      have "set (?r # ?b) \<subseteq> set ys" using ne set_drop_subset [of BATCH_SIZE ys] by auto
      then show "\<forall>x\<in>set (?r # ?b). au_id x \<noteq> []" using Suc.prems(2) by auto
      show "length ?b < fuel" using Suc.prems(3) False ne by simp
    qed
    then have "verifyAuditIntegrity fuel env P toISO ?rows (Some (au_id (last ?es))) (count_events env P toISO (xs @ r # ?es))
      = Some (count_events env P toISO ?rows)"
      unfolding rows [symmetric] es2 last_snoc by simp
    moreover have "\<not> length ?es < BATCH_SIZE" using False by simp
    ultimately show ?thesis unfolding run by simp
  qed
qed

lemma verify_all:
  assumes "distinct (map au_id rows)" "\<forall>x\<in>set rows. au_id x \<noteq> []" "length rows < fuel"
  shows "verifyAuditIntegrity fuel env P toISO rows None (count_events env P toISO []) =
     Some (count_events env P toISO rows)"
proof -
  obtain fuel' where fuel: "fuel = Suc fuel'" using assms(3) by (cases fuel) simp_all
  let ?es = "take BATCH_SIZE rows"
  have run: "verifyAuditIntegrity fuel env P toISO rows None (count_events env P toISO []) =
     (if length ?es < BATCH_SIZE then Some (count_events env P toISO ?es)
      else verifyAuditIntegrity fuel' env P toISO rows (Some (au_id (last ?es))) (count_events env P toISO ?es))"
    unfolding fuel
    by (simp only: verifyAuditIntegrity.simps Let_def truthy.simps if_False fetch_first fold_tally_snoc append_Nil)
  show ?thesis
  proof (cases "length rows < BATCH_SIZE")
    case True
    then show ?thesis unfolding run by simp
  next
    case False
    let ?a = "take (BATCH_SIZE - 1) rows" and ?r = "rows ! (BATCH_SIZE - 1)" and ?b = "drop BATCH_SIZE rows"
    have ne: "0 < BATCH_SIZE" "BATCH_SIZE - 1 < length rows" using False by (auto simp: BATCH_SIZE_def)
    have split: "rows = ?a @ ?r # ?b" and es2: "?es = ?a @ [?r]"
      using id_take_nth_drop [OF ne(2)] take_Suc_conv_app_nth [OF ne(2)] ne(1) by simp_all
    have "verifyAuditIntegrity fuel' env P toISO (?a @ ?r # ?b) (Some (au_id ?r)) (count_events env P toISO (?a @ [?r]))
      = Some (count_events env P toISO (?a @ ?r # ?b))"
    proof (rule verify_from)
      show "distinct (map au_id (?a @ ?r # ?b))" using assms(1) by (simp only: split [symmetric])
      have "set (?r # ?b) \<subseteq> set rows" using ne set_drop_subset [of BATCH_SIZE rows] by auto
      then show "\<forall>x\<in>set (?r # ?b). au_id x \<noteq> []" using assms(2) by auto
      show "length ?b < fuel'" using assms(3) fuel False ne by simp
    qed
    then have "verifyAuditIntegrity fuel' env P toISO rows (Some (au_id (last ?es))) (count_events env P toISO ?es)
      = Some (count_events env P toISO rows)"
      unfolding split [symmetric] es2 last_snoc by simp
    moreover have "\<not> length ?es < BATCH_SIZE" using False by simp
    ultimately show ?thesis unfolding run by simp
  qed
qed

text \<open>A writer's environment for the concrete instances: transparent primitives and dates.\<close>

definition demo_audit :: audit_deps where
  "demo_audit = \<lparr>ad_env = \<lparr>AUDIT_INTEGRITY_SECRET = ''audit'', COOKIE_SECRET = ''cookie''\<rparr>, ad_crypto = demo_env,
     ad_prims = demo_prims, ad_iso = jsonNumber\<rparr>"

definition demo_input :: AuditInput where
  "demo_input = \<lparr>ai_actorUserId = Some ''u1'', ai_action = ''auth.login'', ai_entityType = ''User'',
     ai_entityId = Some ''u1'', ai_requestId = Some ''r1'', ai_ip = None, ai_userAgent = Some ''agent'',
     ai_metadata = Some (JObj [(''channel'', JStr ''email'')])\<rparr>"

definition demo_event :: AuditEvent where
  "demo_event =
     (let e = \<lparr>au_id = ''e1'', au_organizationId = Some ''o1'', au_actorUserId = Some ''u1'', au_action = ''auth.login'',
        au_entityType = ''User'', au_entityId = Some ''u1'', au_requestId = None, au_ipHash = None,
        au_userAgent = None, au_metadata = Some (JObj [(''channel'', JStr ''email'')]), au_createdAt = 5,
        au_updatedAt = Some 5, au_deletedAt = None, au_integrityVersion = Some 2, au_integrityHash = None\<rparr>
      in e\<lparr>au_integrityHash := Some (signAuditEvent (ad_env demo_audit) demo_prims jsonNumber e ''audit'')\<rparr>)"

lemma demo_audit_simps: "ad_prims demo_audit = demo_prims" "ad_iso demo_audit = jsonNumber"
  "AUDIT_INTEGRITY_SECRET (ad_env demo_audit) = ''audit''"
  by (simp_all add: demo_audit_def)

lemma demo_event_verifies:
  "verifyAuditEvent (ad_env demo_audit) demo_prims jsonNumber demo_event ''audit''"
  "verifyAuditEvent (ad_env demo_audit) demo_prims jsonNumber (demo_event\<lparr>au_updatedAt := None\<rparr>) ''audit''"
  by (simp_all add: verify_iff demo_event_def Let_def signingSecret_def signAuditEvent_def demo_prims_def
      base64url_nonempty signedPayload_def)

lemma demo_iso: "inj jsonNumber"
  by (rule injI) (rule jsonNumber_eq)

section \<open>Properties\<close>



text \<open>
  every event the writer stores verifies, is version 2, carries the organization of the request
  it was written under, and leaves the existing events as they were.
\<close>

theorem writeAuditEvent_verifies:
  assumes "writeAuditEvent D ctx eid now input events = Inr events'"
    and "signingSecret (ad_env D) (AUDIT_INTEGRITY_SECRET (ad_env D)) \<noteq> []"
    and "\<And>key m. hmac (ad_prims D) key m \<noteq> []"
  shows "\<exists>e. events' = e # events \<and> au_id e = eid \<and> au_organizationId e = activeOrganization ctx \<and>
           au_integrityVersion e = Some 2 \<and>
           verifyAuditEvent (ad_env D) (ad_prims D) (ad_iso D) e (AUDIT_INTEGRITY_SECRET (ad_env D))"
  using assms
  by (auto simp: writeAuditEvent_def Let_def verify_iff AUDIT_INTEGRITY_VERSION_def signAuditEvent_def
      base64url_nonempty signedPayload_def split: sum.splits)

theorem writeAuditEvent_verifies_witness:
  "\<exists>e. writeAuditEvent demo_audit (Some (RequestCtx ''r1'' None (Some ''o1''))) ''e1'' 5 demo_input [] = Inr [e] \<and>
     verifyAuditEvent (ad_env demo_audit) demo_prims jsonNumber e ''audit''"
proof -
  obtain ev where w: "writeAuditEvent demo_audit (Some (RequestCtx ''r1'' None (Some ''o1''))) ''e1'' 5 demo_input [] = Inr ev"
    by (simp add: writeAuditEvent_def demo_input_def Let_def)
  moreover have "hmac (ad_prims demo_audit) key m \<noteq> []" for key m by (simp add: demo_audit_def demo_prims_def)
  ultimately show ?thesis
    using writeAuditEvent_verifies [OF w] by (auto simp: demo_audit_simps signingSecret_def)
qed

text \<open>
  the integrity scan accounts for every event. However many batches it needs, the scheduled scan
  returns, and its three counters are the numbers of verifying, unsigned and invalid events of the
  whole table.
\<close>

theorem verifyAuditIntegrity_counts:
  assumes "distinct (map au_id rows)" "\<forall>x\<in>set rows. au_id x \<noteq> []" "length rows < fuel"
  shows "verifyAuditIntegrity fuel env P toISO rows None \<lparr>res_signed = 0, res_unsigned = 0, res_invalid = 0\<rparr> =
     Some \<lparr>res_signed = matching (\<lambda>e. verifyAuditEvent env P toISO e (AUDIT_INTEGRITY_SECRET env)) rows,
           res_unsigned = matching (\<lambda>e. \<not> truthy (au_integrityHash e)) rows,
           res_invalid = matching (\<lambda>e. truthy (au_integrityHash e) \<and>
             \<not> verifyAuditEvent env P toISO e (AUDIT_INTEGRITY_SECRET env)) rows\<rparr>"
  using verify_all [OF assms, of env P toISO] by (simp add: count_events_def matching_def)

theorem verifyAuditIntegrity_counts_witness:
  "verifyAuditIntegrity 2 (ad_env demo_audit) demo_prims jsonNumber [demo_event] None
     \<lparr>res_signed = 0, res_unsigned = 0, res_invalid = 0\<rparr> = Some \<lparr>res_signed = 1, res_unsigned = 0, res_invalid = 0\<rparr>"
proof -
  have "au_id demo_event \<noteq> []" by (simp add: demo_event_def Let_def)
  moreover have "truthy (au_integrityHash demo_event)" using demo_event_verifies(1) verify_iff by blast
  ultimately show ?thesis
    using verifyAuditIntegrity_counts [of "[demo_event]" 2 "ad_env demo_audit" demo_prims jsonNumber]
      demo_event_verifies(1) by (simp add: matching_def demo_audit_simps)
qed

end
