(* ===== verification/Idempotency.thy ===== *)
theory Idempotency
  imports Canonical_Json Tenant_Scope
begin

text \<open>
  Idempotent execution, \<open>src/src/lib/idempotency.ts\<close> and \<open>src/src/middleware/idempotency.ts\<close>: the
  lease protocol of \<open>runIdempotent\<close> for operations with external effects, first as one sequential
  call and then as a step relation of concurrent processes, and \<open>runIdempotentTransaction\<close> for
  database-only operations. A response is represented by its JSON text.
\<close>

section \<open>Actors and keys\<close>

definition idempotencyActorSuffix :: "string option \<Rightarrow> thrown + string" where
  "idempotencyActorSuffix authUser =
     (case authUser of Some u \<Rightarrow> Inr (''user:'' @ u) | None \<Rightarrow> Inl (App (unauthenticated None)))"

definition idempotencyActorKey :: "string option \<Rightarrow> string option \<Rightarrow> thrown + string" where
  "idempotencyActorKey authUser organizationId =
     (case idempotencyActorSuffix authUser of
        Inl e \<Rightarrow> Inl e
      | Inr suffix \<Rightarrow>
          Inr (if truthy organizationId then ''org:'' @ the organizationId @ '':'' @ suffix else suffix))"

definition requireIdempotencyKey :: "string option \<Rightarrow> thrown + string" where
  "requireIdempotencyKey header =
     (let value = map_option trim header in
      if \<not> truthy value \<or> length (the value) < 8 \<or> length (the value) > 200
      then Inl (App (badRequest (Some ''A valid Idempotency-Key header is required'') None))
      else Inr (the value))"

section \<open>Records\<close>

text \<open>A stored response is the encrypted text, or plain text in records older than the encryption.\<close>

datatype stored_response = Ciphertext string | PlainResponse string

record IdempotencyRecord =
  ir_id :: ident
  ir_actorKey :: string
  ir_scope :: string
  ir_keyHash :: string
  ir_requestHash :: string
  ir_statusCode :: "int option"
  ir_response :: "stored_response option"
  ir_lockToken :: "string option"
  ir_lockedUntil :: "time option"
  ir_attempts :: nat
  ir_expiresAt :: time
  ir_deletedAt :: "time option"

record idem_cfg =
  ic_env :: crypto_env
  ic_prims :: crypto_prims

definition encryptResponse :: "idem_cfg \<Rightarrow> string \<Rightarrow> string \<Rightarrow> thrown + stored_response" where
  "encryptResponse C iv response = map_sum (\<lambda>e. e) Ciphertext (encryptSecret (ic_env C) (ic_prims C) iv response)"

definition decryptResponse :: "idem_cfg \<Rightarrow> stored_response \<Rightarrow> thrown + string" where
  "decryptResponse C response =
     (case response of
        Ciphertext c \<Rightarrow> decryptSecret (ic_env C) (ic_prims C) c
      | PlainResponse r \<Rightarrow> Inr r)"

definition EXTERNAL_OPERATION_LEASE_MS :: time where
  "EXTERNAL_OPERATION_LEASE_MS = 2 * 60000"

record IdempotencyHashes =
  ih_keyHash :: string
  ih_keyHashCandidates :: "string list"
  ih_requestHash :: string
  ih_requestHashCandidates :: "string list"

definition idempotencyHashes :: "idem_cfg \<Rightarrow> string \<Rightarrow> jsval \<Rightarrow> thrown + IdempotencyHashes" where
  "idempotencyHashes C key request =
     (let env = ic_env C; P = ic_prims C; keyHashInput = ''idempotency-key:'' @ key;
          requestHashInput = ''idempotency-request:'' @ canonicalizeIdempotencyInput request
      in case hashMetadata env P keyHashInput of Inl e \<Rightarrow> Inl e | Inr kh \<Rightarrow>
         (case candidateMetadataHashes env P keyHashInput of Inl e \<Rightarrow> Inl e | Inr khs \<Rightarrow>
         (case hashMetadata env P requestHashInput of Inl e \<Rightarrow> Inl e | Inr rh \<Rightarrow>
         (case candidateMetadataHashes env P requestHashInput of Inl e \<Rightarrow> Inl e | Inr rhs \<Rightarrow>
            Inr \<lparr>ih_keyHash = kh, ih_keyHashCandidates = khs, ih_requestHash = rh, ih_requestHashCandidates = rhs\<rparr>))))"

record idem_result =
  rs_statusCode :: int
  rs_response :: string
  rs_replayed :: bool

definition completedResult :: "idem_cfg \<Rightarrow> IdempotencyRecord \<Rightarrow> thrown + idem_result option" where
  "completedResult C r =
     (case (ir_statusCode r, ir_response r) of
        (Some s, Some resp) \<Rightarrow>
          map_sum (\<lambda>e. e) (\<lambda>text. Some \<lparr>rs_statusCode = s, rs_response = text, rs_replayed = True\<rparr>)
            (decryptResponse C resp)
      | _ \<Rightarrow> Inr None)"

definition assertSameRequest :: "string \<Rightarrow> IdempotencyHashes \<Rightarrow> thrown + unit" where
  "assertSameRequest recordRequestHash hashes =
     (if List.member (ih_requestHashCandidates hashes) recordRequestHash then Inr ()
      else Inl (App (conflict (Some ''Idempotency-Key was already used for a different request''))))"

definition inProgress :: thrown where
  "inProgress = App (conflict (Some ''An operation with this Idempotency-Key is already in progress''))"

record idem_input =
  ii_actorKey :: string
  ii_scope :: string
  ii_key :: string
  ii_request :: jsval
  ii_ttlHours :: "int option"

section \<open>The statements of the protocol\<close>

definition findRecord :: "idem_input \<Rightarrow> IdempotencyHashes \<Rightarrow> IdempotencyRecord table \<Rightarrow> IdempotencyRecord option" where
  "findRecord input hashes rows =
     find_first (\<lambda>r. ir_actorKey r = ii_actorKey input \<and> ir_scope r = ii_scope input \<and>
       List.member (ih_keyHashCandidates hashes) (ir_keyHash r) \<and> ir_deletedAt r = None) rows"

definition recordExpiry :: "idem_input \<Rightarrow> time \<Rightarrow> time" where
  "recordExpiry input now = now + orElse (ii_ttlHours input) 24 * 60 * 60 * 1000"

text \<open>The unique key of the table.\<close>

definition same_record_key :: "IdempotencyRecord \<Rightarrow> IdempotencyRecord \<Rightarrow> bool" where
  "same_record_key r s \<longleftrightarrow> ir_actorKey r = ir_actorKey s \<and> ir_scope r = ir_scope s \<and> ir_keyHash r = ir_keyHash s"

definition freshRecord ::
    "idem_input \<Rightarrow> IdempotencyHashes \<Rightarrow> ident \<Rightarrow> string option \<Rightarrow> time option \<Rightarrow> time \<Rightarrow> IdempotencyRecord" where
  "freshRecord input hashes rid token lockedUntil now =
     \<lparr>ir_id = rid, ir_actorKey = ii_actorKey input, ir_scope = ii_scope input, ir_keyHash = ih_keyHash hashes,
      ir_requestHash = ih_requestHash hashes, ir_statusCode = None, ir_response = None, ir_lockToken = token,
      ir_lockedUntil = lockedUntil, ir_attempts = 1, ir_expiresAt = recordExpiry input now, ir_deletedAt = None\<rparr>"

text \<open>Releasing the key of an expired record that has its response.\<close>

definition expireRecord :: "ident \<Rightarrow> time \<Rightarrow> IdempotencyRecord table \<Rightarrow> IdempotencyRecord table" where
  "expireRecord rid now rows =
     delete_many (\<lambda>r. ir_id r = rid \<and> ir_expiresAt r \<le> now \<and> ir_statusCode r \<noteq> None) rows"

definition acquirable :: "ident \<Rightarrow> time \<Rightarrow> IdempotencyRecord \<Rightarrow> bool" where
  "acquirable rid now r \<longleftrightarrow>
     ir_id r = rid \<and> ir_statusCode r = None \<and>
     (case ir_lockedUntil r of None \<Rightarrow> True | Some u \<Rightarrow> u \<le> now)"

definition takeLease :: "idem_input \<Rightarrow> string \<Rightarrow> time \<Rightarrow> IdempotencyRecord \<Rightarrow> IdempotencyRecord" where
  "takeLease input token now r =
     r\<lparr>ir_lockToken := Some token, ir_lockedUntil := Some (now + EXTERNAL_OPERATION_LEASE_MS),
       ir_expiresAt := recordExpiry input now, ir_attempts := ir_attempts r + 1\<rparr>"

definition holds :: "ident \<Rightarrow> string \<Rightarrow> IdempotencyRecord \<Rightarrow> bool" where
  "holds rid token r \<longleftrightarrow> ir_id r = rid \<and> ir_lockToken r = Some token \<and> ir_statusCode r = None"

definition saveResult :: "int \<Rightarrow> stored_response \<Rightarrow> IdempotencyRecord \<Rightarrow> IdempotencyRecord" where
  "saveResult status resp r =
     r\<lparr>ir_statusCode := Some status, ir_response := Some resp, ir_lockToken := None, ir_lockedUntil := None\<rparr>"

definition releaseLease :: "time \<Rightarrow> IdempotencyRecord \<Rightarrow> IdempotencyRecord" where
  "releaseLease now r = r\<lparr>ir_lockToken := None, ir_lockedUntil := Some now\<rparr>"

section \<open>One call, without interference\<close>

datatype claim = Claimed ident | Replay idem_result

text \<open>A record that is not there is created, and a concurrent creation of the same key refused.\<close>

definition createClaim ::
    "idem_input \<Rightarrow> IdempotencyHashes \<Rightarrow> time \<Rightarrow> string \<Rightarrow> ident \<Rightarrow> IdempotencyRecord table \<Rightarrow>
     (thrown + claim) \<times> IdempotencyRecord table" where
  "createClaim input hashes now token newId rows =
     (let r = freshRecord input hashes newId (Some token) (Some (now + EXTERNAL_OPERATION_LEASE_MS)) now in
      if clashes same_record_key r rows then (Inl inProgress, rows)
      else (Inr (Claimed newId), r # rows))"

text \<open>A record that is there is replayed when complete, and taken over when its lease is free.\<close>

definition existingClaim ::
    "idem_cfg \<Rightarrow> idem_input \<Rightarrow> IdempotencyHashes \<Rightarrow> time \<Rightarrow> string \<Rightarrow> IdempotencyRecord \<Rightarrow>
     IdempotencyRecord table \<Rightarrow> (thrown + claim) \<times> IdempotencyRecord table" where
  "existingClaim C input hashes now token r rows =
     (case assertSameRequest (ir_requestHash r) hashes of
        Inl e \<Rightarrow> (Inl e, rows)
      | Inr _ \<Rightarrow>
          (case completedResult C r of
             Inl e \<Rightarrow> (Inl e, rows)
           | Inr (Some completed) \<Rightarrow> (Inr (Replay completed), rows)
           | Inr None \<Rightarrow>
               if matching (acquirable (ir_id r) now) rows \<noteq> 1 then (Inl inProgress, rows)
               else (Inr (Claimed (ir_id r)),
                     update_many (acquirable (ir_id r) now) (takeLease input token now) rows)))"

text \<open>Everything before the operation: look up, expire, then replay, take over or create the record.\<close>

definition claimRecord ::
    "idem_cfg \<Rightarrow> idem_input \<Rightarrow> IdempotencyHashes \<Rightarrow> time \<Rightarrow> string \<Rightarrow> ident \<Rightarrow> IdempotencyRecord table \<Rightarrow>
     (thrown + claim) \<times> IdempotencyRecord table" where
  "claimRecord C input hashes now token newId rows =
     (case findRecord input hashes rows of
        None \<Rightarrow> createClaim input hashes now token newId rows
      | Some r \<Rightarrow>
          if ir_expiresAt r \<le> now then
            (case completedResult C r of
               Inl e \<Rightarrow> (Inl e, rows)
             | Inr (Some _) \<Rightarrow> createClaim input hashes now token newId (expireRecord (ir_id r) now rows)
             | Inr None \<Rightarrow> existingClaim C input hashes now token r rows)
          else existingClaim C input hashes now token r rows)"

text \<open>The operation's outcome and its encryption; a lost lease or any error releases the lease.\<close>

definition finishOperation ::
    "idem_cfg \<Rightarrow> ident \<Rightarrow> time \<Rightarrow> string \<Rightarrow> string \<Rightarrow> thrown + int \<times> string \<Rightarrow> IdempotencyRecord table \<Rightarrow>
     (thrown + idem_result) \<times> IdempotencyRecord table" where
  "finishOperation C rid now token iv outcome rows =
     (let failed = (\<lambda>e rows. (Inl e, update_many (holds rid token) (releaseLease now) rows)) in
      case outcome of
        Inl e \<Rightarrow> failed e rows
      | Inr (status, response) \<Rightarrow>
          (case encryptResponse C iv response of
             Inl e \<Rightarrow> failed e rows
           | Inr stored \<Rightarrow>
               let rows' = update_many (holds rid token) (saveResult status stored) rows in
               if matching (holds rid token) rows \<noteq> 1
               then failed (OtherError ''Idempotency ownership lease was lost'') rows'
               else (Inr \<lparr>rs_statusCode = status, rs_response = response, rs_replayed = False\<rparr>, rows')))"

text \<open>
  The whole call. The operation is a function of its own state, so that a result also says whether it
  ran; its effects stay even when it throws.
\<close>

definition runIdempotent ::
    "idem_cfg \<Rightarrow> idem_input \<Rightarrow> time \<Rightarrow> string \<Rightarrow> ident \<Rightarrow> string \<Rightarrow> ('s \<Rightarrow> (thrown + int \<times> string) \<times> 's) \<Rightarrow>
     IdempotencyRecord table \<times> 's \<Rightarrow> (thrown + idem_result) \<times> IdempotencyRecord table \<times> 's" where
  "runIdempotent C input now token newId iv operation st =
     (case idempotencyHashes C (ii_key input) (ii_request input) of
        Inl e \<Rightarrow> (Inl e, st)
      | Inr hashes \<Rightarrow>
          (case claimRecord C input hashes now token newId (fst st) of
             (Inl e, rows) \<Rightarrow> (Inl e, rows, snd st)
           | (Inr (Replay completed), rows) \<Rightarrow> (Inr completed, rows, snd st)
           | (Inr (Claimed rid), rows) \<Rightarrow>
               (case operation (snd st) of
                  (outcome, s) \<Rightarrow>
                    (case finishOperation C rid now token iv outcome rows of
                       (result, rows') \<Rightarrow> (result, rows', s)))))"

section \<open>Database-only operations\<close>

text \<open>
  One attempt of the transaction: on an error nothing of it remains. The operation works on the
  business state \<open>'s\<close> of the same transaction.
\<close>

definition executeTx ::
    "idem_cfg \<Rightarrow> idem_input \<Rightarrow> IdempotencyHashes \<Rightarrow> time \<Rightarrow> ident \<Rightarrow> string \<Rightarrow>
     ('s \<Rightarrow> thrown + (int \<times> string) \<times> 's) \<Rightarrow> IdempotencyRecord table \<times> 's \<Rightarrow>
     thrown + idem_result \<times> IdempotencyRecord table \<times> 's" where
  "executeTx C input hashes now newId iv operation st =
     (let rows = fst st;
          fresh = (\<lambda>rows.
            let r = freshRecord input hashes newId None None now in
            if clashes same_record_key r rows then Inl (PrismaKnown ''P2002'')
            else case operation (snd st) of
              Inl e \<Rightarrow> Inl e
            | Inr ((status, response), s) \<Rightarrow>
                (case encryptResponse C iv response of
                   Inl e \<Rightarrow> Inl e
                 | Inr stored \<Rightarrow>
                     Inr (\<lparr>rs_statusCode = status, rs_response = response, rs_replayed = False\<rparr>,
                          update_many (\<lambda>x. ir_id x = newId)
                            (\<lambda>x. x\<lparr>ir_statusCode := Some status, ir_response := Some stored\<rparr>) (r # rows), s)));
          existing = (\<lambda>r.
            case assertSameRequest (ir_requestHash r) hashes of Inl e \<Rightarrow> Inl e | Inr _ \<Rightarrow>
            (case completedResult C r of
               Inl e \<Rightarrow> Inl e
             | Inr (Some completed) \<Rightarrow> Inr (completed, st)
             | Inr None \<Rightarrow> Inl inProgress))
      in case findRecord input hashes rows of
           None \<Rightarrow> fresh rows
         | Some r \<Rightarrow>
             if ir_expiresAt r \<le> now then
               (case completedResult C r of
                  Inl e \<Rightarrow> Inl e
                | Inr (Some _) \<Rightarrow> fresh (delete_many (\<lambda>x. ir_id x = ir_id r) rows)
                | Inr None \<Rightarrow> existing r)
             else existing r)"

text \<open>
  What other transactions do before an attempt, and the error the database raises at its commit, if
  any: the environment of one attempt.
\<close>

record 's attempt_env =
  ae_before :: "IdempotencyRecord table \<times> 's \<Rightarrow> IdempotencyRecord table \<times> 's"
  ae_commitError :: "string option"

definition replayWinner ::
    "idem_cfg \<Rightarrow> idem_input \<Rightarrow> IdempotencyHashes \<Rightarrow> thrown \<Rightarrow> IdempotencyRecord table \<Rightarrow> thrown + idem_result" where
  "replayWinner C input hashes err rows =
     (case findRecord input hashes rows of
        None \<Rightarrow> Inl err
      | Some winner \<Rightarrow>
          (case assertSameRequest (ir_requestHash winner) hashes of Inl e \<Rightarrow> Inl e | Inr _ \<Rightarrow>
          (case completedResult C winner of
             Inl e \<Rightarrow> Inl e
           | Inr (Some completed) \<Rightarrow> Inr completed
           | Inr None \<Rightarrow> Inl inProgress)))"

text \<open>The retry loop: \<open>attempt\<close> counts from 0 and there are three attempts.\<close>

function attemptTx ::
    "idem_cfg \<Rightarrow> idem_input \<Rightarrow> IdempotencyHashes \<Rightarrow> time \<Rightarrow> ident \<Rightarrow> string \<Rightarrow>
     ('s \<Rightarrow> thrown + (int \<times> string) \<times> 's) \<Rightarrow> (nat \<Rightarrow> 's attempt_env) \<Rightarrow> nat \<Rightarrow>
     IdempotencyRecord table \<times> 's \<Rightarrow> (thrown + idem_result) \<times> IdempotencyRecord table \<times> 's" where
  "attemptTx C input hashes now newId iv operation envs attempt st =
     (if attempt < 3 then
        let st1 = ae_before (envs attempt) st;
            res = (case executeTx C input hashes now newId iv operation st1 of
                     Inl e \<Rightarrow> Inl e
                   | Inr r \<Rightarrow> (case ae_commitError (envs attempt) of
                                 Some code \<Rightarrow> Inl (PrismaKnown code) | None \<Rightarrow> Inr r))
        in case res of
             Inr (result, st2) \<Rightarrow> (Inr result, st2)
           | Inl e \<Rightarrow>
               if e = PrismaKnown ''P2034'' \<and> attempt < 2
               then attemptTx C input hashes now newId iv operation envs (attempt + 1) st1
               else if e \<noteq> PrismaKnown ''P2002'' then (Inl e, st1)
               else (replayWinner C input hashes e (fst st1), st1)
      else (Inl (OtherError ''Idempotency transaction retry budget exhausted''), st))"
  by pat_completeness auto

termination attemptTx
  by (relation "measure (\<lambda>(_, _, _, _, _, _, _, _, attempt, _). 3 - attempt)") auto

declare attemptTx.simps [simp del]

definition runIdempotentTransaction ::
    "idem_cfg \<Rightarrow> idem_input \<Rightarrow> time \<Rightarrow> ident \<Rightarrow> string \<Rightarrow> ('s \<Rightarrow> thrown + (int \<times> string) \<times> 's) \<Rightarrow>
     (nat \<Rightarrow> 's attempt_env) \<Rightarrow> IdempotencyRecord table \<times> 's \<Rightarrow>
     (thrown + idem_result) \<times> IdempotencyRecord table \<times> 's" where
  "runIdempotentTransaction C input now newId iv operation envs st =
     (case idempotencyHashes C (ii_key input) (ii_request input) of
        Inl e \<Rightarrow> (Inl e, st)
      | Inr hashes \<Rightarrow> attemptTx C input hashes now newId iv operation envs 0 st)"

section \<open>Lemmas on one call\<close>

text \<open>The fields a lookup reads are never changed by the updates of the protocol.\<close>

lemma key_fields_kept [simp]:
  "ir_actorKey (takeLease input token now r) = ir_actorKey r" "ir_actorKey (saveResult s p r) = ir_actorKey r"
  "ir_actorKey (releaseLease now r) = ir_actorKey r"
  "ir_scope (takeLease input token now r) = ir_scope r" "ir_scope (saveResult s p r) = ir_scope r"
  "ir_scope (releaseLease now r) = ir_scope r"
  "ir_keyHash (takeLease input token now r) = ir_keyHash r" "ir_keyHash (saveResult s p r) = ir_keyHash r"
  "ir_keyHash (releaseLease now r) = ir_keyHash r"
  "ir_requestHash (takeLease input token now r) = ir_requestHash r"
  "ir_requestHash (saveResult s p r) = ir_requestHash r" "ir_requestHash (releaseLease now r) = ir_requestHash r"
  "ir_deletedAt (takeLease input token now r) = ir_deletedAt r" "ir_deletedAt (saveResult s p r) = ir_deletedAt r"
  "ir_deletedAt (releaseLease now r) = ir_deletedAt r"
  "ir_id (takeLease input token now r) = ir_id r" "ir_id (saveResult s p r) = ir_id r"
  "ir_id (releaseLease now r) = ir_id r"
  by (simp_all add: takeLease_def saveResult_def releaseLease_def)

lemma findRecord_update:
  "(\<And>r. ir_actorKey (f r) = ir_actorKey r \<and> ir_scope (f r) = ir_scope r \<and> ir_keyHash (f r) = ir_keyHash r \<and>
      ir_deletedAt (f r) = ir_deletedAt r) \<Longrightarrow>
   findRecord input hashes (update_many Q f rows) =
     map_option (\<lambda>r. if Q r then f r else r) (findRecord input hashes rows)"
  unfolding findRecord_def by (rule find_first_update_many) simp

lemma hashMetadata_candidate:
  assumes "crypto_env_ok env" "hashMetadata env P v = Inr h" "candidateMetadataHashes env P v = Inr hs"
  shows "h \<in> set hs"
  using candidates_contain [OF assms(1,1), of P metadata_hash v] assms(2,3)
  by (auto simp: hashMetadata_def candidateMetadataHashes_def keeps_active_key_def split: sum.splits)

lemma hashes_own:
  assumes "crypto_env_ok (ic_env C)" "idempotencyHashes C key request = Inr hashes"
  shows "ih_keyHash hashes \<in> set (ih_keyHashCandidates hashes)"
    "ih_requestHash hashes \<in> set (ih_requestHashCandidates hashes)"
  using assms(2) hashMetadata_candidate [OF assms(1)]
  by (auto simp: idempotencyHashes_def Let_def split: sum.splits)

text \<open>What a claim establishes: the caller finds the record it holds, fingerprinted by its request.\<close>

definition claimed_by ::
    "idem_input \<Rightarrow> IdempotencyHashes \<Rightarrow> time \<Rightarrow> string \<Rightarrow> ident \<Rightarrow> IdempotencyRecord table \<Rightarrow> IdempotencyRecord \<Rightarrow> bool" where
  "claimed_by input hashes now token rid rows r \<longleftrightarrow>
     findRecord input hashes rows = Some r \<and> holds rid token r \<and>
     ir_requestHash r \<in> set (ih_requestHashCandidates hashes) \<and> ir_expiresAt r = recordExpiry input now \<and>
     distinct (map ir_id rows)"

lemma create_claims:
  assumes "ih_keyHash hashes \<in> set (ih_keyHashCandidates hashes)"
    "ih_requestHash hashes \<in> set (ih_requestHashCandidates hashes)"
    "distinct (map ir_id rows)" "newId \<notin> ir_id ` set rows"
  shows "claimed_by input hashes now token newId
     (freshRecord input hashes newId (Some token) (Some u) now # rows)
     (freshRecord input hashes newId (Some token) (Some u) now)"
  using assms by (auto simp: claimed_by_def findRecord_def find_first_Cons freshRecord_def holds_def)

lemma lease_claims:
  assumes "findRecord input hashes rows = Some r" "distinct (map ir_id rows)"
    "ir_requestHash r \<in> set (ih_requestHashCandidates hashes)" "matching (acquirable (ir_id r) now) rows = 1"
  shows "claimed_by input hashes now token (ir_id r)
     (update_many (acquirable (ir_id r) now) (takeLease input token now) rows) (takeLease input token now r)"
proof -
  have r: "r \<in> set rows" using assms(1) find_first_SomeD unfolding findRecord_def by fastforce
  have "\<exists>x\<in>set rows. acquirable (ir_id r) now x" using assms(4) by (rule matching_1_ex)
  then have a: "acquirable (ir_id r) now r"
    using distinct_map_eq [OF assms(2) r] unfolding acquirable_def by metis
  have "map ir_id (update_many (acquirable (ir_id r) now) (takeLease input token now) rows) = map ir_id rows"
    by (rule map_update_many) simp
  with a assms show ?thesis
    by (simp add: claimed_by_def findRecord_update holds_def acquirable_def)
       (simp add: takeLease_def)
qed

lemma createClaim_shape:
  assumes "createClaim input hashes now token newId rows = (Inr (Claimed rid), rows1)"
    and own: "ih_keyHash hashes \<in> set (ih_keyHashCandidates hashes)"
      "ih_requestHash hashes \<in> set (ih_requestHashCandidates hashes)"
    and ids: "distinct (map ir_id rows)" "newId \<notin> ir_id ` set rows"
  shows "\<exists>r. claimed_by input hashes now token rid rows1 r"
proof -
  from assms(1) have "rid = newId" "rows1 = freshRecord input hashes newId (Some token)
      (Some (now + EXTERNAL_OPERATION_LEASE_MS)) now # rows"
    by (auto simp: createClaim_def Let_def split: if_splits)
  with create_claims [OF own ids] show ?thesis by blast
qed

lemma existingClaim_shape:
  assumes "existingClaim C input hashes now token x rows = (Inr (Claimed rid), rows1)"
    and "findRecord input hashes rows = Some x" "distinct (map ir_id rows)"
  shows "\<exists>r. claimed_by input hashes now token rid rows1 r"
  using assms(1) lease_claims [OF assms(2,3)]
  by (auto simp: existingClaim_def assertSameRequest_def split: sum.splits option.splits if_splits)

lemma completed_replayed: "completedResult C r = Inr (Some c) \<Longrightarrow> rs_replayed c"
  by (auto simp: completedResult_def split: option.splits)

lemma claim_replays:
  "claimRecord C input hashes now token newId rows = (Inr (Replay c), rows') \<Longrightarrow> rs_replayed c"
  using completed_replayed
  by (auto simp: claimRecord_def createClaim_def existingClaim_def Let_def
      split: option.splits if_splits sum.splits)

lemma claim_shape:
  assumes "claimRecord C input hashes now token newId rows = (Inr (Claimed rid), rows1)"
    and own: "ih_keyHash hashes \<in> set (ih_keyHashCandidates hashes)"
      "ih_requestHash hashes \<in> set (ih_requestHashCandidates hashes)"
    and ids: "distinct (map ir_id rows)" "newId \<notin> ir_id ` set rows"
  shows "\<exists>r. claimed_by input hashes now token rid rows1 r"
proof -
  have del: "distinct (map ir_id (expireRecord i now rows))" "newId \<notin> ir_id ` set (expireRecord i now rows)" for i
    using ids distinct_delete_many by (auto simp: expireRecord_def set_delete_many)
  consider "createClaim input hashes now token newId rows = (Inr (Claimed rid), rows1)"
    | i where "createClaim input hashes now token newId (expireRecord i now rows) = (Inr (Claimed rid), rows1)"
    | x where "existingClaim C input hashes now token x rows = (Inr (Claimed rid), rows1)"
        "findRecord input hashes rows = Some x"
    using assms(1) by (auto simp: claimRecord_def split: option.splits if_splits sum.splits)
  then show ?thesis
  proof cases
    case 1
    then show ?thesis by (rule createClaim_shape [OF _ own ids])
  next
    case 2
    then show ?thesis by (rule createClaim_shape [OF _ own del])
  next
    case 3
    then show ?thesis by (rule existingClaim_shape [OF _ _ ids(1)])
  qed
qed

lemma matching_one: "distinct (map k rs) \<Longrightarrow> x \<in> set rs \<Longrightarrow> k x = i \<Longrightarrow> P x \<Longrightarrow> matching (\<lambda>r. k r = i \<and> P r) rs = 1"
  using matching_key_1 [of k rs i P] by auto

lemma holds_one: "claimed_by input hashes now token rid rows r \<Longrightarrow> matching (holds rid token) rows = 1"
proof -
  assume c: "claimed_by input hashes now token rid rows r"
  then have "r \<in> set rows" using find_first_SomeD unfolding claimed_by_def findRecord_def by fastforce
  with c show ?thesis
    unfolding holds_def [abs_def] by (intro matching_one) (auto simp: claimed_by_def holds_def)
qed

text \<open>The state after a call that ran its operation and returned.\<close>

definition completed_by ::
    "idem_cfg \<Rightarrow> idem_input \<Rightarrow> IdempotencyHashes \<Rightarrow> time \<Rightarrow> idem_result \<Rightarrow> IdempotencyRecord table \<Rightarrow> bool" where
  "completed_by C input hashes now res rows \<longleftrightarrow>
     (\<exists>r. findRecord input hashes rows = Some r \<and> ir_requestHash r \<in> set (ih_requestHashCandidates hashes) \<and>
        ir_expiresAt r = recordExpiry input now \<and>
        completedResult C r = Inr (Some (res\<lparr>rs_replayed := True\<rparr>)))"

lemma encrypt_decrypt:
  assumes "crypto_env_ok (ic_env C)" "gcm_law (ic_prims C)" "encryptResponse C iv v = Inr stored"
  shows "decryptResponse C stored = Inr v"
  using encrypt_decrypt_secret [OF assms(1) _ assms(2), of "ic_env C" iv v] assms(3)
  by (auto simp: encryptResponse_def decryptResponse_def keeps_active_key_def)

lemma finish_completes:
  assumes "crypto_env_ok (ic_env C)" "gcm_law (ic_prims C)" "claimed_by input hashes now token rid rows r"
    and "finishOperation C rid now token iv outcome rows = (Inr res, rows')"
  shows "completed_by C input hashes now res rows' \<and> \<not> rs_replayed res"
  using assms(3,4) encrypt_decrypt [OF assms(1,2)]
  by (auto simp: finishOperation_def Let_def completed_by_def claimed_by_def findRecord_update completedResult_def
      saveResult_def split: sum.splits if_splits)

text \<open>A successful call that was not a replay leaves a completed record behind.\<close>

lemma run_completes:
  assumes ok: "crypto_env_ok (ic_env C)" "gcm_law (ic_prims C)"
    and ids: "distinct (map ir_id rows)" "newId \<notin> ir_id ` set rows"
    and run: "runIdempotent C input now token newId iv operation (rows, s) = (Inr res, rows', s')" "\<not> rs_replayed res"
  obtains hashes where "idempotencyHashes C (ii_key input) (ii_request input) = Inr hashes"
    "completed_by C input hashes now res rows'"
proof -
  from run(1) obtain hashes where h: "idempotencyHashes C (ii_key input) (ii_request input) = Inr hashes"
    by (auto simp: runIdempotent_def split: sum.splits)
  note own = hashes_own [OF ok(1) h]
  note rp = claim_replays
  from run h rp obtain rid rows1 outcome where
    c: "claimRecord C input hashes now token newId rows = (Inr (Claimed rid), rows1)"
    and f: "finishOperation C rid now token iv outcome rows1 = (Inr res, rows')"
    by (auto simp: runIdempotent_def split: sum.splits prod.splits claim.splits)
  from claim_shape [OF c own ids] obtain r where "claimed_by input hashes now token rid rows1 r" by blast
  from finish_completes [OF ok this f] h show thesis using that by blast
qed

lemma hashes_same_request:
  "normal v = normal w \<Longrightarrow> idempotencyHashes C key v = idempotencyHashes C key w"
proof -
  assume "normal v = normal w"
  then have "canonicalizeIdempotencyInput v = canonicalizeIdempotencyInput w"
    by (simp add: canonicalizeIdempotencyInput_def canonicalJson_eq_iff)
  then show ?thesis by (simp only: idempotencyHashes_def)
qed

text \<open>Candidate hashes of different texts are disjoint when the keyed hash has no collisions.\<close>

definition hmac_collision_free :: "crypto_prims \<Rightarrow> bool" where
  "hmac_collision_free P \<longleftrightarrow> (\<forall>k k' m m'. hmac P k m = hmac P k' m' \<longrightarrow> m = m')"

definition hash_of :: "crypto_env \<Rightarrow> crypto_prims \<Rightarrow> string \<Rightarrow> string \<Rightarrow> bool" where
  "hash_of env P v h \<longleftrightarrow>
     (\<exists>k key. CHR ''.'' \<notin> set k \<and> h = ''v1.'' @ k @ ''.'' @ base64url (hmac P key v)) \<or>
     (\<exists>key. h = base64url (hmac P key v))"

lemma hash_of_inj:
  assumes "hmac_collision_free P" "hash_of env P v h" "hash_of env P w h"
  shows "v = w"
proof -
  have same: "hmac P key v = hmac P key' w \<Longrightarrow> v = w" for key key'
    using assms(1) unfolding hmac_collision_free_def by blast
  have last: "last (split_on CHR ''.'' h) = base64url (hmac P key u)"
    if "(CHR ''.'' \<notin> set k \<and> h = ''v1.'' @ k @ ''.'' @ base64url (hmac P key u)) \<or> h = base64url (hmac P key u)"
    for k key u
    using that split_on_append [of "CHR ''.''" k "base64url (hmac P key u)"]
    by (auto simp: split_on_plain base64url_no_dot)
  obtain key where "last (split_on CHR ''.'' h) = base64url (hmac P key v)"
    using assms(2) last unfolding hash_of_def by metis
  moreover obtain key' where "last (split_on CHR ''.'' h) = base64url (hmac P key' w)"
    using assms(3) last unfolding hash_of_def by metis
  ultimately have "hmac P key v = hmac P key' w" by (simp add: base64url_inject)
  then show ?thesis by (rule same)
qed

lemma keyring_no_dot: "crypto_env_ok env \<Longrightarrow> k \<in> fst ` set (cryptoKeyring env) \<Longrightarrow> CHR ''.'' \<notin> set k"
  by (auto simp: crypto_env_ok_def cryptoKeyring_def list_all_iff split: if_splits)

lemma candidates_hash_of:
  assumes "crypto_env_ok env" "candidateMetadataHashes env P v = Inr hs" "h \<in> set hs"
  shows "hash_of env P v h"
proof -
  have *: "versionedHmacs env P ks metadata_hash v = Inr xs \<Longrightarrow> set ks \<subseteq> fst ` set (cryptoKeyring env) \<Longrightarrow>
      \<forall>x\<in>set xs. hash_of env P v x" for ks xs
    using keyring_no_dot [OF assms(1)]
    by (induction ks arbitrary: xs) (fastforce simp: versionedHmac_def hash_of_def split: sum.splits)+
  have legacy: "hash_of env P v (legacyHash env P v)" by (auto simp: legacyHash_def hash_of_def)
  show ?thesis
    using assms(2,3) legacy * [of "map fst (cryptoKeyring env)"]
    by (auto simp: candidateMetadataHashes_def split: sum.splits)
qed

lemma request_candidates:
  assumes "crypto_env_ok (ic_env C)" "idempotencyHashes C key request = Inr hashes"
    "h \<in> set (ih_requestHashCandidates hashes)"
  shows "hash_of (ic_env C) (ic_prims C) (''idempotency-request:'' @ canonicalizeIdempotencyInput request) h"
  using assms(2,3) candidates_hash_of [OF assms(1)]
  by (auto simp: idempotencyHashes_def Let_def split: sum.splits)

text \<open>The key's hashes do not depend on the request.\<close>

lemma key_candidates_same:
  "idempotencyHashes C key v = Inr h \<Longrightarrow> idempotencyHashes C key w = Inr h' \<Longrightarrow>
   ih_keyHashCandidates h = ih_keyHashCandidates h'"
  by (auto simp: idempotencyHashes_def Let_def split: sum.splits)

lemma findRecord_cong:
  "ii_actorKey i = ii_actorKey j \<Longrightarrow> ii_scope i = ii_scope j \<Longrightarrow>
   ih_keyHashCandidates h = ih_keyHashCandidates h' \<Longrightarrow> findRecord i h rows = findRecord j h' rows"
  by (simp add: findRecord_def)

lemma hashes_total:
  assumes "crypto_env_ok (ic_env C)"
  shows "\<exists>h. idempotencyHashes C key v = Inr h"
proof -
  have c: "\<exists>hs. candidateMetadataHashes (ic_env C) (ic_prims C) u = Inr hs" for u
    using candidates_contain [OF assms assms, of "ic_prims C" metadata_hash u]
    by (auto simp: candidateMetadataHashes_def keeps_active_key_def)
  have m: "\<exists>h. hashMetadata (ic_env C) (ic_prims C) u = Inr h" for u
    using versionedHmac_present [OF assms active_present [OF assms]] by (auto simp: hashMetadata_def)
  show ?thesis
    using c [of "''idempotency-key:'' @ key"] m [of "''idempotency-key:'' @ key"]
      c [of "''idempotency-request:'' @ canonicalizeIdempotencyInput v"]
      m [of "''idempotency-request:'' @ canonicalizeIdempotencyInput v"]
    by (auto simp: idempotencyHashes_def Let_def)
qed

text \<open>A configuration and two requests for the concrete instances.\<close>

definition demo_idem :: idem_cfg where
  "demo_idem = \<lparr>ic_env = demo_env, ic_prims = demo_prims\<lparr>hmac := \<lambda>k m. m\<rparr>\<rparr>"

definition demo_request :: "jsval \<Rightarrow> idem_input" where
  "demo_request body = \<lparr>ii_actorKey = ''user:u1'', ii_scope = ''orders'', ii_key = ''key-0001'', ii_request = body,
     ii_ttlHours = None\<rparr>"

definition demo_op :: "nat \<Rightarrow> (thrown + int \<times> string) \<times> nat" where
  "demo_op n = (Inr (201, ''created''), n + 1)"

lemma demo_idem_ok: "crypto_env_ok (ic_env demo_idem)" "gcm_law (ic_prims demo_idem)"
  "hmac_collision_free (ic_prims demo_idem)"
  using demo_crypto by (auto simp: demo_idem_def gcm_law_def hmac_collision_free_def demo_prims_def)

definition demo_first :: "(thrown + idem_result) \<times> IdempotencyRecord table \<times> nat" where
  "demo_first = runIdempotent demo_idem (demo_request (JNum 1)) 1000 ''t1'' ''r1'' ''iv'' demo_op ([], 0)"

lemma demo_first_result:
  "fst demo_first = Inr \<lparr>rs_statusCode = 201, rs_response = ''created'', rs_replayed = False\<rparr>"
  "snd (snd demo_first) = 1"
  by code_simp+

lemma demo_first_run:
  "runIdempotent demo_idem (demo_request (JNum 1)) 1000 ''t1'' ''r1'' ''iv'' demo_op ([], 0) =
     (Inr \<lparr>rs_statusCode = 201, rs_response = ''created'', rs_replayed = False\<rparr>, fst (snd demo_first), 1)"
  using demo_first_result by (simp add: demo_first_def prod_eq_iff)

section \<open>Properties of one call\<close>

text \<open>
  C3: a completed request is replayed. After a call that ran its operation and returned, every later
  call with the same actor, scope, key and request (up to key order in the request body) before the
  record expires returns the stored status and response, marked as a replay, runs no operation and
  changes nothing.
\<close>

theorem runIdempotent_replays:
  assumes ok: "crypto_env_ok (ic_env C)" "gcm_law (ic_prims C)"
    and ids: "distinct (map ir_id rows)" "newId \<notin> ir_id ` set rows"
    and first: "runIdempotent C input now token newId iv operation (rows, s) = (Inr res, rows', s')"
      "\<not> rs_replayed res"
    and same: "ii_actorKey input2 = ii_actorKey input" "ii_scope input2 = ii_scope input"
      "ii_key input2 = ii_key input" "normal (ii_request input2) = normal (ii_request input)"
    and before: "now2 < recordExpiry input now"
  shows "runIdempotent C input2 now2 token2 newId2 iv2 operation2 (rows', t) =
           (Inr (res\<lparr>rs_replayed := True\<rparr>), rows', t)"
proof -
  from run_completes [OF ok ids first] obtain hashes where
    h: "idempotencyHashes C (ii_key input) (ii_request input) = Inr hashes"
    and c: "completed_by C input hashes now res rows'" by blast
  have h2: "idempotencyHashes C (ii_key input2) (ii_request input2) = Inr hashes"
    using h hashes_same_request [OF same(4)] same(3) by simp
  have f: "findRecord input2 hashes rows' = findRecord input hashes rows'"
    using same by (intro findRecord_cong) simp_all
  show ?thesis
    using c before
    by (auto simp: runIdempotent_def h2 claimRecord_def f completed_by_def existingClaim_def assertSameRequest_def)
qed

theorem runIdempotent_replays_witness:
  "runIdempotent demo_idem (demo_request (JNum 1)) 2000 ''t2'' ''r2'' ''iv2'' demo_op (fst (snd demo_first), 1) =
     (Inr \<lparr>rs_statusCode = 201, rs_response = ''created'', rs_replayed = True\<rparr>, fst (snd demo_first), 1)"
  using runIdempotent_replays [OF demo_idem_ok(1,2) _ _ demo_first_run, of "demo_request (JNum 1)" 2000]
  by (simp add: recordExpiry_def demo_request_def)

text \<open>
  a key cannot be reused for another request. After such a call, a later call with the same key
  and a request that differs in more than key order is refused with the conflict error, runs no
  operation and changes nothing, provided the keyed hash has no collisions.
\<close>

theorem runIdempotent_key_reuse_refused:
  assumes ok: "crypto_env_ok (ic_env C)" "gcm_law (ic_prims C)" and cf: "hmac_collision_free (ic_prims C)"
    and ids: "distinct (map ir_id rows)" "newId \<notin> ir_id ` set rows"
    and first: "runIdempotent C input now token newId iv operation (rows, s) = (Inr res, rows', s')"
      "\<not> rs_replayed res"
    and same: "ii_actorKey input2 = ii_actorKey input" "ii_scope input2 = ii_scope input"
      "ii_key input2 = ii_key input" and other: "normal (ii_request input2) \<noteq> normal (ii_request input)"
    and before: "now2 < recordExpiry input now"
  shows "runIdempotent C input2 now2 token2 newId2 iv2 operation2 (rows', t) =
     (Inl (App (conflict (Some ''Idempotency-Key was already used for a different request''))), rows', t)"
proof -
  from run_completes [OF ok ids first] obtain hashes where
    h: "idempotencyHashes C (ii_key input) (ii_request input) = Inr hashes"
    and c: "completed_by C input hashes now res rows'" by blast
  obtain h2 where h2: "idempotencyHashes C (ii_key input2) (ii_request input2) = Inr h2"
    using hashes_total [OF ok(1)] by blast
  from c obtain r where r: "findRecord input hashes rows' = Some r" "ir_expiresAt r = recordExpiry input now"
    and m: "ir_requestHash r \<in> set (ih_requestHashCandidates hashes)" by (auto simp: completed_by_def)
  have "findRecord input2 h2 rows' = Some r"
    using r(1) findRecord_cong [of input2 input h2 hashes] key_candidates_same [OF h] h2 same by metis
  moreover have "ir_requestHash r \<notin> set (ih_requestHashCandidates h2)"
  proof
    assume "ir_requestHash r \<in> set (ih_requestHashCandidates h2)"
    from hash_of_inj [OF cf request_candidates [OF ok(1) h m] request_candidates [OF ok(1) h2 this]] other
    show False by (simp add: canonicalizeIdempotencyInput_def canonicalJson_eq_iff)
  qed
  ultimately show ?thesis
    using before r(2) by (simp add: runIdempotent_def h2 claimRecord_def existingClaim_def assertSameRequest_def)
qed

theorem runIdempotent_key_reuse_refused_witness:
  "runIdempotent demo_idem (demo_request (JNum 2)) 2000 ''t2'' ''r2'' ''iv2'' demo_op (fst (snd demo_first), 1) =
     (Inl (App (conflict (Some ''Idempotency-Key was already used for a different request''))), fst (snd demo_first), 1)"
  using runIdempotent_key_reuse_refused [OF demo_idem_ok _ _ demo_first_run, of "demo_request (JNum 2)" 2000]
  by (simp add: recordExpiry_def demo_request_def)

section \<open>Properties of transactions\<close>

text \<open>What the environment alone makes of the state in \<open>n\<close> attempts.\<close>

fun disturbed :: "(nat \<Rightarrow> 's attempt_env) \<Rightarrow> nat \<Rightarrow> IdempotencyRecord table \<times> 's \<Rightarrow> IdempotencyRecord table \<times> 's" where
  "disturbed envs 0 st = st"
| "disturbed envs (Suc n) st = ae_before (envs n) (disturbed envs n st)"

definition ran_once ::
    "('s \<Rightarrow> thrown + (int \<times> string) \<times> 's) \<Rightarrow> 's \<Rightarrow> 's \<Rightarrow> idem_result \<Rightarrow> bool" where
  "ran_once operation s s' res \<longleftrightarrow>
     operation s = Inr ((rs_statusCode res, rs_response res), s') \<and> \<not> rs_replayed res"

lemma executeTx_effect:
  assumes "executeTx C input hashes now newId iv operation st = Inr (res, st')"
  shows "(rs_replayed res \<and> st' = st) \<or> ran_once operation (snd st) (snd st') res"
  using assms completed_replayed
  by (auto simp: executeTx_def Let_def ran_once_def split: option.splits sum.splits if_splits)

lemma replayWinner_replayed: "replayWinner C input hashes e rows = Inr res \<Longrightarrow> rs_replayed res"
  using completed_replayed by (auto simp: replayWinner_def split: option.splits sum.splits)

text \<open>One round of the loop retries, or leaves the state to the environment, or runs the operation.\<close>

definition tx_effect ::
    "('s \<Rightarrow> thrown + (int \<times> string) \<times> 's) \<Rightarrow> IdempotencyRecord table \<times> 's \<Rightarrow> thrown + idem_result \<Rightarrow>
     IdempotencyRecord table \<times> 's \<Rightarrow> bool" where
  "tx_effect operation st1 out st' \<longleftrightarrow>
     (st' = st1 \<and> (\<forall>res. out = Inr res \<longrightarrow> rs_replayed res)) \<or>
     (\<exists>res. out = Inr res \<and> ran_once operation (snd st1) (snd st') res)"

lemma attemptTx_round:
  assumes run: "attemptTx C input hashes now newId iv operation envs attempt st = (out, st')" and lt: "attempt < 3"
  defines "st1 \<equiv> ae_before (envs attempt) st"
  shows "attempt < 2 \<and> attemptTx C input hashes now newId iv operation envs (attempt + 1) st1 = (out, st') \<or>
         tx_effect operation st1 out st'"
proof -
  have failed: "attempt < 2 \<and> attemptTx C input hashes now newId iv operation envs (attempt + 1) st1 = (out, st') \<or>
         tx_effect operation st1 out st'"
    if "(if e = PrismaKnown ''P2034'' \<and> attempt < 2
         then attemptTx C input hashes now newId iv operation envs (attempt + 1) st1
         else if e \<noteq> PrismaKnown ''P2002'' then (Inl e, st1)
         else (replayWinner C input hashes e (fst st1), st1)) = (out, st')" for e
    using that replayWinner_replayed by (auto simp: tx_effect_def split: if_splits)
  note unfolded = run [unfolded attemptTx.simps [of C input hashes now newId iv operation envs attempt st]
      Let_def if_P [OF lt] st1_def [symmetric]]
  show ?thesis
  proof (cases "executeTx C input hashes now newId iv operation st1")
    case (Inl e)
    with unfolded failed show ?thesis by simp
  next
    case (Inr r)
    show ?thesis
    proof (cases "ae_commitError (envs attempt)")
      case (Some code)
      with unfolded Inr failed [of "PrismaKnown code"] show ?thesis by simp
    next
      case None
      with unfolded Inr have "executeTx C input hashes now newId iv operation st1 = Inr (the (case out of Inr x \<Rightarrow> Some x | _ \<Rightarrow> None), st')"
        "\<exists>res. out = Inr res" by (auto split: prod.splits)
      then show ?thesis using executeTx_effect by (fastforce simp: tx_effect_def)
    qed
  qed
qed

lemma attemptTx_once:
  assumes "attemptTx C input hashes now newId iv operation envs attempt (disturbed envs attempt st) = (out, st')"
    and "attempt \<le> 2"
  shows "\<exists>n\<le>3. tx_effect operation (disturbed envs n st) out st'"
  using assms
proof (induction "2 - attempt" arbitrary: attempt)
  case 0
  then have two: "\<not> attempt < 2" "attempt < 3" by simp_all
  from attemptTx_round [OF 0(2) two(2)] two(1)
  have "tx_effect operation (disturbed envs (Suc attempt) st) out st'" by simp
  moreover have "Suc attempt \<le> 3" using two(2) by simp
  ultimately show ?case by blast
next
  case (Suc k)
  then have lt: "attempt < 2" by simp
  from attemptTx_round [OF Suc(3)] lt
  consider "attemptTx C input hashes now newId iv operation envs (attempt + 1) (disturbed envs (Suc attempt) st) = (out, st')"
    | "tx_effect operation (disturbed envs (Suc attempt) st) out st'" by auto
  then show ?case
  proof cases
    case 1
    with Suc(1) [of "attempt + 1"] Suc(2) lt show ?thesis by simp
  next
    case 2
    with lt show ?thesis by (intro exI [of _ "Suc attempt"]) simp
  qed
qed

text \<open>
  a database operation runs at most once per call. Whatever other transactions do between the
  attempts and whatever serialization failures the database reports, one call of
  \<open>runIdempotentTransaction\<close> changes the state exactly by one complete run of the operation, whose
  result it returns, or not at all, and then it throws or replays a stored response. In particular
  the retries never apply an operation twice.
\<close>

theorem runIdempotentTransaction_once:
  assumes "runIdempotentTransaction C input now newId iv operation envs st = (out, st')"
  shows "\<exists>n\<le>3. (st' = disturbed envs n st \<and> (\<forall>res. out = Inr res \<longrightarrow> rs_replayed res)) \<or>
                (\<exists>res. out = Inr res \<and> ran_once operation (snd (disturbed envs n st)) (snd st') res)"
proof (cases "idempotencyHashes C (ii_key input) (ii_request input)")
  case (Inl e)
  with assms show ?thesis by (intro exI [of _ 0]) (auto simp: runIdempotentTransaction_def)
next
  case (Inr hashes)
  with assms have "attemptTx C input hashes now newId iv operation envs 0 (disturbed envs 0 st) = (out, st')"
    by (simp add: runIdempotentTransaction_def)
  from attemptTx_once [OF this] show ?thesis by (simp add: tx_effect_def)
qed

definition demo_envs :: "nat \<Rightarrow> nat attempt_env" where
  "demo_envs n = \<lparr>ae_before = (\<lambda>st. st), ae_commitError = (if n = 0 then Some ''P2034'' else None)\<rparr>"

definition demo_tx_op :: "nat \<Rightarrow> thrown + (int \<times> string) \<times> nat" where
  "demo_tx_op n = Inr ((201, ''created''), n + 1)"

lemma disturbed_quiet: "(\<And>n st. ae_before (envs n) st = st) \<Longrightarrow> disturbed envs n st = st"
  by (induction n) simp_all

theorem runIdempotentTransaction_once_witness:
  "\<exists>rows. runIdempotentTransaction demo_idem (demo_request (JNum 1)) 1000 ''r1'' ''iv'' demo_tx_op demo_envs ([], 0) =
     (Inr \<lparr>rs_statusCode = 201, rs_response = ''created'', rs_replayed = False\<rparr>, rows, 1)"
proof -
  let ?run = "runIdempotentTransaction demo_idem (demo_request (JNum 1)) 1000 ''r1'' ''iv'' demo_tx_op demo_envs ([], 0)"
  have out: "fst ?run = Inr \<lparr>rs_statusCode = 201, rs_response = ''created'', rs_replayed = False\<rparr>" by code_simp
  have "ran_once demo_tx_op 0 (snd (snd ?run)) \<lparr>rs_statusCode = 201, rs_response = ''created'', rs_replayed = False\<rparr>"
    using runIdempotentTransaction_once [OF prod.collapse [symmetric], of demo_idem "demo_request (JNum 1)" 1000 "''r1''"
        "''iv''" demo_tx_op demo_envs "([], 0)"] out disturbed_quiet [of demo_envs]
    by (auto simp: demo_envs_def)
  with out show ?thesis by (cases ?run) (auto simp: ran_once_def demo_tx_op_def)
qed

end
