(* ===== verification/Idempotency_Concurrent.thy ===== *)
theory Idempotency_Concurrent
  imports Idempotency
begin

text \<open>
  Concurrent calls of \<open>runIdempotent\<close> (\<open>src/src/lib/idempotency.ts\<close>). Each process runs the
  statements of the protocol one at a time, interleaved with the others in any order and stopping
  anywhere; a process is named by its lock token, which \<open>randomUUID\<close> makes unique. No assumption is
  made about clocks: every process reads its own \<open>now\<close> once, when it starts.
\<close>

section \<open>Processes and steps\<close>

datatype idem_phase =
    Looking
  | Decide "IdempotencyRecord option"
  | Creating
  | Running ident
  | Finished "thrown + idem_result"

record idem_proc =
  ip_input :: idem_input
  ip_hashes :: IdempotencyHashes
  ip_now :: time
  ip_phase :: idem_phase

record idem_state =
  is_rows :: "IdempotencyRecord table"
  is_procs :: "string \<Rightarrow> idem_proc option"
  is_used :: "ident list"

definition idem_init :: idem_state where
  "idem_init = \<lparr>is_rows = [], is_procs = (\<lambda>_. None), is_used = []\<rparr>"

definition go_to :: "string \<Rightarrow> idem_proc \<Rightarrow> idem_phase \<Rightarrow> idem_state \<Rightarrow> idem_state" where
  "go_to token p ph s = s\<lparr>is_procs := (is_procs s)(token \<mapsto> p\<lparr>ip_phase := ph\<rparr>)\<rparr>"

definition claim_phase :: "thrown + claim \<Rightarrow> idem_phase" where
  "claim_phase res =
     (case res of
        Inl e \<Rightarrow> Finished (Inl e)
      | Inr (Replay c) \<Rightarrow> Finished (Inr c)
      | Inr (Claimed rid) \<Rightarrow> Running rid)"

text \<open>The record found is expired and complete, so that its key is released first.\<close>

definition expiredComplete :: "idem_cfg \<Rightarrow> time \<Rightarrow> IdempotencyRecord \<Rightarrow> bool" where
  "expiredComplete C now r \<longleftrightarrow> ir_expiresAt r \<le> now \<and> (\<exists>c. completedResult C r = Inr (Some c))"

text \<open>
  A record's identifier is generated by the database and never used twice. The save and the release
  after a lost lease are one step: the first of them changed nothing.
\<close>

inductive idem_step :: "idem_cfg \<Rightarrow> idem_state \<Rightarrow> idem_state \<Rightarrow> bool" for C where
  Start: "is_procs s token = None \<Longrightarrow> idempotencyHashes C (ii_key input) (ii_request input) = Inr hashes \<Longrightarrow>
    idem_step C s (go_to token \<lparr>ip_input = input, ip_hashes = hashes, ip_now = now, ip_phase = Looking\<rparr> Looking s)"
| Look: "is_procs s token = Some p \<Longrightarrow> ip_phase p = Looking \<Longrightarrow>
    idem_step C s (go_to token p (Decide (findRecord (ip_input p) (ip_hashes p) (is_rows s))) s)"
| Absent: "is_procs s token = Some p \<Longrightarrow> ip_phase p = Decide None \<Longrightarrow> idem_step C s (go_to token p Creating s)"
| Expire: "is_procs s token = Some p \<Longrightarrow> ip_phase p = Decide (Some r) \<Longrightarrow> expiredComplete C (ip_now p) r \<Longrightarrow>
    idem_step C s (go_to token p Creating (s\<lparr>is_rows := expireRecord (ir_id r) (ip_now p) (is_rows s)\<rparr>))"
| Unreadable: "is_procs s token = Some p \<Longrightarrow> ip_phase p = Decide (Some r) \<Longrightarrow> ir_expiresAt r \<le> ip_now p \<Longrightarrow>
    completedResult C r = Inl e \<Longrightarrow> idem_step C s (go_to token p (Finished (Inl e)) s)"
| Existing: "is_procs s token = Some p \<Longrightarrow> ip_phase p = Decide (Some r) \<Longrightarrow>
    \<not> (ir_expiresAt r \<le> ip_now p \<and> completedResult C r \<noteq> Inr None) \<Longrightarrow>
    existingClaim C (ip_input p) (ip_hashes p) (ip_now p) token r (is_rows s) = (res, rows') \<Longrightarrow>
    idem_step C s (go_to token p (claim_phase res) (s\<lparr>is_rows := rows'\<rparr>))"
| Create: "is_procs s token = Some p \<Longrightarrow> ip_phase p = Creating \<Longrightarrow> newId \<notin> set (is_used s) \<Longrightarrow>
    createClaim (ip_input p) (ip_hashes p) (ip_now p) token newId (is_rows s) = (res, rows') \<Longrightarrow>
    idem_step C s (go_to token p (claim_phase res) (s\<lparr>is_rows := rows', is_used := newId # is_used s\<rparr>))"
| Finish: "is_procs s token = Some p \<Longrightarrow> ip_phase p = Running rid \<Longrightarrow>
    finishOperation C rid (ip_now p) token iv outcome (is_rows s) = (result, rows') \<Longrightarrow>
    idem_step C s (go_to token p (Finished result) (s\<lparr>is_rows := rows'\<rparr>))"

inductive idem_reachable :: "idem_cfg \<Rightarrow> idem_state \<Rightarrow> bool" for C where
  Init: "idem_reachable C idem_init"
| Step: "idem_reachable C s \<Longrightarrow> idem_step C s s' \<Longrightarrow> idem_reachable C s'"

inductive_cases idem_stepE: "idem_step C s s'"

section \<open>The invariant\<close>

abbreviation lease :: time where
  "lease \<equiv> EXTERNAL_OPERATION_LEASE_MS"

text \<open>The process \<open>token\<close> runs the operation of the record \<open>rid\<close>, having started at \<open>now\<close>.\<close>

definition runs :: "idem_state \<Rightarrow> string \<Rightarrow> ident \<Rightarrow> time \<Rightarrow> bool" where
  "runs s token rid now \<longleftrightarrow> (\<exists>p. is_procs s token = Some p \<and> ip_phase p = Running rid \<and> ip_now p = now)"

definition started :: "idem_state \<Rightarrow> string \<Rightarrow> time \<Rightarrow> bool" where
  "started s token now \<longleftrightarrow> (\<exists>p. is_procs s token = Some p \<and> ip_now p = now)"

text \<open>A locked record carries the lease of the process that locked it.\<close>

definition locks_ok :: "idem_state \<Rightarrow> bool" where
  "locks_ok s \<longleftrightarrow>
     (\<forall>r\<in>set (is_rows s). \<forall>q. ir_lockToken r = Some q \<longrightarrow>
        (\<exists>t. started s q t \<and> ir_lockedUntil r = Some (t + lease)))"

text \<open>A runner still holds its record, or the record is complete, or the runner's lease is over.\<close>

definition outlived :: "idem_state \<Rightarrow> IdempotencyRecord \<Rightarrow> string \<Rightarrow> time \<Rightarrow> bool" where
  "outlived s r token now \<longleftrightarrow>
     ir_statusCode r \<noteq> None \<or> ir_lockToken r = Some token \<or>
     (case ir_lockToken r of
        Some q \<Rightarrow> (\<exists>t. started s q t \<and> now + lease \<le> t)
      | None \<Rightarrow> (\<exists>u. ir_lockedUntil r = Some u \<and> now + lease \<le> u))"

definition runners_ok :: "idem_state \<Rightarrow> bool" where
  "runners_ok s \<longleftrightarrow>
     (\<forall>token rid now. runs s token rid now \<longrightarrow>
        rid \<in> set (is_used s) \<and> (\<forall>r\<in>set (is_rows s). ir_id r = rid \<longrightarrow> outlived s r token now))"

definition leases_disjoint :: "idem_state \<Rightarrow> bool" where
  "leases_disjoint s \<longleftrightarrow>
     (\<forall>p q rid t u. runs s p rid t \<longrightarrow> runs s q rid u \<longrightarrow> p \<noteq> q \<longrightarrow> t + lease \<le> u \<or> u + lease \<le> t)"

definition ids_ok :: "idem_state \<Rightarrow> bool" where
  "ids_ok s \<longleftrightarrow> distinct (map ir_id (is_rows s)) \<and> ir_id ` set (is_rows s) \<subseteq> set (is_used s)"

definition idem_inv :: "idem_state \<Rightarrow> bool" where
  "idem_inv s \<longleftrightarrow> locks_ok s \<and> runners_ok s \<and> leases_disjoint s \<and> ids_ok s"

lemma lease_pos: "0 \<le> lease"
  by (simp add: EXTERNAL_OPERATION_LEASE_MS_def)

lemma started_fun: "started s q t \<Longrightarrow> started s q u \<Longrightarrow> t = u"
  by (auto simp: started_def)

lemma runs_started: "runs s token rid now \<Longrightarrow> started s token now"
  by (auto simp: runs_def started_def)

lemma runs_go_to:
  "runs (go_to token p ph s) q rid t \<longleftrightarrow>
     (if q = token then ph = Running rid \<and> ip_now p = t else runs s q rid t)"
  by (auto simp: runs_def go_to_def)

lemma started_go_to: "started (go_to token p ph s) q t \<longleftrightarrow> (if q = token then ip_now p = t else started s q t)"
  by (auto simp: started_def go_to_def)

lemma started_keep: "is_procs s token = Some p \<Longrightarrow> started (go_to token p ph s) q t \<longleftrightarrow> started s q t"
  unfolding started_go_to by (auto simp: started_def)

lemma go_to_fields [simp]: "is_rows (go_to token p ph s) = is_rows s" "is_used (go_to token p ph s) = is_used s"
  by (simp_all add: go_to_def)

lemma runs_started_fields [simp]:
  "runs (s\<lparr>is_rows := rows\<rparr>) = runs s" "started (s\<lparr>is_rows := rows\<rparr>) = started s"
  "runs (s\<lparr>is_used := used\<rparr>) = runs s" "started (s\<lparr>is_used := used\<rparr>) = started s"
  by (auto simp: runs_def started_def fun_eq_iff)

text \<open>A step that leaves the process out of \<open>Running\<close> and keeps or drops rows keeps the invariant.\<close>

lemma inv_quiet:
  assumes inv: "idem_inv s" and ph: "\<And>rid. ph \<noteq> Running rid"
    and p: "is_procs s token = None \<or> is_procs s token = Some p0 \<and> ip_now p0 = ip_now p"
    and sub: "set rows \<subseteq> set (is_rows s)" "distinct (map ir_id rows)"
  shows "idem_inv (go_to token p ph (s\<lparr>is_rows := rows\<rparr>))" (is "idem_inv ?s'")
proof -
  have st: "started s q t \<Longrightarrow> started ?s' q t" for q t
    using p by (auto simp: started_go_to) (auto simp: started_def)
  have ru: "runs ?s' q rid t \<Longrightarrow> runs s q rid t" for q rid t using ph by (auto simp: runs_go_to split: if_splits)
  have ol: "outlived s r q t \<Longrightarrow> outlived ?s' r q t" for r q t
    using st by (auto simp: outlived_def split: option.splits)
  have "locks_ok ?s'" using inv sub(1) st unfolding idem_inv_def locks_ok_def by simp blast
  moreover have "runners_ok ?s'"
    using inv sub(1) ol ru unfolding idem_inv_def runners_ok_def by simp blast
  moreover have "leases_disjoint ?s'" using inv ru unfolding idem_inv_def leases_disjoint_def by blast
  moreover have "ids_ok ?s'" using inv sub by (auto simp: idem_inv_def ids_ok_def)
  ultimately show ?thesis by (simp add: idem_inv_def)
qed

text \<open>Whoever runs a record that can be acquired has outlived its lease.\<close>

lemma acquirable_late:
  assumes inv: "idem_inv s" and x: "x \<in> set (is_rows s)" "acquirable rid now x" and q: "runs s q rid t"
  shows "t + lease \<le> now"
proof -
  have st: "ir_statusCode x = None" and lk: "\<And>u. ir_lockedUntil x = Some u \<Longrightarrow> u \<le> now"
    using x(2) by (auto simp: acquirable_def)
  have locked: "ir_lockToken x = Some k \<Longrightarrow> started s k w \<Longrightarrow> w + lease \<le> now" for k w
    using inv x(1) lk started_fun unfolding idem_inv_def locks_ok_def by metis
  have o: "outlived s x q t"
    using inv x q unfolding idem_inv_def runners_ok_def acquirable_def by blast
  show ?thesis
  proof (cases "ir_lockToken x")
    case None
    with o st lk show ?thesis by (auto simp: outlived_def)
  next
    case (Some k)
    from o st Some consider "k = q" | w where "started s k w" "t + lease \<le> w" by (auto simp: outlived_def)
    then show ?thesis
    proof cases
      case 1
      with Some locked runs_started [OF q] show ?thesis by blast
    next
      case 2
      with locked [OF Some] lease_pos show ?thesis by fastforce
    qed
  qed
qed

lemma inv_acquire:
  assumes inv: "idem_inv s" and p: "is_procs s token = Some p" "\<And>r. ip_phase p \<noteq> Running r"
    and one: "matching (acquirable rid (ip_now p)) (is_rows s) = 1"
    and rows: "rows = update_many (acquirable rid (ip_now p)) (takeLease input token (ip_now p)) (is_rows s)"
  shows "idem_inv (go_to token p (Running rid) (s\<lparr>is_rows := rows\<rparr>))" (is "idem_inv ?s'")
proof -
  let ?now = "ip_now p"
  obtain x where x: "x \<in> set (is_rows s)" "acquirable rid ?now x" using matching_1_ex [OF one] by blast
  have dist: "distinct (map ir_id (is_rows s))" using inv by (simp add: idem_inv_def ids_ok_def)
  have only: "y \<in> set (is_rows s) \<Longrightarrow> ir_id y = rid \<Longrightarrow> y = x" for y
    using distinct_map_eq [OF dist _ x(1)] x(2) by (simp add: acquirable_def)
  have set': "set rows = insert (takeLease input token ?now x) (set (is_rows s) - {x})"
  proof -
    have "set rows = (\<lambda>r. if r = x then takeLease input token ?now r else r) ` set (is_rows s)"
      unfolding rows set_update_many
    proof (rule image_cong [OF refl])
      fix r assume "r \<in> set (is_rows s)"
      then have "acquirable rid ?now r \<longleftrightarrow> r = x" using only x(2) by (auto simp: acquirable_def)
      then show "(if acquirable rid ?now r then takeLease input token ?now r else r) =
          (if r = x then takeLease input token ?now r else r)" by simp
    qed
    then show ?thesis using x(1) by auto
  qed
  have st: "started ?s' q t \<longleftrightarrow> started s q t" for q t
    using p(1) by (subst started_keep) simp_all
  have late: "runs s q rid t \<Longrightarrow> t + lease \<le> ?now" for q t by (rule acquirable_late [OF inv x])
  have me: "\<not> runs s token r t" for r t using p by (auto simp: runs_def)
  have ol: "outlived s r q t \<Longrightarrow> outlived ?s' r q t" for r q t
    using st by (auto simp: outlived_def split: option.splits)
  have "locks_ok ?s'"
    unfolding locks_ok_def
  proof (intro ballI allI impI)
    fix r q assume r: "r \<in> set (is_rows ?s')" "ir_lockToken r = Some q"
    show "\<exists>t. started ?s' q t \<and> ir_lockedUntil r = Some (t + lease)"
    proof (cases "r = takeLease input token ?now x")
      case True
      with r(2) p(1) show ?thesis unfolding st by (auto simp: takeLease_def started_def)
    next
      case False
      with r set' inv show ?thesis unfolding st by (auto simp: idem_inv_def locks_ok_def)
    qed
  qed
  moreover have "runners_ok ?s'"
    unfolding runners_ok_def
  proof (intro allI impI conjI ballI)
    fix q i t assume r: "runs ?s' q i t"
    show "i \<in> set (is_used ?s')"
      using r inv x unfolding idem_inv_def runners_ok_def ids_ok_def
      by (auto simp: runs_go_to acquirable_def split: if_splits)
    fix y assume y: "y \<in> set (is_rows ?s')" "ir_id y = i"
    show "outlived ?s' y q t"
    proof (cases "y = takeLease input token ?now x")
      case True
      then have "i = rid" using y(2) x(2) by (simp add: acquirable_def)
      with True r late [of q t] st p show ?thesis
        by (auto simp: outlived_def takeLease_def runs_go_to started_def split: if_splits)
    next
      case False
      with y set' have o: "y \<in> set (is_rows s)" "y \<noteq> x" by auto
      with only y(2) have "i \<noteq> rid" by blast
      with r have "runs s q i t" by (auto simp: runs_go_to split: if_splits)
      with inv o y(2) have "outlived s y q t" unfolding idem_inv_def runners_ok_def by blast
      then show ?thesis by (rule ol)
    qed
  qed
  moreover have "leases_disjoint ?s'"
    using inv late unfolding idem_inv_def leases_disjoint_def by (auto simp: runs_go_to split: if_splits)
  moreover have "ids_ok ?s'"
  proof -
    have "map ir_id rows = map ir_id (is_rows s)" unfolding rows by (rule map_update_many) simp
    then have "distinct (map ir_id rows)" "set (map ir_id rows) = set (map ir_id (is_rows s))"
      using dist by simp_all
    with inv show ?thesis by (simp add: idem_inv_def ids_ok_def)
  qed
  ultimately show ?thesis by (simp add: idem_inv_def)
qed

lemma inv_create:
  assumes inv: "idem_inv s" and p: "is_procs s token = Some p" "\<And>r. ip_phase p \<noteq> Running r"
    and new: "newId \<notin> set (is_used s)"
    and r: "r = freshRecord input hashes newId (Some token) (Some (ip_now p + lease)) now'"
  shows "idem_inv (go_to token p (Running newId) (s\<lparr>is_rows := r # is_rows s, is_used := newId # is_used s\<rparr>))"
    (is "idem_inv ?s'")
proof -
  have fresh: "newId \<notin> ir_id ` set (is_rows s)" "\<not> runs s q newId t" for q t
    using inv new unfolding idem_inv_def ids_ok_def runners_ok_def by blast+
  have st: "started ?s' q t \<longleftrightarrow> started s q t" for q t using p(1) by (subst started_keep) simp_all
  have ol: "outlived s x q t \<Longrightarrow> outlived ?s' x q t" for x q t
    using st by (auto simp: outlived_def split: option.splits)
  have rf: "ir_id r = newId" "ir_lockToken r = Some token" "ir_lockedUntil r = Some (ip_now p + lease)"
    by (simp_all add: r freshRecord_def)
  have ru: "runs ?s' q i t \<longleftrightarrow> (if q = token then i = newId \<and> t = ip_now p else runs s q i t)" for q i t
    by (auto simp: runs_go_to)
  have "locks_ok ?s'"
    unfolding locks_ok_def st
    using inv rf p(1) by (auto simp: idem_inv_def locks_ok_def started_def)
  moreover have "runners_ok ?s'"
    unfolding runners_ok_def
  proof (intro allI impI conjI ballI)
    fix q i t assume ra: "runs ?s' q i t"
    show "i \<in> set (is_used ?s')" using ra inv unfolding idem_inv_def runners_ok_def by (auto simp: ru split: if_splits)
    fix y assume y: "y \<in> set (is_rows ?s')" "ir_id y = i"
    show "outlived ?s' y q t"
    proof (cases "i = newId")
      case True
      then have "y = r" using y fresh(1) by auto
      moreover have "q = token" using ra True fresh(2) by (auto simp: ru split: if_splits)
      ultimately show ?thesis using rf by (simp add: outlived_def)
    next
      case False
      then have "y \<in> set (is_rows s)" "runs s q i t" using y ra rf by (auto simp: ru split: if_splits)
      then show ?thesis using inv y(2) ol unfolding idem_inv_def runners_ok_def by blast
    qed
  qed
  moreover have "leases_disjoint ?s'"
    using inv fresh(2) unfolding idem_inv_def leases_disjoint_def by (auto simp: ru split: if_splits)
  moreover have "ids_ok ?s'" using inv fresh(1) rf by (auto simp: idem_inv_def ids_ok_def)
  ultimately show ?thesis by (simp add: idem_inv_def)
qed

text \<open>Saving and releasing change only the record the process holds.\<close>

lemma inv_close:
  assumes inv: "idem_inv s" and p: "is_procs s token = Some p" "ip_phase p = Running rid"
    and ph: "\<And>i. ph \<noteq> Running i"
    and f: "\<And>r. ir_id (f r) = ir_id r" "\<And>r. ir_lockToken (f r) = None"
      "\<And>r. ir_statusCode (f r) \<noteq> None \<or> ir_lockedUntil (f r) = Some (ip_now p)"
    and rows: "rows = update_many (holds rid token) f (is_rows s)"
  shows "idem_inv (go_to token p ph (s\<lparr>is_rows := rows\<rparr>))" (is "idem_inv ?s'")
proof -
  have st: "started ?s' q t \<longleftrightarrow> started s q t" for q t using p(1) by (subst started_keep) simp_all
  have ru: "runs ?s' q i t \<longleftrightarrow> q \<noteq> token \<and> runs s q i t" for q i t using ph by (auto simp: runs_go_to)
  have ol: "outlived s x q t \<Longrightarrow> outlived ?s' x q t" for x q t
    using st by (auto simp: outlived_def split: option.splits)
  have set': "y \<in> set rows \<Longrightarrow> y \<in> set (is_rows s) \<or> (\<exists>x\<in>set (is_rows s). holds rid token x \<and> y = f x)" for y
    unfolding rows set_update_many by auto
  have "locks_ok ?s'"
    unfolding locks_ok_def st using inv set' f(2) by (fastforce simp: idem_inv_def locks_ok_def)
  moreover have "runners_ok ?s'"
    unfolding runners_ok_def
  proof (intro allI impI conjI ballI)
    fix q i t assume ra: "runs ?s' q i t"
    then have r: "runs s q i t" "q \<noteq> token" by (simp_all add: ru)
    show "i \<in> set (is_used ?s')" using r inv unfolding idem_inv_def runners_ok_def go_to_fields by auto
    fix y assume y: "y \<in> set (is_rows ?s')" "ir_id y = i"
    from y(1) set' consider "y \<in> set (is_rows s)" | x where "x \<in> set (is_rows s)" "holds rid token x" "y = f x"
      by auto
    then show "outlived ?s' y q t"
    proof cases
      case 1
      then show ?thesis using inv y(2) r ol unfolding idem_inv_def runners_ok_def by blast
    next
      case 2
      then have "outlived s x q t" using inv y(2) r f(1) unfolding idem_inv_def runners_ok_def by metis
      then have "t + lease \<le> ip_now p"
        using 2 r(2) p(1) by (auto simp: outlived_def holds_def started_def)
      with 2 f(2,3) [of x] show ?thesis by (auto simp: outlived_def)
    qed
  qed
  moreover have "leases_disjoint ?s'" using inv unfolding idem_inv_def leases_disjoint_def ru by blast
  moreover have "ids_ok ?s'"
  proof -
    have "map ir_id rows = map ir_id (is_rows s)" unfolding rows by (rule map_update_many) (rule f(1))
    then have "distinct (map ir_id rows)" "set (map ir_id rows) = set (map ir_id (is_rows s))"
      using inv by (simp_all add: idem_inv_def ids_ok_def)
    with inv show ?thesis by (simp add: idem_inv_def ids_ok_def)
  qed
  ultimately show ?thesis by (simp add: idem_inv_def)
qed

lemma inv_used: "idem_inv s \<Longrightarrow> idem_inv (s\<lparr>is_used := i # is_used s\<rparr>)"
proof -
  have "outlived (s\<lparr>is_used := i # is_used s\<rparr>) = outlived s"
    by (simp add: outlived_def fun_eq_iff split: option.split)
  then show "idem_inv s \<Longrightarrow> idem_inv (s\<lparr>is_used := i # is_used s\<rparr>)"
    unfolding idem_inv_def locks_ok_def runners_ok_def leases_disjoint_def ids_ok_def by auto
qed

lemma existingClaim_rows:
  assumes "existingClaim C input hashes now token r rows = (res, rows')"
  shows "(\<exists>rid. res = Inr (Claimed rid) \<and> matching (acquirable rid now) rows = 1 \<and>
            rows' = update_many (acquirable rid now) (takeLease input token now) rows) \<or>
         rows' = rows \<and> (\<forall>rid. claim_phase res \<noteq> Running rid)"
  using assms
  by (auto simp: existingClaim_def claim_phase_def split: sum.splits option.splits if_splits)

lemma createClaim_rows:
  assumes "createClaim input hashes now token newId rows = (res, rows')"
  shows "(res = Inr (Claimed newId) \<and> rows' = freshRecord input hashes newId (Some token) (Some (now + lease)) now # rows) \<or>
         rows' = rows \<and> (\<forall>rid. claim_phase res \<noteq> Running rid)"
  using assms by (auto simp: createClaim_def claim_phase_def Let_def split: if_splits)

lemma holds_le1: "distinct (map ir_id rows) \<Longrightarrow> matching (holds rid token) rows \<le> 1"
  unfolding holds_def [abs_def] by (rule matching_key_le1)

lemma finish_rows:
  assumes "finishOperation C rid now token iv outcome rows = (result, rows')" "distinct (map ir_id rows)"
  shows "(\<exists>f. (f = releaseLease now \<or> (\<exists>st resp. f = saveResult st resp)) \<and> rows' = update_many (holds rid token) f rows)"
proof -
  have none: "matching (holds rid token) rows \<noteq> 1 \<Longrightarrow> update_many (holds rid token) f rows = rows" for f
    using holds_le1 [OF assms(2), of rid token] by (intro update_many_none) linarith
  have "rows' = update_many (holds rid token) (releaseLease now) rows \<or>
      (\<exists>st resp. rows' = update_many (holds rid token) (saveResult st resp) rows)"
  proof (cases "\<exists>st text stored. outcome = Inr (st, text) \<and> encryptResponse C iv text = Inr stored \<and>
      matching (holds rid token) rows = 1")
    case True
    then obtain st body stored where "outcome = Inr (st, body)" "encryptResponse C iv body = Inr stored"
      "matching (holds rid token) rows = 1" by blast
    with assms(1) have "rows' = update_many (holds rid token) (saveResult st stored) rows"
      by (simp add: finishOperation_def Let_def)
    then show ?thesis by blast
  next
    case False
    with assms(1) none show ?thesis by (auto simp: finishOperation_def Let_def split: sum.splits if_splits)
  qed
  then show ?thesis by blast
qed

lemma idem_step_inv:
  assumes inv: "idem_inv s" and step: "idem_step C s s'"
  shows "idem_inv s'"
proof -
  have dist: "distinct (map ir_id (is_rows s))" using inv by (simp add: idem_inv_def ids_ok_def)
  have same: "s\<lparr>is_rows := is_rows s\<rparr> = s" by simp
  have quiet: "idem_inv (go_to token p ph s)"
    if "is_procs s token = None \<or> is_procs s token = Some p0 \<and> ip_now p0 = ip_now p" "\<And>rid. ph \<noteq> Running rid"
    for token p p0 ph
    using inv_quiet [OF inv that(2) that(1) subset_refl dist] unfolding same .
  from step show ?thesis
  proof (cases rule: idem_step.cases)
    case (Start token input hashes now)
    then show ?thesis by (auto intro!: quiet)
  next
    case (Look token p)
    then show ?thesis by (auto intro!: quiet)
  next
    case (Absent token p)
    then show ?thesis by (auto intro!: quiet)
  next
    case (Expire token p r)
    have "set (expireRecord (ir_id r) (ip_now p) (is_rows s)) \<subseteq> set (is_rows s)"
      "distinct (map ir_id (expireRecord (ir_id r) (ip_now p) (is_rows s)))"
      using distinct_delete_many [OF dist] by (auto simp: expireRecord_def set_delete_many)
    with Expire show ?thesis by (auto intro!: inv_quiet [OF inv])
  next
    case (Unreadable token p r e)
    then show ?thesis by (auto intro!: quiet)
  next
    case (Existing token p r res rows')
    from existingClaim_rows [OF Existing(5)] show ?thesis
    proof (elim disjE exE conjE)
      fix rid assume a: "res = Inr (Claimed rid)" "matching (acquirable rid (ip_now p)) (is_rows s) = 1"
        "rows' = update_many (acquirable rid (ip_now p)) (takeLease (ip_input p) token (ip_now p)) (is_rows s)"
      then have "idem_inv (go_to token p (Running rid) (s\<lparr>is_rows := rows'\<rparr>))"
        using Existing(2,3) by (intro inv_acquire [OF inv]) simp_all
      with Existing(1) a(1) show ?thesis by (simp add: claim_phase_def)
    next
      assume "rows' = is_rows s" "\<forall>rid. claim_phase res \<noteq> Running rid"
      with Existing show ?thesis by (auto intro!: quiet)
    qed
  next
    case (Create token p newId res rows')
    from createClaim_rows [OF Create(5)] show ?thesis
    proof (elim disjE conjE)
      assume a: "res = Inr (Claimed newId)"
        "rows' = freshRecord (ip_input p) (ip_hashes p) newId (Some token) (Some (ip_now p + lease)) (ip_now p) # is_rows s"
      then have "idem_inv (go_to token p (Running newId) (s\<lparr>is_rows := rows', is_used := newId # is_used s\<rparr>))"
        using Create(2-4) by (simp only: a(2)) (intro inv_create [OF inv], simp_all)
      with Create(1) a(1) show ?thesis by (simp add: claim_phase_def)
    next
      assume "rows' = is_rows s" "\<forall>rid. claim_phase res \<noteq> Running rid"
      then have "idem_inv (go_to token p (claim_phase res) s)" using Create(2) by (auto intro!: quiet)
      from inv_used [OF this, of newId] \<open>rows' = is_rows s\<close> Create(1) show ?thesis
        by (cases s) (simp add: go_to_def)
    qed
  next
    case (Finish token p rid iv outcome result rows')
    from finish_rows [OF Finish(4) dist] obtain f where
      f: "f = releaseLease (ip_now p) \<or> (\<exists>st resp. f = saveResult st resp)"
      and r: "rows' = update_many (holds rid token) f (is_rows s)" by blast
    have "idem_inv (go_to token p (Finished result) (s\<lparr>is_rows := rows'\<rparr>))"
      using f by (intro inv_close [OF inv Finish(2,3) _ _ _ _ r]) (auto simp: releaseLease_def saveResult_def)
    with Finish(1) show ?thesis by simp
  qed
qed

lemma idem_reachable_inv: "idem_reachable C s \<Longrightarrow> idem_inv s"
proof (induction rule: idem_reachable.induct)
  case Init
  show ?case
    by (simp add: idem_inv_def locks_ok_def runners_ok_def leases_disjoint_def ids_ok_def idem_init_def runs_def)
next
  case (Step s s')
  then show ?case using idem_step_inv by blast
qed

text \<open>Two processes on one record, the second after the lease of the first, for the concrete instance.\<close>

definition demo_proc :: "time \<Rightarrow> idem_phase \<Rightarrow> IdempotencyHashes \<Rightarrow> idem_proc" where
  "demo_proc now ph hashes = \<lparr>ip_input = demo_request (JNum 1), ip_hashes = hashes, ip_now = now, ip_phase = ph\<rparr>"

definition demo_row :: "IdempotencyHashes \<Rightarrow> IdempotencyRecord" where
  "demo_row hashes = freshRecord (demo_request (JNum 1)) hashes ''r1'' (Some ''t1'') (Some (0 + lease)) 0"

definition demo_hashes :: IdempotencyHashes where
  "demo_hashes =
     (case idempotencyHashes demo_idem ''key-0001'' (JNum 1) of
        Inr h \<Rightarrow> h
      | Inl _ \<Rightarrow> \<lparr>ih_keyHash = [], ih_keyHashCandidates = [], ih_requestHash = [], ih_requestHashCandidates = []\<rparr>)"

lemma demo_hashes: "idempotencyHashes demo_idem (ii_key (demo_request (JNum 1))) (ii_request (demo_request (JNum 1))) = Inr demo_hashes"
  "ih_keyHash demo_hashes \<in> set (ih_keyHashCandidates demo_hashes)"
  "ih_requestHash demo_hashes \<in> set (ih_requestHashCandidates demo_hashes)"
proof -
  obtain h where h: "idempotencyHashes demo_idem ''key-0001'' (JNum 1) = Inr h"
    using hashes_total [OF demo_idem_ok(1)] by blast
  then have d: "demo_hashes = h" by (simp add: demo_hashes_def)
  show "idempotencyHashes demo_idem (ii_key (demo_request (JNum 1))) (ii_request (demo_request (JNum 1))) = Inr demo_hashes"
    using h d by (simp add: demo_request_def)
  show "ih_keyHash demo_hashes \<in> set (ih_keyHashCandidates demo_hashes)"
    "ih_requestHash demo_hashes \<in> set (ih_requestHashCandidates demo_hashes)"
    using hashes_own [OF demo_idem_ok(1) h] d by simp_all
qed

definition demo_concurrent :: idem_state where
  "demo_concurrent =
     \<lparr>is_rows = [takeLease (demo_request (JNum 1)) ''t2'' 200000 (demo_row demo_hashes)],
      is_procs = [''t1'' \<mapsto> demo_proc 0 (Running ''r1'') demo_hashes,
                  ''t2'' \<mapsto> demo_proc 200000 (Running ''r1'') demo_hashes],
      is_used = [''r1'']\<rparr>"

lemma demo_concurrent_reachable: "idem_reachable demo_idem demo_concurrent"
proof -
  let ?p = "\<lambda>now ph. demo_proc now ph demo_hashes" and ?row = "demo_row demo_hashes"
  let ?s1 = "\<lparr>is_rows = [], is_procs = [''t1'' \<mapsto> ?p 0 Looking], is_used = []\<rparr>"
  let ?s2 = "\<lparr>is_rows = [], is_procs = [''t1'' \<mapsto> ?p 0 (Decide None)], is_used = []\<rparr>"
  let ?s3 = "\<lparr>is_rows = [], is_procs = [''t1'' \<mapsto> ?p 0 Creating], is_used = []\<rparr>"
  let ?s4 = "\<lparr>is_rows = [?row], is_procs = [''t1'' \<mapsto> ?p 0 (Running ''r1'')], is_used = [''r1'']\<rparr>"
  let ?s5 = "\<lparr>is_rows = [?row], is_procs = [''t1'' \<mapsto> ?p 0 (Running ''r1''), ''t2'' \<mapsto> ?p 200000 Looking], is_used = [''r1'']\<rparr>"
  let ?s6 = "\<lparr>is_rows = [?row], is_procs = [''t1'' \<mapsto> ?p 0 (Running ''r1''), ''t2'' \<mapsto> ?p 200000 (Decide (Some ?row))], is_used = [''r1'']\<rparr>"
  have 1: "idem_step demo_idem idem_init ?s1"
    using Start [of idem_init "''t1''" demo_idem "demo_request (JNum 1)" demo_hashes 0] demo_hashes(1)
    by (simp add: idem_init_def go_to_def demo_proc_def)
  have 2: "idem_step demo_idem ?s1 ?s2"
    using Look [of ?s1 "''t1''" "?p 0 Looking" demo_idem] by (simp add: go_to_def demo_proc_def findRecord_def find_first_def)
  have 3: "idem_step demo_idem ?s2 ?s3"
    using Absent [of ?s2 "''t1''" "?p 0 (Decide None)" demo_idem] by (simp add: go_to_def demo_proc_def)
  have 4: "idem_step demo_idem ?s3 ?s4"
    using Create [of ?s3 "''t1''" "?p 0 Creating" "''r1''" "Inr (Claimed ''r1'')" "[?row]" demo_idem]
    by (simp add: go_to_def demo_proc_def createClaim_def Let_def clashes_def claim_phase_def demo_row_def)
  have 5: "idem_step demo_idem ?s4 ?s5"
    using Start [of ?s4 "''t2''" demo_idem "demo_request (JNum 1)" demo_hashes 200000] demo_hashes(1)
    by (simp add: go_to_def demo_proc_def)
  have found: "findRecord (demo_request (JNum 1)) demo_hashes [?row] = Some ?row"
    using demo_hashes(2) by (simp add: findRecord_def find_first_def demo_row_def freshRecord_def)
  have 6: "idem_step demo_idem ?s5 ?s6"
    using Look [of ?s5 "''t2''" "?p 200000 Looking" demo_idem] found by (simp add: go_to_def demo_proc_def)
  have 7: "idem_step demo_idem ?s6 demo_concurrent"
    using Existing [of ?s6 "''t2''" "?p 200000 (Decide (Some ?row))" ?row demo_idem "Inr (Claimed ''r1'')"
        "[takeLease (demo_request (JNum 1)) ''t2'' 200000 ?row]"] demo_hashes(3)
    by (simp add: go_to_def demo_proc_def existingClaim_def assertSameRequest_def completedResult_def matching_def
        update_many_def acquirable_def claim_phase_def demo_concurrent_def demo_row_def freshRecord_def
        EXTERNAL_OPERATION_LEASE_MS_def)
  show ?thesis by (rule Step [OF Step [OF Step [OF Step [OF Step [OF Step [OF Step [OF Init 1] 2] 3] 4] 5] 6] 7])
qed

section \<open>Properties\<close>

text \<open>
  C2: leases exclude each other. In every reachable state of any number of concurrent calls, two
  processes that run the operation of the same record started at least one lease (two minutes)
  apart: while a process is within its lease no other process starts the operation, so that only a
  process that has outlived its lease can be overtaken. This holds without any assumption on the
  clocks of the processes.
\<close>

theorem runIdempotent_leases_exclude:
  assumes "idem_reachable C s" and "runs s p rid t" "runs s q rid u" "p \<noteq> q"
  shows "t + EXTERNAL_OPERATION_LEASE_MS \<le> u \<or> u + EXTERNAL_OPERATION_LEASE_MS \<le> t"
  using idem_reachable_inv [OF assms(1)] assms(2-4) unfolding idem_inv_def leases_disjoint_def by blast

theorem runIdempotent_leases_exclude_witness:
  "runs demo_concurrent ''t1'' ''r1'' 0 \<and> runs demo_concurrent ''t2'' ''r1'' 200000 \<and>
   (0 + EXTERNAL_OPERATION_LEASE_MS \<le> 200000 \<or> 200000 + EXTERNAL_OPERATION_LEASE_MS \<le> 0)"
proof -
  have "runs demo_concurrent ''t1'' ''r1'' 0" "runs demo_concurrent ''t2'' ''r1'' 200000"
    by (simp_all add: runs_def demo_concurrent_def demo_proc_def)
  with runIdempotent_leases_exclude [OF demo_concurrent_reachable this] show ?thesis by simp
qed

text \<open>
  A stored response is final. No step of any process changes a record that has its status: it
  stays as it is or is deleted, and it is deleted only after its expiry, by a process that found an
  expired record. So a late process that lost its lease cannot overwrite the response.
\<close>

theorem runIdempotent_response_final:
  assumes "idem_step C s s'" and "r \<in> set (is_rows s)" and "ir_statusCode r \<noteq> None"
  shows "r \<in> set (is_rows s') \<or> (\<exists>token p. is_procs s token = Some p \<and> ir_expiresAt r \<le> ip_now p)"
  using assms(1)
proof (cases rule: idem_step.cases)
  case (Existing token p x res rows')
  from existingClaim_rows [OF Existing(5)] assms(2,3) have "r \<in> set rows'"
    by (force simp: set_update_many acquirable_def image_iff)
  with Existing show ?thesis by simp
next
  case (Create token p newId res rows')
  from createClaim_rows [OF Create(5)] assms(2) have "r \<in> set rows'" by auto
  with Create show ?thesis by simp
next
  case (Finish token p rid iv outcome result rows')
  have "r \<in> set (update_many (holds rid token) f rows)" if "r \<in> set rows" for f rows
    using that assms(3) by (force simp: set_update_many holds_def image_iff)
  with Finish assms(2) show ?thesis
    by (auto simp: finishOperation_def Let_def split: sum.splits if_splits)
qed (use assms(2) in \<open>auto simp: expireRecord_def set_delete_many\<close>)

theorem runIdempotent_response_final_witness:
  "\<exists>s' r. idem_step demo_idem \<lparr>is_rows = [r], is_procs = (\<lambda>_. None), is_used = []\<rparr> s' \<and> r \<in> set (is_rows s')"
proof -
  let ?r = "saveResult 201 (PlainResponse ''x'') (demo_row demo_hashes)"
  let ?s = "\<lparr>is_rows = [?r], is_procs = (\<lambda>_. None), is_used = []\<rparr>"
  have step: "idem_step demo_idem ?s (go_to ''t'' (demo_proc 0 Looking demo_hashes) Looking ?s)"
    using Start [of ?s "''t''" demo_idem, OF _ demo_hashes(1), of 0] by (simp add: demo_proc_def)
  have "ir_statusCode ?r \<noteq> None" by (simp add: saveResult_def)
  with runIdempotent_response_final [OF step, of ?r]
  have "?r \<in> set (is_rows (go_to ''t'' (demo_proc 0 Looking demo_hashes) Looking ?s))" by simp
  with step show ?thesis by blast
qed

end
