(* ===== verification/Outbox.thy ===== *)
theory Outbox
  imports Audit_Trail Rate_Limit
begin

text \<open>
  The transactional outbox: \<open>src/src/modules/outbox/outbox.service.ts\<close>, \<open>outbox.policy.ts\<close> and
  \<open>outbox.relay.ts\<close>, and the queue worker of \<open>src/src/queues/notification.worker.ts\<close>. The queue and
  the delivery providers are arguments. Tracing, metrics and log lines are left out.

  Every table here has a soft-delete column, so each query that goes through the client carries the
  filter on it that the client adds (\<^verbatim>\<open>Tenant_Scope\<close>); raw SQL carries only what it says.
\<close>

section \<open>Events\<close>

datatype NotificationChannel = EMAIL | SMS | PUSH | INTERNAL

datatype OutboxStatus = PENDING | CLAIMED | ENQUEUED | PROCESSING | DELIVERED | FAILED | DEAD_LETTER

record OutboxEvent =
  ob_id :: ident
  ob_aggregateType :: string
  ob_aggregateId :: string
  ob_eventType :: string
  ob_channel :: NotificationChannel
  ob_payload :: jsval
  ob_dedupeKey :: string
  ob_status :: OutboxStatus
  ob_attempts :: nat
  ob_deliveryGeneration :: int
  ob_availableAt :: time
  ob_expiresAt :: "time option"
  ob_claimedAt :: "time option"
  ob_claimExpiresAt :: "time option"
  ob_claimToken :: "string option"
  ob_enqueuedAt :: "time option"
  ob_deliveredAt :: "time option"
  ob_failedAt :: "time option"
  ob_deadLetteredAt :: "time option"
  ob_lastError :: "string option"
  ob_createdAt :: time
  ob_deletedAt :: "time option"

record OutboxInput =
  oi_aggregateType :: string
  oi_aggregateId :: string
  oi_eventType :: string
  oi_channel :: NotificationChannel
  oi_payload :: jsval
  oi_dedupeKey :: string
  oi_availableAt :: "time option"
  oi_expiresAt :: "time option"

text \<open>The insert; the columns the input leaves out take the defaults of the schema.\<close>

definition newOutboxEvent :: "ident \<Rightarrow> time \<Rightarrow> OutboxInput \<Rightarrow> OutboxEvent" where
  "newOutboxEvent oid now input =
     \<lparr>ob_id = oid, ob_aggregateType = oi_aggregateType input, ob_aggregateId = oi_aggregateId input,
      ob_eventType = oi_eventType input, ob_channel = oi_channel input, ob_payload = oi_payload input,
      ob_dedupeKey = oi_dedupeKey input, ob_status = PENDING, ob_attempts = 0, ob_deliveryGeneration = 0,
      ob_availableAt = orElse (oi_availableAt input) now, ob_expiresAt = oi_expiresAt input,
      ob_claimedAt = None, ob_claimExpiresAt = None, ob_claimToken = None, ob_enqueuedAt = None,
      ob_deliveredAt = None, ob_failedAt = None, ob_deadLetteredAt = None, ob_lastError = None,
      ob_createdAt = now, ob_deletedAt = None\<rparr>"

definition addOutboxEvent :: "ident \<Rightarrow> time \<Rightarrow> OutboxInput \<Rightarrow> OutboxEvent table \<Rightarrow> thrown + OutboxEvent table" where
  "addOutboxEvent oid now input events =
     (let e = newOutboxEvent oid now input in
      if clashes (\<lambda>a b. ob_dedupeKey a = ob_dedupeKey b) e events then Inl (PrismaKnown ''P2002'')
      else Inr (e # events))"

definition listDeadLetterEvents :: "CursorPaginationInput \<Rightarrow> OutboxEvent list \<Rightarrow> OutboxEvent CursorPage" where
  "listDeadLetterEvents input ordered =
     paginateCursor ob_id input (fetch_rows ob_id
       (filter (\<lambda>e. ob_status e = DEAD_LETTER \<and> ob_deletedAt e = None) ordered))"

section \<open>Redriving dead letters\<close>

definition resetEvent :: "time \<Rightarrow> OutboxEvent \<Rightarrow> OutboxEvent" where
  "resetEvent now e =
     e\<lparr>ob_status := PENDING, ob_attempts := 0, ob_deliveryGeneration := ob_deliveryGeneration e + 1,
       ob_availableAt := now, ob_claimedAt := None, ob_claimExpiresAt := None, ob_claimToken := None,
       ob_enqueuedAt := None, ob_deliveredAt := None, ob_failedAt := None, ob_deadLetteredAt := None,
       ob_lastError := None\<rparr>"

text \<open>The parts of a request that the audit trail records.\<close>

record RequestMetadata =
  rm_ip :: string
  rm_userAgent :: "string option"
  rm_requestId :: string

definition audit_of ::
    "RequestMetadata \<Rightarrow> string option \<Rightarrow> string \<Rightarrow> string \<Rightarrow> string option \<Rightarrow> jsval option \<Rightarrow> AuditInput" where
  "audit_of m actor action entityType entityId meta =
     \<lparr>ai_actorUserId = actor, ai_action = action, ai_entityType = entityType, ai_entityId = entityId,
      ai_requestId = Some (rm_requestId m), ai_ip = Some (rm_ip m), ai_userAgent = rm_userAgent m,
      ai_metadata = meta\<rparr>"

record outbox_db =
  od_events :: "OutboxEvent table"
  od_audit :: "AuditEvent table"

definition redriveDeadLetterEvent ::
    "audit_deps \<Rightarrow> RequestContext option \<Rightarrow> effects \<Rightarrow> ident \<Rightarrow> string \<Rightarrow> RequestMetadata \<Rightarrow> outbox_db \<Rightarrow>
     thrown + OutboxEvent \<times> outbox_db" where
  "redriveDeadLetterEvent D ctx ef oid actorUserId metadata db =
     (case find_first (\<lambda>e. ob_id e = oid \<and> ob_deletedAt e = None) (od_events db) of
        None \<Rightarrow> Inl (App (notFound (Some ''Outbox event not found'')))
      | Some existing \<Rightarrow>
          if ob_status existing \<noteq> DEAD_LETTER
          then Inl (App (conflict (Some ''Only dead-lettered outbox events can be redriven'')))
          else if (case ob_expiresAt existing of None \<Rightarrow> False | Some x \<Rightarrow> x \<le> ef_now ef 0)
          then Inl (App (conflict (Some ''Expired outbox events cannot be redriven'')))
          else
            let guard = (\<lambda>e. ob_id e = oid \<and> ob_status e = DEAD_LETTER \<and>
                     ob_deliveryGeneration e = ob_deliveryGeneration existing \<and> ob_deletedAt e = None);
                events = update_many guard (resetEvent (ef_now ef 1)) (od_events db)
            in if matching guard (od_events db) \<noteq> 1
               then Inl (App (conflict (Some ''Outbox event state changed; retry the request'')))
               else
                 (case writeAuditEvent D ctx (ef_id ef 0) (ef_now ef 2)
                    (audit_of metadata (Some actorUserId) ''outbox.dead_letter.redriven'' ''outbox_event'' (Some oid)
                       (Some (JObj [(''previousGeneration'', JNum (ob_deliveryGeneration existing))])))
                    (od_audit db) of
                    Inl e \<Rightarrow> Inl e
                  | Inr audit \<Rightarrow>
                      (case find_first (\<lambda>e. ob_id e = oid \<and> ob_deletedAt e = None) events of
                         None \<Rightarrow> Inl (PrismaKnown ''P2025'')
                       | Some e \<Rightarrow> Inr (e, \<lparr>od_events = events, od_audit = audit\<rparr>))))"

section \<open>Delivery policy\<close>

definition OUTBOX_MAX_DELIVERY_ATTEMPTS :: int where
  "OUTBOX_MAX_DELIVERY_ATTEMPTS = 5"

datatype DeliveryFailureDisposition = RetryDelivery | DeadLetterDelivery

definition deliveryFailureDisposition :: "int \<Rightarrow> int option \<Rightarrow> DeliveryFailureDisposition" where
  "deliveryFailureDisposition attemptsMadeBeforeCurrentAttempt configuredAttempts =
     (let maximumAttempts = max 1 (orElse configuredAttempts 1) in
      if attemptsMadeBeforeCurrentAttempt + 1 \<ge> maximumAttempts then DeadLetterDelivery else RetryDelivery)"

definition outboxJobId :: "ident \<Rightarrow> int \<Rightarrow> string" where
  "outboxJobId outboxId deliveryGeneration = ''outbox-'' @ outboxId @ ''-'' @ jsonNumber deliveryGeneration"

section \<open>The relay\<close>

definition OUTBOX_BATCH_SIZE :: nat where
  "OUTBOX_BATCH_SIZE = 100"

definition OUTBOX_CLAIM_LEASE_MS :: time where
  "OUTBOX_CLAIM_LEASE_MS = 30000"

definition OUTBOX_MAX_BATCHES_PER_TICK :: nat where
  "OUTBOX_MAX_BATCHES_PER_TICK = 10"

definition OUTBOX_ENQUEUE_RETRY_DELAY_MS :: time where
  "OUTBOX_ENQUEUE_RETRY_DELAY_MS = 5000"

definition claimable :: "time \<Rightarrow> OutboxEvent \<Rightarrow> bool" where
  "claimable now e \<longleftrightarrow>
     ob_deletedAt e = None \<and> ob_availableAt e \<le> now \<and>
     (case ob_expiresAt e of None \<Rightarrow> True | Some x \<Rightarrow> x > now) \<and>
     (ob_status e = PENDING \<or>
      ob_status e = CLAIMED \<and> (case ob_claimExpiresAt e of None \<Rightarrow> False | Some x \<Rightarrow> x \<le> now))"

definition claimEvent :: "time \<Rightarrow> string \<Rightarrow> OutboxEvent \<Rightarrow> OutboxEvent" where
  "claimEvent now token e =
     e\<lparr>ob_status := CLAIMED, ob_claimedAt := Some now, ob_claimExpiresAt := Some (now + OUTBOX_CLAIM_LEASE_MS),
       ob_claimToken := Some token\<rparr>"

text \<open>
  One statement: the oldest claimable rows that no peer has locked at the moment, up to the batch
  size, are marked and returned. The locked rows are an argument.
\<close>

definition claimOutboxBatch ::
    "nat \<Rightarrow> time \<Rightarrow> string \<Rightarrow> (ident \<Rightarrow> bool) \<Rightarrow> OutboxEvent table \<Rightarrow> OutboxEvent list \<times> OutboxEvent table" where
  "claimOutboxBatch batchSize now token locked events =
     (let candidates = map ob_id (take batchSize
            (filter (\<lambda>e. \<not> locked (ob_id e)) (sort_key ob_createdAt (filter (claimable now) events))));
          chosen = (\<lambda>e. List.member candidates (ob_id e));
          events' = update_many chosen (claimEvent now token) events
      in (filter chosen events', events'))"

definition claimedAs :: "OutboxEvent \<Rightarrow> OutboxEvent \<Rightarrow> bool" where
  "claimedAs event e \<longleftrightarrow>
     ob_id e = ob_id event \<and> ob_status e = CLAIMED \<and> ob_claimToken e = ob_claimToken event \<and> ob_deletedAt e = None"

definition releaseClaimAfterEnqueueFailure ::
    "time \<Rightarrow> OutboxEvent \<Rightarrow> string option \<Rightarrow> OutboxEvent table \<Rightarrow> OutboxEvent table" where
  "releaseClaimAfterEnqueueFailure now event errorMessage events =
     update_many (claimedAs event)
       (\<lambda>e. e\<lparr>ob_status := PENDING, ob_availableAt := now + OUTBOX_ENQUEUE_RETRY_DELAY_MS, ob_claimedAt := None,
              ob_claimExpiresAt := None, ob_claimToken := None,
              ob_lastError := Some (case errorMessage of Some m \<Rightarrow> take 2000 m | None \<Rightarrow> ''Unknown enqueue error'')\<rparr>)
       events"

definition markEnqueued :: "time \<Rightarrow> OutboxEvent \<Rightarrow> OutboxEvent table \<Rightarrow> OutboxEvent table" where
  "markEnqueued now event events =
     update_many (claimedAs event)
       (\<lambda>e. e\<lparr>ob_status := ENQUEUED, ob_enqueuedAt := Some now, ob_claimedAt := None, ob_claimExpiresAt := None,
              ob_claimToken := None, ob_lastError := None\<rparr>)
       events"

record NotificationJobData =
  jd_outboxId :: ident
  jd_generation :: int

text \<open>The queue of a channel: adding a job under its identifier may fail with an error message.\<close>

type_synonym 'q add_job = "NotificationChannel \<Rightarrow> NotificationJobData \<Rightarrow> string \<Rightarrow> 'q \<Rightarrow> (string + 'q)"

definition enqueueClaimedEvent ::
    "'q add_job \<Rightarrow> time \<Rightarrow> OutboxEvent \<Rightarrow> OutboxEvent table \<times> 'q \<Rightarrow> (thrown + unit) \<times> OutboxEvent table \<times> 'q" where
  "enqueueClaimedEvent add now event st =
     (if \<not> truthy (ob_claimToken event)
      then (Inl (OtherError (''Outbox event '' @ ob_id event @ '' is missing its claim token'')), st)
      else case add (ob_channel event) \<lparr>jd_outboxId = ob_id event, jd_generation = ob_deliveryGeneration event\<rparr>
                  (outboxJobId (ob_id event) (ob_deliveryGeneration event)) (snd st) of
             Inl message \<Rightarrow>
               (Inl (OtherError message), releaseClaimAfterEnqueueFailure now event (Some message) (fst st), snd st)
           | Inr q \<Rightarrow> (Inr (), markEnqueued now event (fst st), q))"

definition relayOutboxBatch ::
    "'q add_job \<Rightarrow> time \<Rightarrow> string \<Rightarrow> (ident \<Rightarrow> bool) \<Rightarrow> OutboxEvent table \<times> 'q \<Rightarrow> nat \<times> OutboxEvent table \<times> 'q" where
  "relayOutboxBatch add now token locked st =
     (case claimOutboxBatch OUTBOX_BATCH_SIZE now token locked (fst st) of
        (claimed, events) \<Rightarrow>
          (length claimed, fold (\<lambda>e st. snd (enqueueClaimedEvent add now e st)) claimed (events, snd st)))"

text \<open>The bounded loop of one relay tick; each batch has its own clock reading, token and locks.\<close>

fun relayBatches ::
    "nat \<Rightarrow> 'q add_job \<Rightarrow> (nat \<Rightarrow> time) \<Rightarrow> (nat \<Rightarrow> string) \<Rightarrow> (nat \<Rightarrow> ident \<Rightarrow> bool) \<Rightarrow>
     OutboxEvent table \<times> 'q \<Rightarrow> nat \<times> OutboxEvent table \<times> 'q" where
  "relayBatches 0 add now token locked st = (0, st)"
| "relayBatches (Suc n) add now token locked st =
     (let batch = OUTBOX_MAX_BATCHES_PER_TICK - Suc n in
      case relayOutboxBatch add (now batch) (token batch) (locked batch) st of
        (claimed, st') \<Rightarrow>
          if claimed < OUTBOX_BATCH_SIZE then (claimed, st')
          else case relayBatches n add now token locked st' of (rest, st'') \<Rightarrow> (claimed + rest, st''))"

text \<open>The flag keeps a process from running two ticks at once.\<close>

definition relayAvailableOutbox ::
    "bool \<Rightarrow> 'q add_job \<Rightarrow> (nat \<Rightarrow> time) \<Rightarrow> (nat \<Rightarrow> string) \<Rightarrow> (nat \<Rightarrow> ident \<Rightarrow> bool) \<Rightarrow>
     OutboxEvent table \<times> 'q \<Rightarrow> nat \<times> OutboxEvent table \<times> 'q" where
  "relayAvailableOutbox relaying add now token locked st =
     (if relaying then (0, st) else relayBatches OUTBOX_MAX_BATCHES_PER_TICK add now token locked st)"

section \<open>The worker\<close>

datatype DeliveryStatus = D_PROCESSING | D_SENT | D_DELIVERED | D_SUPPRESSED | D_BOUNCED | D_COMPLAINED | D_FAILED

record NotificationDelivery =
  nd_outboxEventId :: ident
  nd_channel :: NotificationChannel
  nd_userId :: "string option"
  nd_organizationId :: "string option"
  nd_destinationHash :: "string option"
  nd_status :: DeliveryStatus
  nd_attempts :: nat
  nd_provider :: "string option"
  nd_providerMessageId :: "string option"
  nd_templateKey :: "string option"
  nd_sentAt :: "time option"
  nd_deliveredAt :: "time option"
  nd_lastError :: "string option"
  nd_deletedAt :: "time option"

text \<open>Of a stored Stripe event the worker only touches the status and the error.\<close>

datatype WebhookStatus = W_RECEIVED | W_PROCESSING | W_PROCESSED | W_FAILED

record webhook_row =
  wh_id :: ident
  wh_status :: WebhookStatus
  wh_lastError :: "string option"
  wh_deletedAt :: "time option"

record ProviderDeliveryResult =
  pr_suppressed :: bool
  pr_provider :: string
  pr_messageId :: "string option"
  pr_templateKey :: "string option"

text \<open>The state of the worker, with a log of the deliveries handed to a provider or internal handler.\<close>

record worker_db =
  wd_events :: "OutboxEvent table"
  wd_deliveries :: "NotificationDelivery table"
  wd_webhooks :: "webhook_row table"
  wd_handed :: "ident list"

definition payloadString :: "jsval \<Rightarrow> string \<Rightarrow> string option" where
  "payloadString payload key =
     (case jprop key payload of JStr s \<Rightarrow> (if s \<noteq> [] then Some s else None) | _ \<Rightarrow> None)"

datatype DeliveryStart = SEND | ALREADY_RECORDED

definition recordedStatuses :: "DeliveryStatus list" where
  "recordedStatuses = [D_SENT, D_DELIVERED, D_SUPPRESSED, D_BOUNCED, D_COMPLAINED]"

definition recordDeliveryStarted ::
    "(string \<Rightarrow> thrown + string) \<Rightarrow> OutboxEvent \<Rightarrow> NotificationDelivery table \<Rightarrow>
     thrown + DeliveryStart \<times> NotificationDelivery table" where
  "recordDeliveryStarted hash event rows =
     (case find_first (\<lambda>d. nd_outboxEventId d = ob_id event \<and> nd_deletedAt d = None \<and>
              List.member recordedStatuses (nd_status d)) rows of
        Some _ \<Rightarrow> Inr (ALREADY_RECORDED, rows)
      | None \<Rightarrow>
          (case (case payloadString (ob_payload event) ''destination'' of
                   None \<Rightarrow> Inr None
                 | Some d \<Rightarrow> map_sum (\<lambda>e. e) Some (hash (normalizeEmail d))) of
             Inl e \<Rightarrow> Inl e
           | Inr destinationHash \<Rightarrow>
               if matching (\<lambda>d. nd_outboxEventId d = ob_id event) rows = 0
               then Inr (SEND,
                 \<lparr>nd_outboxEventId = ob_id event, nd_channel = ob_channel event,
                  nd_userId = payloadString (ob_payload event) ''userId'',
                  nd_organizationId = payloadString (ob_payload event) ''organizationId'',
                  nd_destinationHash = destinationHash, nd_status = D_PROCESSING, nd_attempts = 1,
                  nd_provider = None, nd_providerMessageId = None, nd_templateKey = None, nd_sentAt = None,
                  nd_deliveredAt = None, nd_lastError = None, nd_deletedAt = None\<rparr> # rows)
               else Inr (SEND, update_many (\<lambda>d. nd_outboxEventId d = ob_id event)
                      (\<lambda>d. d\<lparr>nd_status := D_PROCESSING, nd_attempts := nd_attempts d + 1, nd_lastError := None\<rparr>) rows)))"

definition recordDeliveryResult ::
    "time \<Rightarrow> OutboxEvent \<Rightarrow> ProviderDeliveryResult \<Rightarrow> NotificationDelivery table \<Rightarrow> thrown + NotificationDelivery table" where
  "recordDeliveryResult sentAt event result rows =
     (let target = (\<lambda>d. nd_outboxEventId d = ob_id event \<and> nd_deletedAt d = None) in
      if matching target rows = 0 then Inl (PrismaKnown ''P2025'')
      else Inr (update_many target
        (\<lambda>d. d\<lparr>nd_status := (if pr_suppressed result then D_SUPPRESSED else D_SENT),
               nd_provider := Some (pr_provider result), nd_providerMessageId := pr_messageId result,
               nd_templateKey := pr_templateKey result,
               nd_sentAt := (if pr_suppressed result then None else Some sentAt), nd_lastError := None\<rparr>) rows))"

text \<open>The message of an error, for the columns that keep it.\<close>

fun thrown_message :: "thrown \<Rightarrow> string" where
  "thrown_message (App e) = err_message e"
| "thrown_message (PrismaKnown c) = c"
| "thrown_message (BodySyntaxError m) = m"
| "thrown_message (OtherError m) = m"

definition recordDeliveryError :: "OutboxEvent \<Rightarrow> thrown \<Rightarrow> NotificationDelivery table \<Rightarrow> NotificationDelivery table" where
  "recordDeliveryError event err rows =
     update_many (\<lambda>d. nd_outboxEventId d = ob_id event \<and> nd_deletedAt d = None)
       (\<lambda>d. d\<lparr>nd_status := D_FAILED, nd_lastError := Some (take 2000 (thrown_message err))\<rparr>) rows"

definition stripeWebhookEventId :: "OutboxEvent \<Rightarrow> string option" where
  "stripeWebhookEventId event =
     (if ob_channel event \<noteq> INTERNAL \<or> ob_eventType event \<noteq> ''stripe.event_received'' then None
      else case jprop ''stripeWebhookEventId'' (ob_payload event) of JStr s \<Rightarrow> Some s | _ \<Rightarrow> None)"

text \<open>The handlers of internal events and the providers, outside this component.\<close>

record worker_deps =
  dep_erasure :: "(jsval \<Rightarrow> thrown + unit) option"
  dep_uploadScan :: "(string \<Rightarrow> thrown + unit) option"
  dep_stripeEvent :: "string \<Rightarrow> thrown + unit"
  dep_hash :: "string \<Rightarrow> thrown + string"
  dep_emailLimit :: "thrown + unit"
  dep_smsLimit :: "thrown + unit"
  dep_sendEmail :: "string \<Rightarrow> jsval \<Rightarrow> ident \<Rightarrow> thrown + ProviderDeliveryResult"
  dep_sendSms :: "string \<Rightarrow> jsval \<Rightarrow> ident \<Rightarrow> thrown + ProviderDeliveryResult"
  dep_sendPush :: "jsval \<Rightarrow> ident \<Rightarrow> thrown + ProviderDeliveryResult"

definition processInternal ::
    "worker_deps \<Rightarrow> OutboxEvent \<Rightarrow> webhook_row table \<Rightarrow> (thrown + unit) \<times> webhook_row table" where
  "processInternal deps event webhooks =
     (if ob_eventType event = ''account.erasure.requested'' then
        (case dep_erasure deps of
           None \<Rightarrow> (Inl (OtherError ''Account-erasure worker dependencies are unavailable''), webhooks)
         | Some f \<Rightarrow> (f (ob_payload event), webhooks))
      else if ob_eventType event = ''upload.scan.requested'' then
        (case dep_uploadScan deps of
           None \<Rightarrow> (Inl (OtherError ''Upload-scanning worker dependencies are unavailable''), webhooks)
         | Some f \<Rightarrow>
             (case payloadString (ob_payload event) ''uploadId'' of
                None \<Rightarrow> (Inl (OtherError ''Missing upload id''), webhooks)
              | Some u \<Rightarrow> (f u, webhooks)))
      else if ob_eventType event \<noteq> ''stripe.event_received'' then
        (Inl (OtherError (''Unsupported internal event: '' @ ob_eventType event)), webhooks)
      else if \<not> truthy (stripeWebhookEventId event) then (Inl (OtherError ''Missing Stripe event id''), webhooks)
      else let w = the (stripeWebhookEventId event); target = (\<lambda>r. wh_id r = w \<and> wh_deletedAt r = None) in
           if matching target webhooks = 0 then (Inl (PrismaKnown ''P2025''), webhooks)
           else (dep_stripeEvent deps w,
                 update_many target (\<lambda>r. r\<lparr>wh_status := W_PROCESSING, wh_lastError := None\<rparr>) webhooks))"

definition recordDeliveryFailure ::
    "time \<Rightarrow> OutboxEvent \<Rightarrow> int \<Rightarrow> thrown \<Rightarrow> DeliveryFailureDisposition \<Rightarrow> worker_db \<Rightarrow> bool \<times> worker_db" where
  "recordDeliveryFailure now event generation err disposition db =
     (let message = take 2000 (thrown_message err);
          dead = (disposition = DeadLetterDelivery);
          guard = (\<lambda>e. ob_id e = ob_id event \<and> ob_deliveryGeneration e = generation \<and>
                        ob_status e \<noteq> DELIVERED \<and> ob_status e \<noteq> DEAD_LETTER \<and> ob_deletedAt e = None);
          events = update_many guard
            (\<lambda>e. e\<lparr>ob_status := (if dead then DEAD_LETTER else ENQUEUED),
                   ob_failedAt := (if dead then Some now else None),
                   ob_deadLetteredAt := (if dead then Some now else None), ob_lastError := Some message\<rparr>) (wd_events db)
      in if matching guard (wd_events db) \<noteq> 1 then (False, db\<lparr>wd_events := events\<rparr>)
         else (True, db\<lparr>wd_events := events,
           wd_webhooks := (case stripeWebhookEventId event of
               None \<Rightarrow> wd_webhooks db
             | Some w \<Rightarrow> if w = [] then wd_webhooks db
                 else update_many (\<lambda>r. wh_id r = w \<and> wh_deletedAt r = None)
                        (\<lambda>r. r\<lparr>wh_status := W_FAILED, wh_lastError := Some message\<rparr>) (wd_webhooks db))\<rparr>))"

record worker_job =
  wj_data :: NotificationJobData
  wj_attemptsMade :: int
  wj_attempts :: "int option"

text \<open>A job's event, unless it is gone, finished or of another generation.\<close>

definition jobEvent :: "NotificationJobData \<Rightarrow> OutboxEvent table \<Rightarrow> OutboxEvent option" where
  "jobEvent job events =
     (case find_first (\<lambda>e. ob_id e = jd_outboxId job \<and> ob_deletedAt e = None) events of
        None \<Rightarrow> None
      | Some e \<Rightarrow>
          if ob_status e = DELIVERED \<or> ob_status e = DEAD_LETTER \<or> ob_deliveryGeneration e \<noteq> jd_generation job
          then None else Some e)"

definition reconcileExhaustedJob :: "time \<Rightarrow> worker_job \<Rightarrow> bool \<Rightarrow> thrown \<Rightarrow> worker_db \<Rightarrow> worker_db" where
  "reconcileExhaustedJob now job exhaustedStalls err db =
     (if \<not> (wj_attemptsMade job \<ge> max 1 (orElse (wj_attempts job) 1)) \<and> \<not> exhaustedStalls then db
      else case jobEvent (wj_data job) (wd_events db) of
             None \<Rightarrow> db
           | Some event \<Rightarrow> snd (recordDeliveryFailure now event (jd_generation (wj_data job)) err DeadLetterDelivery db))"

definition markDelivered :: "time \<Rightarrow> ident \<Rightarrow> int \<Rightarrow> OutboxEvent table \<Rightarrow> nat \<times> OutboxEvent table" where
  "markDelivered now oid generation events =
     (let guard = (\<lambda>e. ob_id e = oid \<and> ob_deliveryGeneration e = generation \<and> ob_status e = PROCESSING \<and>
                        ob_deletedAt e = None)
      in (matching guard events,
          update_many guard (\<lambda>e. e\<lparr>ob_status := DELIVERED, ob_deliveredAt := Some now, ob_failedAt := None,
                                   ob_deadLetteredAt := None, ob_lastError := None\<rparr>) events))"

text \<open>Sending by channel; the log records that the event left for its provider or handler.\<close>

definition deliver ::
    "worker_deps \<Rightarrow> OutboxEvent \<Rightarrow> worker_db \<Rightarrow> (thrown + ProviderDeliveryResult) \<times> worker_db" where
  "deliver deps event db =
     (let handed = db\<lparr>wd_handed := ob_id event # wd_handed db\<rparr> in
      case ob_channel event of
        EMAIL \<Rightarrow> (case dep_emailLimit deps of
                    Inl e \<Rightarrow> (Inl e, db)
                  | Inr _ \<Rightarrow> (dep_sendEmail deps (ob_eventType event) (ob_payload event) (ob_id event), handed))
      | SMS \<Rightarrow> (case dep_smsLimit deps of
                  Inl e \<Rightarrow> (Inl e, db)
                | Inr _ \<Rightarrow> (dep_sendSms deps (ob_eventType event) (ob_payload event) (ob_id event), handed))
      | PUSH \<Rightarrow> (dep_sendPush deps (ob_payload event) (ob_id event), handed)
      | INTERNAL \<Rightarrow>
          (case processInternal deps event (wd_webhooks db) of
             (Inl e, ws) \<Rightarrow> (Inl e, handed\<lparr>wd_webhooks := ws\<rparr>)
           | (Inr _, ws) \<Rightarrow>
               (Inr \<lparr>pr_suppressed = False, pr_provider = ''internal'', pr_messageId = None, pr_templateKey = None\<rparr>,
                handed\<lparr>wd_webhooks := ws\<rparr>)))"

definition startProcessing :: "ident \<Rightarrow> int \<Rightarrow> OutboxEvent table \<Rightarrow> nat \<times> OutboxEvent table" where
  "startProcessing oid generation events =
     (let guard = (\<lambda>e. ob_id e = oid \<and> ob_deliveryGeneration e = generation \<and>
                        (ob_status e = ENQUEUED \<or> ob_status e = FAILED) \<and> ob_deletedAt e = None)
      in (matching guard events,
          update_many guard (\<lambda>e. e\<lparr>ob_status := PROCESSING, ob_attempts := ob_attempts e + 1, ob_claimedAt := None,
                                   ob_claimExpiresAt := None, ob_claimToken := None\<rparr>) events))"

definition expireEvent :: "time \<Rightarrow> time \<Rightarrow> ident \<Rightarrow> int \<Rightarrow> OutboxEvent table \<Rightarrow> OutboxEvent table" where
  "expireEvent failedAt deadLetteredAt oid generation events =
     update_many (\<lambda>e. ob_id e = oid \<and> ob_deliveryGeneration e = generation \<and> ob_status e \<noteq> DELIVERED \<and> ob_deletedAt e = None)
       (\<lambda>e. e\<lparr>ob_status := DEAD_LETTER, ob_failedAt := Some failedAt, ob_deadLetteredAt := Some deadLetteredAt,
              ob_lastError := Some ''Business expiry elapsed before delivery''\<rparr>) events"

definition processNotification :: "worker_deps \<Rightarrow> effects \<Rightarrow> worker_job \<Rightarrow> worker_db \<Rightarrow> (thrown + unit) \<times> worker_db" where
  "processNotification deps ef job db =
     (let generation = jd_generation (wj_data job) in
      case jobEvent (wj_data job) (wd_events db) of
        None \<Rightarrow> (Inr (), db)
      | Some event \<Rightarrow>
          if (case ob_expiresAt event of None \<Rightarrow> False | Some x \<Rightarrow> x \<le> ef_now ef 0)
          then (Inr (), db\<lparr>wd_events := expireEvent (ef_now ef 1) (ef_now ef 2) (ob_id event) generation (wd_events db)\<rparr>)
          else
            (case startProcessing (ob_id event) generation (wd_events db) of
               (started, events1) \<Rightarrow>
                 let db1 = db\<lparr>wd_events := events1\<rparr> in
                 if started \<noteq> 1 then (Inr (), db1)
                 else
                   (case recordDeliveryStarted (dep_hash deps) event (wd_deliveries db1) of
                      Inl e \<Rightarrow> (Inl e, db1)
                    | Inr (ALREADY_RECORDED, rows) \<Rightarrow>
                        (Inr (), db1\<lparr>wd_events := snd (markDelivered (ef_now ef 1) (ob_id event) generation (wd_events db1))\<rparr>)
                    | Inr (SEND, rows) \<Rightarrow>
                        let db2 = db1\<lparr>wd_deliveries := rows\<rparr>;
                            failed = (\<lambda>err db.
                              (Inl err,
                               snd (recordDeliveryFailure (ef_now ef 3) event generation err
                                      (deliveryFailureDisposition (wj_attemptsMade job) (wj_attempts job))
                                      (db\<lparr>wd_deliveries := recordDeliveryError event err (wd_deliveries db)\<rparr>))))
                        in case deliver deps event db2 of
                             (Inl err, db3) \<Rightarrow> failed err db3
                           | (Inr result, db3) \<Rightarrow>
                               (case recordDeliveryResult (ef_now ef 1) event result (wd_deliveries db3) of
                                  Inl err \<Rightarrow> failed err db3
                                | Inr rows3 \<Rightarrow>
                                    (case markDelivered (ef_now ef 2) (ob_id event) generation (wd_events db3) of
                                       (delivered, events4) \<Rightarrow>
                                         let db4 = db3\<lparr>wd_deliveries := rows3, wd_events := events4\<rparr> in
                                         if delivered \<noteq> 1
                                         then failed (OtherError ''Outbox delivery state changed unexpectedly'') db4
                                         else (Inr (), db4))))))"

section \<open>Lemmas on the relay\<close>

lemma claimEvent_fields [simp]: "ob_id (claimEvent now token e) = ob_id e"
  by (simp add: claimEvent_def)

lemma claim_ids:
  assumes "claimOutboxBatch n now token locked events = (claimed, events')"
  shows "map ob_id events' = map ob_id events"
  using assms by (auto simp: claimOutboxBatch_def Let_def update_many_def)

text \<open>What the statement returns: claimed rows under the new token, each claimable before.\<close>

lemma claim_returns:
  assumes "claimOutboxBatch n now token locked events = (claimed, events')" "distinct (map ob_id events)"
    and "e \<in> set claimed"
  shows "e \<in> set events' \<and> \<not> locked (ob_id e) \<and> (\<exists>x\<in>set events. claimable now x \<and> e = claimEvent now token x)"
proof -
  let ?cand = "take n (filter (\<lambda>e. \<not> locked (ob_id e)) (sort_key ob_createdAt (filter (claimable now) events)))"
  let ?ch = "\<lambda>e. List.member (map ob_id ?cand) (ob_id e)"
  have c: "claimed = filter ?ch (update_many ?ch (claimEvent now token) events)"
    and e': "events' = update_many ?ch (claimEvent now token) events"
    using assms(1) by (auto simp: claimOutboxBatch_def Let_def)
  from assms(3) c obtain x where x: "x \<in> set events" "e = (if ?ch x then claimEvent now token x else x)" "?ch e"
    by (auto simp: update_many_def simp del: List.member_iff)
  then have ch: "?ch x" by (auto simp del: List.member_iff split: if_splits)
  then obtain y where y: "y \<in> set ?cand" "ob_id y = ob_id x" by auto
  from y(1) have y2: "y \<in> set events" "claimable now y" "\<not> locked (ob_id y)"
    by (auto dest!: in_set_takeD)
  then have "y = x" using distinct_map_eq [OF assms(2)] x(1) y(2) by blast
  with x ch y2 have "e = claimEvent now token x" "claimable now x" "\<not> locked (ob_id e)" by auto
  moreover have "e \<in> set events'" using assms(3) c e' by auto
  ultimately show ?thesis using x(1) by blast
qed

lemma claim_bounded:
  assumes "claimOutboxBatch n now token locked events = (claimed, events')" "distinct (map ob_id events)"
  shows "length claimed \<le> n"
proof -
  let ?cand = "map ob_id (take n (filter (\<lambda>e. \<not> locked (ob_id e)) (sort_key ob_createdAt (filter (claimable now) events))))"
  have c: "claimed = filter (\<lambda>e. List.member ?cand (ob_id e)) events'"
    using assms(1) by (auto simp: claimOutboxBatch_def Let_def)
  have "distinct (map ob_id claimed)"
    using assms(2) claim_ids [OF assms(1)] unfolding c by (metis distinct_map_filter)
  then have "length claimed = card (set (map ob_id claimed))" using distinct_card by fastforce
  also have "\<dots> \<le> card (set ?cand)" by (rule card_mono) (auto simp: c)
  also have "\<dots> \<le> length ?cand" by (rule card_length)
  also have "\<dots> \<le> n" by simp
  finally show ?thesis .
qed

section \<open>Lemmas on the worker\<close>

lemma jobEvent_SomeD:
  assumes "jobEvent job events = Some e"
  shows "e \<in> set events \<and> ob_id e = jd_outboxId job \<and> ob_deletedAt e = None \<and> ob_status e \<noteq> DELIVERED \<and>
         ob_status e \<noteq> DEAD_LETTER \<and> ob_deliveryGeneration e = jd_generation job"
  using assms find_first_SomeD
  by (fastforce simp: jobEvent_def split: option.splits if_splits)

text \<open>With unique identifiers a job's event is the one row with its identifier.\<close>

lemma jobEvent_iff:
  assumes "distinct (map ob_id events)" "e \<in> set events" "ob_id e = jd_outboxId job"
  shows "jobEvent job events =
     (if ob_deletedAt e = None \<and> ob_status e \<noteq> DELIVERED \<and> ob_status e \<noteq> DEAD_LETTER \<and>
         ob_deliveryGeneration e = jd_generation job then Some e else None)"
proof -
  have only: "x \<in> set events \<Longrightarrow> ob_id x = jd_outboxId job \<Longrightarrow> x = e" for x
    using distinct_map_eq [OF assms(1)] assms(2,3) by metis
  have "find_first (\<lambda>x. ob_id x = jd_outboxId job \<and> ob_deletedAt x = None) events =
      (if ob_deletedAt e = None then Some e else None)"
  proof (cases "ob_deletedAt e = None")
    case True
    then obtain x where "find_first (\<lambda>x. ob_id x = jd_outboxId job \<and> ob_deletedAt x = None) events = Some x"
      using find_first_ex [of events "\<lambda>x. ob_id x = jd_outboxId job \<and> ob_deletedAt x = None"] assms(2,3) by blast
    with only find_first_SomeD True show ?thesis by fastforce
  next
    case False
    with only show ?thesis by (auto simp: find_first_None)
  qed
  then show ?thesis by (auto simp: jobEvent_def)
qed

text \<open>The status of the event of a job.\<close>

definition event_at :: "OutboxEvent table \<Rightarrow> ident \<Rightarrow> OutboxEvent \<Rightarrow> bool" where
  "event_at events oid e \<longleftrightarrow> distinct (map ob_id events) \<and> e \<in> set events \<and> ob_id e = oid"

lemma event_at_unique: "event_at events oid e \<Longrightarrow> event_at events oid e' \<Longrightarrow> e = e'"
  by (auto simp: event_at_def dest: distinct_map_eq)

text \<open>A guarded update of one event, by its identifier.\<close>

lemma event_at_update:
  assumes "event_at events oid e" "\<And>x. ob_id (f x) = ob_id x"
  shows "event_at (update_many (\<lambda>x. ob_id x = oid \<and> P x) f events) oid (if P e then f e else e)"
proof -
  have "map ob_id (update_many (\<lambda>x. ob_id x = oid \<and> P x) f events) = map ob_id events"
    using assms(2) by (intro map_update_many)
  with assms show ?thesis by (auto simp: event_at_def set_update_many image_iff)
qed

lemma matching_event:
  assumes "event_at events oid e"
  shows "matching (\<lambda>x. ob_id x = oid \<and> P x) events = (if P e then 1 else 0)"
proof (cases "P e")
  case True
  then show ?thesis
    using assms matching_key_1 [of ob_id events oid P] by (auto simp: event_at_def)
next
  case False
  with assms have "\<forall>x\<in>set events. \<not> (ob_id x = oid \<and> P x)"
    by (metis event_at_def event_at_unique)
  with False show ?thesis by (simp add: matching_zero)
qed

lemma jobEvent_at:
  "event_at events (jd_outboxId job) e \<Longrightarrow> jobEvent job events =
     (if ob_deletedAt e = None \<and> ob_status e \<noteq> DELIVERED \<and> ob_status e \<noteq> DEAD_LETTER \<and>
         ob_deliveryGeneration e = jd_generation job then Some e else None)"
  unfolding event_at_def by (intro jobEvent_iff) auto

lemma jobEvent_none: "\<forall>e\<in>set events. ob_id e \<noteq> jd_outboxId job \<Longrightarrow> jobEvent job events = None"
  by (simp add: jobEvent_def find_first_None [THEN iffD2])

lemma deliver_keeps:
  "deliver deps event db = (r, db') \<Longrightarrow> wd_events db' = wd_events db \<and> wd_deliveries db' = wd_deliveries db"
  by (auto simp: deliver_def Let_def split: NotificationChannel.splits sum.splits prod.splits)

lemma recordDeliveryStarted_total:
  assumes "\<And>d. \<exists>h. hash d = Inr h"
  shows "\<exists>ds rows'. recordDeliveryStarted hash event rows = Inr (ds, rows')"
proof -
  obtain h where "(case payloadString (ob_payload event) ''destination'' of
      None \<Rightarrow> Inr None | Some d \<Rightarrow> map_sum (\<lambda>e. e) Some (hash (normalizeEmail d))) = (Inr h :: thrown + string option)"
  proof (cases "payloadString (ob_payload event) ''destination''")
    case None
    with that show ?thesis by simp
  next
    case (Some d)
    obtain h where "hash (normalizeEmail d) = Inr h" using assms by blast
    with that Some show ?thesis by simp
  qed
  then show ?thesis by (auto simp: recordDeliveryStarted_def split: option.split)
qed

definition ready :: "int \<Rightarrow> OutboxEvent \<Rightarrow> bool" where
  "ready generation e \<longleftrightarrow> ob_deliveryGeneration e = generation \<and> (ob_status e = ENQUEUED \<or> ob_status e = FAILED) \<and>
     ob_deletedAt e = None"

lemma startProcessing_at:
  assumes "event_at events oid e" "startProcessing oid generation events = (n, events')"
  shows "n = (if ready generation e then 1 else 0)"
    "event_at events' oid (if ready generation e then e\<lparr>ob_status := PROCESSING, ob_attempts := ob_attempts e + 1,
       ob_claimedAt := None, ob_claimExpiresAt := None, ob_claimToken := None\<rparr> else e)"
  using assms(2) matching_event [OF assms(1), of "ready generation"] event_at_update [OF assms(1), of
      "\<lambda>e. e\<lparr>ob_status := PROCESSING, ob_attempts := ob_attempts e + 1,
       ob_claimedAt := None, ob_claimExpiresAt := None, ob_claimToken := None\<rparr>" "ready generation"]
  by (auto simp: startProcessing_def Let_def ready_def)

lemma markDelivered_at:
  assumes "event_at events oid e" "ob_status e = PROCESSING" "ob_deletedAt e = None" "ob_deliveryGeneration e = generation"
    and "markDelivered now oid generation events = (n, events')"
  shows "n = 1 \<and> (\<exists>e'. event_at events' oid e' \<and> ob_status e' = DELIVERED)"
proof -
  let ?P = "\<lambda>e. ob_deliveryGeneration e = generation \<and> ob_status e = PROCESSING \<and> ob_deletedAt e = None"
  let ?f = "\<lambda>e. e\<lparr>ob_status := DELIVERED, ob_deliveredAt := Some now, ob_failedAt := None, ob_deadLetteredAt := None,
      ob_lastError := None\<rparr>"
  have "event_at (update_many (\<lambda>x. ob_id x = oid \<and> ?P x) ?f events) oid (?f e)"
    using event_at_update [OF assms(1), of ?f ?P] assms(2-4) by simp
  then have "\<exists>e'. event_at (update_many (\<lambda>x. ob_id x = oid \<and> ?P x) ?f events) oid e' \<and> ob_status e' = DELIVERED"
    by (intro exI [of _ "?f e"]) simp
  then show ?thesis
    using assms matching_event [OF assms(1), of ?P] by (simp add: markDelivered_def Let_def)
qed

lemma recordDeliveryFailure_at:
  assumes "event_at (wd_events db) (ob_id event) e" "ob_deliveryGeneration e = generation" "ob_deletedAt e = None"
    "ob_status e \<noteq> DELIVERED" "ob_status e \<noteq> DEAD_LETTER"
  shows "\<exists>e'. event_at (wd_events (snd (recordDeliveryFailure now event generation err disposition db))) (ob_id event) e' \<and>
     ob_status e' = (if disposition = DeadLetterDelivery then DEAD_LETTER else ENQUEUED)"
proof -
  let ?P = "\<lambda>e. ob_deliveryGeneration e = generation \<and> ob_status e \<noteq> DELIVERED \<and> ob_status e \<noteq> DEAD_LETTER \<and> ob_deletedAt e = None"
  let ?f = "\<lambda>e. e\<lparr>ob_status := (if disposition = DeadLetterDelivery then DEAD_LETTER else ENQUEUED),
      ob_failedAt := (if disposition = DeadLetterDelivery then Some now else None),
      ob_deadLetteredAt := (if disposition = DeadLetterDelivery then Some now else None),
      ob_lastError := Some (take 2000 (thrown_message err))\<rparr>"
  have "event_at (update_many (\<lambda>x. ob_id x = ob_id event \<and> ?P x) ?f (wd_events db)) (ob_id event) (?f e)"
    using event_at_update [OF assms(1), of ?f ?P] assms(2-5) by simp
  then show ?thesis
    by (intro exI [of _ "?f e"]) (simp add: recordDeliveryFailure_def Let_def)
qed

lemma expireEvent_at:
  assumes "event_at events oid e" "ob_deliveryGeneration e = generation" "ob_status e \<noteq> DELIVERED" "ob_deletedAt e = None"
  shows "\<exists>e'. event_at (expireEvent t u oid generation events) oid e' \<and> ob_status e' = DEAD_LETTER"
proof -
  let ?P = "\<lambda>e. ob_deliveryGeneration e = generation \<and> ob_status e \<noteq> DELIVERED \<and> ob_deletedAt e = None"
  let ?f = "\<lambda>e. e\<lparr>ob_status := DEAD_LETTER, ob_failedAt := Some t, ob_deadLetteredAt := Some u,
      ob_lastError := Some ''Business expiry elapsed before delivery''\<rparr>"
  have "event_at (update_many (\<lambda>x. ob_id x = oid \<and> ?P x) ?f events) oid (?f e)"
    using event_at_update [OF assms(1), of ?f ?P] assms(2-4) by simp
  then show ?thesis by (intro exI [of _ "?f e"]) (simp add: expireEvent_def)
qed

text \<open>An event that is finished, fenced off, or not waiting for a worker is not handed to anyone.\<close>

lemma process_not_ready:
  assumes "event_at (wd_events db) (jd_outboxId (wj_data job)) e"
    and "jobEvent (wj_data job) (wd_events db) = None \<or> \<not> ready (jd_generation (wj_data job)) e"
  shows "fst (processNotification deps ef job db) = Inr () \<and>
         wd_handed (snd (processNotification deps ef job db)) = wd_handed db"
proof (cases "jobEvent (wj_data job) (wd_events db)")
  case None
  then show ?thesis by (simp add: processNotification_def Let_def)
next
  case (Some x)
  then have x: "x = e" using jobEvent_at [OF assms(1)] by (auto split: if_splits)
  with assms Some have nr: "\<not> ready (jd_generation (wj_data job)) e" by simp
  have oid: "ob_id x = jd_outboxId (wj_data job)" using assms(1) x by (simp add: event_at_def)
  obtain n events1 where st: "startProcessing (ob_id x) (jd_generation (wj_data job)) (wd_events db) = (n, events1)"
    by (cases "startProcessing (ob_id x) (jd_generation (wj_data job)) (wd_events db)")
  from startProcessing_at(1) [OF assms(1) st [unfolded oid]] nr have "n = 0" by simp
  then show ?thesis by (simp add: processNotification_def Let_def Some st)
qed

text \<open>What a run leaves behind: where it returned, and where it failed.\<close>

lemma process_result:
  assumes at: "event_at (wd_events db) (jd_outboxId (wj_data job)) e"
    and run: "processNotification deps ef job db = (r, db')" and hash: "\<And>d. \<exists>h. dep_hash deps d = Inr h"
  shows "\<exists>e'. event_at (wd_events db') (jd_outboxId (wj_data job)) e' \<and>
     (case r of
        Inr _ \<Rightarrow> ob_status e' \<in> {DELIVERED, DEAD_LETTER} \<or>
                 (e' = e \<and> (jobEvent (wj_data job) (wd_events db) = None \<or> \<not> ready (jd_generation (wj_data job)) e))
      | Inl err \<Rightarrow> ob_status e' = (if deliveryFailureDisposition (wj_attemptsMade job) (wj_attempts job) = DeadLetterDelivery
                                  then DEAD_LETTER else ENQUEUED))"
proof (cases "jobEvent (wj_data job) (wd_events db)")
  case None
  with run at show ?thesis by (auto simp: processNotification_def Let_def)
next
  case (Some x)
  let ?gen = "jd_generation (wj_data job)" and ?oid = "jd_outboxId (wj_data job)"
  have x: "x = e" and live: "ob_deletedAt e = None" "ob_status e \<noteq> DELIVERED" "ob_status e \<noteq> DEAD_LETTER"
    "ob_deliveryGeneration e = ?gen"
    using Some jobEvent_at [OF at] by (auto split: if_splits)
  have oid: "ob_id e = ?oid" using at by (simp add: event_at_def)
  show ?thesis
  proof (cases "case ob_expiresAt e of None \<Rightarrow> False | Some y \<Rightarrow> y \<le> ef_now ef 0")
    case True
    with run Some x have "r = Inr ()" "wd_events db' = expireEvent (ef_now ef 1) (ef_now ef 2) ?oid ?gen (wd_events db)"
      by (auto simp: processNotification_def Let_def oid)
    with expireEvent_at [OF at live(4,2,1)] show ?thesis by auto
  next
    case notexp: False
    obtain n events1 where st: "startProcessing ?oid ?gen (wd_events db) = (n, events1)"
      by (cases "startProcessing ?oid ?gen (wd_events db)")
    note sp = startProcessing_at [OF at st]
    show ?thesis
    proof (cases "ready ?gen e")
      case False
      with sp run Some x notexp st have "r = Inr ()" "wd_events db' = events1"
        by (auto simp: processNotification_def Let_def oid)
      with sp False show ?thesis by auto
    next
      case ready: True
      let ?e1 = "e\<lparr>ob_status := PROCESSING, ob_attempts := ob_attempts e + 1, ob_claimedAt := None,
          ob_claimExpiresAt := None, ob_claimToken := None\<rparr>"
      let ?db1 = "db\<lparr>wd_events := events1\<rparr>"
      have at1: "event_at events1 ?oid ?e1" using sp(2) ready by simp
      have p1: "ob_status ?e1 = PROCESSING" "ob_deletedAt ?e1 = None" "ob_deliveryGeneration ?e1 = ?gen"
        using live by simp_all
      obtain ds rows where ds: "recordDeliveryStarted (dep_hash deps) e (wd_deliveries db) = Inr (ds, rows)"
        using recordDeliveryStarted_total [of "dep_hash deps" e "wd_deliveries db", OF hash] by blast
      have n1: "n = 1" using sp(1) ready by simp
      show ?thesis
      proof (cases ds)
        case ALREADY_RECORDED
        obtain k ev where md: "markDelivered (ef_now ef 1) ?oid ?gen events1 = (k, ev)"
          by (cases "markDelivered (ef_now ef 1) ?oid ?gen events1")
        with run Some x notexp st ds n1 ALREADY_RECORDED have "r = Inr ()" "wd_events db' = ev"
          by (auto simp: processNotification_def Let_def oid)
        with markDelivered_at [OF at1 p1 md] show ?thesis by auto
      next
        case SEND
        let ?disp = "deliveryFailureDisposition (wj_attemptsMade job) (wj_attempts job)"
        obtain q db3 where dl: "deliver deps e (?db1\<lparr>wd_deliveries := rows\<rparr>) = (q, db3)"
          by (cases "deliver deps e (?db1\<lparr>wd_deliveries := rows\<rparr>)")
        have ev3: "wd_events db3 = events1" using deliver_keeps [OF dl] by simp
        obtain k ev where md: "markDelivered (ef_now ef 2) ?oid ?gen events1 = (k, ev)"
          by (cases "markDelivered (ef_now ef 2) ?oid ?gen events1")
        note mdd = markDelivered_at [OF at1 p1 md]
        have at3: "event_at (wd_events (db3\<lparr>wd_deliveries := X\<rparr>)) (ob_id e) ?e1" for X using at1 ev3 oid by simp
        have fl: "\<exists>e'. event_at (wd_events (snd (recordDeliveryFailure t e ?gen err ?disp (db3\<lparr>wd_deliveries := X\<rparr>)))) ?oid e' \<and>
            ob_status e' = (if ?disp = DeadLetterDelivery then DEAD_LETTER else ENQUEUED)" for t err X
          using recordDeliveryFailure_at [OF at3] p1 unfolding oid [symmetric] by simp
        have "(\<exists>err X t. r = Inl err \<and> db' = snd (recordDeliveryFailure t e ?gen err ?disp (db3\<lparr>wd_deliveries := X\<rparr>))) \<or>
              (r = Inr () \<and> wd_events db' = ev)"
          using run Some x notexp st ds n1 SEND dl md mdd
          by (auto simp: processNotification_def Let_def oid ev3 split: sum.splits)
        with fl mdd show ?thesis by fastforce
      qed
    qed
  qed
qed

text \<open>An event, a queue and providers for the concrete instances.\<close>

definition demo_event_row :: OutboxEvent where
  "demo_event_row = newOutboxEvent ''o1'' 1000
     \<lparr>oi_aggregateType = ''user'', oi_aggregateId = ''u1'', oi_eventType = ''auth.otp'', oi_channel = PUSH,
      oi_payload = JObj [(''userId'', JStr ''u1'')], oi_dedupeKey = ''k1'', oi_availableAt = None, oi_expiresAt = None\<rparr>"

definition demo_deps :: "bool \<Rightarrow> worker_deps" where
  "demo_deps up = \<lparr>dep_erasure = None, dep_uploadScan = None, dep_stripeEvent = (\<lambda>_. Inr ()), dep_hash = (\<lambda>d. Inr d),
     dep_emailLimit = Inr (), dep_smsLimit = Inr (),
     dep_sendEmail = (\<lambda>_ _ _. Inl (OtherError ''unused'')), dep_sendSms = (\<lambda>_ _ _. Inl (OtherError ''unused'')),
     dep_sendPush = (\<lambda>_ _. if up then Inr \<lparr>pr_suppressed = False, pr_provider = ''firebase'', pr_messageId = Some ''m1'',
       pr_templateKey = None\<rparr> else Inl (OtherError ''provider down''))\<rparr>"

definition demo_effects :: effects where
  "demo_effects = \<lparr>ef_now = (\<lambda>n. 5000 + int n), ef_id = (\<lambda>n. ''id'' @ decimal n), ef_random = (\<lambda>n. ''rand'' @ decimal n)\<rparr>"

definition demo_worker_db :: "OutboxStatus \<Rightarrow> worker_db" where
  "demo_worker_db st = \<lparr>wd_events = [demo_event_row\<lparr>ob_status := st\<rparr>], wd_deliveries = [], wd_webhooks = [], wd_handed = []\<rparr>"

definition demo_job :: "int \<Rightarrow> worker_job" where
  "demo_job made = \<lparr>wj_data = \<lparr>jd_outboxId = ''o1'', jd_generation = 0\<rparr>, wj_attemptsMade = made, wj_attempts = Some 5\<rparr>"

section \<open>Properties\<close>

text \<open>
  Relay claims exclude each other. A batch has at most the batch size many events, all marked
  with the claimer's token, and until the thirty-second lease of a batch is over no later claim, by
  whatever replica, returns one of its events again.
\<close>

theorem claimOutboxBatch_exclusive:
  assumes "distinct (map ob_id events)"
    and "claimOutboxBatch n now token locked events = (claimed, events')"
    and "claimOutboxBatch n' now' token' locked' events' = (claimed', events'')"
    and "now' < now + OUTBOX_CLAIM_LEASE_MS"
  shows "length claimed \<le> n \<and> (\<forall>e\<in>set claimed. ob_claimToken e = Some token) \<and>
         ob_id ` set claimed \<inter> ob_id ` set claimed' = {}"
proof -
  have d': "distinct (map ob_id events')" using claim_ids [OF assms(2)] assms(1) by simp
  have tok: "\<forall>e\<in>set claimed. ob_claimToken e = Some token"
  proof
    fix e assume "e \<in> set claimed"
    from claim_returns [OF assms(2,1) this] obtain x where "e = claimEvent now token x" by blast
    then show "ob_claimToken e = Some token" by (simp add: claimEvent_def)
  qed
  have False if e: "e \<in> set claimed" and f: "f \<in> set claimed'" and i: "ob_id e = ob_id f" for e f
  proof -
    from claim_returns [OF assms(2,1) e] obtain x where x: "e \<in> set events'" "e = claimEvent now token x" by blast
    from claim_returns [OF assms(3) d' f] obtain y where y: "y \<in> set events'" "claimable now' y" "f = claimEvent now' token' y"
      by blast
    have "y = e" using distinct_map_eq [OF d' y(1) x(1)] i y(3) by simp
    with y(2) x(2) assms(4) show False by (simp add: claimable_def claimEvent_def)
  qed
  then show ?thesis using claim_bounded [OF assms(2,1)] tok by blast
qed

theorem claimOutboxBatch_exclusive_witness:
  "fst (claimOutboxBatch 100 1000 ''t1'' (\<lambda>_. False) [demo_event_row]) \<noteq> [] \<and>
   fst (claimOutboxBatch 100 2000 ''t2'' (\<lambda>_. False)
     (snd (claimOutboxBatch 100 1000 ''t1'' (\<lambda>_. False) [demo_event_row]))) = []"
proof -
  let ?c = "claimOutboxBatch 100 1000 ''t1'' (\<lambda>_. False) [demo_event_row]"
  let ?d = "claimOutboxBatch 100 2000 ''t2'' (\<lambda>_. False) (snd ?c)"
  have one: "map ob_id (fst ?c) = [''o1'']" by code_simp
  have ids: "\<forall>e\<in>set (fst ?d). ob_id e = ''o1''"
    by (auto simp: claimOutboxBatch_def Let_def demo_event_row_def newOutboxEvent_def update_many_def split: if_splits)
  have "ob_id ` set (fst ?c) \<inter> ob_id ` set (fst ?d) = {}"
    using claimOutboxBatch_exclusive [of "[demo_event_row]" 100 1000 "''t1''" "\<lambda>_. False" "fst ?c" "snd ?c"
        100 2000 "''t2''" "\<lambda>_. False" "fst ?d" "snd ?d"] by (simp add: OUTBOX_CLAIM_LEASE_MS_def)
  moreover have "ob_id ` set (fst ?c) = {''o1''}" using one by (metis list.set(1) list.set(2) set_map)
  ultimately have "fst ?d = []" using ids by (cases "fst ?d") auto
  with one show ?thesis by auto
qed

text \<open>
  C32: a job that has returned is never delivered again. After a run of a job that ended normally, any
  further run for the same event and generation (a duplicate in the queue, a stalled job taken over)
  hands nothing to a provider and ends normally.
\<close>

theorem processNotification_no_duplicate:
  assumes at: "event_at (wd_events db) (jd_outboxId (wj_data job)) e"
    and hash: "\<And>d. \<exists>h. dep_hash deps d = Inr h"
    and run: "processNotification deps ef job db = (Inr u, db')" and same: "wj_data job2 = wj_data job"
  shows "fst (processNotification deps2 ef2 job2 db') = Inr () \<and>
         wd_handed (snd (processNotification deps2 ef2 job2 db')) = wd_handed db'"
proof -
  from process_result [OF at run hash] obtain e' where e': "event_at (wd_events db') (jd_outboxId (wj_data job)) e'"
    and c: "ob_status e' \<in> {DELIVERED, DEAD_LETTER} \<or>
      (e' = e \<and> (jobEvent (wj_data job) (wd_events db) = None \<or> \<not> ready (jd_generation (wj_data job)) e))" by auto
  have "jobEvent (wj_data job) (wd_events db') = None \<or> \<not> ready (jd_generation (wj_data job)) e'"
    using c jobEvent_at [OF at] jobEvent_at [OF e'] by auto
  with process_not_ready [of db' job2 e' deps2 ef2] e' show ?thesis by (simp add: same)
qed

theorem processNotification_no_duplicate_witness:
  "wd_handed (snd (processNotification (demo_deps True) demo_effects (demo_job 0) (demo_worker_db ENQUEUED))) = [''o1''] \<and>
   wd_handed (snd (processNotification (demo_deps True) demo_effects (demo_job 1)
     (snd (processNotification (demo_deps True) demo_effects (demo_job 0) (demo_worker_db ENQUEUED))))) = [''o1'']"
proof -
  let ?r = "processNotification (demo_deps True) demo_effects (demo_job 0) (demo_worker_db ENQUEUED)"
  have ok: "fst ?r = Inr ()" "wd_handed (snd ?r) = [''o1'']" by code_simp+
  have run: "?r = (Inr (), snd ?r)" using ok(1) by (metis prod.collapse)
  have at: "event_at (wd_events (demo_worker_db ENQUEUED)) (jd_outboxId (wj_data (demo_job 0))) (demo_event_row\<lparr>ob_status := ENQUEUED\<rparr>)"
    by (simp add: event_at_def demo_worker_db_def demo_job_def demo_event_row_def newOutboxEvent_def)
  have h: "\<And>d. \<exists>h. dep_hash (demo_deps True) d = Inr h" by (simp add: demo_deps_def)
  have "wj_data (demo_job 1) = wj_data (demo_job 0)" by (simp add: demo_job_def)
  from processNotification_no_duplicate [OF at h run this] ok(2) show ?thesis by auto
qed

text \<open>
  C40: a failed delivery is retried or dead-lettered, never dropped. When a run of a job throws, its
  event is left dead-lettered if this was the last of the configured attempts and waiting in the
  queue again otherwise.
\<close>

theorem processNotification_failure_kept:
  assumes at: "event_at (wd_events db) (jd_outboxId (wj_data job)) e"
    and hash: "\<And>d. \<exists>h. dep_hash deps d = Inr h"
    and run: "processNotification deps ef job db = (Inl err, db')"
  shows "\<exists>e'. event_at (wd_events db') (jd_outboxId (wj_data job)) e' \<and>
     ob_status e' = (if wj_attemptsMade job + 1 \<ge> max 1 (orElse (wj_attempts job) 1) then DEAD_LETTER else ENQUEUED)"
  using process_result [OF at run hash]
  by (auto simp: deliveryFailureDisposition_def Let_def split: if_splits)

theorem processNotification_failure_kept_witness:
  "map ob_status (wd_events (snd (processNotification (demo_deps False) demo_effects (demo_job 4) (demo_worker_db ENQUEUED))))
     = [DEAD_LETTER]"
proof -
  let ?r = "processNotification (demo_deps False) demo_effects (demo_job 4) (demo_worker_db ENQUEUED)"
  have ok: "fst ?r = Inl (OtherError ''provider down'')" "map ob_id (wd_events (snd ?r)) = [''o1'']" by code_simp+
  have run: "?r = (Inl (OtherError ''provider down''), snd ?r)" using ok(1) by (metis prod.collapse)
  have at: "event_at (wd_events (demo_worker_db ENQUEUED)) (jd_outboxId (wj_data (demo_job 4))) (demo_event_row\<lparr>ob_status := ENQUEUED\<rparr>)"
    by (simp add: event_at_def demo_worker_db_def demo_job_def demo_event_row_def newOutboxEvent_def)
  have h: "\<And>d. \<exists>h. dep_hash (demo_deps False) d = Inr h" by (simp add: demo_deps_def)
  from processNotification_failure_kept [OF at h run] obtain e' where
    "e' \<in> set (wd_events (snd ?r))" "ob_status e' = DEAD_LETTER"
    by (auto simp: event_at_def demo_job_def)
  with ok(2) show ?thesis by (cases "wd_events (snd ?r)") auto
qed

text \<open>
  redriving fences off the old jobs. A redrive succeeds only on a dead-lettered event that has not
  expired; it makes the event available under the next generation with its attempts reset, and from
  then on a job of the old generation hands nothing to a provider.
\<close>

theorem redriveDeadLetterEvent_fences:
  assumes at: "event_at (od_events db) oid e"
    and run: "redriveDeadLetterEvent D ctx ef oid actor metadata db = Inr (e', db')"
    and job: "wj_data job = \<lparr>jd_outboxId = oid, jd_generation = ob_deliveryGeneration e\<rparr>"
    and db: "wd_events wdb = od_events db'"
  shows "ob_status e = DEAD_LETTER \<and> (\<forall>x. ob_expiresAt e = Some x \<longrightarrow> ef_now ef 0 < x) \<and>
         e' = resetEvent (ef_now ef 1) e \<and> event_at (od_events db') oid e' \<and>
         wd_handed (snd (processNotification deps ef2 job wdb)) = wd_handed wdb"
proof -
  let ?P = "\<lambda>x. ob_status x = DEAD_LETTER \<and> ob_deliveryGeneration x = ob_deliveryGeneration e \<and> ob_deletedAt x = None"
  have fst1: "find_first (\<lambda>x. ob_id x = oid \<and> ob_deletedAt x = None) (od_events db) = Some y \<Longrightarrow> y = e" for y
    using at find_first_SomeD by (fastforce simp: event_at_def dest: distinct_map_eq)
  from run fst1 have e: "ob_status e = DEAD_LETTER" "\<forall>x. ob_expiresAt e = Some x \<longrightarrow> ef_now ef 0 < x"
    "ob_deletedAt e = None"
    by (auto simp: redriveDeadLetterEvent_def Let_def split: option.splits if_splits sum.splits dest: find_first_SomeD)
  let ?ev = "update_many (\<lambda>x. ob_id x = oid \<and> ?P x) (resetEvent (ef_now ef 1)) (od_events db)"
  have at': "event_at ?ev oid (resetEvent (ef_now ef 1) e)"
    using event_at_update [OF at, of "resetEvent (ef_now ef 1)" ?P] e by (simp add: resetEvent_def)
  have ev: "od_events db' = ?ev" "find_first (\<lambda>x. ob_id x = oid \<and> ob_deletedAt x = None) ?ev = Some e'"
    using run fst1 by (auto simp: redriveDeadLetterEvent_def Let_def split: option.splits if_splits sum.splits)
  have "event_at ?ev oid e'" using find_first_SomeD [OF ev(2)] at' by (simp add: event_at_def)
  with at' have e': "e' = resetEvent (ef_now ef 1) e" by (rule event_at_unique [rotated])
  have "jobEvent (wj_data job) (wd_events wdb) = None"
    using jobEvent_at [of "od_events db'" "wj_data job" "resetEvent (ef_now ef 1) e"] at' ev(1)
    by (simp add: job db resetEvent_def)
  then have "wd_handed (snd (processNotification deps ef2 job wdb)) = wd_handed wdb"
    by (simp add: processNotification_def Let_def)
  with e e' at' ev(1) show ?thesis by simp
qed

theorem redriveDeadLetterEvent_fences_witness:
  "\<exists>e' db'. redriveDeadLetterEvent demo_audit None demo_effects ''o1'' ''admin''
       \<lparr>rm_ip = [], rm_userAgent = None, rm_requestId = ''r''\<rparr>
       \<lparr>od_events = [demo_event_row\<lparr>ob_status := DEAD_LETTER\<rparr>], od_audit = []\<rparr> = Inr (e', db') \<and>
     ob_deliveryGeneration e' = 1 \<and> ob_status e' = PENDING"
proof -
  let ?e = "demo_event_row\<lparr>ob_status := DEAD_LETTER\<rparr>" and ?db = "\<lparr>od_events = [demo_event_row\<lparr>ob_status := DEAD_LETTER\<rparr>], od_audit = []\<rparr>"
  let ?run = "redriveDeadLetterEvent demo_audit None demo_effects ''o1'' ''admin''
       \<lparr>rm_ip = [], rm_userAgent = None, rm_requestId = ''r''\<rparr> ?db"
  have at: "event_at (od_events ?db) ''o1'' ?e" by (simp add: event_at_def demo_event_row_def newOutboxEvent_def)
  obtain e' db' where run: "?run = Inr (e', db')"
    by (simp add: redriveDeadLetterEvent_def find_first_def demo_event_row_def newOutboxEvent_def matching_def
        writeAuditEvent_def audit_of_def update_many_def resetEvent_def Let_def)
  have "wj_data (demo_job 0) = \<lparr>jd_outboxId = ''o1'', jd_generation = ob_deliveryGeneration ?e\<rparr>"
    by (simp add: demo_job_def demo_event_row_def newOutboxEvent_def)
  from redriveDeadLetterEvent_fences [OF at run this, of "demo_worker_db ENQUEUED\<lparr>wd_events := od_events db'\<rparr>"]
  have "e' = resetEvent (ef_now demo_effects 1) ?e" by simp
  with run show ?thesis by (simp add: resetEvent_def demo_event_row_def newOutboxEvent_def)
qed

section \<open>A worker that overtakes the relay\<close>

text \<open>
  The relay adds the job before it marks the event as enqueued. A worker that dequeues the job in
  between finds the event still claimed, changes nothing and lets the job complete. The relay then
  marks the event as enqueued; no relay claims an enqueued event, so that it is not delivered although
  nothing has failed.
\<close>

theorem overtaking_worker_strands_event:
  assumes at: "event_at events oid e" and claimed: "ob_status e = CLAIMED" "ob_claimToken e = Some token"
      "ob_deletedAt e = None" "ob_expiresAt e = None"
    and job: "jd_outboxId (wj_data job) = oid" "jd_generation (wj_data job) = ob_deliveryGeneration e"
    and db: "wd_events db = events"
  shows "fst (processNotification deps ef job db) = Inr () \<and>
         wd_handed (snd (processNotification deps ef job db)) = wd_handed db \<and>
         (\<exists>e'. event_at (markEnqueued now e (wd_events (snd (processNotification deps ef job db)))) oid e' \<and>
            ob_status e' = ENQUEUED \<and> (\<forall>later. \<not> claimable later e'))"
proof -
  let ?gen = "jd_generation (wj_data job)"
  have nr: "\<not> ready ?gen e" using claimed by (simp add: ready_def)
  have at0: "event_at (wd_events db) (jd_outboxId (wj_data job)) e" using at job db by simp
  have je: "jobEvent (wj_data job) (wd_events db) = Some e" using jobEvent_at [OF at0] claimed job by simp
  obtain n ev where st: "startProcessing oid ?gen (wd_events db) = (n, ev)" by (cases "startProcessing oid ?gen (wd_events db)")
  note sp = startProcessing_at [OF at0 [unfolded job(1)] st]
  have oid: "ob_id e = oid" using at by (simp add: event_at_def)
  have ev: "wd_events (snd (processNotification deps ef job db)) = ev"
    using sp nr st je claimed(4) by (simp add: processNotification_def Let_def oid)
  have atev: "event_at ev oid e" using sp(2) nr by simp
  let ?f = "\<lambda>x. x\<lparr>ob_status := ENQUEUED, ob_enqueuedAt := Some now, ob_claimedAt := None, ob_claimExpiresAt := None,
      ob_claimToken := None, ob_lastError := None\<rparr>"
  have "event_at (update_many (\<lambda>x. ob_id x = oid \<and> (ob_status x = CLAIMED \<and> ob_claimToken x = ob_claimToken e \<and> ob_deletedAt x = None))
      ?f ev) oid (?f e)"
    using event_at_update [OF atev, of ?f "\<lambda>x. ob_status x = CLAIMED \<and> ob_claimToken x = ob_claimToken e \<and> ob_deletedAt x = None"]
      claimed by simp
  then have "event_at (markEnqueued now e ev) oid (?f e)"
    by (simp add: markEnqueued_def claimedAs_def [abs_def] oid)
  with ev process_not_ready [OF at0 disjI2, OF nr] show ?thesis
    by (auto simp: claimable_def intro!: exI [of _ "?f e"])
qed

end
