(* ===== verification/Transactions.thy ===== *)
theory Transactions
  imports Errors
begin

text \<open>
  How the services talk to the database. A transaction body is a function on the database that
  either throws or returns a value and the changed database; its statements are composed with
  \<open>andThen\<close>. A committed computation is a sequence of statements and transactions outside any
  enclosing transaction: what was committed before an error stays.
\<close>

section \<open>Inside a transaction\<close>

type_synonym ('s, 'a) tx = "'s \<Rightarrow> thrown + 'a \<times> 's"

definition ret :: "'a \<Rightarrow> ('s, 'a) tx" where
  "ret a s = Inr (a, s)"

definition throw :: "thrown \<Rightarrow> ('s, 'a) tx" where
  "throw e s = Inl e"

definition andThen :: "('s, 'a) tx \<Rightarrow> ('a \<Rightarrow> ('s, 'b) tx) \<Rightarrow> ('s, 'b) tx" where
  "andThen m f s = (case m s of Inl e \<Rightarrow> Inl e | Inr (a, s') \<Rightarrow> f a s')"

text \<open>A pure computation that may throw.\<close>

definition attempt :: "thrown + 'a \<Rightarrow> ('s, 'a) tx" where
  "attempt r s = (case r of Inl e \<Rightarrow> Inl e | Inr a \<Rightarrow> Inr (a, s))"

definition require :: "bool \<Rightarrow> thrown \<Rightarrow> ('s, unit) tx" where
  "require b e s = (if b then Inr ((), s) else Inl e)"

text \<open>A read of the database that is not one of the statements below, such as a join.\<close>

definition reading :: "('s \<Rightarrow> 'a) \<Rightarrow> ('s, 'a) tx" where
  "reading q s = Inr (q s, s)"

section \<open>Statements on one table\<close>

text \<open>
  A table is named by its projection from the database and by the record update of that field.
  \<open>update\<close> and \<open>findFirstOrThrow\<close> fail with the client's code \<open>P2025\<close> when no row matches, a
  \<open>create\<close> with \<open>P2002\<close> when a unique key is taken.
\<close>

type_synonym ('s, 'r) setter = "('r table \<Rightarrow> 'r table) \<Rightarrow> 's \<Rightarrow> 's"

definition findFirst :: "('s \<Rightarrow> 'r table) \<Rightarrow> ('r \<Rightarrow> bool) \<Rightarrow> ('s, 'r option) tx" where
  "findFirst tab P s = Inr (find_first P (tab s), s)"

definition findFirstOrThrow :: "('s \<Rightarrow> 'r table) \<Rightarrow> ('r \<Rightarrow> bool) \<Rightarrow> ('s, 'r) tx" where
  "findFirstOrThrow tab P s =
     (case find_first P (tab s) of None \<Rightarrow> Inl (PrismaKnown ''P2025'') | Some r \<Rightarrow> Inr (r, s))"

definition updateMany :: "('s \<Rightarrow> 'r table) \<Rightarrow> ('s, 'r) setter \<Rightarrow> ('r \<Rightarrow> bool) \<Rightarrow> ('r \<Rightarrow> 'r) \<Rightarrow> ('s, nat) tx" where
  "updateMany tab upd P f s = Inr (matching P (tab s), upd (update_many P f) s)"

definition updateRow :: "('s \<Rightarrow> 'r table) \<Rightarrow> ('s, 'r) setter \<Rightarrow> ('r \<Rightarrow> bool) \<Rightarrow> ('r \<Rightarrow> 'r) \<Rightarrow> ('s, unit) tx" where
  "updateRow tab upd P f s =
     (if matching P (tab s) = 0 then Inl (PrismaKnown ''P2025'') else Inr ((), upd (update_many P f) s))"

definition deleteMany :: "('s \<Rightarrow> 'r table) \<Rightarrow> ('s, 'r) setter \<Rightarrow> ('r \<Rightarrow> bool) \<Rightarrow> ('s, nat) tx" where
  "deleteMany tab upd P s = Inr (matching P (tab s), upd (delete_many P) s)"

definition createRow :: "('s \<Rightarrow> 'r table) \<Rightarrow> ('s, 'r) setter \<Rightarrow> ('r \<Rightarrow> 'r \<Rightarrow> bool) \<Rightarrow> 'r \<Rightarrow> ('s, 'r) tx" where
  "createRow tab upd same r s =
     (if clashes same r (tab s) then Inl (PrismaKnown ''P2002'') else Inr (r, upd (\<lambda>rs. r # rs) s))"

text \<open>An upsert looks its row up by a unique key, soft-deleted rows included.\<close>

definition upsertRow :: "('s \<Rightarrow> 'r table) \<Rightarrow> ('s, 'r) setter \<Rightarrow> ('r \<Rightarrow> bool) \<Rightarrow> 'r \<Rightarrow> ('r \<Rightarrow> 'r) \<Rightarrow> ('s, 'r) tx" where
  "upsertRow tab upd P r f s =
     (case find_first P (tab s) of
        None \<Rightarrow> Inr (r, upd (\<lambda>rs. r # rs) s)
      | Some x \<Rightarrow> Inr (f x, upd (update_many P f) s))"

section \<open>Committed computations\<close>

type_synonym ('s, 'a) io = "'s \<Rightarrow> (thrown + 'a) \<times> 's"

text \<open>
  A transaction, or a single statement, which commits by itself: the database is changed only when
  the body returns.
\<close>

definition transaction :: "('s, 'a) tx \<Rightarrow> ('s, 'a) io" where
  "transaction m s = (case m s of Inl e \<Rightarrow> (Inl e, s) | Inr (a, s') \<Rightarrow> (Inr a, s'))"

definition andNext :: "('s, 'a) io \<Rightarrow> ('a \<Rightarrow> ('s, 'b) io) \<Rightarrow> ('s, 'b) io" where
  "andNext m f s = (case m s of (Inl e, s') \<Rightarrow> (Inl e, s') | (Inr a, s') \<Rightarrow> f a s')"

text \<open>
  The effect of other requests that run between two statements of this one: any change of the
  database whatsoever.
\<close>

definition meanwhile :: "('s \<Rightarrow> 's) \<Rightarrow> ('s, unit) io" where
  "meanwhile other s = (Inr (), other s)"

definition answer :: "'a \<Rightarrow> ('s, 'a) io" where
  "answer a s = (Inr a, s)"

section \<open>Laws\<close>

named_theorems tx_simps \<open>runs of transaction bodies that return\<close>

lemma ret_Inr [tx_simps]: "ret a s = Inr r \<longleftrightarrow> r = (a, s)"
  by (auto simp: ret_def)

lemma throw_Inr [tx_simps]: "throw e s = Inr r \<longleftrightarrow> False"
  by (simp add: throw_def)

lemma andThen_Inr [tx_simps]: "andThen m f s = Inr r \<longleftrightarrow> (\<exists>a s'. m s = Inr (a, s') \<and> f a s' = Inr r)"
  by (auto simp: andThen_def split: sum.split)

lemma attempt_Inr [tx_simps]: "attempt x s = Inr r \<longleftrightarrow> (\<exists>a. x = Inr a \<and> r = (a, s))"
  by (auto simp: attempt_def split: sum.split)

lemma require_Inr [tx_simps]: "require b e s = Inr r \<longleftrightarrow> b \<and> r = ((), s)"
  by (auto simp: require_def)

lemma reading_Inr [tx_simps]: "reading q s = Inr r \<longleftrightarrow> r = (q s, s)"
  by (auto simp: reading_def)

lemma findFirst_Inr [tx_simps]: "findFirst tab P s = Inr r \<longleftrightarrow> r = (find_first P (tab s), s)"
  by (auto simp: findFirst_def)

lemma findFirstOrThrow_Inr [tx_simps]:
  "findFirstOrThrow tab P s = Inr r \<longleftrightarrow> (\<exists>x. find_first P (tab s) = Some x \<and> r = (x, s))"
  by (auto simp: findFirstOrThrow_def split: option.split)

lemma updateMany_Inr [tx_simps]:
  "updateMany tab upd P f s = Inr r \<longleftrightarrow> r = (matching P (tab s), upd (update_many P f) s)"
  by (auto simp: updateMany_def)

lemma updateRow_Inr [tx_simps]:
  "updateRow tab upd P f s = Inr r \<longleftrightarrow> matching P (tab s) \<noteq> 0 \<and> r = ((), upd (update_many P f) s)"
  by (auto simp: updateRow_def)

lemma deleteMany_Inr [tx_simps]:
  "deleteMany tab upd P s = Inr r \<longleftrightarrow> r = (matching P (tab s), upd (delete_many P) s)"
  by (auto simp: deleteMany_def)

lemma createRow_Inr [tx_simps]:
  "createRow tab upd same x s = Inr r \<longleftrightarrow> \<not> clashes same x (tab s) \<and> r = (x, upd (\<lambda>rs. x # rs) s)"
  by (auto simp: createRow_def)

definition upserted :: "('r \<Rightarrow> bool) \<Rightarrow> 'r \<Rightarrow> ('r \<Rightarrow> 'r) \<Rightarrow> 'r table \<Rightarrow> 'r table" where
  "upserted P x f rs = (case find_first P rs of None \<Rightarrow> x # rs | Some _ \<Rightarrow> update_many P f rs)"

text \<open>The law needs the setter to be the update of that table.\<close>

lemma upsertRow_Inr:
  assumes "\<And>f g s. f (tab s) = g (tab s) \<Longrightarrow> upd f s = upd g s"
  shows "upsertRow tab upd P x f s = Inr r \<longleftrightarrow>
     r = (case find_first P (tab s) of None \<Rightarrow> x | Some y \<Rightarrow> f y, upd (upserted P x f) s)"
proof (cases "find_first P (tab s)")
  case None
  then have "upd (upserted P x f) s = upd (\<lambda>rs. x # rs) s" by (intro assms) (simp add: upserted_def)
  with None show ?thesis by (auto simp: upsertRow_def)
next
  case (Some y)
  then have "upd (upserted P x f) s = upd (update_many P f) s" by (intro assms) (simp add: upserted_def)
  with Some show ?thesis by (auto simp: upsertRow_def)
qed

lemma upserted_has:
  assumes "P x" "\<And>y. P y \<Longrightarrow> P (f y)" "Q x" "\<And>y. Q (f y)"
  shows "\<exists>r\<in>set (upserted P x f rs). P r \<and> Q r"
proof (cases "find_first P rs")
  case None
  with assms show ?thesis by (auto simp: upserted_def)
next
  case (Some y)
  note y = find_first_SomeD [OF Some]
  then have "f y \<in> set (update_many P f rs)" by (auto simp: set_update_many intro!: image_eqI [of _ _ y])
  with y assms Some show ?thesis by (auto simp: upserted_def)
qed

text \<open>A transaction that throws leaves the database as it was; one that returns commits its result.\<close>

lemma transaction_cases:
  "transaction m s = (Inr a, s') \<longleftrightarrow> m s = Inr (a, s')"
  "transaction m s = (Inl e, s') \<longleftrightarrow> m s = Inl e \<and> s' = s"
  by (auto simp: transaction_def split: sum.split)

lemma transaction_atomic:
  "(\<exists>e. fst (transaction m s) = Inl e \<and> snd (transaction m s) = s) \<or>
   (\<exists>a. m s = Inr (a, snd (transaction m s)) \<and> fst (transaction m s) = Inr a)"
  by (cases "m s") (auto simp: transaction_def)

lemma andNext_Inr [tx_simps]:
  "andNext m f s = (Inr b, s'') \<longleftrightarrow> (\<exists>a s'. m s = (Inr a, s') \<and> f a s' = (Inr b, s''))"
  by (auto simp: andNext_def split: prod.split sum.split)

lemma andNext_Inl [tx_simps]:
  "andNext m f s = (Inl e, s'') \<longleftrightarrow>
     m s = (Inl e, s'') \<or> (\<exists>a s'. m s = (Inr a, s') \<and> f a s' = (Inl e, s''))"
  by (auto simp: andNext_def split: prod.split sum.split)

lemma answer_eq [tx_simps]: "answer a s = (r, s') \<longleftrightarrow> r = Inr a \<and> s' = s"
  by (auto simp: answer_def)

text \<open>What a computation leaves, by its outcome.\<close>

lemma io_state:
  "(\<And>a s'. m s = (Inr a, s') \<Longrightarrow> Q s') \<Longrightarrow> (\<And>e s'. m s = (Inl e, s') \<Longrightarrow> Q s') \<Longrightarrow> Q (snd (m s))"
  by (cases "m s"; cases "fst (m s)") auto

lemma transaction_findFirst [simp]: "transaction (findFirst tab P) s = (Inr (find_first P (tab s)), s)"
  by (simp add: transaction_def findFirst_def)

lemma andNext_steps [simp]:
  "andNext (transaction (findFirst tab P)) f s = f (find_first P (tab s)) s"
  "andNext (meanwhile other) g s = g () (other s)"
  "andNext (answer a) h s = h a s"
  by (simp_all add: andNext_def meanwhile_def answer_def)

text \<open>Symbolic execution of a body on a concrete database.\<close>

lemmas tx_run = andThen_def ret_def throw_def attempt_def require_def reading_def findFirst_def findFirstOrThrow_def
  updateMany_def updateRow_def deleteMany_def createRow_def upsertRow_def transaction_def andNext_def answer_def
  find_first_def matching_def update_many_def delete_many_def clashes_def

text \<open>
  An invariant of the database that every statement of a body keeps is kept by the body.
\<close>

definition keeps :: "('s \<Rightarrow> bool) \<Rightarrow> ('s, 'a) tx \<Rightarrow> bool" where
  "keeps I m \<longleftrightarrow> (\<forall>s a s'. I s \<longrightarrow> m s = Inr (a, s') \<longrightarrow> I s')"

lemma keepsD: "keeps I m \<Longrightarrow> I s \<Longrightarrow> m s = Inr (a, s') \<Longrightarrow> I s'"
  by (auto simp: keeps_def)

lemma keeps_andThen: "keeps I m \<Longrightarrow> (\<And>a. keeps I (f a)) \<Longrightarrow> keeps I (andThen m f)"
  unfolding keeps_def by (metis andThen_Inr)

lemma keeps_pure [intro, simp]:
  "keeps I (ret a)" "keeps I (throw e)" "keeps I (attempt x)" "keeps I (require b e)"
  "keeps I (reading q)" "keeps I (findFirst tab P)" "keeps I (findFirstOrThrow tab P)"
  by (auto simp: keeps_def tx_simps)

lemma keeps_transaction: "keeps I m \<Longrightarrow> I s \<Longrightarrow> I (snd (transaction m s))"
  by (auto simp: transaction_def split: sum.split prod.split dest: keepsD)

end
