(* ===== verification/Accounts.thy ===== *)
theory Accounts
  imports Outbox Transactions
begin

text \<open>
  The tables that authentication, organizations and roles share, as the data model of
  \<open>src/prisma/schema.prisma\<close> declares them, the audited transaction of
  \<open>src/src/lib/audited-transaction.ts\<close> over them, and the revocation channel of
  \<open>src/src/modules/chat/chat.revocations.ts\<close>. The \<open>updatedAt\<close> columns, which the client maintains and
  none of this code reads, are left out.
\<close>

section \<open>Rows\<close>

datatype UserStatus = U_PENDING | U_ACTIVE | U_SUSPENDED | U_DISABLED

record User =
  u_id :: ident
  u_email :: "string option"
  u_phone :: "string option"
  u_passwordHash :: "string option"
  u_displayName :: "string option"
  u_locale :: string
  u_pendingEmail :: "string option"
  u_stripeCustomerId :: "string option"
  u_permissionEpoch :: int
  u_status :: UserStatus
  u_emailVerifiedAt :: "time option"
  u_phoneVerifiedAt :: "time option"
  u_lastLoginAt :: "time option"
  u_createdAt :: time
  u_deletedAt :: "time option"

datatype OrganizationStatus = O_ACTIVE | O_SUSPENDED

record Organization =
  org_id :: ident
  org_slug :: string
  org_name :: string
  org_status :: OrganizationStatus
  org_permissionEpoch :: int
  org_settings :: "jsval option"
  org_stripeCustomerId :: "string option"
  org_createdAt :: time
  org_deletedAt :: "time option"

datatype MembershipStatus = M_INVITED | M_ACTIVE | M_SUSPENDED

record Membership =
  mem_id :: ident
  mem_organizationId :: ident
  mem_userId :: ident
  mem_roleId :: ident
  mem_status :: MembershipStatus
  mem_joinedAt :: "time option"
  mem_createdAt :: time
  mem_deletedAt :: "time option"

record Invitation =
  inv_id :: ident
  inv_organizationId :: ident
  inv_email :: string
  inv_roleId :: ident
  inv_tokenHash :: string
  inv_expiresAt :: time
  inv_acceptedAt :: "time option"
  inv_revokedAt :: "time option"
  inv_invitedByUserId :: "ident option"
  inv_createdAt :: time
  inv_deletedAt :: "time option"

record Role =
  role_id :: ident
  role_organizationId :: "ident option"
  role_name :: string
  role_description :: "string option"
  role_isSystem :: bool
  role_createdAt :: time
  role_deletedAt :: "time option"

record Session =
  ses_id :: ident
  ses_userId :: ident
  ses_activeOrganizationId :: "ident option"
  ses_ipHash :: "string option"
  ses_userAgent :: "string option"
  ses_expiresAt :: time
  ses_revokedAt :: "time option"
  ses_revokeReason :: "string option"
  ses_lastSeenAt :: time
  ses_createdAt :: time
  ses_deletedAt :: "time option"

record RefreshToken =
  rt_id :: ident
  rt_userId :: ident
  rt_sessionId :: ident
  rt_tokenHash :: string
  rt_replacedByTokenId :: "ident option"
  rt_expiresAt :: time
  rt_consumedAt :: "time option"
  rt_revokedAt :: "time option"
  rt_createdAt :: time
  rt_deletedAt :: "time option"

datatype OtpChannel = Otp_EMAIL | Otp_SMS

datatype OtpPurpose = SIGNUP | LOGIN | VERIFY_EMAIL | VERIFY_PHONE | PASSWORD_RESET | EMAIL_CHANGE

record OtpChallenge =
  otp_id :: ident
  otp_userId :: "ident option"
  otp_normalizedDestination :: string
  otp_channel :: OtpChannel
  otp_purpose :: OtpPurpose
  otp_codeHash :: string
  otp_attempts :: nat
  otp_maxAttempts :: nat
  otp_sentAt :: time
  otp_expiresAt :: time
  otp_verifiedAt :: "time option"
  otp_consumedAt :: "time option"
  otp_lockedAt :: "time option"
  otp_createdAt :: time
  otp_deletedAt :: "time option"

record PasswordResetToken =
  prt_id :: ident
  prt_userId :: ident
  prt_otpChallengeId :: ident
  prt_tokenHash :: string
  prt_expiresAt :: time
  prt_usedAt :: "time option"
  prt_createdAt :: time
  prt_deletedAt :: "time option"

record Permission =
  perm_id :: ident
  perm_code :: string
  perm_deletedAt :: "time option"

record UserRole =
  ur_id :: ident
  ur_userId :: ident
  ur_roleId :: ident
  ur_deletedAt :: "time option"

record RolePermission =
  rp_id :: ident
  rp_roleId :: ident
  rp_permissionId :: ident
  rp_deletedAt :: "time option"

datatype SocialProvider = GOOGLE | APPLE

record SocialAccount =
  sa_id :: ident
  sa_userId :: ident
  sa_provider :: SocialProvider
  sa_providerAccountId :: string
  sa_email :: "string option"
  sa_deletedAt :: "time option"

text \<open>The database, and the messages handed to the revocation channel.\<close>

record store =
  users :: "User table"
  organizations :: "Organization table"
  memberships :: "Membership table"
  invitations :: "Invitation table"
  roles :: "Role table"
  sessions :: "Session table"
  refreshTokens :: "RefreshToken table"
  otpChallenges :: "OtpChallenge table"
  passwordResetTokens :: "PasswordResetToken table"
  permissions :: "Permission table"
  userRoles :: "UserRole table"
  rolePermissions :: "RolePermission table"
  socialAccounts :: "SocialAccount table"
  outboxEvents :: "OutboxEvent table"
  auditEvents :: "AuditEvent table"
  revocations :: "ident list"

section \<open>Configuration and services\<close>

text \<open>
  What the services read from their surroundings: the audit writer's configuration with the
  cryptographic one, the ambient request context, the environment variables and the signer of
  access tokens.
\<close>

record app =
  ap_audit :: audit_deps
  ap_ctx :: "RequestContext option"
  ap_tenancyMode :: tenancyMode
  ap_refreshTokenTtlDays :: int
  ap_passwordResetTokenTtlMinutes :: int
  ap_chatEnabled :: bool
  ap_signAccessToken :: "ident \<Rightarrow> ident \<Rightarrow> string"

abbreviation cenv :: "app \<Rightarrow> crypto_env" where
  "cenv A \<equiv> ad_crypto (ap_audit A)"

abbreviation prims :: "app \<Rightarrow> crypto_prims" where
  "prims A \<equiv> ad_prims (ap_audit A)"

text \<open>The audit writer of a transaction and the transaction that passes it to its body.\<close>

type_synonym AuditWriter = "ident \<Rightarrow> time \<Rightarrow> AuditInput \<Rightarrow> (store, unit) tx"

definition auditEventWriter :: "app \<Rightarrow> AuditWriter" where
  "auditEventWriter A eid now input s =
     (case writeAuditEvent (ap_audit A) (ap_ctx A) eid now input (auditEvents s) of
        Inl e \<Rightarrow> Inl e
      | Inr events \<Rightarrow> Inr ((), s\<lparr>auditEvents := events\<rparr>))"

definition auditedTransaction :: "app \<Rightarrow> (AuditWriter \<Rightarrow> (store, 'a) tx) \<Rightarrow> (store, 'a) io" where
  "auditedTransaction A operation = transaction (operation (auditEventWriter A))"

definition outboxInsert :: "ident \<Rightarrow> time \<Rightarrow> OutboxInput \<Rightarrow> (store, unit) tx" where
  "outboxInsert oid now input s =
     (case addOutboxEvent oid now input (outboxEvents s) of
        Inl e \<Rightarrow> Inl e
      | Inr events \<Rightarrow> Inr ((), s\<lparr>outboxEvents := events\<rparr>))"

definition publishChatRevocation :: "app \<Rightarrow> ident \<Rightarrow> (store, unit) io" where
  "publishChatRevocation A userId s =
     (Inr (), if ap_chatEnabled A then s\<lparr>revocations := userId # revocations s\<rparr> else s)"

definition expiresIn :: "time \<Rightarrow> int \<Rightarrow> int \<Rightarrow> time" where
  "expiresIn now amount unitMilliseconds = now + amount * unitMilliseconds"

text \<open>\<open>tx.user.update({where: {id}, data: {permissionEpoch: {increment: 1}}})\<close>.\<close>

definition bumpEpoch :: "ident \<Rightarrow> (store, unit) tx" where
  "bumpEpoch userId =
     updateRow users users_update (\<lambda>u. u_id u = userId \<and> u_deletedAt u = None)
       (\<lambda>u. u\<lparr>u_permissionEpoch := u_permissionEpoch u + 1\<rparr>)"

section \<open>Laws\<close>

lemma auditEventWriter_Inr [tx_simps]:
  "auditEventWriter A eid now input s = Inr r \<longleftrightarrow>
     (\<exists>events. writeAuditEvent (ap_audit A) (ap_ctx A) eid now input (auditEvents s) = Inr events \<and>
               r = ((), s\<lparr>auditEvents := events\<rparr>))"
  by (auto simp: auditEventWriter_def split: sum.split)

lemma auditedTransaction_Inr [tx_simps]:
  "auditedTransaction A operation s = (Inr a, s') \<longleftrightarrow> operation (auditEventWriter A) s = Inr (a, s')"
  by (simp add: auditedTransaction_def transaction_cases)

lemma auditedTransaction_Inl [tx_simps]:
  "auditedTransaction A operation s = (Inl e, s') \<longleftrightarrow> operation (auditEventWriter A) s = Inl e \<and> s' = s"
  by (simp add: auditedTransaction_def transaction_cases)

lemma publish_eq [tx_simps]:
  "publishChatRevocation A u s = (r, s') \<longleftrightarrow>
     r = Inr () \<and> s' = s\<lparr>revocations := (if ap_chatEnabled A then u # revocations s else revocations s)\<rparr>"
  by (auto simp: publishChatRevocation_def)

lemma outboxInsert_Inr [tx_simps]:
  "outboxInsert oid now input s = Inr r \<longleftrightarrow>
     (\<exists>events. addOutboxEvent oid now input (outboxEvents s) = Inr events \<and> r = ((), s\<lparr>outboxEvents := events\<rparr>))"
  by (auto simp: outboxInsert_def split: sum.split)

lemma bumpEpoch_Inr [tx_simps]:
  "bumpEpoch userId s = Inr r \<longleftrightarrow>
     matching (\<lambda>u. u_id u = userId \<and> u_deletedAt u = None) (users s) \<noteq> 0 \<and>
     r = ((), users_update (update_many (\<lambda>u. u_id u = userId \<and> u_deletedAt u = None)
            (\<lambda>u. u\<lparr>u_permissionEpoch := u_permissionEpoch u + 1\<rparr>)) s)"
  by (simp add: bumpEpoch_def updateRow_Inr)

lemma upsert_membership [tx_simps]:
  "upsertRow memberships memberships_update P x f s = Inr r \<longleftrightarrow>
     r = (case find_first P (memberships s) of None \<Rightarrow> x | Some y \<Rightarrow> f y, memberships_update (upserted P x f) s)"
  by (rule upsertRow_Inr) (simp add: store.defs)

lemma upsert_organization [tx_simps]:
  "upsertRow organizations organizations_update P x f s = Inr r \<longleftrightarrow>
     r = (case find_first P (organizations s) of None \<Rightarrow> x | Some y \<Rightarrow> f y, organizations_update (upserted P x f) s)"
  by (rule upsertRow_Inr) (simp add: store.defs)

text \<open>With a valid configuration the audit writer never fails.\<close>

definition audit_row :: "app \<Rightarrow> ident \<Rightarrow> time \<Rightarrow> AuditInput \<Rightarrow> AuditEvent" where
  "audit_row A eid now input =
     hd (case writeAuditEvent (ap_audit A) (ap_ctx A) eid now input [] of Inl e \<Rightarrow> [] | Inr rs \<Rightarrow> rs)"

lemma auditEventWriter_total:
  assumes "crypto_env_ok (cenv A)"
  shows "auditEventWriter A eid now input s = Inr ((), s\<lparr>auditEvents := audit_row A eid now input # auditEvents s\<rparr>)"
proof -
  have "\<exists>h. hashMetadata (cenv A) (prims A) v = Inr h" for v
    unfolding hashMetadata_def by (rule versionedHmac_present [OF assms active_present [OF assms]])
  then obtain h where "hashMetadata (cenv A) (prims A) (the (ai_ip input)) = Inr h" by blast
  then show ?thesis by (simp add: auditEventWriter_def audit_row_def writeAuditEvent_def Let_def)
qed

text \<open>A configuration and an empty database for the concrete instances.\<close>

definition demo_app :: app where
  "demo_app = \<lparr>ap_audit = demo_audit, ap_ctx = None, ap_tenancyMode = tenancy_multi,
     ap_refreshTokenTtlDays = 30, ap_passwordResetTokenTtlMinutes = 10, ap_chatEnabled = True,
     ap_signAccessToken = (\<lambda>u s. u @ ''/'' @ s)\<rparr>"

definition demo_store :: store where
  "demo_store = \<lparr>users = [], organizations = [], memberships = [], invitations = [], roles = [], sessions = [],
     refreshTokens = [], otpChallenges = [], passwordResetTokens = [], permissions = [], userRoles = [],
     rolePermissions = [], socialAccounts = [], outboxEvents = [], auditEvents = [],
     revocations = []\<rparr>"

definition demo_user :: "ident \<Rightarrow> User" where
  "demo_user i = \<lparr>u_id = i, u_email = Some (i @ ''@x''), u_phone = None, u_passwordHash = Some ''pw'',
     u_displayName = None, u_locale = ''en'', u_pendingEmail = None, u_stripeCustomerId = None,
     u_permissionEpoch = 0, u_status = U_ACTIVE, u_emailVerifiedAt = Some 0, u_phoneVerifiedAt = None,
     u_lastLoginAt = None, u_createdAt = 0, u_deletedAt = None\<rparr>"

definition demo_meta :: RequestMetadata where
  "demo_meta = \<lparr>rm_ip = ''1.2.3.4'', rm_userAgent = None, rm_requestId = ''r''\<rparr>"

lemma demo_app_writes [simp]:
  "auditEventWriter demo_app eid now input s =
     Inr ((), s\<lparr>auditEvents := audit_row demo_app eid now input # auditEvents s\<rparr>)"
  by (rule auditEventWriter_total) (simp add: demo_app_def demo_audit_def demo_crypto)

end
