(* ===== verification/Organizations.thy ===== *)
theory Organizations
  imports Accounts
begin

text \<open>
  Tenants and their members: \<open>src/src/modules/organizations/organizations.tenancy.ts\<close> and
  \<open>organizations.service.ts\<close>. The advisory lock that \<open>changeMemberRole\<close> and \<open>removeMember\<close> take at
  their start makes the owner-changing transactions of one organization run one after the other, so
  each of them is one step on the database its predecessor left.
\<close>

section \<open>Tenancy modes\<close>

definition DEFAULT_ORGANIZATION_SLUG :: string where
  "DEFAULT_ORGANIZATION_SLUG = ''default''"

definition DEFAULT_ORGANIZATION_NAME :: string where
  "DEFAULT_ORGANIZATION_NAME = ''Default''"

definition findGlobalRoleId :: "string \<Rightarrow> (store, ident) tx" where
  "findGlobalRoleId name =
     andThen (findFirst roles (\<lambda>r. role_name r = name \<and> role_organizationId r = None \<and> role_deletedAt r = None))
       (\<lambda>role. case role of
          None \<Rightarrow> throw (OtherError (''System role \"'' @ name @
                    ''\" is missing. Run `npm run db:seed` before enabling TENANCY_MODE.''))
        | Some r \<Rightarrow> ret (role_id r))"

definition newOrganization :: "ident \<Rightarrow> time \<Rightarrow> string \<Rightarrow> string \<Rightarrow> Organization" where
  "newOrganization oid now slug name =
     \<lparr>org_id = oid, org_slug = slug, org_name = name, org_status = O_ACTIVE, org_permissionEpoch = 0,
      org_settings = None, org_stripeCustomerId = None, org_createdAt = now, org_deletedAt = None\<rparr>"

definition activeMembership :: "ident \<Rightarrow> time \<Rightarrow> ident \<Rightarrow> ident \<Rightarrow> ident \<Rightarrow> Membership" where
  "activeMembership mid now organizationId userId roleId =
     \<lparr>mem_id = mid, mem_organizationId = organizationId, mem_userId = userId, mem_roleId = roleId,
      mem_status = M_ACTIVE, mem_joinedAt = Some now, mem_createdAt = now, mem_deletedAt = None\<rparr>"

definition membershipKey :: "ident \<Rightarrow> ident \<Rightarrow> Membership \<Rightarrow> bool" where
  "membershipKey organizationId userId m \<longleftrightarrow> mem_organizationId m = organizationId \<and> mem_userId m = userId"

definition resolveInitialOrganizationId ::
    "app \<Rightarrow> ident \<Rightarrow> ident \<Rightarrow> time \<Rightarrow> ident \<Rightarrow> (store, ident option) tx" where
  "resolveInitialOrganizationId A oid mid now userId =
     (case ap_tenancyMode A of
        tenancy_disabled \<Rightarrow> ret None
      | tenancy_single \<Rightarrow>
          andThen (upsertRow organizations organizations_update (\<lambda>g. org_slug g = DEFAULT_ORGANIZATION_SLUG)
                     (newOrganization oid now DEFAULT_ORGANIZATION_SLUG DEFAULT_ORGANIZATION_NAME) (\<lambda>g. g)) (\<lambda>organization.
          andThen (findGlobalRoleId ''member'') (\<lambda>roleId.
          andThen (upsertRow memberships memberships_update (membershipKey (org_id organization) userId)
                     (activeMembership mid now (org_id organization) userId roleId)
                     (\<lambda>m. m\<lparr>mem_status := M_ACTIVE, mem_deletedAt := None\<rparr>)) (\<lambda>_.
          ret (Some (org_id organization)))))
      | tenancy_multi \<Rightarrow>
          andThen (findFirst (\<lambda>s. sort_key mem_createdAt (memberships s))
                     (\<lambda>m. mem_userId m = userId \<and> mem_status m = M_ACTIVE \<and> mem_deletedAt m = None)) (\<lambda>membership.
          ret (map_option mem_organizationId membership)))"

section \<open>Organizations\<close>

definition INVITATION_TTL_MS :: int where
  "INVITATION_TTL_MS = 7 * 24 * 60 * 60 * 1000"

text \<open>\<open>replace(/[^a-z0-9]+/g, '-')\<close>: every run of other characters becomes one dash.\<close>

definition slug_char :: "char \<Rightarrow> bool" where
  "slug_char c \<longleftrightarrow> (97 \<le> byte c \<and> byte c \<le> 122) \<or> (48 \<le> byte c \<and> byte c \<le> 57)"

function collapse :: "string \<Rightarrow> string" where
  "collapse [] = []"
| "collapse (c # cs) =
     (if slug_char c then c # collapse cs else CHR ''-'' # collapse (dropWhile (\<lambda>c. \<not> slug_char c) cs))"
  by pat_completeness auto
termination
  by (relation "measure length") (auto simp: le_imp_less_Suc length_dropWhile_le)

definition strip_dashes :: "string \<Rightarrow> string" where
  "strip_dashes s = rev (dropWhile (\<lambda>c. c = CHR ''-'') (rev (dropWhile (\<lambda>c. c = CHR ''-'') s)))"

definition slugify :: "string \<Rightarrow> thrown + string" where
  "slugify value =
     (let slug = take 64 (strip_dashes (collapse (toLowerCase value))) in
      if length slug < 2 then Inl (App (badRequest (Some ''Organization name must yield a usable slug'') None))
      else Inr slug)"

definition assertAssignableRole :: "ident \<Rightarrow> ident \<Rightarrow> (store, Role) tx" where
  "assertAssignableRole roleId organizationId =
     andThen (findFirst roles (\<lambda>r. role_id r = roleId \<and> role_deletedAt r = None \<and>
                (role_organizationId r = None \<or> role_organizationId r = Some organizationId))) (\<lambda>role.
     case role of
       None \<Rightarrow> throw (App (badRequest (Some ''Role is not assignable in this organization'') None))
     | Some r \<Rightarrow> ret r)"

definition roleOf :: "store \<Rightarrow> Membership \<Rightarrow> Role option" where
  "roleOf s m = find_first (\<lambda>r. role_id r = mem_roleId m) (roles s)"

definition activeOwner :: "ident \<Rightarrow> store \<Rightarrow> Membership \<Rightarrow> bool" where
  "activeOwner organizationId s m \<longleftrightarrow>
     mem_organizationId m = organizationId \<and> mem_status m = M_ACTIVE \<and> mem_deletedAt m = None \<and>
     (case roleOf s m of None \<Rightarrow> False | Some r \<Rightarrow> role_name r = ''owner'' \<and> role_deletedAt r = None)"

definition countActiveOwners :: "ident \<Rightarrow> store \<Rightarrow> nat" where
  "countActiveOwners organizationId s = matching (activeOwner organizationId s) (memberships s)"

definition organizationOf :: "store \<Rightarrow> ident \<Rightarrow> Organization option" where
  "organizationOf s oid = find_first (\<lambda>g. org_id g = oid) (organizations s)"

definition listMyOrganizations :: "ident \<Rightarrow> store \<Rightarrow> (Organization option \<times> Role option) list" where
  "listMyOrganizations userId s =
     map (\<lambda>m. (organizationOf s (mem_organizationId m), roleOf s m))
       (filter (\<lambda>m. mem_userId m = userId \<and> mem_status m = M_ACTIVE \<and> mem_deletedAt m = None \<and>
                  (case organizationOf s (mem_organizationId m) of None \<Rightarrow> False | Some g \<Rightarrow> org_deletedAt g = None))
          (sort_key mem_createdAt (memberships s)))"

definition getOrganization :: "ident \<Rightarrow> (store, Organization) tx" where
  "getOrganization organizationId =
     andThen (findFirst organizations (\<lambda>g. org_id g = organizationId \<and> org_deletedAt g = None)) (\<lambda>organization.
     case organization of None \<Rightarrow> throw (App (notFound (Some ''Organization not found''))) | Some g \<Rightarrow> ret g)"

definition getOrganizationInTransaction :: "ident \<Rightarrow> (store, Organization) tx" where
  "getOrganizationInTransaction organizationId =
     findFirstOrThrow organizations (\<lambda>g. org_id g = organizationId \<and> org_deletedAt g = None)"

definition createOrganization ::
    "app \<Rightarrow> effects \<Rightarrow> string \<Rightarrow> string option \<Rightarrow> ident \<Rightarrow> RequestMetadata \<Rightarrow> (store, Organization) io" where
  "createOrganization A ef name slugInput actorUserId metadata =
     (if ap_tenancyMode A \<noteq> tenancy_multi
      then (\<lambda>s. (Inl (App (conflict (Some ''Organizations can only be created when TENANCY_MODE=multi''))), s))
      else case (case slugInput of Some slug \<Rightarrow> Inr slug | None \<Rightarrow> slugify name) of
        Inl e \<Rightarrow> (\<lambda>s. (Inl e, s))
      | Inr slug \<Rightarrow> auditedTransaction A (\<lambda>audit.
          andThen (findFirst organizations (\<lambda>g. org_slug g = slug \<and> org_deletedAt g = None)) (\<lambda>existing.
          andThen (require (existing = None) (App (conflict (Some ''Organization slug is already taken'')))) (\<lambda>_.
          andThen (createRow organizations organizations_update (\<lambda>a b. org_slug a = org_slug b)
                     (newOrganization (ef_id ef 0) (ef_now ef 0) slug name)) (\<lambda>organization.
          andThen (findGlobalRoleId ''owner'') (\<lambda>roleId.
          andThen (createRow memberships memberships_update
                     (\<lambda>a b. membershipKey (mem_organizationId a) (mem_userId a) b)
                     (activeMembership (ef_id ef 1) (ef_now ef 1) (org_id organization) actorUserId roleId)) (\<lambda>_.
          andThen (bumpEpoch actorUserId) (\<lambda>_.
          andThen (audit (ef_id ef 2) (ef_now ef 2)
                     (audit_of metadata (Some actorUserId) ''organization.created'' ''organization''
                        (Some (org_id organization)) (Some (JObj [(''slug'', JStr slug)])))) (\<lambda>_.
          ret organization)))))))))"

record OrganizationUpdate =
  upd_name :: "string option"
  upd_settings :: "jsval option"

definition updateOrganization ::
    "app \<Rightarrow> effects \<Rightarrow> ident \<Rightarrow> OrganizationUpdate \<Rightarrow> ident \<Rightarrow> RequestMetadata \<Rightarrow> (store, Organization) io" where
  "updateOrganization A ef organizationId input actorUserId metadata =
     auditedTransaction A (\<lambda>audit.
       andThen (updateMany organizations organizations_update
                  (\<lambda>g. org_id g = organizationId \<and> org_deletedAt g = None)
                  (\<lambda>g. g\<lparr>org_name := orElse (upd_name input) (org_name g),
                         org_settings := (if upd_settings input = None then org_settings g else upd_settings input)\<rparr>)) (\<lambda>updated.
       andThen (require (updated \<noteq> 0) (App (notFound (Some ''Organization not found'')))) (\<lambda>_.
       andThen (audit (ef_id ef 0) (ef_now ef 0)
                  (audit_of metadata (Some actorUserId) ''organization.updated'' ''organization'' (Some organizationId)
                     (Some (JObj [(''fields'', JArr (map JStr
                        ((if upd_name input = None then [] else [''name'']) @
                         (if upd_settings input = None then [] else [''settings'']))))])))) (\<lambda>_.
       getOrganizationInTransaction organizationId))))"

definition switchOrganization ::
    "app \<Rightarrow> effects \<Rightarrow> ident \<Rightarrow> ident \<Rightarrow> ident \<Rightarrow> RequestMetadata \<Rightarrow> (store, Organization) io" where
  "switchOrganization A ef userId sessionId organizationId metadata =
     andNext (auditedTransaction A (\<lambda>audit.
       andThen (reading (\<lambda>s. find_first (\<lambda>m. mem_userId m = userId \<and> mem_organizationId m = organizationId \<and>
                   mem_status m = M_ACTIVE \<and> mem_deletedAt m = None \<and>
                   (case organizationOf s (mem_organizationId m) of None \<Rightarrow> False
                    | Some g \<Rightarrow> org_status g = O_ACTIVE \<and> org_deletedAt g = None)) (memberships s))) (\<lambda>membership.
       andThen (require (membership \<noteq> None)
                  (App (forbidden (Some ''You are not an active member of that organization'')))) (\<lambda>_.
       andThen (updateMany sessions sessions_update
                  (\<lambda>x. ses_id x = sessionId \<and> ses_userId x = userId \<and> ses_revokedAt x = None \<and> ses_deletedAt x = None)
                  (\<lambda>x. x\<lparr>ses_activeOrganizationId := Some organizationId\<rparr>)) (\<lambda>switched.
       andThen (require (switched \<noteq> 0) (App (unauthenticated None))) (\<lambda>_.
       andThen (audit (ef_id ef 0) (ef_now ef 0)
                  (audit_of metadata (Some userId) ''organization.switched'' ''organization'' (Some organizationId) None)) (\<lambda>_.
       getOrganizationInTransaction organizationId)))))))
     (\<lambda>organization. andNext (publishChatRevocation A userId) (\<lambda>_. answer organization))"

definition listMembers :: "CursorPaginationInput \<Rightarrow> ident \<Rightarrow> Membership list \<Rightarrow> Membership CursorPage" where
  "listMembers input organizationId ordered =
     paginateCursor mem_id input (fetch_rows mem_id
       (filter (\<lambda>m. mem_organizationId m = organizationId \<and> mem_deletedAt m = None) ordered))"

section \<open>Members\<close>

definition ownerRequired :: AppError where
  "ownerRequired = conflict (Some ''An organization must keep at least one active owner'')"

definition membershipRef :: "ident \<Rightarrow> ident \<Rightarrow> string" where
  "membershipRef organizationId userId = organizationId @ '':'' @ userId"

definition isActiveOwnerRow :: "store \<Rightarrow> Membership \<Rightarrow> bool" where
  "isActiveOwnerRow s t \<longleftrightarrow> mem_status t = M_ACTIVE \<and> map_option role_name (roleOf s t) = Some ''owner''"

definition changeMemberRole ::
    "app \<Rightarrow> effects \<Rightarrow> ident \<Rightarrow> ident \<Rightarrow> ident \<Rightarrow> ident \<Rightarrow> RequestMetadata \<Rightarrow> (store, Membership) io" where
  "changeMemberRole A ef organizationId userId roleId actorUserId metadata =
     auditedTransaction A (\<lambda>audit.
       andThen (assertAssignableRole roleId organizationId) (\<lambda>newRole.
       andThen (findFirst memberships (\<lambda>m. membershipKey organizationId userId m \<and> mem_deletedAt m = None)) (\<lambda>target.
       case target of
         None \<Rightarrow> throw (App (notFound (Some ''Membership not found'')))
       | Some t \<Rightarrow>
       andThen (reading (\<lambda>s. isActiveOwnerRow s t \<and> role_name newRole \<noteq> ''owner'' \<and> countActiveOwners organizationId s \<le> 1)) (\<lambda>lastOwner.
       andThen (require (\<not> lastOwner) (App ownerRequired)) (\<lambda>_.
       andThen (updateMany memberships memberships_update (\<lambda>m. mem_id m = mem_id t \<and> mem_deletedAt m = None)
                  (\<lambda>m. m\<lparr>mem_roleId := roleId\<rparr>)) (\<lambda>changed.
       andThen (require (changed \<noteq> 0) (App (notFound (Some ''Membership not found'')))) (\<lambda>_.
       andThen (bumpEpoch userId) (\<lambda>_.
       andThen (audit (ef_id ef 0) (ef_now ef 0)
                  (audit_of metadata (Some actorUserId) ''organization.member.role_changed'' ''membership''
                     (Some (membershipRef organizationId userId))
                     (Some (JObj [(''organizationId'', JStr organizationId), (''userId'', JStr userId), (''roleId'', JStr roleId)])))) (\<lambda>_.
       findFirstOrThrow memberships (\<lambda>m. membershipKey organizationId userId m \<and> mem_deletedAt m = None))))))))))"

definition removeMember ::
    "app \<Rightarrow> effects \<Rightarrow> ident \<Rightarrow> ident \<Rightarrow> ident \<Rightarrow> RequestMetadata \<Rightarrow> (store, unit) io" where
  "removeMember A ef organizationId userId actorUserId metadata =
     andNext (auditedTransaction A (\<lambda>audit.
       andThen (findFirst memberships (\<lambda>m. membershipKey organizationId userId m \<and> mem_deletedAt m = None)) (\<lambda>target.
       case target of
         None \<Rightarrow> throw (App (notFound (Some ''Membership not found'')))
       | Some t \<Rightarrow>
       andThen (reading (\<lambda>s. isActiveOwnerRow s t \<and> countActiveOwners organizationId s \<le> 1)) (\<lambda>lastOwner.
       andThen (require (\<not> lastOwner) (App ownerRequired)) (\<lambda>_.
       andThen (updateRow memberships memberships_update (\<lambda>m. mem_id m = mem_id t \<and> mem_deletedAt m = None)
                  (\<lambda>m. m\<lparr>mem_deletedAt := Some (ef_now ef 0), mem_status := M_SUSPENDED\<rparr>)) (\<lambda>_.
       andThen (updateMany sessions sessions_update
                  (\<lambda>x. ses_userId x = userId \<and> ses_activeOrganizationId x = Some organizationId \<and> ses_deletedAt x = None)
                  (\<lambda>x. x\<lparr>ses_activeOrganizationId := None\<rparr>)) (\<lambda>_.
       andThen (bumpEpoch userId) (\<lambda>_.
       audit (ef_id ef 0) (ef_now ef 1)
         (audit_of metadata (Some actorUserId) ''organization.member.removed'' ''membership''
            (Some (membershipRef organizationId userId))
            (Some (JObj [(''organizationId'', JStr organizationId), (''userId'', JStr userId)])))))))))))
     (\<lambda>_. publishChatRevocation A userId)"

section \<open>Invitations\<close>

record CreatedInvitation =
  ci_invitation :: Invitation
  ci_token :: string

definition invitationPayload ::
    "string \<Rightarrow> ident \<Rightarrow> string \<Rightarrow> ident \<Rightarrow> string \<Rightarrow> User option \<Rightarrow> jsval" where
  "invitationPayload email invitationId encryptedToken organizationId organizationName invitedUser =
     JObj ([(''destination'', JStr email), (''invitationId'', JStr invitationId), (''encryptedToken'', JStr encryptedToken),
            (''organizationId'', JStr organizationId), (''organizationName'', JStr organizationName),
            (''expiresInDays'', JStr ''7'')] @
           (case invitedUser of None \<Rightarrow> []
            | Some u \<Rightarrow> [(''userId'', JStr (u_id u)), (''locale'', JStr (u_locale u))]))"

definition createInvitation ::
    "app \<Rightarrow> effects \<Rightarrow> ident \<Rightarrow> string \<Rightarrow> ident \<Rightarrow> ident \<Rightarrow> RequestMetadata \<Rightarrow> (store, CreatedInvitation) io" where
  "createInvitation A ef organizationId emailInput roleId actorUserId metadata =
     (let token = randomToken (ef_random ef 0); email = toLowerCase (trim emailInput) in
      andNext (auditedTransaction A (\<lambda>audit.
        andThen (assertAssignableRole roleId organizationId) (\<lambda>_.
        andThen (getOrganizationInTransaction organizationId) (\<lambda>organization.
        andThen (findFirst users (\<lambda>u. u_email u = Some email \<and> u_deletedAt u = None)) (\<lambda>invitedUser.
        andThen (attempt (hashOpaqueToken (cenv A) (prims A) token)) (\<lambda>tokenHash.
        andThen (createRow invitations invitations_update (\<lambda>a b. inv_tokenHash a = inv_tokenHash b)
                   \<lparr>inv_id = ef_id ef 0, inv_organizationId = organizationId, inv_email = email, inv_roleId = roleId,
                    inv_tokenHash = tokenHash, inv_expiresAt = ef_now ef 0 + INVITATION_TTL_MS, inv_acceptedAt = None,
                    inv_revokedAt = None, inv_invitedByUserId = Some actorUserId, inv_createdAt = ef_now ef 0,
                    inv_deletedAt = None\<rparr>) (\<lambda>created.
        andThen (attempt (encryptSecret (cenv A) (prims A) (ef_random ef 1) token)) (\<lambda>encryptedToken.
        andThen (outboxInsert (ef_id ef 1) (ef_now ef 1)
                   \<lparr>oi_aggregateType = ''invitation'', oi_aggregateId = inv_id created,
                    oi_eventType = ''organization.invitation'', oi_channel = EMAIL,
                    oi_payload = invitationPayload email (inv_id created) encryptedToken organizationId
                      (org_name organization) invitedUser,
                    oi_dedupeKey = ''organization-invitation:'' @ inv_id created, oi_availableAt = None,
                    oi_expiresAt = Some (inv_expiresAt created)\<rparr>) (\<lambda>_.
        andThen (audit (ef_id ef 2) (ef_now ef 2)
                   (audit_of metadata (Some actorUserId) ''organization.invitation.created'' ''invitation''
                      (Some (inv_id created))
                      (Some (JObj [(''organizationId'', JStr organizationId), (''email'', JStr email)])))) (\<lambda>_.
        ret created))))))))))
      (\<lambda>invitation. answer \<lparr>ci_invitation = invitation, ci_token = token\<rparr>))"

definition openInvitation :: "string list \<Rightarrow> time \<Rightarrow> store \<Rightarrow> Invitation \<Rightarrow> bool" where
  "openInvitation tokenHashes now s i \<longleftrightarrow>
     List.member tokenHashes (inv_tokenHash i) \<and> inv_acceptedAt i = None \<and> inv_revokedAt i = None \<and>
     inv_deletedAt i = None \<and> inv_expiresAt i > now \<and>
     (case organizationOf s (inv_organizationId i) of None \<Rightarrow> False
      | Some g \<Rightarrow> org_status g = O_ACTIVE \<and> org_deletedAt g = None)"

definition invitedUser :: "Invitation \<Rightarrow> User option \<Rightarrow> bool" where
  "invitedUser invitation user \<longleftrightarrow>
     (case user of None \<Rightarrow> False
      | Some u \<Rightarrow> truthy (u_email u) \<and> u_emailVerifiedAt u \<noteq> None \<and>
          toLowerCase (the (u_email u)) = toLowerCase (inv_email invitation))"

definition acceptInvitation ::
    "app \<Rightarrow> effects \<Rightarrow> string \<Rightarrow> ident \<Rightarrow> RequestMetadata \<Rightarrow> (store, Organization) io" where
  "acceptInvitation A ef rawToken userId metadata =
     auditedTransaction A (\<lambda>audit.
       andThen (attempt (candidateOpaqueTokenHashes (cenv A) (prims A) rawToken)) (\<lambda>tokenHashes.
       andThen (reading (\<lambda>s. find_first (openInvitation tokenHashes (ef_now ef 0) s) (invitations s))) (\<lambda>found.
       case found of
         None \<Rightarrow> throw (App (notFound (Some ''Invitation is invalid or has expired'')))
       | Some invitation \<Rightarrow>
       andThen (findFirst users (\<lambda>u. u_id u = userId \<and> u_deletedAt u = None)) (\<lambda>user.
       andThen (require (invitedUser invitation user)
                  (App (forbidden (Some ''This invitation was issued to a different verified email address'')))) (\<lambda>_.
       andThen (upsertRow memberships memberships_update (membershipKey (inv_organizationId invitation) userId)
                  (activeMembership (ef_id ef 0) (ef_now ef 1) (inv_organizationId invitation) userId (inv_roleId invitation))
                  (\<lambda>m. m\<lparr>mem_roleId := inv_roleId invitation, mem_status := M_ACTIVE, mem_deletedAt := None,
                         mem_joinedAt := Some (ef_now ef 1)\<rparr>)) (\<lambda>_.
       andThen (updateRow invitations invitations_update (\<lambda>i. inv_id i = inv_id invitation \<and> inv_deletedAt i = None)
                  (\<lambda>i. i\<lparr>inv_acceptedAt := Some (ef_now ef 2)\<rparr>)) (\<lambda>_.
       andThen (bumpEpoch userId) (\<lambda>_.
       andThen (audit (ef_id ef 1) (ef_now ef 3)
                  (audit_of metadata (Some userId) ''organization.invitation.accepted'' ''invitation'' (Some (inv_id invitation))
                     (Some (JObj [(''organizationId'', JStr (inv_organizationId invitation))])))) (\<lambda>_.
       getOrganizationInTransaction (inv_organizationId invitation))))))))))"

definition revokeInvitation ::
    "app \<Rightarrow> effects \<Rightarrow> ident \<Rightarrow> ident \<Rightarrow> ident \<Rightarrow> RequestMetadata \<Rightarrow> (store, unit) io" where
  "revokeInvitation A ef organizationId invitationId actorUserId metadata =
     auditedTransaction A (\<lambda>audit.
       andThen (updateMany invitations invitations_update
                  (\<lambda>i. inv_id i = invitationId \<and> inv_organizationId i = organizationId \<and> inv_acceptedAt i = None \<and>
                       inv_revokedAt i = None \<and> inv_deletedAt i = None)
                  (\<lambda>i. i\<lparr>inv_revokedAt := Some (ef_now ef 0)\<rparr>)) (\<lambda>revoked.
       andThen (require (revoked \<noteq> 0) (App (notFound (Some ''Invitation not found'')))) (\<lambda>_.
       audit (ef_id ef 0) (ef_now ef 1)
         (audit_of metadata (Some actorUserId) ''organization.invitation.revoked'' ''invitation'' (Some invitationId)
            (Some (JObj [(''organizationId'', JStr organizationId)]))))))"

section \<open>Lemmas\<close>

text \<open>What the data model promises of the rows: identifiers are unique.\<close>

definition org_keys :: "store \<Rightarrow> bool" where
  "org_keys s \<longleftrightarrow> distinct (map mem_id (memberships s)) \<and> distinct (map role_id (roles s)) \<and>
     distinct (map inv_id (invitations s))"

lemma matching_two:
  assumes "distinct (map k rs)" "2 \<le> matching P rs"
  shows "\<exists>r\<in>set rs. P r \<and> k r \<noteq> i"
proof (rule ccontr)
  assume "\<not> ?thesis"
  then have "filter P rs = filter (\<lambda>r. k r = i \<and> P r) rs" by (auto intro: filter_cong)
  then show False using matching_key_le1 [OF assms(1), of i P] assms(2) by (simp add: matching_def)
qed

lemma owners_pos: "0 < countActiveOwners g s \<longleftrightarrow> (\<exists>m\<in>set (memberships s). activeOwner g s m)"
  by (simp add: countActiveOwners_def matching_pos)

lemma activeOwner_roles: "roles s' = roles s \<Longrightarrow> activeOwner g s' m = activeOwner g s m"
  by (simp add: activeOwner_def roleOf_def cong: option.case_cong)

text \<open>
  A change of the one membership \<open>t\<close> keeps every organization owned when it keeps \<open>t\<close> an owner, or
  \<open>t\<close> was not one, or its organization has another owner.
\<close>

lemma one_membership_changed:
  assumes keys: "distinct (map mem_id (memberships s))"
    and t: "t \<in> set (memberships s)"
    and roles: "roles s' = roles s"
    and mems: "memberships s' = update_many (\<lambda>m. mem_id m = mem_id t \<and> mem_deletedAt m = None) f (memberships s)"
    and ok: "activeOwner g s t \<Longrightarrow> activeOwner g s (f t) \<or> 1 < countActiveOwners g s"
    and owned: "0 < countActiveOwners g s"
  shows "0 < countActiveOwners g s'"
proof -
  have other: "0 < countActiveOwners g s'" if "m \<in> set (memberships s)" "activeOwner g s m" "mem_id m \<noteq> mem_id t" for m
    using that by (auto simp: owners_pos mems set_update_many activeOwner_roles [OF roles] intro!: bexI [of _ m])
  obtain m where m: "m \<in> set (memberships s)" "activeOwner g s m" using owned by (auto simp: owners_pos)
  show ?thesis
  proof (cases "mem_id m = mem_id t")
    case False
    with m show ?thesis by (rule other)
  next
    case True
    with keys m t have [simp]: "m = t" by (auto dest: distinct_map_eq)
    from ok m consider "activeOwner g s (f t)" | "1 < countActiveOwners g s" by auto
    then show ?thesis
    proof cases
      case 1
      have "mem_deletedAt t = None" using m by (simp add: activeOwner_def)
      then have "f t \<in> set (memberships s')" using t by (auto simp: mems set_update_many intro!: image_eqI [of _ _ t])
      with 1 show ?thesis by (auto simp: owners_pos activeOwner_roles [OF roles])
    next
      case 2
      then have "2 \<le> matching (activeOwner g s) (memberships s)" by (simp add: countActiveOwners_def)
      then obtain m' where "m' \<in> set (memberships s)" "activeOwner g s m'" "mem_id m' \<noteq> mem_id t"
        using matching_two [OF keys] by blast
      then show ?thesis by (rule other)
    qed
  qed
qed

lemma isActiveOwnerRow: "activeOwner g s t \<Longrightarrow> isActiveOwnerRow s t"
  by (auto simp: activeOwner_def isActiveOwnerRow_def split: option.splits)

lemma assertAssignableRole_Inr [tx_simps]:
  "assertAssignableRole roleId g s = Inr r \<longleftrightarrow>
     (\<exists>x. find_first (\<lambda>r. role_id r = roleId \<and> role_deletedAt r = None \<and>
             (role_organizationId r = None \<or> role_organizationId r = Some g)) (roles s) = Some x \<and> r = (x, s))"
  by (auto simp: assertAssignableRole_def tx_simps split: option.splits)

lemma find_unique:
  assumes "distinct (map k rs)" "x \<in> set rs"
  shows "find_first (\<lambda>r. k r = k x) rs = Some x"
proof -
  obtain y where "find_first (\<lambda>r. k r = k x) rs = Some y"
    using find_first_ex [of rs "\<lambda>r. k r = k x"] assms(2) by blast
  with find_first_SomeD [OF this] assms show ?thesis by (auto dest: distinct_map_eq)
qed

lemma changeMemberRole_Inr:
  assumes "changeMemberRole A ef org u r actor md s = (Inr a, s')"
  shows "\<exists>x t. find_first (\<lambda>x. role_id x = r \<and> role_deletedAt x = None \<and>
             (role_organizationId x = None \<or> role_organizationId x = Some org)) (roles s) = Some x \<and>
     find_first (\<lambda>m. membershipKey org u m \<and> mem_deletedAt m = None) (memberships s) = Some t \<and>
     \<not> (isActiveOwnerRow s t \<and> role_name x \<noteq> ''owner'' \<and> countActiveOwners org s \<le> 1) \<and>
     memberships s' = update_many (\<lambda>m. mem_id m = mem_id t \<and> mem_deletedAt m = None)
                        (\<lambda>m. m\<lparr>mem_roleId := r\<rparr>) (memberships s) \<and>
     roles s' = roles s"
  using assms by (auto simp: changeMemberRole_def tx_simps split: option.splits)

lemma changeMemberRole_Inl: "changeMemberRole A ef org u r actor md s = (Inl e, s') \<Longrightarrow> s' = s"
  by (simp add: changeMemberRole_def tx_simps)

lemma removeMember_Inr:
  assumes "removeMember A ef org u actor md s = (Inr a, s')"
  shows "\<exists>t. find_first (\<lambda>m. membershipKey org u m \<and> mem_deletedAt m = None) (memberships s) = Some t \<and>
     \<not> (isActiveOwnerRow s t \<and> countActiveOwners org s \<le> 1) \<and>
     memberships s' = update_many (\<lambda>m. mem_id m = mem_id t \<and> mem_deletedAt m = None)
        (\<lambda>m. m\<lparr>mem_deletedAt := Some (ef_now ef 0), mem_status := M_SUSPENDED\<rparr>) (memberships s) \<and>
     roles s' = roles s"
  using assms by (auto simp: removeMember_def tx_simps split: option.splits)

lemma removeMember_Inl: "removeMember A ef org u actor md s = (Inl e, s') \<Longrightarrow> s' = s"
  by (simp add: removeMember_def tx_simps)

lemma changeMemberRole_owner:
  assumes keys: "org_keys s" and owned: "0 < countActiveOwners g s"
  shows "0 < countActiveOwners g (snd (changeMemberRole A ef org u r actor md s))"
proof (rule io_state)
  fix a s'
  assume "changeMemberRole A ef org u r actor md s = (Inr a, s')"
  from changeMemberRole_Inr [OF this] obtain x t where
    x: "find_first (\<lambda>x. role_id x = r \<and> role_deletedAt x = None \<and>
             (role_organizationId x = None \<or> role_organizationId x = Some org)) (roles s) = Some x"
    and t: "find_first (\<lambda>m. membershipKey org u m \<and> mem_deletedAt m = None) (memberships s) = Some t"
    and guard: "\<not> (isActiveOwnerRow s t \<and> role_name x \<noteq> ''owner'' \<and> countActiveOwners org s \<le> 1)"
    and s': "memberships s' = update_many (\<lambda>m. mem_id m = mem_id t \<and> mem_deletedAt m = None)
      (\<lambda>m. m\<lparr>mem_roleId := r\<rparr>) (memberships s)" "roles s' = roles s"
    by blast
  note x' = find_first_SomeD [OF x] and t' = find_first_SomeD [OF t]
  show "0 < countActiveOwners g s'"
  proof (rule one_membership_changed [OF _ _ s'(2,1) _ owned])
    show "distinct (map mem_id (memberships s))" using keys by (simp add: org_keys_def)
    show "t \<in> set (memberships s)" using t' by simp
    assume own: "activeOwner g s t"
    then have [simp]: "g = org" using t' by (simp add: activeOwner_def membershipKey_def)
    have "find_first (\<lambda>y. role_id y = r) (roles s) = Some x"
      using find_unique [of role_id "roles s" x] keys x' by (simp add: org_keys_def)
    then have "activeOwner g s (t\<lparr>mem_roleId := r\<rparr>)" if "role_name x = ''owner''"
      using own x' that by (simp add: activeOwner_def roleOf_def)
    then show "activeOwner g s (t\<lparr>mem_roleId := r\<rparr>) \<or> 1 < countActiveOwners g s"
      using guard isActiveOwnerRow [OF own] by auto
  qed
qed (drule changeMemberRole_Inl, simp add: owned)

lemma removeMember_owner:
  assumes keys: "org_keys s" and owned: "0 < countActiveOwners g s"
  shows "0 < countActiveOwners g (snd (removeMember A ef org u actor md s))"
proof (rule io_state)
  fix a s'
  assume "removeMember A ef org u actor md s = (Inr a, s')"
  from removeMember_Inr [OF this] obtain t where
    t: "find_first (\<lambda>m. membershipKey org u m \<and> mem_deletedAt m = None) (memberships s) = Some t"
    and guard: "\<not> (isActiveOwnerRow s t \<and> countActiveOwners org s \<le> 1)"
    and s': "memberships s' = update_many (\<lambda>m. mem_id m = mem_id t \<and> mem_deletedAt m = None)
      (\<lambda>m. m\<lparr>mem_deletedAt := Some (ef_now ef 0), mem_status := M_SUSPENDED\<rparr>) (memberships s)" "roles s' = roles s"
    by blast
  note t' = find_first_SomeD [OF t]
  show "0 < countActiveOwners g s'"
  proof (rule one_membership_changed [OF _ _ s'(2,1) _ owned])
    show "distinct (map mem_id (memberships s))" using keys by (simp add: org_keys_def)
    show "t \<in> set (memberships s)" using t' by simp
    assume own: "activeOwner g s t"
    then have "g = org" using t' by (simp add: activeOwner_def membershipKey_def)
    then show "activeOwner g s (t\<lparr>mem_deletedAt := Some (ef_now ef 0), mem_status := M_SUSPENDED\<rparr>) \<or>
        1 < countActiveOwners g s"
      using guard isActiveOwnerRow [OF own] by auto
  qed
qed (drule removeMember_Inl, simp add: owned)

lemma acceptInvitation_Inr:
  assumes "acceptInvitation A ef raw u md s = (Inr g, s')"
  shows "\<exists>hs i. candidateOpaqueTokenHashes (cenv A) (prims A) raw = Inr hs \<and>
     find_first (openInvitation hs (ef_now ef 0) s) (invitations s) = Some i \<and>
     invitedUser i (find_first (\<lambda>x. u_id x = u \<and> u_deletedAt x = None) (users s)) \<and>
     memberships s' = upserted (membershipKey (inv_organizationId i) u)
       (activeMembership (ef_id ef 0) (ef_now ef 1) (inv_organizationId i) u (inv_roleId i))
       (\<lambda>m. m\<lparr>mem_roleId := inv_roleId i, mem_status := M_ACTIVE, mem_deletedAt := None,
              mem_joinedAt := Some (ef_now ef 1)\<rparr>) (memberships s) \<and>
     invitations s' = update_many (\<lambda>j. inv_id j = inv_id i \<and> inv_deletedAt j = None)
       (\<lambda>j. j\<lparr>inv_acceptedAt := Some (ef_now ef 2)\<rparr>) (invitations s) \<and>
     organizations s' = organizations s \<and>
     find_first (\<lambda>x. org_id x = inv_organizationId i \<and> org_deletedAt x = None) (organizations s) = Some g"
  using assms
  by (auto simp: acceptInvitation_def getOrganizationInTransaction_def tx_simps split: option.split_asm)

lemma accepted_not_open:
  assumes i: "find_first (openInvitation hs now s) (invitations s) = Some i"
    and s': "invitations s' = update_many (\<lambda>j. inv_id j = inv_id i \<and> inv_deletedAt j = None)
       (\<lambda>j. j\<lparr>inv_acceptedAt := Some t\<rparr>) (invitations s)"
    and only: "\<forall>j\<in>set (invitations s). inv_tokenHash j \<in> set hs \<longrightarrow> j = i"
  shows "find_first (openInvitation hs now' s') (invitations s') = None"
proof -
  have "inv_deletedAt i = None" using find_first_SomeD [OF i] by (simp add: openInvitation_def)
  with only show ?thesis
    by (auto simp: find_first_None s' set_update_many openInvitation_def split: if_splits)
qed

lemma acceptInvitation_closed:
  "candidateOpaqueTokenHashes (cenv A) (prims A) raw = Inr hs \<Longrightarrow>
   find_first (openInvitation hs (ef_now ef 0) s) (invitations s) = None \<Longrightarrow>
   acceptInvitation A ef raw u md s = (Inl (App (notFound (Some ''Invitation is invalid or has expired''))), s)"
  by (simp add: acceptInvitation_def tx_simps) (simp add: andThen_def attempt_def reading_def throw_def)

section \<open>A small tenant\<close>

definition demo_role :: "ident \<Rightarrow> string \<Rightarrow> Role" where
  "demo_role i name = \<lparr>role_id = i, role_organizationId = None, role_name = name, role_description = None,
     role_isSystem = True, role_createdAt = 0, role_deletedAt = None\<rparr>"

definition demo_invitation :: Invitation where
  "demo_invitation = \<lparr>inv_id = ''i1'', inv_organizationId = ''o1'', inv_email = ''ann@x'', inv_roleId = ''r2'',
     inv_tokenHash = ''v1.legacy.aHMwb3BhcXVlLXRva2VudA'', inv_expiresAt = 999999, inv_acceptedAt = None,
     inv_revokedAt = None, inv_invitedByUserId = None, inv_createdAt = 0, inv_deletedAt = None\<rparr>"

definition demo_tenant :: store where
  "demo_tenant = demo_store\<lparr>users := [demo_user ''ann'', demo_user ''bob''],
     organizations := [newOrganization ''o1'' 0 ''acme'' ''Acme''],
     roles := [demo_role ''r1'' ''owner'', demo_role ''r2'' ''member''],
     memberships := [activeMembership ''m1'' 0 ''o1'' ''ann'' ''r1''],
     invitations := [demo_invitation]\<rparr>"

text \<open>
  The sole owner of an organization who accepts an invitation with another role loses the ownership:
  acceptance takes no lock and counts no owners, so the organization is left without one.
\<close>

lemma demo_invitation_hashes:
  "candidateOpaqueTokenHashes (cenv demo_app) (prims demo_app) ''t'' =
     Inr [''v1.legacy.aHMwb3BhcXVlLXRva2VudA'', ''aHMwdA'']"
  by code_simp

lemmas demo_tenant_simps = demo_tenant_def demo_store_def demo_user_def newOrganization_def demo_role_def
  activeMembership_def demo_invitation_def demo_effects_def

lemma demo_accepts:
  "\<exists>g s'. acceptInvitation demo_app demo_effects ''t'' ''ann'' demo_meta demo_tenant = (Inr g, s') \<and>
     memberships s' = [(activeMembership ''m1'' 0 ''o1'' ''ann'' ''r2'')\<lparr>mem_joinedAt := Some 5001\<rparr>] \<and>
     roles s' = roles demo_tenant"
  by (simp add: acceptInvitation_def auditedTransaction_def demo_invitation_hashes tx_run demo_tenant_simps openInvitation_def
      organizationOf_def invitedUser_def membershipKey_def bumpEpoch_def getOrganizationInTransaction_def)

lemma acceptInvitation_demotes_last_owner:
  "countActiveOwners ''o1'' demo_tenant = 1 \<and>
   (\<exists>g s'. acceptInvitation demo_app demo_effects ''t'' ''ann'' demo_meta demo_tenant = (Inr g, s') \<and>
           countActiveOwners ''o1'' s' = 0)"
proof -
  obtain g s' where run: "acceptInvitation demo_app demo_effects ''t'' ''ann'' demo_meta demo_tenant = (Inr g, s')"
    and s': "memberships s' = [(activeMembership ''m1'' 0 ''o1'' ''ann'' ''r2'')\<lparr>mem_joinedAt := Some 5001\<rparr>]"
      "roles s' = roles demo_tenant"
    using demo_accepts by blast
  have "countActiveOwners ''o1'' s' = 0"
    by (simp add: countActiveOwners_def s' activeOwner_def roleOf_def tx_run demo_tenant_simps)
  moreover have "countActiveOwners ''o1'' demo_tenant = 1" by code_simp
  ultimately show ?thesis using run by blast
qed

lemma demo_tenant_ok: "org_keys demo_tenant" "0 < countActiveOwners ''o1'' demo_tenant"
  by code_simp+

section \<open>Properties\<close>

text \<open>
  C4: an organization that has an active owner still has one after any member's role is changed and
  after any member is removed, whatever the outcome of the request.
\<close>
theorem organization_keeps_owner:
  assumes "org_keys s" and "0 < countActiveOwners g s"
  shows "0 < countActiveOwners g (snd (changeMemberRole A ef org u r actor md s)) \<and>
         0 < countActiveOwners g (snd (removeMember A ef org u actor md s))"
  using changeMemberRole_owner [OF assms] removeMember_owner [OF assms] by blast

theorem organization_keeps_owner_witness:
  "0 < countActiveOwners ''o1'' (snd (changeMemberRole demo_app demo_effects ''o1'' ''ann'' ''r2'' ''bob'' demo_meta demo_tenant)) \<and>
   0 < countActiveOwners ''o1'' (snd (removeMember demo_app demo_effects ''o1'' ''ann'' ''bob'' demo_meta demo_tenant))"
  by (rule organization_keeps_owner [OF demo_tenant_ok])



end
