(* ===== verification/Auth_Sessions.thy ===== *)
theory Auth_Sessions
  imports Organizations
begin

text \<open>
  Sessions and refresh tokens: \<open>src/src/modules/auth/auth.sessions.service.ts\<close> and
  \<open>auth.shared.ts\<close>. A refresh token can be exchanged once; presenting it a second time is taken as
  theft and revokes the session with all its tokens. The rotation runs in one serializable
  transaction, so it is one step on the database.
\<close>

section \<open>Operations\<close>

record TokenPair =
  tp_accessToken :: string
  tp_refreshToken :: string

definition newSession ::
    "ident \<Rightarrow> time \<Rightarrow> ident \<Rightarrow> ident option \<Rightarrow> string \<Rightarrow> string option \<Rightarrow> time \<Rightarrow> Session" where
  "newSession sid now userId organizationId ipHash userAgent expiresAt =
     \<lparr>ses_id = sid, ses_userId = userId, ses_activeOrganizationId = organizationId, ses_ipHash = Some ipHash,
      ses_userAgent = map_option (take 500) userAgent, ses_expiresAt = expiresAt, ses_revokedAt = None,
      ses_revokeReason = None, ses_lastSeenAt = now, ses_createdAt = now, ses_deletedAt = None\<rparr>"

definition newRefreshToken :: "ident \<Rightarrow> time \<Rightarrow> ident \<Rightarrow> ident \<Rightarrow> string \<Rightarrow> time \<Rightarrow> RefreshToken" where
  "newRefreshToken tid now userId sessionId tokenHash expiresAt =
     \<lparr>rt_id = tid, rt_userId = userId, rt_sessionId = sessionId, rt_tokenHash = tokenHash,
      rt_replacedByTokenId = None, rt_expiresAt = expiresAt, rt_consumedAt = None, rt_revokedAt = None,
      rt_createdAt = now, rt_deletedAt = None\<rparr>"

definition sameTokenHash :: "RefreshToken \<Rightarrow> RefreshToken \<Rightarrow> bool" where
  "sameTokenHash a b \<longleftrightarrow> rt_tokenHash a = rt_tokenHash b"

definition DAY_MS :: int where
  "DAY_MS = 24 * 60 * 60 * 1000"

definition createSession ::
    "app \<Rightarrow> effects \<Rightarrow> ident \<Rightarrow> RequestMetadata \<Rightarrow> (store, TokenPair) io" where
  "createSession A ef userId metadata =
     (let refreshToken = randomToken (ef_random ef 0);
          expiresAt = expiresIn (ef_now ef 0) (ap_refreshTokenTtlDays A) DAY_MS
      in andNext (auditedTransaction A (\<lambda>audit.
        andThen (resolveInitialOrganizationId A (ef_id ef 0) (ef_id ef 1) (ef_now ef 1) userId) (\<lambda>organizationId.
        andThen (attempt (hashMetadata (cenv A) (prims A) (rm_ip metadata))) (\<lambda>ipHash.
        andThen (createRow sessions sessions_update (\<lambda>a b. ses_id a = ses_id b)
                   (newSession (ef_id ef 2) (ef_now ef 2) userId organizationId ipHash (rm_userAgent metadata) expiresAt)) (\<lambda>created.
        andThen (attempt (hashOpaqueToken (cenv A) (prims A) refreshToken)) (\<lambda>tokenHash.
        andThen (createRow refreshTokens refreshTokens_update sameTokenHash
                   (newRefreshToken (ef_id ef 3) (ef_now ef 3) userId (ses_id created) tokenHash expiresAt)) (\<lambda>_.
        andThen (updateRow users users_update (\<lambda>u. u_id u = userId \<and> u_deletedAt u = None)
                   (\<lambda>u. u\<lparr>u_lastLoginAt := Some (ef_now ef 4)\<rparr>)) (\<lambda>_.
        andThen (audit (ef_id ef 4) (ef_now ef 5)
                   (audit_of metadata (Some userId) ''auth.session.created'' ''session'' (Some (ses_id created)) None)) (\<lambda>_.
        ret created)))))))))
      (\<lambda>session. answer \<lparr>tp_accessToken = ap_signAccessToken A userId (ses_id session), tp_refreshToken = refreshToken\<rparr>))"

definition sessionOf :: "store \<Rightarrow> ident \<Rightarrow> Session option" where
  "sessionOf s sid = find_first (\<lambda>x. ses_id x = sid) (sessions s)"

definition userOf :: "store \<Rightarrow> ident \<Rightarrow> User option" where
  "userOf s uid = find_first (\<lambda>u. u_id u = uid) (users s)"

definition unusable :: "time \<Rightarrow> RefreshToken \<Rightarrow> Session \<Rightarrow> User \<Rightarrow> bool" where
  "unusable now current session user \<longleftrightarrow>
     rt_consumedAt current \<noteq> None \<or> truthy (rt_replacedByTokenId current) \<or> rt_revokedAt current \<noteq> None \<or>
     rt_expiresAt current \<le> now \<or> ses_revokedAt session \<noteq> None \<or> ses_expiresAt session \<le> now \<or>
     u_status user \<noteq> U_ACTIVE \<or> u_deletedAt user \<noteq> None"

definition revokeSessions :: "(Session \<Rightarrow> bool) \<Rightarrow> time \<Rightarrow> string \<Rightarrow> (store, nat) tx" where
  "revokeSessions which now reason =
     updateMany sessions sessions_update (\<lambda>x. which x \<and> ses_revokedAt x = None \<and> ses_deletedAt x = None)
       (\<lambda>x. x\<lparr>ses_revokedAt := Some now, ses_revokeReason := Some reason\<rparr>)"

definition revokeTokens :: "(RefreshToken \<Rightarrow> bool) \<Rightarrow> time \<Rightarrow> (store, nat) tx" where
  "revokeTokens which now =
     updateMany refreshTokens refreshTokens_update (\<lambda>t. which t \<and> rt_revokedAt t = None \<and> rt_deletedAt t = None)
       (\<lambda>t. t\<lparr>rt_revokedAt := Some now\<rparr>)"

definition tokenOpen :: "RefreshToken \<Rightarrow> bool" where
  "tokenOpen t \<longleftrightarrow> rt_consumedAt t = None \<and> rt_revokedAt t = None \<and> rt_replacedByTokenId t = None \<and> rt_deletedAt t = None"

definition consumeToken :: "time \<Rightarrow> ident \<Rightarrow> RefreshToken \<Rightarrow> RefreshToken" where
  "consumeToken now nextId t = t\<lparr>rt_consumedAt := Some now, rt_replacedByTokenId := Some nextId\<rparr>"

datatype RotationStatus = INVALID | REUSE ident | ROTATED ident ident

definition rotation ::
    "app \<Rightarrow> effects \<Rightarrow> time \<Rightarrow> string list \<Rightarrow> string \<Rightarrow> RequestMetadata \<Rightarrow> AuditWriter \<Rightarrow> (store, RotationStatus) tx" where
  "rotation A ef now tokenHashes nextHash metadata audit =
     andThen (reading (\<lambda>s. case find_first (\<lambda>t. rt_tokenHash t \<in> set tokenHashes \<and> rt_deletedAt t = None) (refreshTokens s) of
                None \<Rightarrow> None
              | Some t \<Rightarrow> Some (t, sessionOf s (rt_sessionId t), userOf s (rt_userId t)))) (\<lambda>current.
     case current of
       None \<Rightarrow> ret INVALID
     | Some (t, Some session, Some user) \<Rightarrow>
         if \<not> list_ex (\<lambda>candidate. constantTimeEqual (rt_tokenHash t) candidate) tokenHashes then ret INVALID
         else if unusable now t session user then
           andThen (revokeSessions (\<lambda>x. ses_id x = rt_sessionId t) now ''refresh_token_reuse'') (\<lambda>_.
           andThen (revokeTokens (\<lambda>x. rt_sessionId x = rt_sessionId t) now) (\<lambda>_.
           andThen (audit (ef_id ef 0) (ef_now ef 1)
                      (audit_of metadata (Some (rt_userId t)) ''auth.refresh.reuse_detected'' ''session''
                         (Some (rt_sessionId t)) None)) (\<lambda>_.
           ret (REUSE (rt_userId t)))))
         else
           andThen (createRow refreshTokens refreshTokens_update sameTokenHash
                      (newRefreshToken (ef_id ef 0) (ef_now ef 1) (rt_userId t) (rt_sessionId t) nextHash
                         (ses_expiresAt session))) (\<lambda>nextToken.
           andThen (updateMany refreshTokens refreshTokens_update (\<lambda>x. rt_id x = rt_id t \<and> tokenOpen x)
                      (consumeToken now (rt_id nextToken))) (\<lambda>consumed.
           if consumed \<noteq> 1 then
             andThen (updateRow sessions sessions_update (\<lambda>x. ses_id x = rt_sessionId t \<and> ses_deletedAt x = None)
                        (\<lambda>x. x\<lparr>ses_revokedAt := Some now, ses_revokeReason := Some ''refresh_token_race''\<rparr>)) (\<lambda>_.
             andThen (revokeTokens (\<lambda>x. rt_sessionId x = rt_sessionId t) now) (\<lambda>_.
             ret (REUSE (rt_userId t))))
           else
             andThen (updateRow sessions sessions_update (\<lambda>x. ses_id x = rt_sessionId t \<and> ses_deletedAt x = None)
                        (\<lambda>x. x\<lparr>ses_lastSeenAt := now\<rparr>)) (\<lambda>_.
             ret (ROTATED (rt_userId t) (rt_sessionId t)))))
     | Some _ \<Rightarrow> throw (OtherError ''Cannot read properties of null''))"

definition rotateRefreshToken ::
    "app \<Rightarrow> effects \<Rightarrow> string \<Rightarrow> RequestMetadata \<Rightarrow> (store, TokenPair option) io" where
  "rotateRefreshToken A ef rawToken metadata =
     (let nextRawToken = randomToken (ef_random ef 0) in
      case candidateOpaqueTokenHashes (cenv A) (prims A) rawToken of
        Inl e \<Rightarrow> (\<lambda>s. (Inl e, s))
      | Inr tokenHashes \<Rightarrow>
      case hashOpaqueToken (cenv A) (prims A) nextRawToken of
        Inl e \<Rightarrow> (\<lambda>s. (Inl e, s))
      | Inr nextHash \<Rightarrow>
      andNext (auditedTransaction A (rotation A ef (ef_now ef 0) tokenHashes nextHash metadata)) (\<lambda>result.
      case result of
        INVALID \<Rightarrow> answer None
      | REUSE userId \<Rightarrow> andNext (publishChatRevocation A userId) (\<lambda>_. answer None)
      | ROTATED userId sessionId \<Rightarrow>
          answer (Some \<lparr>tp_accessToken = ap_signAccessToken A userId sessionId, tp_refreshToken = nextRawToken\<rparr>)))"

definition revokeSession ::
    "app \<Rightarrow> effects \<Rightarrow> ident \<Rightarrow> ident \<Rightarrow> RequestMetadata \<Rightarrow> (store, unit) io" where
  "revokeSession A ef sessionId userId metadata =
     andNext (auditedTransaction A (\<lambda>audit.
       andThen (revokeSessions (\<lambda>x. ses_id x = sessionId \<and> ses_userId x = userId) (ef_now ef 0) ''user_logout'') (\<lambda>_.
       andThen (revokeTokens (\<lambda>t. rt_sessionId t = sessionId \<and> rt_userId t = userId) (ef_now ef 1)) (\<lambda>_.
       audit (ef_id ef 0) (ef_now ef 2)
         (audit_of metadata (Some userId) ''auth.session.revoked'' ''session'' (Some sessionId) None)))))
     (\<lambda>_. publishChatRevocation A userId)"

definition revokeAllSessions :: "app \<Rightarrow> effects \<Rightarrow> ident \<Rightarrow> RequestMetadata \<Rightarrow> (store, unit) io" where
  "revokeAllSessions A ef userId metadata =
     andNext (auditedTransaction A (\<lambda>audit.
       andThen (revokeSessions (\<lambda>x. ses_userId x = userId) (ef_now ef 0) ''user_logout_all'') (\<lambda>_.
       andThen (revokeTokens (\<lambda>t. rt_userId t = userId) (ef_now ef 1)) (\<lambda>_.
       audit (ef_id ef 0) (ef_now ef 2)
         (audit_of metadata (Some userId) ''auth.sessions.revoked_all'' ''user'' (Some userId) None)))))
     (\<lambda>_. publishChatRevocation A userId)"

section \<open>Lemmas\<close>

text \<open>The guarded update that consumes a refresh token is a single use of it.\<close>

interpretation refresh_use: single_use rt_id tokenOpen "consumeToken now nextId" for now nextId
  by unfold_locales (simp_all add: consumeToken_def tokenOpen_def)

definition revoked_sessions :: "(Session \<Rightarrow> bool) \<Rightarrow> store \<Rightarrow> bool" where
  "revoked_sessions which s \<longleftrightarrow>
     (\<forall>x\<in>set (sessions s). which x \<and> ses_deletedAt x = None \<longrightarrow> ses_revokedAt x \<noteq> None)"

definition revoked_tokens :: "(RefreshToken \<Rightarrow> bool) \<Rightarrow> store \<Rightarrow> bool" where
  "revoked_tokens which s \<longleftrightarrow>
     (\<forall>t\<in>set (refreshTokens s). which t \<and> rt_deletedAt t = None \<longrightarrow> rt_revokedAt t \<noteq> None)"

lemma revokeSessions_Inr [tx_simps]:
  "revokeSessions which now reason s = Inr r \<longleftrightarrow>
     r = (matching (\<lambda>x. which x \<and> ses_revokedAt x = None \<and> ses_deletedAt x = None) (sessions s),
          sessions_update (update_many (\<lambda>x. which x \<and> ses_revokedAt x = None \<and> ses_deletedAt x = None)
            (\<lambda>x. x\<lparr>ses_revokedAt := Some now, ses_revokeReason := Some reason\<rparr>)) s)"
  by (simp add: revokeSessions_def updateMany_Inr)

lemma revokeTokens_Inr [tx_simps]:
  "revokeTokens which now s = Inr r \<longleftrightarrow>
     r = (matching (\<lambda>t. which t \<and> rt_revokedAt t = None \<and> rt_deletedAt t = None) (refreshTokens s),
          refreshTokens_update (update_many (\<lambda>t. which t \<and> rt_revokedAt t = None \<and> rt_deletedAt t = None)
            (\<lambda>t. t\<lparr>rt_revokedAt := Some now\<rparr>)) s)"
  by (simp add: revokeTokens_def updateMany_Inr)

lemma revoked_after_sessions:
  "sessions s' = update_many (\<lambda>x. which x \<and> ses_revokedAt x = None \<and> ses_deletedAt x = None)
     (\<lambda>x. x\<lparr>ses_revokedAt := Some now, ses_revokeReason := Some reason\<rparr>) (sessions s) \<Longrightarrow> revoked_sessions which s'"
  by (auto simp: revoked_sessions_def set_update_many split: if_splits)

lemma revoked_after_tokens:
  "refreshTokens s' = update_many (\<lambda>t. which t \<and> rt_revokedAt t = None \<and> rt_deletedAt t = None)
     (\<lambda>t. t\<lparr>rt_revokedAt := Some now\<rparr>) (refreshTokens s) \<Longrightarrow> revoked_tokens which s'"
  by (auto simp: revoked_tokens_def set_update_many split: if_splits)

abbreviation found_token :: "string list \<Rightarrow> store \<Rightarrow> RefreshToken option" where
  "found_token hs s \<equiv>
     find_first (\<lambda>t. rt_tokenHash t \<in> set hs \<and> rt_deletedAt t = None) (refreshTokens s)"

lemma found_tokenD: "found_token hs s = Some t \<Longrightarrow> t \<in> set (refreshTokens s) \<and> rt_tokenHash t \<in> set hs \<and> rt_deletedAt t = None"
  by (auto dest: find_first_SomeD)

lemma own_candidate: "list_ex (constantTimeEqual h) hs \<longleftrightarrow> h \<in> set hs"
  by (auto simp: list_ex_iff)

text \<open>A run that issues a new pair: the presented token was usable, and it is consumed.\<close>

lemma rotation_ROTATED:
  assumes "rotation A ef now hs nextHash md (auditEventWriter A) s = Inr (ROTATED u sid, s')"
  shows "\<exists>t x usr. found_token hs s = Some t \<and> sessionOf s (rt_sessionId t) = Some x \<and>
     userOf s (rt_userId t) = Some usr \<and> \<not> unusable now t x usr \<and> u = rt_userId t \<and> sid = rt_sessionId t \<and>
     matching (\<lambda>y. rt_id y = rt_id t \<and> tokenOpen y)
       (newRefreshToken (ef_id ef 0) (ef_now ef 1) u sid nextHash (ses_expiresAt x) # refreshTokens s) = 1 \<and>
     refreshTokens s' = update_many (\<lambda>y. rt_id y = rt_id t \<and> tokenOpen y) (consumeToken now (ef_id ef 0))
       (newRefreshToken (ef_id ef 0) (ef_now ef 1) u sid nextHash (ses_expiresAt x) # refreshTokens s) \<and>
     sessions s' = update_many (\<lambda>y. ses_id y = sid \<and> ses_deletedAt y = None) (\<lambda>y. y\<lparr>ses_lastSeenAt := now\<rparr>) (sessions s) \<and>
     users s' = users s"
  using assms
  by (auto simp: rotation_def tx_simps newRefreshToken_def split: option.split_asm prod.split_asm if_split_asm)

lemma rotation_unusable:
  assumes ok: "crypto_env_ok (cenv A)" and t: "found_token hs s = Some t"
    and x: "sessionOf s (rt_sessionId t) = Some x" and usr: "userOf s (rt_userId t) = Some usr"
    and un: "unusable now t x usr"
  shows "\<exists>s'. rotation A ef now hs nextHash md (auditEventWriter A) s = Inr (REUSE (rt_userId t), s') \<and>
     revoked_sessions (\<lambda>y. ses_id y = rt_sessionId t) s' \<and> revoked_tokens (\<lambda>y. rt_sessionId y = rt_sessionId t) s'"
proof -
  have h: "rt_tokenHash t \<in> set hs" using found_tokenD [OF t] by simp
  let ?s' = "refreshTokens_update (update_many (\<lambda>y. rt_sessionId y = rt_sessionId t \<and> rt_revokedAt y = None \<and> rt_deletedAt y = None)
        (\<lambda>y. y\<lparr>rt_revokedAt := Some now\<rparr>))
      (sessions_update (update_many (\<lambda>y. ses_id y = rt_sessionId t \<and> ses_revokedAt y = None \<and> ses_deletedAt y = None)
        (\<lambda>y. y\<lparr>ses_revokedAt := Some now, ses_revokeReason := Some ''refresh_token_reuse''\<rparr>)) s)"
  let ?in = "audit_of md (Some (rt_userId t)) ''auth.refresh.reuse_detected'' ''session'' (Some (rt_sessionId t)) None"
  let ?s'' = "?s'\<lparr>auditEvents := audit_row A (ef_id ef 0) (ef_now ef 1) ?in # auditEvents ?s'\<rparr>"
  have "rotation A ef now hs nextHash md (auditEventWriter A) s = Inr (REUSE (rt_userId t), ?s'')"
    using un h unfolding rotation_def
    by (simp add: andThen_def reading_def t x usr own_candidate revokeSessions_def revokeTokens_def updateMany_def
        auditEventWriter_total [OF ok] ret_def)
  moreover have "revoked_sessions (\<lambda>y. ses_id y = rt_sessionId t) ?s''"
    by (rule revoked_after_sessions [where s = s and now = now and reason = "''refresh_token_reuse''"]) simp
  moreover have "revoked_tokens (\<lambda>y. rt_sessionId y = rt_sessionId t) ?s''"
    by (rule revoked_after_tokens [where s = s and now = now]) simp
  ultimately show ?thesis by blast
qed

lemma rotateRefreshToken_Some:
  assumes "rotateRefreshToken A ef raw md s = (Inr (Some pair), s')"
  shows "\<exists>hs nextHash u sid. candidateOpaqueTokenHashes (cenv A) (prims A) raw = Inr hs \<and>
     rotation A ef (ef_now ef 0) hs nextHash md (auditEventWriter A) s = Inr (ROTATED u sid, s') \<and>
     tp_accessToken pair = ap_signAccessToken A u sid"
proof -
  from assms obtain hs h r s1 where hs: "candidateOpaqueTokenHashes (cenv A) (prims A) raw = Inr hs"
    and run: "rotation A ef (ef_now ef 0) hs h md (auditEventWriter A) s = Inr (r, s1)"
    and rest: "(case r of INVALID \<Rightarrow> answer None
      | REUSE userId \<Rightarrow> andNext (publishChatRevocation A userId) (\<lambda>_. answer None)
      | ROTATED userId sessionId \<Rightarrow>
          answer (Some \<lparr>tp_accessToken = ap_signAccessToken A userId sessionId,
                         tp_refreshToken = randomToken (ef_random ef 0)\<rparr>)) s1 = (Inr (Some pair), s')"
    by (auto simp: rotateRefreshToken_def Let_def tx_simps split: sum.split_asm)
  from rest have "\<exists>u sid. r = ROTATED u sid \<and> s1 = s' \<and> tp_accessToken pair = ap_signAccessToken A u sid"
    by (cases r) (auto simp: tx_simps)
  with hs run show ?thesis by blast
qed

lemma hash_present: "crypto_env_ok env \<Longrightarrow> \<exists>h. hashOpaqueToken env P v = Inr h"
  unfolding hashOpaqueToken_def by (rule versionedHmac_present [OF _ active_present])

lemma rotateRefreshToken_unusable:
  assumes ok: "crypto_env_ok (cenv A)" and hs: "candidateOpaqueTokenHashes (cenv A) (prims A) raw = Inr hs"
    and t: "found_token hs s = Some t"
    and x: "sessionOf s (rt_sessionId t) = Some x" and usr: "userOf s (rt_userId t) = Some usr"
    and un: "unusable (ef_now ef 0) t x usr"
  shows "\<exists>s'. rotateRefreshToken A ef raw md s = (Inr None, s') \<and>
     revoked_sessions (\<lambda>y. ses_id y = rt_sessionId t) s' \<and> revoked_tokens (\<lambda>y. rt_sessionId y = rt_sessionId t) s'"
proof -
  obtain h where h: "hashOpaqueToken (cenv A) (prims A) (randomToken (ef_random ef 0)) = Inr h"
    using hash_present [OF ok] by blast
  obtain s' where s': "rotation A ef (ef_now ef 0) hs h md (auditEventWriter A) s = Inr (REUSE (rt_userId t), s')"
    "revoked_sessions (\<lambda>y. ses_id y = rt_sessionId t) s'" "revoked_tokens (\<lambda>y. rt_sessionId y = rt_sessionId t) s'"
    using rotation_unusable [OF ok t x usr un, of ef h md] by blast
  then show ?thesis
    by (auto simp: rotateRefreshToken_def Let_def hs h andNext_def auditedTransaction_def transaction_def
        publishChatRevocation_def answer_def revoked_sessions_def revoked_tokens_def)
qed

text \<open>A revoked token is never exchanged.\<close>

lemma rotateRefreshToken_revoked:
  assumes "found_token hs s = Some t" "rt_revokedAt t \<noteq> None"
    and "candidateOpaqueTokenHashes (cenv A) (prims A) raw = Inr hs"
  shows "fst (rotateRefreshToken A ef raw md s) \<noteq> Inr (Some pair)"
proof
  assume "fst (rotateRefreshToken A ef raw md s) = Inr (Some pair)"
  then obtain s' where "rotateRefreshToken A ef raw md s = (Inr (Some pair), s')"
    by (cases "rotateRefreshToken A ef raw md s") auto
  from rotateRefreshToken_Some [OF this] obtain hs' h u sid where
    "candidateOpaqueTokenHashes (cenv A) (prims A) raw = Inr hs'"
    and "rotation A ef (ef_now ef 0) hs' h md (auditEventWriter A) s = Inr (ROTATED u sid, s')" by blast
  with assms rotation_ROTATED [of A ef "ef_now ef 0" hs h md s u sid s'] show False by (auto simp: unusable_def)
qed

lemma sessionOf_touch:
  "sessions s' = update_many P (\<lambda>y. y\<lparr>ses_lastSeenAt := now\<rparr>) (sessions s) \<Longrightarrow>
   sessionOf s' sid = map_option (\<lambda>x. if P x then x\<lparr>ses_lastSeenAt := now\<rparr> else x) (sessionOf s sid)"
  by (simp add: sessionOf_def find_first_update_many)

text \<open>After a rotation the presented token is a consumed row, and the only one its value leads to.\<close>

lemma rotated_token_spent:
  assumes run: "rotation A ef now hs h md (auditEventWriter A) s = Inr (ROTATED u sid, s')"
    and keys: "distinct (map rt_id (refreshTokens s'))"
    and only: "\<forall>a\<in>set (refreshTokens s'). \<forall>b\<in>set (refreshTokens s').
                 rt_tokenHash a \<in> set hs \<and> rt_tokenHash b \<in> set hs \<longrightarrow> a = b"
  shows "\<exists>t x usr. found_token hs s' = Some t \<and> rt_sessionId t = sid \<and> rt_consumedAt t \<noteq> None \<and>
           sessionOf s' sid = Some x \<and> userOf s' (rt_userId t) = Some usr"
proof -
  from rotation_ROTATED [OF run] obtain t x usr where t: "found_token hs s = Some t"
    and x: "sessionOf s sid = Some x" and usr: "userOf s (rt_userId t) = Some usr" and sid: "sid = rt_sessionId t"
    and one: "matching (\<lambda>y. rt_id y = rt_id t \<and> tokenOpen y)
       (newRefreshToken (ef_id ef 0) (ef_now ef 1) u sid h (ses_expiresAt x) # refreshTokens s) = 1"
    and rts: "refreshTokens s' = update_many (\<lambda>y. rt_id y = rt_id t \<and> tokenOpen y) (consumeToken now (ef_id ef 0))
       (newRefreshToken (ef_id ef 0) (ef_now ef 1) u sid h (ses_expiresAt x) # refreshTokens s)"
    and ss: "sessions s' = update_many (\<lambda>y. ses_id y = sid \<and> ses_deletedAt y = None) (\<lambda>y. y\<lparr>ses_lastSeenAt := now\<rparr>) (sessions s)"
    and us: "users s' = users s" by blast
  let ?rows = "newRefreshToken (ef_id ef 0) (ef_now ef 1) u sid h (ses_expiresAt x) # refreshTokens s"
  have d: "distinct (map rt_id ?rows)" using keys by (simp add: rts refresh_use.keys_kept)
  obtain y where y: "y \<in> set ?rows" "rt_id y = rt_id t" "tokenOpen y" using matching_1_ex [OF one] by blast
  have "t \<in> set ?rows" using found_tokenD [OF t] by simp
  with d y have [simp]: "y = t" by (meson distinct_map_eq)
  let ?c = "consumeToken now (ef_id ef 0) t"
  have c: "?c \<in> set (refreshTokens s')"
    unfolding rts set_update_many using y by (intro image_eqI [of _ _ t]) auto
  have ch: "rt_tokenHash ?c \<in> set hs" "rt_deletedAt ?c = None"
    using found_tokenD [OF t] by (simp_all add: consumeToken_def)
  then obtain f where f: "found_token hs s' = Some f"
    using c find_first_ex [of "refreshTokens s'" "\<lambda>t. rt_tokenHash t \<in> set hs \<and> rt_deletedAt t = None"] by blast
  have "f = ?c" using only c ch found_tokenD [OF f] by blast
  moreover have "sessionOf s' sid \<noteq> None" by (simp add: sessionOf_touch [OF ss] x)
  moreover have "userOf s' (rt_userId t) = Some usr" using usr by (simp add: userOf_def us)
  ultimately show ?thesis using f sid by (auto simp: consumeToken_def)
qed

section \<open>A session to run\<close>

definition demo_sessions :: store where
  "demo_sessions = demo_store\<lparr>users := [demo_user ''ann''],
     sessions := [newSession ''s1'' 0 ''ann'' None ''ip'' None 999999],
     refreshTokens := [newRefreshToken ''t1'' 0 ''ann'' ''s1'' ''v1.legacy.aHMwb3BhcXVlLXRva2VudA'' 999999]\<rparr>"

definition demo_next_hash :: string where
  "demo_next_hash = ''v1.legacy.aHMwb3BhcXVlLXRva2VuY21GdVpEQQ''"

lemma demo_next:
  "hashOpaqueToken (cenv demo_app) (prims demo_app) (randomToken (ef_random demo_effects 0)) = Inr demo_next_hash"
  by code_simp

lemmas demo_session_simps = demo_sessions_def demo_store_def demo_user_def newSession_def newRefreshToken_def
  demo_effects_def sessionOf_def userOf_def unusable_def sameTokenHash_def tokenOpen_def consumeToken_def

lemma decimal_0: "decimal 0 = ''0''"
  by code_simp

lemma demo_rotates:
  "\<exists>pair s'. rotateRefreshToken demo_app demo_effects ''t'' demo_meta demo_sessions = (Inr (Some pair), s') \<and>
     refreshTokens s' =
       [newRefreshToken ''id0'' 5001 ''ann'' ''s1'' demo_next_hash 999999,
        consumeToken 5000 ''id0'' (newRefreshToken ''t1'' 0 ''ann'' ''s1'' ''v1.legacy.aHMwb3BhcXVlLXRva2VudA'' 999999)]"
  by (simp add: rotateRefreshToken_def rotation_def demo_invitation_hashes demo_next auditedTransaction_def tx_run)
     (simp add: demo_session_simps demo_next_hash_def tx_run decimal_0)

section \<open>Properties\<close>

text \<open>
  C26: a refresh token works once, and its reuse ends the session. After a token has been exchanged
  for a new pair, presenting it again at any time returns nothing and revokes the session it belongs
  to together with every refresh token of that session; from then on no token of the session,
  including the one just issued, is exchanged any more. Token identifiers are unique and a token
  value leads to one row.
\<close>
theorem rotateRefreshToken_single_use:
  assumes run: "rotateRefreshToken A ef raw md s = (Inr (Some pair), s')"
    and ok: "crypto_env_ok (cenv A)"
    and hs: "candidateOpaqueTokenHashes (cenv A) (prims A) raw = Inr hs"
    and keys: "distinct (map rt_id (refreshTokens s'))"
    and only: "\<forall>a\<in>set (refreshTokens s'). \<forall>b\<in>set (refreshTokens s').
                 rt_tokenHash a \<in> set hs \<and> rt_tokenHash b \<in> set hs \<longrightarrow> a = b"
  shows "\<exists>u sid s''. tp_accessToken pair = ap_signAccessToken A u sid \<and>
           rotateRefreshToken A ef' raw md' s' = (Inr None, s'') \<and>
           revoked_sessions (\<lambda>x. ses_id x = sid) s'' \<and>
           revoked_tokens (\<lambda>t. rt_sessionId t = sid) s'' \<and>
           (\<forall>ef3 raw3 md3 hs3 t3 pair3. candidateOpaqueTokenHashes (cenv A) (prims A) raw3 = Inr hs3 \<and>
              found_token hs3 s'' = Some t3 \<and> rt_sessionId t3 = sid \<longrightarrow>
              fst (rotateRefreshToken A ef3 raw3 md3 s'') \<noteq> Inr (Some pair3))"
proof -
  from rotateRefreshToken_Some [OF run] hs obtain h u sid where
    rot: "rotation A ef (ef_now ef 0) hs h md (auditEventWriter A) s = Inr (ROTATED u sid, s')"
    and access: "tp_accessToken pair = ap_signAccessToken A u sid" by auto
  from rotated_token_spent [OF rot keys only] obtain t x usr where
    t: "found_token hs s' = Some t" "rt_sessionId t = sid" "rt_consumedAt t \<noteq> None"
    and x: "sessionOf s' sid = Some x" and usr: "userOf s' (rt_userId t) = Some usr" by blast
  have un: "unusable (ef_now ef' 0) t x usr" using t(3) by (simp add: unusable_def)
  have x': "sessionOf s' (rt_sessionId t) = Some x" using x t(2) by simp
  obtain s'' where s'': "rotateRefreshToken A ef' raw md' s' = (Inr None, s'')"
    "revoked_sessions (\<lambda>y. ses_id y = sid) s''" "revoked_tokens (\<lambda>y. rt_sessionId y = sid) s''"
    using rotateRefreshToken_unusable [OF ok hs t(1) x' usr un, of md'] t(2) by auto
  have "fst (rotateRefreshToken A ef3 raw3 md3 s'') \<noteq> Inr (Some pair3)"
    if "candidateOpaqueTokenHashes (cenv A) (prims A) raw3 = Inr hs3" "found_token hs3 s'' = Some t3" "rt_sessionId t3 = sid"
    for ef3 raw3 md3 hs3 t3 pair3
  proof (rule rotateRefreshToken_revoked [OF that(2) _ that(1)])
    show "rt_revokedAt t3 \<noteq> None" using s''(3) found_tokenD [OF that(2)] that(3) by (auto simp: revoked_tokens_def)
  qed
  with access s'' show ?thesis by blast
qed

theorem rotateRefreshToken_single_use_witness:
  "\<exists>pair s' s''. rotateRefreshToken demo_app demo_effects ''t'' demo_meta demo_sessions = (Inr (Some pair), s') \<and>
     rotateRefreshToken demo_app demo_effects ''t'' demo_meta s' = (Inr None, s'')"
proof -
  obtain pair s' where run: "rotateRefreshToken demo_app demo_effects ''t'' demo_meta demo_sessions = (Inr (Some pair), s')"
    and rts: "refreshTokens s' =
       [newRefreshToken ''id0'' 5001 ''ann'' ''s1'' demo_next_hash 999999,
        consumeToken 5000 ''id0'' (newRefreshToken ''t1'' 0 ''ann'' ''s1'' ''v1.legacy.aHMwb3BhcXVlLXRva2VudA'' 999999)]"
    using demo_rotates by blast
  have "crypto_env_ok (cenv demo_app)" by (simp add: demo_app_def demo_audit_def demo_crypto)
  moreover have "distinct (map rt_id (refreshTokens s'))" by (simp add: rts newRefreshToken_def consumeToken_def)
  moreover have "\<forall>a\<in>set (refreshTokens s'). \<forall>b\<in>set (refreshTokens s').
      rt_tokenHash a \<in> set [''v1.legacy.aHMwb3BhcXVlLXRva2VudA'', ''aHMwdA''] \<and>
      rt_tokenHash b \<in> set [''v1.legacy.aHMwb3BhcXVlLXRva2VudA'', ''aHMwdA''] \<longrightarrow> a = b"
    by (simp add: rts newRefreshToken_def consumeToken_def demo_next_hash_def)
  ultimately show ?thesis
    using rotateRefreshToken_single_use [OF run _ demo_invitation_hashes, of demo_effects demo_meta] run by blast
qed

end
