(* ===== verification/Auth_Credentials.thy ===== *)
theory Auth_Credentials
  imports Auth_Sessions
begin

text \<open>
  Passwords, one-time codes and password resets: \<open>auth.policy.ts\<close>, \<open>auth.otp.service.ts\<close>,
  \<open>auth.password-reset.service.ts\<close> and \<open>auth.passwords.service.ts\<close> under \<open>src/src/modules/auth/\<close>.
  Between the statement that looks a code or a token up and the transaction that uses it other
  requests may run: their effect is the argument \<open>other\<close>, any function on the database.
\<close>

section \<open>Policy\<close>

definition requiredOtpUserStatus :: "OtpPurpose \<Rightarrow> UserStatus" where
  "requiredOtpUserStatus purpose =
     (if purpose = LOGIN \<or> purpose = PASSWORD_RESET then U_ACTIVE else U_PENDING)"

datatype VerificationTransition = ACTIVATE | VERIFY_ONLY | BLOCKED

definition verificationTransition :: "UserStatus \<Rightarrow> VerificationTransition" where
  "verificationTransition status =
     (if status = U_PENDING then ACTIVATE else if status = U_ACTIVE then VERIFY_ONLY else BLOCKED)"

section \<open>One-time codes\<close>

fun channelText :: "OtpChannel \<Rightarrow> string" where
  "channelText Otp_EMAIL = ''EMAIL''"
| "channelText Otp_SMS = ''SMS''"

fun notificationChannel :: "OtpChannel \<Rightarrow> NotificationChannel" where
  "notificationChannel Otp_EMAIL = EMAIL"
| "notificationChannel Otp_SMS = SMS"

fun purposeText :: "OtpPurpose \<Rightarrow> string" where
  "purposeText SIGNUP = ''SIGNUP''"
| "purposeText LOGIN = ''LOGIN''"
| "purposeText VERIFY_EMAIL = ''VERIFY_EMAIL''"
| "purposeText VERIFY_PHONE = ''VERIFY_PHONE''"
| "purposeText PASSWORD_RESET = ''PASSWORD_RESET''"
| "purposeText EMAIL_CHANGE = ''EMAIL_CHANGE''"

fun statusText :: "UserStatus \<Rightarrow> string" where
  "statusText U_PENDING = ''PENDING''"
| "statusText U_ACTIVE = ''ACTIVE''"
| "statusText U_SUSPENDED = ''SUSPENDED''"
| "statusText U_DISABLED = ''DISABLED''"

definition countable :: "time \<Rightarrow> ident \<Rightarrow> OtpChallenge \<Rightarrow> bool" where
  "countable now challengeId c \<longleftrightarrow>
     otp_id c = challengeId \<and> otp_attempts c < otp_maxAttempts c \<and> otp_consumedAt c = None \<and>
     otp_verifiedAt c = None \<and> otp_lockedAt c = None \<and> otp_deletedAt c = None \<and> otp_expiresAt c > now"

definition countAttempt :: "time \<Rightarrow> OtpChallenge \<Rightarrow> OtpChallenge" where
  "countAttempt now c =
     c\<lparr>otp_attempts := otp_attempts c + 1,
       otp_lockedAt := (if otp_attempts c + 1 \<ge> otp_maxAttempts c then Some now else otp_lockedAt c)\<rparr>"

text \<open>One raw statement.\<close>

definition recordInvalidOtpAttempt :: "time \<Rightarrow> ident \<Rightarrow> (store, unit) io" where
  "recordInvalidOtpAttempt now challengeId s =
     (Inr (), s\<lparr>otpChallenges := update_many (countable now challengeId) (countAttempt now) (otpChallenges s)\<rparr>)"

definition newOtpChallenge ::
    "ident \<Rightarrow> time \<Rightarrow> ident \<Rightarrow> string \<Rightarrow> OtpChannel \<Rightarrow> OtpPurpose \<Rightarrow> string \<Rightarrow> time \<Rightarrow> OtpChallenge" where
  "newOtpChallenge cid now userId destination channel purpose codeHash expiresAt =
     \<lparr>otp_id = cid, otp_userId = Some userId, otp_normalizedDestination = destination, otp_channel = channel,
      otp_purpose = purpose, otp_codeHash = codeHash, otp_attempts = 0, otp_maxAttempts = 5, otp_sentAt = now,
      otp_expiresAt = expiresAt, otp_verifiedAt = None, otp_consumedAt = None, otp_lockedAt = None,
      otp_createdAt = now, otp_deletedAt = None\<rparr>"

text \<open>
  The part the senders share: the challenge is stored, and the message that carries the encrypted
  code is added to the outbox under a key of its own.
\<close>

definition issueOtp ::
    "app \<Rightarrow> effects \<Rightarrow> ident \<Rightarrow> string \<Rightarrow> OtpChannel \<Rightarrow> OtpPurpose \<Rightarrow> string \<Rightarrow> string \<Rightarrow> (store, OtpChallenge) tx" where
  "issueOtp A ef userId destination channel purpose code dedupeSuffix =
     andThen (createRow otpChallenges otpChallenges_update (\<lambda>a b. otp_id a = otp_id b)
                (newOtpChallenge (ef_id ef 0) (ef_now ef 1) userId destination channel purpose
                   (hashSecret (prims A) code) (expiresIn (ef_now ef 1) 5 60000))) (\<lambda>challenge.
     andThen (attempt (encryptSecret (cenv A) (prims A) (ef_random ef 1) code)) (\<lambda>encryptedCode.
     andThen (outboxInsert (ef_id ef 1) (ef_now ef 2)
                \<lparr>oi_aggregateType = ''otp_challenge'', oi_aggregateId = otp_id challenge, oi_eventType = ''auth.otp'',
                 oi_channel = notificationChannel channel,
                 oi_payload = JObj [(''challengeId'', JStr (otp_id challenge)), (''destination'', JStr destination),
                                    (''encryptedCode'', JStr encryptedCode), (''purpose'', JStr (purposeText purpose))],
                 oi_dedupeKey = ''otp:'' @ otp_id challenge @ '':'' @ dedupeSuffix, oi_availableAt = None,
                 oi_expiresAt = Some (otp_expiresAt challenge)\<rparr>) (\<lambda>_.
     ret challenge)))"

definition otpDestination :: "OtpChannel \<Rightarrow> string \<Rightarrow> string" where
  "otpDestination channel destination =
     (case channel of Otp_EMAIL \<Rightarrow> normalizeEmail destination | Otp_SMS \<Rightarrow> destination)"

definition otpRecipient :: "OtpChannel \<Rightarrow> string \<Rightarrow> User \<Rightarrow> bool" where
  "otpRecipient channel destination u \<longleftrightarrow>
     (case channel of Otp_EMAIL \<Rightarrow> u_email u = Some destination | Otp_SMS \<Rightarrow> u_phone u = Some destination)"

definition sendOtp ::
    "app \<Rightarrow> effects \<Rightarrow> string \<Rightarrow> OtpChannel \<Rightarrow> OtpPurpose \<Rightarrow> RequestMetadata \<Rightarrow> (store, unit) io" where
  "sendOtp A ef destinationInput channel purpose metadata =
     (let destination = otpDestination channel destinationInput in
      andNext (transaction (findFirst users (\<lambda>u. otpRecipient channel destination u \<and>
                 u_status u = requiredOtpUserStatus purpose \<and> u_deletedAt u = None))) (\<lambda>user.
      case user of
        None \<Rightarrow> answer ()
      | Some u \<Rightarrow>
      andNext (transaction (findFirst otpChallenges (\<lambda>c. otp_normalizedDestination c = destination \<and> otp_purpose c = purpose \<and>
                 otp_channel c = channel \<and> otp_sentAt c \<ge> ef_now ef 0 - 60000 \<and> otp_consumedAt c = None \<and>
                 otp_lockedAt c = None \<and> otp_deletedAt c = None))) (\<lambda>recentlySent.
      if recentlySent \<noteq> None then answer ()
      else auditedTransaction A (\<lambda>audit.
        andThen (issueOtp A ef (u_id u) destination channel purpose (randomOtp (ef_random ef 0))
                   (toLowerCase (channelText channel))) (\<lambda>challenge.
        audit (ef_id ef 2) (ef_now ef 3)
          (audit_of metadata (Some (u_id u)) ''auth.otp.sent'' ''otp_challenge'' (Some (otp_id challenge))
             (Some (JObj [(''channel'', JStr (channelText channel)), (''purpose'', JStr (purposeText purpose))]))))))))"

definition sendPhoneVerification ::
    "app \<Rightarrow> effects \<Rightarrow> ident \<Rightarrow> string \<Rightarrow> RequestMetadata \<Rightarrow> (store, unit) io" where
  "sendPhoneVerification A ef userId destination metadata =
     andNext (transaction (findFirst users (\<lambda>u. u_id u = userId \<and> u_status u = U_ACTIVE \<and> u_deletedAt u = None))) (\<lambda>eligible.
     if eligible = None then answer ()
     else
     andNext (transaction (findFirst otpChallenges (\<lambda>c. otp_userId c = Some userId \<and> otp_normalizedDestination c = destination \<and>
                otp_channel c = Otp_SMS \<and> otp_purpose c = VERIFY_PHONE \<and> otp_sentAt c \<ge> ef_now ef 0 - 60000 \<and>
                otp_consumedAt c = None \<and> otp_lockedAt c = None \<and> otp_deletedAt c = None))) (\<lambda>recent.
     if recent \<noteq> None then answer ()
     else auditedTransaction A (\<lambda>audit.
       andThen (issueOtp A ef userId destination Otp_SMS VERIFY_PHONE (randomOtp (ef_random ef 0)) ''sms'') (\<lambda>_.
       audit (ef_id ef 2) (ef_now ef 3)
         (audit_of metadata (Some userId) ''auth.phone_verification.sent'' ''user'' (Some userId) None)))))"

record VerifyOtpInput =
  vo_destination :: string
  vo_channel :: OtpChannel
  vo_purpose :: OtpPurpose
  vo_code :: string

datatype VerifyOtpResult = Tokens TokenPair | VERIFIED

definition otpCandidate :: "VerifyOtpInput \<Rightarrow> OtpChallenge \<Rightarrow> bool" where
  "otpCandidate input c \<longleftrightarrow>
     otp_normalizedDestination c = otpDestination (vo_channel input) (vo_destination input) \<and>
     otp_channel c = vo_channel input \<and> otp_purpose c = vo_purpose input \<and>
     otp_consumedAt c = None \<and> otp_lockedAt c = None \<and> otp_deletedAt c = None"

text \<open>The newest matching challenge with its user.\<close>

definition withUser :: "(OtpChallenge \<Rightarrow> bool) \<Rightarrow> store \<Rightarrow> (OtpChallenge \<times> User option) option" where
  "withUser P s =
     map_option (\<lambda>c. (c, Option.bind (otp_userId c) (userOf s)))
       (find_first P (rev (sort_key otp_createdAt (otpChallenges s))))"

definition otpOpen :: "OtpChallenge \<Rightarrow> bool" where
  "otpOpen c \<longleftrightarrow> otp_consumedAt c = None \<and> otp_lockedAt c = None \<and> otp_deletedAt c = None"

abbreviation consumable :: "ident \<Rightarrow> OtpChallenge \<Rightarrow> bool" where
  "consumable cid c \<equiv> otp_id c = cid \<and> otpOpen c"

definition consumeOtp :: "time \<Rightarrow> OtpChallenge \<Rightarrow> OtpChallenge" where
  "consumeOtp now c = c\<lparr>otp_consumedAt := Some now\<rparr>"

text \<open>
  The verified contact is written to the user; the unique index on telephone numbers refuses one
  that another account has.
\<close>

definition applyVerification ::
    "effects \<Rightarrow> OtpPurpose \<Rightarrow> OtpChallenge \<Rightarrow> ident \<Rightarrow> UserStatus \<Rightarrow> VerificationTransition \<Rightarrow> (store, nat) tx" where
  "applyVerification ef purpose challenge userId status transition =
     andThen (reading (\<lambda>s. purpose \<noteq> VERIFY_EMAIL \<and>
                list_ex (\<lambda>u. u_id u \<noteq> userId \<and> u_phone u = Some (otp_normalizedDestination challenge)) (users s))) (\<lambda>taken.
     andThen (require (\<not> taken) (PrismaKnown ''P2002'')) (\<lambda>_.
     updateMany users users_update (\<lambda>u. u_id u = userId \<and> u_status u = status \<and> u_deletedAt u = None)
       (\<lambda>u. (if purpose = VERIFY_EMAIL then u\<lparr>u_emailVerifiedAt := Some (ef_now ef 2)\<rparr>
             else u\<lparr>u_phone := Some (otp_normalizedDestination challenge), u_phoneVerifiedAt := Some (ef_now ef 2)\<rparr>)
            \<lparr>u_status := (if transition = ACTIVATE then U_ACTIVE else u_status u)\<rparr>)))"

definition verifyOtpTx ::
    "effects \<Rightarrow> VerifyOtpInput \<Rightarrow> OtpChallenge \<Rightarrow> ident \<Rightarrow> RequestMetadata \<Rightarrow> AuditWriter \<Rightarrow> (store, bool) tx" where
  "verifyOtpTx ef input challenge userId metadata audit =
     andThen (updateMany otpChallenges otpChallenges_update (consumable (otp_id challenge)) (consumeOtp (ef_now ef 1))) (\<lambda>consumed.
     andThen (require (consumed = 1) (OtherError ''OTP was already consumed'')) (\<lambda>_.
     andThen (if vo_purpose input = LOGIN then
         andThen (findFirst users (\<lambda>u. u_id u = userId \<and> u_status u = U_ACTIVE \<and> u_deletedAt u = None)) (\<lambda>u.
         ret (u \<noteq> None, None))
       else
         andThen (findFirst users (\<lambda>u. u_id u = userId \<and> u_deletedAt u = None)) (\<lambda>currentUser.
         case currentUser of
           None \<Rightarrow> ret (False, None)
         | Some u \<Rightarrow>
             if verificationTransition (u_status u) = BLOCKED then ret (False, Some (u_status u))
             else andThen (applyVerification ef (vo_purpose input) challenge userId (u_status u)
                             (verificationTransition (u_status u))) (\<lambda>updated.
                  ret (updated = 1, Some (u_status u))))) (\<lambda>(allowed, priorStatus).
     andThen (audit (ef_id ef 0) (ef_now ef 3)
                (audit_of metadata (otp_userId challenge)
                   (if allowed then ''auth.otp.verified'' else ''auth.otp.verification_blocked'') ''otp_challenge''
                   (Some (otp_id challenge))
                   (Some (JObj ((''purpose'', JStr (purposeText (vo_purpose input))) #
                      (case priorStatus of None \<Rightarrow> [] | Some st \<Rightarrow> [(''priorStatus'', JStr (statusText st))])))))) (\<lambda>_.
     ret allowed))))"

definition verifyOtp ::
    "app \<Rightarrow> effects \<Rightarrow> effects \<Rightarrow> (store \<Rightarrow> store) \<Rightarrow> VerifyOtpInput \<Rightarrow> RequestMetadata \<Rightarrow> (store, VerifyOtpResult option) io" where
  "verifyOtp A ef sessionEf other input metadata =
     andNext (transaction (reading (withUser (otpCandidate input)))) (\<lambda>found.
     case found of
       None \<Rightarrow> answer None
     | Some (challenge, None) \<Rightarrow> answer None
     | Some (challenge, Some user) \<Rightarrow>
         if otp_expiresAt challenge \<le> ef_now ef 0 then answer None
         else if \<not> verifySecret (prims A) (otp_codeHash challenge) (vo_code input)
         then andNext (recordInvalidOtpAttempt (ef_now ef 1) (otp_id challenge)) (\<lambda>_. answer None)
         else
           andNext (meanwhile other) (\<lambda>_.
           andNext (auditedTransaction A (verifyOtpTx ef input challenge (u_id user) metadata)) (\<lambda>verified.
           if \<not> verified then answer None
           else if vo_purpose input = LOGIN
           then andNext (createSession A sessionEf (u_id user) metadata) (\<lambda>pair. answer (Some (Tokens pair)))
           else answer (Some VERIFIED))))"

section \<open>Password reset\<close>

definition requestPasswordReset ::
    "app \<Rightarrow> effects \<Rightarrow> string \<Rightarrow> RequestMetadata \<Rightarrow> (store, unit) io" where
  "requestPasswordReset A ef emailInput metadata =
     (let email = normalizeEmail emailInput in
      andNext (transaction (findFirst users (\<lambda>u. u_email u = Some email \<and> u_status u = U_ACTIVE \<and> u_deletedAt u = None))) (\<lambda>user.
      case user of
        None \<Rightarrow> answer ()
      | Some u \<Rightarrow>
      andNext (transaction (findFirst otpChallenges (\<lambda>c. otp_userId c = Some (u_id u) \<and> otp_normalizedDestination c = email \<and>
                 otp_channel c = Otp_EMAIL \<and> otp_purpose c = PASSWORD_RESET \<and> otp_sentAt c \<ge> ef_now ef 0 - 60000 \<and>
                 otp_consumedAt c = None \<and> otp_verifiedAt c = None \<and> otp_lockedAt c = None \<and> otp_deletedAt c = None))) (\<lambda>recentlySent.
      if recentlySent \<noteq> None then answer ()
      else auditedTransaction A (\<lambda>audit.
        andThen (issueOtp A ef (u_id u) email Otp_EMAIL PASSWORD_RESET (randomOtp (ef_random ef 0)) ''password-reset'') (\<lambda>challenge.
        audit (ef_id ef 2) (ef_now ef 3)
          (audit_of metadata (Some (u_id u)) ''auth.password_reset.requested'' ''otp_challenge''
             (Some (otp_id challenge)) None))))))"

definition resetCandidate :: "string \<Rightarrow> OtpChallenge \<Rightarrow> bool" where
  "resetCandidate email c \<longleftrightarrow>
     otp_normalizedDestination c = email \<and> otp_channel c = Otp_EMAIL \<and> otp_purpose c = PASSWORD_RESET \<and>
     otp_consumedAt c = None \<and> otp_verifiedAt c = None \<and> otp_lockedAt c = None \<and> otp_deletedAt c = None"

definition verifiable :: "time \<Rightarrow> ident \<Rightarrow> OtpChallenge \<Rightarrow> bool" where
  "verifiable now cid c \<longleftrightarrow>
     otp_id c = cid \<and> otp_consumedAt c = None \<and> otp_verifiedAt c = None \<and> otp_lockedAt c = None \<and>
     otp_expiresAt c > now \<and> otp_deletedAt c = None"

record ResetGrant =
  rg_resetToken :: string
  rg_expiresAt :: time

definition newResetToken :: "ident \<Rightarrow> time \<Rightarrow> ident \<Rightarrow> ident \<Rightarrow> string \<Rightarrow> time \<Rightarrow> PasswordResetToken" where
  "newResetToken tid now userId challengeId tokenHash expiresAt =
     \<lparr>prt_id = tid, prt_userId = userId, prt_otpChallengeId = challengeId, prt_tokenHash = tokenHash,
      prt_expiresAt = expiresAt, prt_usedAt = None, prt_createdAt = now, prt_deletedAt = None\<rparr>"

definition dropResetTokens :: "(PasswordResetToken \<Rightarrow> bool) \<Rightarrow> time \<Rightarrow> (store, nat) tx" where
  "dropResetTokens which now =
     updateMany passwordResetTokens passwordResetTokens_update
       (\<lambda>t. which t \<and> prt_usedAt t = None \<and> prt_deletedAt t = None) (\<lambda>t. t\<lparr>prt_deletedAt := Some now\<rparr>)"

definition verifyPasswordResetOtp ::
    "app \<Rightarrow> effects \<Rightarrow> (store \<Rightarrow> store) \<Rightarrow> string \<Rightarrow> string \<Rightarrow> RequestMetadata \<Rightarrow> (store, ResetGrant option) io" where
  "verifyPasswordResetOtp A ef other emailInput otp metadata =
     andNext (transaction (reading (withUser (resetCandidate (normalizeEmail emailInput))))) (\<lambda>found.
     case found of
       None \<Rightarrow> answer None
     | Some (challenge, None) \<Rightarrow> answer None
     | Some (challenge, Some user) \<Rightarrow>
         if otp_expiresAt challenge \<le> ef_now ef 0 \<or> u_status user \<noteq> U_ACTIVE \<or> u_deletedAt user \<noteq> None then answer None
         else if \<not> verifySecret (prims A) (otp_codeHash challenge) otp
         then andNext (recordInvalidOtpAttempt (ef_now ef 1) (otp_id challenge)) (\<lambda>_. answer None)
         else
           (let resetToken = randomToken (ef_random ef 0);
                expiresAt = expiresIn (ef_now ef 1) (ap_passwordResetTokenTtlMinutes A) 60000
            in case hashOpaqueToken (cenv A) (prims A) resetToken of
              Inl e \<Rightarrow> (\<lambda>s. (Inl e, s))
            | Inr tokenHash \<Rightarrow>
            andNext (meanwhile other) (\<lambda>_.
            andNext (auditedTransaction A (\<lambda>audit.
              let verifiedAt = ef_now ef 2 in
              andThen (updateMany otpChallenges otpChallenges_update (verifiable verifiedAt (otp_id challenge))
                         (\<lambda>c. c\<lparr>otp_verifiedAt := Some verifiedAt\<rparr>)) (\<lambda>verified.
              if verified \<noteq> 1 then ret False
              else
                andThen (dropResetTokens (\<lambda>t. prt_userId t = u_id user) verifiedAt) (\<lambda>_.
                andThen (createRow passwordResetTokens passwordResetTokens_update
                           (\<lambda>a b. prt_otpChallengeId a = prt_otpChallengeId b \<or> prt_tokenHash a = prt_tokenHash b)
                           (newResetToken (ef_id ef 0) (ef_now ef 3) (u_id user) (otp_id challenge) tokenHash expiresAt)) (\<lambda>_.
                andThen (audit (ef_id ef 1) (ef_now ef 4)
                           (audit_of metadata (otp_userId challenge) ''auth.password_reset.otp_verified'' ''otp_challenge''
                              (Some (otp_id challenge)) None)) (\<lambda>_.
                ret True)))))) (\<lambda>issued.
            answer (if issued then Some \<lparr>rg_resetToken = resetToken, rg_expiresAt = expiresAt\<rparr> else None)))))"

definition resetOpen :: "time \<Rightarrow> PasswordResetToken \<Rightarrow> bool" where
  "resetOpen now t \<longleftrightarrow> prt_usedAt t = None \<and> prt_deletedAt t = None \<and> prt_expiresAt t > now"

definition useReset :: "time \<Rightarrow> PasswordResetToken \<Rightarrow> PasswordResetToken" where
  "useReset now t = t\<lparr>prt_usedAt := Some now\<rparr>"

definition confirmResetTx ::
    "effects \<Rightarrow> PasswordResetToken \<Rightarrow> string \<Rightarrow> RequestMetadata \<Rightarrow> AuditWriter \<Rightarrow> (store, bool) tx" where
  "confirmResetTx ef reset passwordHash metadata audit =
     (let usedAt = ef_now ef 1 in
      andThen (updateMany passwordResetTokens passwordResetTokens_update
                 (\<lambda>t. prt_id t = prt_id reset \<and> prt_tokenHash t = prt_tokenHash reset \<and> resetOpen usedAt t) (useReset usedAt)) (\<lambda>used.
      if used \<noteq> 1 then ret False
      else
        andThen (updateMany otpChallenges otpChallenges_update (consumable (prt_otpChallengeId reset)) (consumeOtp usedAt)) (\<lambda>consumed.
        andThen (require (consumed = 1) (OtherError ''Password reset OTP was already consumed'')) (\<lambda>_.
        andThen (updateMany users users_update
                   (\<lambda>u. u_id u = prt_userId reset \<and> u_status u = U_ACTIVE \<and> u_deletedAt u = None)
                   (\<lambda>u. u\<lparr>u_passwordHash := Some passwordHash\<rparr>)) (\<lambda>updated.
        andThen (require (updated = 1) (OtherError ''Password reset user is no longer eligible'')) (\<lambda>_.
        andThen (revokeSessions (\<lambda>x. ses_userId x = prt_userId reset) usedAt ''password_reset'') (\<lambda>_.
        andThen (revokeTokens (\<lambda>t. rt_userId t = prt_userId reset) usedAt) (\<lambda>_.
        andThen (dropResetTokens (\<lambda>t. prt_userId t = prt_userId reset \<and> prt_id t \<noteq> prt_id reset) usedAt) (\<lambda>_.
        andThen (audit (ef_id ef 0) (ef_now ef 2)
                   (audit_of metadata (Some (prt_userId reset)) ''auth.password_reset.completed'' ''user''
                      (Some (prt_userId reset)) None)) (\<lambda>_.
        ret True))))))))))"

definition confirmPasswordReset ::
    "app \<Rightarrow> effects \<Rightarrow> (store \<Rightarrow> store) \<Rightarrow> string \<Rightarrow> string \<Rightarrow> RequestMetadata \<Rightarrow> (store, bool) io" where
  "confirmPasswordReset A ef other resetToken newPassword metadata =
     (case candidateOpaqueTokenHashes (cenv A) (prims A) resetToken of
        Inl e \<Rightarrow> (\<lambda>s. (Inl e, s))
      | Inr tokenHashes \<Rightarrow>
      andNext (transaction (reading (\<lambda>s.
        map_option (\<lambda>t. (t, userOf s (prt_userId t)))
          (find_first (\<lambda>t. prt_tokenHash t \<in> set tokenHashes \<and> resetOpen (ef_now ef 0) t) (passwordResetTokens s))))) (\<lambda>found.
      case found of
        None \<Rightarrow> answer False
      | Some (reset, None) \<Rightarrow> answer False
      | Some (reset, Some user) \<Rightarrow>
          if u_status user \<noteq> U_ACTIVE \<or> u_deletedAt user \<noteq> None then answer False
          else
            andNext (meanwhile other) (\<lambda>_.
            andNext (auditedTransaction A (confirmResetTx ef reset (hashSecret (prims A) newPassword) metadata)) (\<lambda>changed.
            if changed then andNext (publishChatRevocation A (prt_userId reset)) (\<lambda>_. answer True)
            else answer False))))"

section \<open>Passwords\<close>

definition newUser :: "ident \<Rightarrow> time \<Rightarrow> string \<Rightarrow> string \<Rightarrow> string option \<Rightarrow> User" where
  "newUser uid now email passwordHash displayName =
     \<lparr>u_id = uid, u_email = Some email, u_phone = None, u_passwordHash = Some passwordHash,
      u_displayName = displayName, u_locale = ''en'', u_pendingEmail = None, u_stripeCustomerId = None,
      u_permissionEpoch = 0, u_status = U_PENDING, u_emailVerifiedAt = None, u_phoneVerifiedAt = None,
      u_lastLoginAt = None, u_createdAt = now, u_deletedAt = None\<rparr>"

text \<open>
  A signup for an address that exists sends its owner a notice, at most one an hour, and answers the
  same as any other.
\<close>

definition signupWithPassword ::
    "app \<Rightarrow> effects \<Rightarrow> string \<Rightarrow> string \<Rightarrow> string option \<Rightarrow> RequestMetadata \<Rightarrow> (store, unit) io" where
  "signupWithPassword A ef emailInput password displayName metadata =
     (let email = normalizeEmail emailInput; passwordHash = hashSecret (prims A) password in
      andNext (transaction (findFirst users (\<lambda>u. u_email u = Some email \<and> u_deletedAt u = None))) (\<lambda>existing.
      case existing of
        Some u \<Rightarrow> auditedTransaction A (\<lambda>audit.
          andThen (outboxInsert (ef_id ef 0) (ef_now ef 1)
                     \<lparr>oi_aggregateType = ''user'', oi_aggregateId = u_id u, oi_eventType = ''auth.signup_existing'',
                      oi_channel = EMAIL, oi_payload = JObj [(''destination'', JStr email)],
                      oi_dedupeKey = ''signup-existing:'' @ u_id u @ '':'' @ jsonNumber (ef_now ef 0 div 3600000),
                      oi_availableAt = None, oi_expiresAt = None\<rparr>) (\<lambda>_.
          audit (ef_id ef 1) (ef_now ef 2)
            (audit_of metadata None ''auth.signup.existing_requested'' ''user'' (Some (u_id u)) None)))
      | None \<Rightarrow> auditedTransaction A (\<lambda>audit.
          andThen (createRow users users_update (\<lambda>a b. u_email a = u_email b)
                     (newUser (ef_id ef 3) (ef_now ef 0) email passwordHash displayName)) (\<lambda>user.
          andThen (issueOtp A ef (u_id user) email Otp_EMAIL VERIFY_EMAIL (randomOtp (ef_random ef 0)) ''email'') (\<lambda>_.
          audit (ef_id ef 2) (ef_now ef 3)
            (audit_of metadata (Some (u_id user)) ''auth.signup.created'' ''user'' (Some (u_id user)) None))))))"

text \<open>The hash that stands in for a missing account keeps the response time the same.\<close>

definition loginWithPassword ::
    "app \<Rightarrow> effects \<Rightarrow> string \<Rightarrow> string \<Rightarrow> string \<Rightarrow> RequestMetadata \<Rightarrow> (store, TokenPair option) io" where
  "loginWithPassword A ef dummyPasswordHash emailInput password metadata =
     (let email = normalizeEmail emailInput in
      andNext (transaction (findFirst users (\<lambda>u. u_email u = Some email \<and> u_deletedAt u = None))) (\<lambda>user.
      let passwordHash = orElse (Option.bind user u_passwordHash) dummyPasswordHash;
          valid = verifySecret (prims A) passwordHash password
      in case user of
           Some u \<Rightarrow>
             if \<not> valid \<or> u_status u \<noteq> U_ACTIVE \<or> u_deletedAt u \<noteq> None then
               andNext (auditedTransaction A (\<lambda>audit. audit (ef_id ef 0) (ef_now ef 0)
                 (audit_of metadata None ''auth.login.failed'' ''user'' (Some (u_id u)) None))) (\<lambda>_. answer None)
             else andNext (createSession A ef (u_id u) metadata) (\<lambda>pair. answer (Some pair))
         | None \<Rightarrow>
             andNext (auditedTransaction A (\<lambda>audit. audit (ef_id ef 0) (ef_now ef 0)
               (audit_of metadata None ''auth.login.failed'' ''user'' None None))) (\<lambda>_. answer None)))"

definition changePassword ::
    "app \<Rightarrow> effects \<Rightarrow> string \<Rightarrow> ident \<Rightarrow> ident \<Rightarrow> string \<Rightarrow> string \<Rightarrow> RequestMetadata \<Rightarrow> (store, bool) io" where
  "changePassword A ef dummyPasswordHash userId sessionId currentPassword newPassword metadata =
     andNext (transaction (findFirst users (\<lambda>u. u_id u = userId \<and> u_status u = U_ACTIVE \<and> u_deletedAt u = None))) (\<lambda>user.
     let stored = Option.bind user u_passwordHash;
         valid = verifySecret (prims A) (orElse stored dummyPasswordHash) currentPassword
     in if \<not> valid \<or> \<not> truthy stored then answer False
        else
          andNext (auditedTransaction A (\<lambda>audit.
            andThen (updateRow users users_update (\<lambda>u. u_id u = userId \<and> u_deletedAt u = None)
                       (\<lambda>u. u\<lparr>u_passwordHash := Some (hashSecret (prims A) newPassword)\<rparr>)) (\<lambda>_.
            andThen (revokeSessions (\<lambda>x. ses_userId x = userId \<and> ses_id x \<noteq> sessionId) (ef_now ef 0) ''password_changed'') (\<lambda>_.
            andThen (revokeTokens (\<lambda>t. rt_userId t = userId \<and> rt_sessionId t \<noteq> sessionId) (ef_now ef 0)) (\<lambda>_.
            audit (ef_id ef 0) (ef_now ef 1)
              (audit_of metadata (Some userId) ''auth.password.changed'' ''user'' (Some userId) None)))))) (\<lambda>_.
          andNext (publishChatRevocation A userId) (\<lambda>_. answer True)))"

section \<open>Lemmas\<close>

interpretation otp_use: single_use otp_id otpOpen "consumeOtp now" for now
  by unfold_locales (simp_all add: consumeOtp_def otpOpen_def)

interpretation reset_use: single_use prt_id "\<lambda>t. prt_tokenHash t = h \<and> resetOpen now t" "useReset now" for h now
  by unfold_locales (simp_all add: useReset_def resetOpen_def)

lemma find_first_sole:
  assumes "c \<in> set rs" "P c" "\<And>x. x \<in> set rs \<Longrightarrow> P x \<Longrightarrow> x = c"
  shows "find_first P rs = Some c"
proof -
  obtain y where "find_first P rs = Some y" using find_first_ex [of rs P] assms by blast
  with find_first_SomeD [OF this] assms(3) show ?thesis by simp
qed

text \<open>The transaction of a verification consumes its challenge, whether or not it is allowed.\<close>

lemma verifyOtpTx_Inr:
  assumes "verifyOtpTx ef input c uid md (auditEventWriter A) s = Inr (allowed, s')"
  shows "matching (consumable (otp_id c)) (otpChallenges s) = 1 \<and>
    otpChallenges s' = update_many (consumable (otp_id c)) (consumeOtp (ef_now ef 1)) (otpChallenges s)"
  using assms
  by (auto simp: verifyOtpTx_def applyVerification_def tx_simps split: if_split_asm option.split_asm)

lemma createSession_keeps_otps:
  "createSession A ef uid md s = (r, s') \<Longrightarrow> otpChallenges s' = otpChallenges s"
proof (cases r)
  case (Inl e)
  assume "createSession A ef uid md s = (r, s')"
  with Inl show ?thesis by (auto simp: createSession_def Let_def tx_simps)
next
  case (Inr pair)
  assume "createSession A ef uid md s = (r, s')"
  with Inr show ?thesis
    by (auto simp: createSession_def resolveInitialOrganizationId_def findGlobalRoleId_def Let_def tx_simps
        split: tenancyMode.split_asm option.split_asm)
qed

definition otp_key :: "VerifyOtpInput \<Rightarrow> OtpChallenge \<Rightarrow> bool" where
  "otp_key input c \<longleftrightarrow>
     otp_normalizedDestination c = otpDestination (vo_channel input) (vo_destination input) \<and>
     otp_channel c = vo_channel input \<and> otp_purpose c = vo_purpose input"

lemma otpCandidate_alt: "otpCandidate input c \<longleftrightarrow> otp_key input c \<and> otpOpen c"
  by (auto simp: otpCandidate_def otp_key_def otpOpen_def)

text \<open>The one challenge there is for a destination, channel and purpose.\<close>

definition sole :: "VerifyOtpInput \<Rightarrow> OtpChallenge \<Rightarrow> store \<Rightarrow> bool" where
  "sole input c s \<longleftrightarrow> c \<in> set (otpChallenges s) \<and> otp_key input c \<and>
     (\<forall>x\<in>set (otpChallenges s). otp_key input x \<or> otp_id x = otp_id c \<longrightarrow> x = c)"

lemma sole_found:
  "sole input c s \<Longrightarrow> otpOpen c \<Longrightarrow> withUser (otpCandidate input) s = Some (c, Option.bind (otp_userId c) (userOf s))"
proof -
  assume sole: "sole input c s" and opn: "otpOpen c"
  have "find_first (otpCandidate input) (rev (sort_key otp_createdAt (otpChallenges s))) = Some c"
    using sole opn by (intro find_first_sole) (auto simp: sole_def otpCandidate_alt)
  then show ?thesis by (simp add: withUser_def)
qed

text \<open>An update of that challenge which keeps its identity leaves it the only one.\<close>

lemma sole_updated:
  assumes sole: "sole input c s" and P: "P c" "\<And>x. P x \<Longrightarrow> otp_id x = otp_id c"
    and f: "otp_key input (f c)" "otp_id (f c) = otp_id c"
    and s': "otpChallenges s' = update_many P f (otpChallenges s)"
  shows "sole input (f c) s'"
proof -
  have only: "x = c" if "x \<in> set (otpChallenges s)" "otp_key input x \<or> otp_id x = otp_id c" for x
    using sole that by (auto simp: sole_def)
  have "f c \<in> set (otpChallenges s')"
    using sole P(1) by (auto simp: sole_def s' set_update_many intro!: image_eqI [of _ _ c])
  moreover have "x' = f c" if x': "x' \<in> set (otpChallenges s')" "otp_key input x' \<or> otp_id x' = otp_id (f c)" for x'
  proof -
    obtain x where x: "x \<in> set (otpChallenges s)" "x' = (if P x then f x else x)"
      using x'(1) by (auto simp: s' set_update_many)
    show ?thesis
    proof (cases "P x")
      case True
      with P(2) x only show ?thesis by auto
    next
      case False
      with x x'(2) f(2) only [OF x(1)] P(1) show ?thesis by auto
    qed
  qed
  ultimately show ?thesis using f(1) by (auto simp: sole_def)
qed

lemma sole_locked: "sole input c s \<Longrightarrow> \<not> otpOpen c \<Longrightarrow> withUser (otpCandidate input) s = None"
  by (auto simp: withUser_def sole_def otpCandidate_alt find_first_None)

lemma sole_code: "sole (input\<lparr>vo_code := code\<rparr>) c s = sole input c s"
  by (simp add: sole_def otp_key_def)

text \<open>What a verification does when its code is wrong.\<close>

definition open_until :: "time \<Rightarrow> OtpChallenge \<Rightarrow> bool" where
  "open_until t c \<longleftrightarrow> otp_consumedAt c = None \<and> otp_verifiedAt c = None \<and> otp_deletedAt c = None \<and> otp_expiresAt c > t \<and>
     otp_attempts c \<le> otp_maxAttempts c \<and> (otp_lockedAt c \<noteq> None \<longleftrightarrow> otp_attempts c = otp_maxAttempts c)"

lemma wrong_guess:
  assumes sole: "sole input c s" and opn: "open_until t c" and time: "ef_now ef 0 \<le> t" "ef_now ef 1 \<le> t"
    and wrong: "\<not> verifySecret (prims A) (otp_codeHash c) (vo_code input)"
    and usr: "Option.bind (otp_userId c) (userOf s) = Some u"
  defines "c' \<equiv> if otp_lockedAt c = None then countAttempt (ef_now ef 1) c else c"
  shows "\<exists>s'. verifyOtp A ef sef other input md s = (Inr None, s') \<and> users s' = users s \<and> sole input c' s' \<and> open_until t c'"
proof (cases "otp_lockedAt c = None")
  case True
  with opn have o: "otpOpen c" "otp_attempts c < otp_maxAttempts c" "countable (ef_now ef 1) (otp_id c) c"
    using time by (auto simp: open_until_def otpOpen_def countable_def)
  let ?s' = "s\<lparr>otpChallenges := update_many (countable (ef_now ef 1) (otp_id c)) (countAttempt (ef_now ef 1)) (otpChallenges s)\<rparr>"
  have "otp_expiresAt c > ef_now ef 0" using opn time by (simp add: open_until_def)
  then have "verifyOtp A ef sef other input md s = (Inr None, ?s')"
    using wrong sole_found [OF sole o(1)] usr
    by (simp add: verifyOtp_def andNext_def transaction_def reading_def recordInvalidOtpAttempt_def answer_def)
  moreover have "sole input (countAttempt (ef_now ef 1) c) ?s'"
  proof (rule sole_updated [where P = "countable (ef_now ef 1) (otp_id c)" and f = "countAttempt (ef_now ef 1)", OF sole o(3)])
    show "otp_key input (countAttempt (ef_now ef 1) c)"
      using sole by (simp add: sole_def otp_key_def countAttempt_def)
  qed (simp_all add: countable_def countAttempt_def)
  moreover have "open_until t c'" using opn o(2) True by (auto simp: open_until_def c'_def countAttempt_def)
  ultimately show ?thesis using True by (auto simp: c'_def)
next
  case False
  then have "\<not> otpOpen c" by (simp add: otpOpen_def)
  from sole_locked [OF sole this] have "verifyOtp A ef sef other input md s = (Inr None, s)"
    by (simp add: verifyOtp_def andNext_def transaction_def reading_def answer_def)
  with False sole opn show ?thesis by (auto simp: c'_def)
qed

lemma locked_guess:
  "sole input c s \<Longrightarrow> \<not> otpOpen c \<Longrightarrow> verifyOtp A ef sef other input md s = (Inr None, s)"
  by (simp add: sole_locked verifyOtp_def andNext_def transaction_def reading_def answer_def)

definition guess :: "app \<Rightarrow> VerifyOtpInput \<Rightarrow> RequestMetadata \<Rightarrow> effects \<times> string \<Rightarrow> store \<Rightarrow> store" where
  "guess A input md g s = snd (verifyOtp A (fst g) (fst g) (\<lambda>s. s) (input\<lparr>vo_code := snd g\<rparr>) md s)"

lemma guesses_count:
  assumes "sole input c s" "open_until t c" "Option.bind (otp_userId c) (userOf s) = Some u"
    and "\<forall>g\<in>set gs. ef_now (fst g) 0 \<le> t \<and> ef_now (fst g) 1 \<le> t \<and> \<not> verifySecret (prims A) (otp_codeHash c) (snd g)"
  shows "\<exists>c'. sole input c' (fold (guess A input md) gs s) \<and> open_until t c' \<and>
           min (otp_maxAttempts c) (otp_attempts c + length gs) \<le> otp_attempts c' \<and>
           otp_maxAttempts c' = otp_maxAttempts c"
  using assms
proof (induction gs arbitrary: c s)
  case Nil
  then show ?case by (auto intro!: exI [of _ c])
next
  case (Cons g gs)
  let ?c = "if otp_lockedAt c = None then countAttempt (ef_now (fst g) 1) c else c"
  obtain s' where s': "verifyOtp A (fst g) (fst g) (\<lambda>s. s) (input\<lparr>vo_code := snd g\<rparr>) md s = (Inr None, s')"
    "users s' = users s" "sole input ?c s'" "open_until t ?c"
    using wrong_guess [of "input\<lparr>vo_code := snd g\<rparr>" c s t "fst g" A u "fst g" "\<lambda>s. s" md] Cons.prems
    by (auto simp: sole_code)
  have same: "otp_userId ?c = otp_userId c" "otp_codeHash ?c = otp_codeHash c" "otp_maxAttempts ?c = otp_maxAttempts c"
    by (simp_all add: countAttempt_def)
  have "userOf s' = userOf s" by (simp add: userOf_def s'(2) fun_eq_iff)
  then have "Option.bind (otp_userId ?c) (userOf s') = Some u" using Cons.prems(3) same(1) by simp
  from Cons.IH [OF s'(3,4) this] Cons.prems(4) obtain c' where
    "sole input c' (fold (guess A input md) gs s')" "open_until t c'"
    "min (otp_maxAttempts ?c) (otp_attempts ?c + length gs) \<le> otp_attempts c'" "otp_maxAttempts c' = otp_maxAttempts ?c"
    by (auto simp: same(2))
  moreover have "guess A input md g s = s'" by (simp add: guess_def s'(1))
  moreover have "otp_lockedAt c = None \<or> otp_attempts c = otp_maxAttempts c" using Cons.prems(2) by (auto simp: open_until_def)
  ultimately show ?case by (intro exI [of _ c']) (auto simp: countAttempt_def same(3))
qed

lemma withUser_SomeD:
  "withUser P s = Some (c, u) \<Longrightarrow> c \<in> set (otpChallenges s) \<and> P c"
  by (auto simp: withUser_def dest!: find_first_SomeD)

text \<open>A verification that answers positively went through its transaction.\<close>

lemma verifyOtp_Some:
  assumes "verifyOtp A ef sef other input md s = (Inr (Some r), s')"
  shows "\<exists>c u s1. withUser (otpCandidate input) s = Some (c, Some u) \<and> ef_now ef 0 < otp_expiresAt c \<and>
     verifySecret (prims A) (otp_codeHash c) (vo_code input) \<and>
     verifyOtpTx ef input c (u_id u) md (auditEventWriter A) (other s) = Inr (True, s1) \<and>
     otpChallenges s' = otpChallenges s1"
proof -
  have step: "andNext (transaction (reading q)) f s = f (q s) s" for q :: "store \<Rightarrow> 'x" and f :: "'x \<Rightarrow> (store, 'y) io"
    by (simp add: andNext_def transaction_def reading_def)
  from assms obtain c u where found: "withUser (otpCandidate input) s = Some (c, Some u)"
    and live: "\<not> otp_expiresAt c \<le> ef_now ef 0" and code: "verifySecret (prims A) (otp_codeHash c) (vo_code input)"
    and rest: "andNext (auditedTransaction A (verifyOtpTx ef input c (u_id u) md)) (\<lambda>verified.
           if \<not> verified then answer None
           else if vo_purpose input = LOGIN
           then andNext (createSession A sef (u_id u) md) (\<lambda>pair. answer (Some (Tokens pair)))
           else answer (Some VERIFIED)) (other s) = (Inr (Some r), s')"
    unfolding verifyOtp_def step by (auto simp: tx_simps split: option.split_asm if_split_asm)
  from rest obtain s1 where tx: "verifyOtpTx ef input c (u_id u) md (auditEventWriter A) (other s) = Inr (True, s1)"
    and fin: "s' = s1 \<or> (\<exists>pair. createSession A sef (u_id u) md s1 = (Inr pair, s'))"
    by (auto simp: tx_simps split: if_split_asm)
  from fin have "otpChallenges s' = otpChallenges s1" using createSession_keeps_otps by blast
  with found live code tx show ?thesis by auto
qed

lemma confirmResetTx_True:
  assumes "confirmResetTx ef reset h md (auditEventWriter A) s = Inr (True, s')"
  shows "matching (\<lambda>t. prt_id t = prt_id reset \<and> prt_tokenHash t = prt_tokenHash reset \<and> resetOpen (ef_now ef 1) t) (passwordResetTokens s) = 1 \<and>
    passwordResetTokens s' =
      update_many (\<lambda>t. (prt_userId t = prt_userId reset \<and> prt_id t \<noteq> prt_id reset) \<and> prt_usedAt t = None \<and> prt_deletedAt t = None)
        (\<lambda>t. t\<lparr>prt_deletedAt := Some (ef_now ef 1)\<rparr>)
      (update_many (\<lambda>t. prt_id t = prt_id reset \<and> prt_tokenHash t = prt_tokenHash reset \<and> resetOpen (ef_now ef 1) t)
        (useReset (ef_now ef 1)) (passwordResetTokens s)) \<and>
    users s' = update_many (\<lambda>u. u_id u = prt_userId reset \<and> u_status u = U_ACTIVE \<and> u_deletedAt u = None)
        (\<lambda>u. u\<lparr>u_passwordHash := Some h\<rparr>) (users s) \<and>
    revoked_sessions (\<lambda>x. ses_userId x = prt_userId reset) s' \<and> revoked_tokens (\<lambda>t. rt_userId t = prt_userId reset) s'"
  using assms
  by (auto simp: confirmResetTx_def dropResetTokens_def Let_def tx_simps revoked_sessions_def revoked_tokens_def
      set_update_many split: if_split_asm)

lemma confirmPasswordReset_True:
  assumes "confirmPasswordReset A ef other raw pw md s = (Inr True, s')"
  shows "\<exists>hs reset s1. candidateOpaqueTokenHashes (cenv A) (prims A) raw = Inr hs \<and>
    find_first (\<lambda>t. prt_tokenHash t \<in> set hs \<and> resetOpen (ef_now ef 0) t) (passwordResetTokens s) = Some reset \<and>
    confirmResetTx ef reset (hashSecret (prims A) pw) md (auditEventWriter A) (other s) = Inr (True, s1) \<and>
    passwordResetTokens s' = passwordResetTokens s1 \<and> users s' = users s1 \<and> sessions s' = sessions s1 \<and>
    refreshTokens s' = refreshTokens s1"
proof -
  have step: "andNext (transaction (reading q)) f s = f (q s) s" for q :: "store \<Rightarrow> 'x" and f :: "'x \<Rightarrow> (store, 'y) io"
    by (simp add: andNext_def transaction_def reading_def)
  from assms obtain hs where hs: "candidateOpaqueTokenHashes (cenv A) (prims A) raw = Inr hs"
    by (auto simp: confirmPasswordReset_def split: sum.split_asm)
  from assms obtain reset where
    r: "find_first (\<lambda>t. prt_tokenHash t \<in> set hs \<and> resetOpen (ef_now ef 0) t) (passwordResetTokens s) = Some reset"
    and rest: "andNext (auditedTransaction A (confirmResetTx ef reset (hashSecret (prims A) pw) md)) (\<lambda>changed.
            if changed then andNext (publishChatRevocation A (prt_userId reset)) (\<lambda>_. answer True)
            else answer False) (other s) = (Inr True, s')"
    unfolding confirmPasswordReset_def hs sum.case step
    by (auto simp: tx_simps split: option.split_asm if_split_asm)
  from rest show ?thesis using hs r by (auto simp: tx_simps split: if_split_asm)
qed

lemma confirmPasswordReset_gone:
  "candidateOpaqueTokenHashes (cenv A) (prims A) raw = Inr hs \<Longrightarrow>
   find_first (\<lambda>t. prt_tokenHash t \<in> set hs \<and> resetOpen (ef_now ef 0) t) (passwordResetTokens s) = None \<Longrightarrow>
   confirmPasswordReset A ef other raw pw md s = (Inr False, s)"
  by (simp add: confirmPasswordReset_def andNext_def transaction_def reading_def answer_def)

text \<open>After a completed reset no reset token of the user is open, at any time.\<close>

lemma reset_closes_all:
  assumes keys: "distinct (map prt_id rows)"
    and one: "matching (\<lambda>t. prt_id t = prt_id reset \<and> prt_tokenHash t = prt_tokenHash reset \<and> resetOpen now t) rows = 1"
    and t: "t \<in> set (update_many (\<lambda>t. (prt_userId t = prt_userId reset \<and> prt_id t \<noteq> prt_id reset) \<and> prt_usedAt t = None \<and> prt_deletedAt t = None)
        (\<lambda>t. t\<lparr>prt_deletedAt := Some now\<rparr>)
      (update_many (\<lambda>t. prt_id t = prt_id reset \<and> prt_tokenHash t = prt_tokenHash reset \<and> resetOpen now t)
        (useReset now) rows))"
    and u: "prt_userId t = prt_userId reset \<or> prt_id t = prt_id reset"
  shows "\<not> resetOpen now' t"
proof -
  obtain r where r: "r \<in> set rows" "prt_id r = prt_id reset" "prt_tokenHash r = prt_tokenHash reset" "resetOpen now r"
    using matching_1_ex [OF one] by blast
  obtain x y where x: "x \<in> set rows"
    and y: "y = (if prt_id x = prt_id reset \<and> prt_tokenHash x = prt_tokenHash reset \<and> resetOpen now x then useReset now x else x)"
    and ty: "t = (if (prt_userId y = prt_userId reset \<and> prt_id y \<noteq> prt_id reset) \<and> prt_usedAt y = None \<and> prt_deletedAt y = None
      then y\<lparr>prt_deletedAt := Some now\<rparr> else y)"
    using t by (auto simp: set_update_many)
  show ?thesis
  proof (cases "prt_id x = prt_id reset")
    case True
    with keys x r have "x = r" by (auto dest: distinct_map_eq)
    with r have "y = useReset now r" by (simp add: y)
    with r show ?thesis by (simp add: ty useReset_def resetOpen_def)
  next
    case False
    then have "y = x" by (simp add: y)
    with False u show ?thesis by (auto simp: ty resetOpen_def split: if_splits)
  qed
qed

section \<open>Accounts to run\<close>

definition demo_challenge :: "OtpPurpose \<Rightarrow> OtpChallenge" where
  "demo_challenge purpose = newOtpChallenge ''c1'' 0 ''ann'' ''ann@x'' Otp_EMAIL purpose ''123456'' 999999"

definition demo_otp_input :: "string \<Rightarrow> VerifyOtpInput" where
  "demo_otp_input code = \<lparr>vo_destination = ''ann@x'', vo_channel = Otp_EMAIL, vo_purpose = VERIFY_EMAIL, vo_code = code\<rparr>"

definition demo_otp_store :: store where
  "demo_otp_store = demo_store\<lparr>users := [(demo_user ''ann'')\<lparr>u_status := U_PENDING\<rparr>],
     otpChallenges := [demo_challenge VERIFY_EMAIL]\<rparr>"

definition demo_reset_store :: store where
  "demo_reset_store = demo_sessions\<lparr>otpChallenges := [demo_challenge PASSWORD_RESET],
     passwordResetTokens := [newResetToken ''p1'' 0 ''ann'' ''c1'' ''v1.legacy.aHMwb3BhcXVlLXRva2VudA'' 999999]\<rparr>"

lemmas demo_otp_simps = demo_otp_store_def demo_store_def demo_user_def demo_challenge_def newOtpChallenge_def
  demo_otp_input_def demo_effects_def

lemma demo_otp_found:
  "withUser (otpCandidate (demo_otp_input code)) demo_otp_store =
     Some (demo_challenge VERIFY_EMAIL, Some ((demo_user ''ann'')\<lparr>u_status := U_PENDING\<rparr>))"
proof -
  have "otpDestination Otp_EMAIL ''ann@x'' = ''ann@x''" by code_simp
  then show ?thesis
    by (simp add: withUser_def otpCandidate_def userOf_def find_first_def demo_otp_simps)
qed

lemma demo_secret: "verifySecret (prims demo_app) h code = (h = code)"
  by (simp add: verifySecret_def demo_app_def demo_audit_def demo_prims_def)

lemma demo_verifies:
  "\<exists>s'. verifyOtp demo_app demo_effects demo_effects (\<lambda>s. s) (demo_otp_input ''123456'') demo_meta demo_otp_store =
     (Inr (Some VERIFIED), s')"
  by (simp add: verifyOtp_def demo_otp_found demo_secret andNext_def meanwhile_def transaction_def reading_def
        auditedTransaction_def verifyOtpTx_def tx_run)
     (simp add: demo_otp_simps otpOpen_def consumeOtp_def verificationTransition_def applyVerification_def tx_run)

lemma demo_resets:
  "\<exists>s'. confirmPasswordReset demo_app demo_effects (\<lambda>s. s) ''t'' ''new'' demo_meta demo_reset_store = (Inr True, s') \<and>
     map prt_tokenHash (passwordResetTokens s') = [''v1.legacy.aHMwb3BhcXVlLXRva2VudA'']"
  by (simp add: confirmPasswordReset_def demo_invitation_hashes auditedTransaction_def tx_run meanwhile_def
        confirmResetTx_def revokeSessions_def revokeTokens_def dropResetTokens_def publishChatRevocation_def
        demo_reset_store_def demo_sessions_def demo_store_def demo_user_def newSession_def newRefreshToken_def
        demo_challenge_def newOtpChallenge_def newResetToken_def demo_effects_def userOf_def resetOpen_def useReset_def
        otpOpen_def consumeOtp_def Let_def)

text \<open>
  A signup with the address of an existing account is answered like any other the first time, but a
  second one within the hour runs into the unique key of the notice and fails with a conflict, which
  tells the caller that the account exists.
\<close>

definition demo_signup :: "store \<Rightarrow> (thrown + unit) \<times> store" where
  "demo_signup = signupWithPassword demo_app demo_effects ''ann@x'' ''pw'' None demo_meta"

lemma repeated_signup_reveals_account:
  "\<exists>s'. demo_signup demo_otp_store = (Inr (), s') \<and> demo_signup s' = (Inl (PrismaKnown ''P2002''), s') \<and>
     er_status (fst (errorHandler ''r'' (PrismaKnown ''P2002''))) = 409"
proof -
  have n: "normalizeEmail ''ann@x'' = ''ann@x''" by code_simp
  show ?thesis
    by (simp add: demo_signup_def signupWithPassword_def n auditedTransaction_def tx_run outboxInsert_def addOutboxEvent_def
          newOutboxEvent_def demo_otp_store_def demo_store_def demo_user_def demo_effects_def errorHandler_def
          sendError_def Let_def)
qed

section \<open>Properties\<close>

text \<open>
  C29: a one-time code is used at most once. Whatever other requests do between the lookup and the
  use, a positive answer means that the presented code matched an unexpired challenge for that
  destination, channel and purpose, that this challenge was still neither consumed nor locked when
  the transaction ran, and that afterwards it is consumed; and no verification whose transaction
  finds its challenge consumed or locked by then answers positively.
\<close>
theorem verifyOtp_single_use:
  assumes run: "verifyOtp A ef sef other input md s = (Inr (Some r), s')"
  shows "\<exists>c. c \<in> set (otpChallenges s) \<and> otpCandidate input c \<and> ef_now ef 0 < otp_expiresAt c \<and>
           verifySecret (prims A) (otp_codeHash c) (vo_code input) \<and>
           (\<exists>c'\<in>set (otpChallenges (other s)). otp_id c' = otp_id c \<and> otpOpen c') \<and>
           (\<forall>c'\<in>set (otpChallenges s'). otp_id c' = otp_id c \<longrightarrow> \<not> otpOpen c')"
proof -
  from verifyOtp_Some [OF run] obtain c u s1 where found: "withUser (otpCandidate input) s = Some (c, Some u)"
    and live: "ef_now ef 0 < otp_expiresAt c" and code: "verifySecret (prims A) (otp_codeHash c) (vo_code input)"
    and tx: "verifyOtpTx ef input c (u_id u) md (auditEventWriter A) (other s) = Inr (True, s1)"
    and s': "otpChallenges s' = otpChallenges s1" by blast
  have m: "matching (consumable (otp_id c)) (otpChallenges (other s)) = 1"
    and s1: "otpChallenges s1 = update_many (consumable (otp_id c)) (consumeOtp (ef_now ef 1)) (otpChallenges (other s))"
    using verifyOtpTx_Inr [OF tx] by auto
  have "\<forall>c'\<in>set (otpChallenges s'). otp_id c' = otp_id c \<longrightarrow> \<not> otpOpen c'"
    using otp_use.second_take_fails [of "otp_id c" "ef_now ef 1" "otpChallenges (other s)"]
    by (auto simp: s' s1 matching_zero)
  with withUser_SomeD [OF found] live code matching_1_ex [OF m] show ?thesis by blast
qed

theorem verifyOtp_single_use_witness:
  "\<exists>c s'. c \<in> set (otpChallenges demo_otp_store) \<and>
     verifyOtp demo_app demo_effects demo_effects (\<lambda>s. s) (demo_otp_input ''123456'') demo_meta demo_otp_store =
       (Inr (Some VERIFIED), s') \<and> (\<forall>c'\<in>set (otpChallenges s'). otp_id c' = otp_id c \<longrightarrow> \<not> otpOpen c')"
proof -
  obtain s' where run: "verifyOtp demo_app demo_effects demo_effects (\<lambda>s. s) (demo_otp_input ''123456'') demo_meta demo_otp_store =
     (Inr (Some VERIFIED), s')" using demo_verifies by blast
  from verifyOtp_single_use [OF run] run show ?thesis by blast
qed



text \<open>
  A password reset is complete and final. When a reset is confirmed, whatever other requests did
  between the lookup and the transaction, the token was unused and unexpired in both; afterwards the
  active account has the new password, every session and every refresh token of the user is revoked,
  no reset token of the user is open any more, and presenting the token again changes nothing.
\<close>
theorem confirmPasswordReset_final:
  assumes run: "confirmPasswordReset A ef other raw pw md s = (Inr True, s')"
    and hs: "candidateOpaqueTokenHashes (cenv A) (prims A) raw = Inr hs"
    and keys: "distinct (map prt_id (passwordResetTokens (other s)))"
    and only: "\<forall>a\<in>set (passwordResetTokens s'). \<forall>b\<in>set (passwordResetTokens s').
                 prt_tokenHash a \<in> set hs \<and> prt_tokenHash b \<in> set hs \<longrightarrow> prt_id a = prt_id b"
  shows "\<exists>reset\<in>set (passwordResetTokens s). resetOpen (ef_now ef 0) reset \<and>
           (\<exists>t\<in>set (passwordResetTokens (other s)). prt_id t = prt_id reset \<and> resetOpen (ef_now ef 1) t) \<and>
           (\<forall>u\<in>set (users s'). u_id u = prt_userId reset \<and> u_status u = U_ACTIVE \<and> u_deletedAt u = None \<longrightarrow>
              u_passwordHash u = Some (hashSecret (prims A) pw)) \<and>
           revoked_sessions (\<lambda>x. ses_userId x = prt_userId reset) s' \<and>
           revoked_tokens (\<lambda>t. rt_userId t = prt_userId reset) s' \<and>
           (\<forall>t\<in>set (passwordResetTokens s'). \<forall>now. prt_userId t = prt_userId reset \<longrightarrow> \<not> resetOpen now t) \<and>
           confirmPasswordReset A ef' other' raw pw' md' s' = (Inr False, s')"
proof -
  from confirmPasswordReset_True [OF run] hs obtain reset s1 where
    r: "find_first (\<lambda>t. prt_tokenHash t \<in> set hs \<and> resetOpen (ef_now ef 0) t) (passwordResetTokens s) = Some reset"
    and tx: "confirmResetTx ef reset (hashSecret (prims A) pw) md (auditEventWriter A) (other s) = Inr (True, s1)"
    and s': "passwordResetTokens s' = passwordResetTokens s1" "users s' = users s1" "sessions s' = sessions s1"
      "refreshTokens s' = refreshTokens s1" by auto
  note c = confirmResetTx_True [OF tx]
  note r' = find_first_SomeD [OF r]
  obtain t where t: "t \<in> set (passwordResetTokens (other s))" "prt_id t = prt_id reset"
    "prt_tokenHash t = prt_tokenHash reset" "resetOpen (ef_now ef 1) t"
    using c matching_1_ex by blast
  have closed: "\<not> resetOpen now x" if "x \<in> set (passwordResetTokens s')" "prt_userId x = prt_userId reset \<or> prt_id x = prt_id reset" for x now
    using reset_closes_all [OF keys, of reset "ef_now ef 1" x now] c that by (auto simp: s')
  have kept: "\<exists>x\<in>set (passwordResetTokens s'). prt_id x = prt_id reset \<and> prt_tokenHash x \<in> set hs"
  proof -
    have "useReset (ef_now ef 1) t \<in> set (passwordResetTokens s')"
      using c t by (force simp: s' set_update_many useReset_def image_iff)
    then show ?thesis using t r' by (intro bexI [of _ "useReset (ef_now ef 1) t"]) (simp_all add: useReset_def)
  qed
  have "find_first (\<lambda>x. prt_tokenHash x \<in> set hs \<and> resetOpen (ef_now ef' 0) x) (passwordResetTokens s') = None"
    unfolding find_first_None
  proof (intro ballI notI)
    fix x
    assume x: "x \<in> set (passwordResetTokens s')" "prt_tokenHash x \<in> set hs \<and> resetOpen (ef_now ef' 0) x"
    from kept obtain y where "y \<in> set (passwordResetTokens s')" "prt_id y = prt_id reset" "prt_tokenHash y \<in> set hs" by blast
    with only x have "prt_id x = prt_id reset" by metis
    with closed x show False by blast
  qed
  from confirmPasswordReset_gone [OF hs this]
  have again: "confirmPasswordReset A ef' other' raw pw' md' s' = (Inr False, s')" .
  have pws: "\<forall>u\<in>set (users s'). u_id u = prt_userId reset \<and> u_status u = U_ACTIVE \<and> u_deletedAt u = None \<longrightarrow>
      u_passwordHash u = Some (hashSecret (prims A) pw)"
    using c by (auto simp: s' set_update_many)
  have "revoked_sessions (\<lambda>x. ses_userId x = prt_userId reset) s'" "revoked_tokens (\<lambda>t. rt_userId t = prt_userId reset) s'"
    using c by (simp_all add: revoked_sessions_def revoked_tokens_def s')
  note rev = this
  show ?thesis
  proof (rule bexI [of _ reset], intro conjI)
    show "\<exists>t\<in>set (passwordResetTokens (other s)). prt_id t = prt_id reset \<and> resetOpen (ef_now ef 1) t"
      using t by blast
    show "\<forall>t\<in>set (passwordResetTokens s'). \<forall>now. prt_userId t = prt_userId reset \<longrightarrow> \<not> resetOpen now t"
      using closed by blast
  qed (use again pws rev r' in simp_all)
qed

theorem confirmPasswordReset_final_witness:
  "\<exists>s'. confirmPasswordReset demo_app demo_effects (\<lambda>s. s) ''t'' ''new'' demo_meta demo_reset_store = (Inr True, s') \<and>
     confirmPasswordReset demo_app demo_effects (\<lambda>s. s) ''t'' ''other'' demo_meta s' = (Inr False, s')"
proof -
  obtain s' where run: "confirmPasswordReset demo_app demo_effects (\<lambda>s. s) ''t'' ''new'' demo_meta demo_reset_store = (Inr True, s')"
    and rows: "map prt_tokenHash (passwordResetTokens s') = [''v1.legacy.aHMwb3BhcXVlLXRva2VudA'']"
    using demo_resets by (elim exE conjE) (rule that)
  have only: "\<forall>a\<in>set (passwordResetTokens s'). \<forall>b\<in>set (passwordResetTokens s').
      prt_tokenHash a \<in> set [''v1.legacy.aHMwb3BhcXVlLXRva2VudA'', ''aHMwdA''] \<and>
      prt_tokenHash b \<in> set [''v1.legacy.aHMwb3BhcXVlLXRva2VudA'', ''aHMwdA''] \<longrightarrow> prt_id a = prt_id b"
    using rows by (cases "passwordResetTokens s'") simp_all
  have keys: "distinct (map prt_id (passwordResetTokens demo_reset_store))" by (simp add: demo_reset_store_def)
  have "confirmPasswordReset demo_app demo_effects (\<lambda>s. s) ''t'' ''other'' demo_meta s' = (Inr False, s')"
    using confirmPasswordReset_final [OF run demo_invitation_hashes keys only, of demo_effects "\<lambda>s. s" "''other''" demo_meta]
    by (elim bexE conjE)
  with run show ?thesis by (intro exI conjI)
qed

end
