(* ===== verification/Access_Control.thy ===== *)
theory Access_Control
  imports Auth_Credentials
begin

text \<open>
  Who a request acts for and what it may do: the token transport of \<open>src/src/lib/auth-transport.ts\<close>
  and \<open>cookies.ts\<close>, the access tokens of \<open>src/src/lib/jwt.ts\<close>, the cross-site protection of
  \<open>src/src/middleware/csrf.ts\<close>, authentication and permission checks of
  \<open>src/src/middleware/access-control.ts\<close>, and \<open>src/src/lib/resource-ownership.ts\<close>. The verification of
  a signed token is an argument, and so is the answer of the permission cache.
\<close>

section \<open>Requests\<close>

text \<open>Header names are lower case, as Node delivers them; cookies and the body are untyped.\<close>

record request =
  rq_method :: string
  rq_path :: string
  rq_headers :: "(string \<times> string) list"
  rq_cookies :: "(string \<times> jsval) list"
  rq_signedCookies :: "(string \<times> jsval) list"
  rq_body :: jsval

definition header :: "string \<Rightarrow> request \<Rightarrow> string option" where
  "header name r = map_of (rq_headers r) name"

definition CLIENT_TYPE_HEADER :: string where
  "CLIENT_TYPE_HEADER = ''x-client-type''"

record cookieNames =
  cookie_access :: string
  cookie_refresh :: string
  cookie_csrf :: string

definition cookieNamesFor :: "bool \<Rightarrow> cookieNames" where
  "cookieNamesFor COOKIE_SECURE =
     \<lparr>cookie_access = (if COOKIE_SECURE then ''__Host-access_token'' else ''access_token''),
      cookie_refresh = (if COOKIE_SECURE then ''__Host-refresh_token'' else ''refresh_token''),
      cookie_csrf = (if COOKIE_SECURE then ''__Host-csrf_token'' else ''csrf_token'')\<rparr>"

definition isMobileClient :: "request \<Rightarrow> bool" where
  "isMobileClient r = (map_option toLowerCase (header CLIENT_TYPE_HEADER r) = Some ''mobile'')"

definition startsWith :: "string \<Rightarrow> string \<Rightarrow> bool" where
  "startsWith s p = (take (length p) s = p)"

fun nonEmpty :: "string \<Rightarrow> string option" where
  "nonEmpty [] = None"
| "nonEmpty s = Some s"

definition getBearerToken :: "request \<Rightarrow> string option" where
  "getBearerToken r =
     (case header ''authorization'' r of
        None \<Rightarrow> None
      | Some h \<Rightarrow> if startsWith h ''Bearer '' then nonEmpty (trim (drop (length ''Bearer '') h)) else None)"

fun stringValue :: "jsval \<Rightarrow> string option" where
  "stringValue (JStr s) = Some s"
| "stringValue _ = None"

definition resolveAccessToken :: "cookieNames \<Rightarrow> request \<Rightarrow> string option" where
  "resolveAccessToken names r =
     (case getBearerToken r of
        Some t \<Rightarrow> Some t
      | None \<Rightarrow> stringValue (getProp (cookie_access names) (rq_cookies r)))"

definition resolveRefreshToken :: "cookieNames \<Rightarrow> request \<Rightarrow> string option" where
  "resolveRefreshToken names r =
     (if isMobileClient r then stringValue (jprop ''refreshToken'' (rq_body r))
      else stringValue (getProp (cookie_refresh names) (rq_cookies r)))"

definition usesCookieAuth :: "request \<Rightarrow> bool" where
  "usesCookieAuth r \<longleftrightarrow> getBearerToken r = None \<and> \<not> isMobileClient r"

section \<open>Cross-site requests\<close>

definition unsafeMethods :: "string list" where
  "unsafeMethods = [''POST'', ''PUT'', ''PATCH'', ''DELETE'']"

text \<open>The result is the argument of \<open>next\<close>.\<close>

definition csrfProtection :: "cookieNames \<Rightarrow> request \<Rightarrow> thrown + unit" where
  "csrfProtection names r =
     (if rq_method r \<notin> set unsafeMethods then Inr ()
      else if rq_path r = ''/api/v1/webhooks/stripe'' then Inr ()
      else if \<not> usesCookieAuth r then Inr ()
      else
        let cookie = stringValue (getProp (cookie_csrf names) (rq_signedCookies r));
            hdr = header ''x-csrf-token'' r
        in if cookie = None \<or> \<not> truthy hdr \<or> \<not> constantTimeEqual (the cookie) (the hdr)
           then Inl (App invalidCsrf) else Inr ())"

section \<open>Access tokens\<close>

record AccessClaims =
  cl_userId :: ident
  cl_sessionId :: ident

text \<open>
  \<open>jwt\<close> is what the library answers for a token: the payload when the signature, the algorithm, the
  issuer, the audience and the expiry are right.
\<close>

definition verifyAccessToken :: "(string \<Rightarrow> jsval option) \<Rightarrow> string \<Rightarrow> thrown + AccessClaims" where
  "verifyAccessToken jwt token =
     (case jwt token of
        None \<Rightarrow> Inl (OtherError ''JWT verification failed'')
      | Some payload \<Rightarrow>
          (case (jprop ''sub'' payload, jprop ''sid'' payload) of
             (JStr sub, JStr sid) \<Rightarrow>
               if sub = [] then Inl (OtherError ''Access token is missing required claims'')
               else Inr \<lparr>cl_userId = sub, cl_sessionId = sid\<rparr>
           | _ \<Rightarrow> Inl (OtherError ''Access token is missing required claims'')))"

section \<open>Authentication\<close>

record auth_context =
  ac_claims :: AccessClaims
  ac_permissionEpoch :: int
  ac_organizationId :: "ident option"
  ac_organizationPermissionEpoch :: "int option"

definition liveSession :: "store \<Rightarrow> time \<Rightarrow> AccessClaims \<Rightarrow> Session \<Rightarrow> bool" where
  "liveSession s now claims x \<longleftrightarrow>
     ses_id x = cl_sessionId claims \<and> ses_userId x = cl_userId claims \<and> ses_revokedAt x = None \<and>
     ses_deletedAt x = None \<and> ses_expiresAt x > now \<and>
     (case userOf s (ses_userId x) of None \<Rightarrow> False | Some u \<Rightarrow> u_status u = U_ACTIVE \<and> u_deletedAt u = None)"

text \<open>A rejected promise anywhere in the handler ends in the last branch.\<close>

definition authenticate ::
    "cookieNames \<Rightarrow> (string \<Rightarrow> jsval option) \<Rightarrow> time \<Rightarrow> request \<Rightarrow> store \<Rightarrow> thrown + auth_context" where
  "authenticate names jwt now r s =
     (case resolveAccessToken names r of
        None \<Rightarrow> Inl (App (unauthenticated None))
      | Some token \<Rightarrow>
          if token = [] then Inl (App (unauthenticated None))
          else case verifyAccessToken jwt token of
            Inl _ \<Rightarrow> Inl (App (unauthenticated None))
          | Inr claims \<Rightarrow>
              (case find_first (liveSession s now claims) (sessions s) of
                 None \<Rightarrow> Inl (App (unauthenticated None))
               | Some session \<Rightarrow>
                   (let epoch = (case userOf s (ses_userId session) of None \<Rightarrow> 0 | Some u \<Rightarrow> u_permissionEpoch u) in
                    if \<not> truthy (ses_activeOrganizationId session)
                    then Inr \<lparr>ac_claims = claims, ac_permissionEpoch = epoch, ac_organizationId = None,
                              ac_organizationPermissionEpoch = None\<rparr>
                    else
                      let organizationId = the (ses_activeOrganizationId session) in
                      case organizationOf s organizationId of
                        None \<Rightarrow> Inl (App (forbidden (Some ''Organization is not active'')))
                      | Some g \<Rightarrow>
                          if org_deletedAt g \<noteq> None \<or> org_status g \<noteq> O_ACTIVE
                          then Inl (App (forbidden (Some ''Organization is not active'')))
                          else if find_first (\<lambda>m. mem_organizationId m = organizationId \<and> mem_userId m = cl_userId claims \<and>
                                    mem_status m = M_ACTIVE \<and> mem_deletedAt m = None) (memberships s) = None
                          then Inl (App (forbidden (Some ''Organization membership is not active'')))
                          else Inr \<lparr>ac_claims = claims, ac_permissionEpoch = epoch,
                                    ac_organizationId = Some organizationId,
                                    ac_organizationPermissionEpoch = Some (org_permissionEpoch g)\<rparr>)))"

section \<open>Permissions\<close>

definition roleGrants :: "store \<Rightarrow> ident \<Rightarrow> string \<Rightarrow> bool" where
  "roleGrants s roleId code \<longleftrightarrow>
     list_ex (\<lambda>rp. rp_roleId rp = roleId \<and> rp_deletedAt rp = None \<and>
        list_ex (\<lambda>p. perm_id p = rp_permissionId rp \<and> perm_code p = code \<and> perm_deletedAt p = None) (permissions s))
       (rolePermissions s)"

definition liveRole :: "store \<Rightarrow> ident \<Rightarrow> Role option" where
  "liveRole s roleId = find_first (\<lambda>r. role_id r = roleId \<and> role_deletedAt r = None) (roles s)"

definition hasGlobalGrant :: "ident \<Rightarrow> string \<Rightarrow> store \<Rightarrow> bool" where
  "hasGlobalGrant userId code s \<longleftrightarrow>
     list_ex (\<lambda>ur. ur_userId ur = userId \<and> ur_deletedAt ur = None \<and>
        (case liveRole s (ur_roleId ur) of None \<Rightarrow> False
         | Some r \<Rightarrow> role_organizationId r = None \<and> roleGrants s (role_id r) code)) (userRoles s)"

definition hasOrganizationGrant :: "ident \<Rightarrow> ident \<Rightarrow> string \<Rightarrow> store \<Rightarrow> bool" where
  "hasOrganizationGrant userId organizationId code s \<longleftrightarrow>
     list_ex (\<lambda>m. mem_userId m = userId \<and> mem_organizationId m = organizationId \<and> mem_status m = M_ACTIVE \<and>
        mem_deletedAt m = None \<and>
        (case liveRole s (mem_roleId m) of None \<Rightarrow> False | Some r \<Rightarrow> roleGrants s (role_id r) code)) (memberships s)"

datatype permission_scope = scope_global | scope_organization | scope_context

fun scopeText :: "permission_scope \<Rightarrow> string" where
  "scopeText scope_global = ''global''"
| "scopeText scope_organization = ''organization''"
| "scopeText scope_context = ''context''"

definition cacheKey :: "permission_scope \<Rightarrow> ident \<Rightarrow> int \<Rightarrow> ident \<Rightarrow> int \<Rightarrow> string \<Rightarrow> string" where
  "cacheKey scope userId userEpoch organizationId organizationEpoch code =
     join_with '':'' [''permission'', scopeText scope, userId, jsonNumber userEpoch, organizationId,
                      jsonNumber organizationEpoch, code]"

definition permissionCacheKey :: "auth_context \<Rightarrow> string \<Rightarrow> permission_scope \<Rightarrow> string" where
  "permissionCacheKey c code scope =
     cacheKey scope (cl_userId (ac_claims c)) (ac_permissionEpoch c) (orElse (ac_organizationId c) ''global'')
       (orElse (ac_organizationPermissionEpoch c) 0) code"

text \<open>
  The cache answers with an error, with nothing or with a stored text; a new decision is handed to it
  under the same key.
\<close>

datatype cache_answer = CacheError | CacheMiss | Cached string

definition grantDecision :: "auth_context \<Rightarrow> string \<Rightarrow> permission_scope \<Rightarrow> store \<Rightarrow> bool" where
  "grantDecision c code scope s =
     (let userId = cl_userId (ac_claims c);
          allowed = scope \<noteq> scope_organization \<and> hasGlobalGrant userId code s
      in if \<not> allowed \<and> scope \<noteq> scope_global \<and> truthy (ac_organizationId c)
         then hasOrganizationGrant userId (the (ac_organizationId c)) code s else allowed)"

definition permissionGuard ::
    "(string \<Rightarrow> cache_answer) \<Rightarrow> auth_context \<Rightarrow> string \<Rightarrow> permission_scope \<Rightarrow> store \<Rightarrow> (thrown + unit) \<times> (string \<times> string) option" where
  "permissionGuard cache c code scope s =
     (if scope = scope_organization \<and> \<not> truthy (ac_organizationId c)
      then (Inl (App (forbidden (Some ''An active organization is required''))), None)
      else
        let key = permissionCacheKey c code scope in
        if cache key = Cached ''1'' then (Inr (), None)
        else if cache key = Cached ''0'' then (Inl (App (forbidden None)), None)
        else
          let allowed = grantDecision c code scope s in
          (if allowed then Inr () else Inl (App (forbidden None)), Some (key, if allowed then ''1'' else ''0'')))"

text \<open>
  The handler chains of the routes: authentication, the per-user rate limit, whose outcome for a user
  is an argument, and the permission check.
\<close>

definition permissionChain ::
    "cookieNames \<Rightarrow> (string \<Rightarrow> jsval option) \<Rightarrow> time \<Rightarrow> (ident \<Rightarrow> thrown + unit) \<Rightarrow> (string \<Rightarrow> cache_answer) \<Rightarrow>
     permission_scope \<Rightarrow> string \<Rightarrow> request \<Rightarrow> store \<Rightarrow> thrown + auth_context" where
  "permissionChain names jwt now userIdentityRateLimit cache scope code r s =
     (case authenticate names jwt now r s of
        Inl e \<Rightarrow> Inl e
      | Inr c \<Rightarrow>
          (case userIdentityRateLimit (cl_userId (ac_claims c)) of
             Inl e \<Rightarrow> Inl e
           | Inr _ \<Rightarrow> map_sum (\<lambda>e. e) (\<lambda>_. c) (fst (permissionGuard cache c code scope s))))"

definition requirePermission where
  "requirePermission names jwt now limit cache = permissionChain names jwt now limit cache scope_global"

definition requireOrgPermission where
  "requireOrgPermission names jwt now limit cache = permissionChain names jwt now limit cache scope_organization"

definition requireContextPermission where
  "requireContextPermission names jwt now limit cache = permissionChain names jwt now limit cache scope_context"

definition assertResourceOwner :: "ident \<Rightarrow> ident \<Rightarrow> thrown + unit" where
  "assertResourceOwner ownerUserId actorUserId = (if ownerUserId \<noteq> actorUserId then Inl (App (forbidden None)) else Inr ())"

section \<open>Lemmas\<close>

lemma truthy_the: "truthy v \<Longrightarrow> v = Some (the v)"
  by (cases v) auto

lemma authenticate_Inr:
  assumes "authenticate names jwt now r s = Inr c"
  shows "\<exists>x\<in>set (sessions s). liveSession s now (ac_claims c) x \<and>
    (case ac_organizationId c of
       None \<Rightarrow> True
     | Some g \<Rightarrow> ses_activeOrganizationId x = Some g \<and>
         (\<exists>m\<in>set (memberships s). mem_organizationId m = g \<and> mem_userId m = cl_userId (ac_claims c) \<and>
            mem_status m = M_ACTIVE \<and> mem_deletedAt m = None) \<and>
         (\<exists>o'. organizationOf s g = Some o' \<and> org_status o' = O_ACTIVE \<and> org_deletedAt o' = None))"
proof -
  define mem where "mem g u = find_first (\<lambda>m. mem_organizationId m = g \<and> mem_userId m = u \<and> mem_status m = M_ACTIVE \<and>
    mem_deletedAt m = None) (memberships s)" for g u
  from assms obtain claims x where x: "find_first (liveSession s now claims) (sessions s) = Some x"
    and claims: "ac_claims c = claims"
    and rest: "(\<not> truthy (ses_activeOrganizationId x) \<and> ac_organizationId c = None) \<or>
      (truthy (ses_activeOrganizationId x) \<and> ac_organizationId c = Some (the (ses_activeOrganizationId x)) \<and>
       (\<exists>o'. organizationOf s (the (ses_activeOrganizationId x)) = Some o' \<and> org_status o' = O_ACTIVE \<and> org_deletedAt o' = None) \<and>
       mem (the (ses_activeOrganizationId x)) (cl_userId claims) \<noteq> None)"
    unfolding authenticate_def Let_def mem_def [symmetric]
    by (auto split: option.split_asm if_split_asm sum.split_asm)
  note x' = find_first_SomeD [OF x]
  show ?thesis
  proof (cases "truthy (ses_activeOrganizationId x)")
    case False
    with x' claims rest show ?thesis by (intro bexI [of _ x]) auto
  next
    case True
    then obtain g where g: "ses_activeOrganizationId x = Some g" using truthy_the by blast
    with True rest have c: "ac_organizationId c = Some g" "mem g (cl_userId claims) \<noteq> None"
      "\<exists>o'. organizationOf s g = Some o' \<and> org_status o' = O_ACTIVE \<and> org_deletedAt o' = None" by auto
    then obtain m where "mem g (cl_userId claims) = Some m" by blast
    from find_first_SomeD [OF this [unfolded mem_def]]
    have "\<exists>m\<in>set (memberships s). mem_organizationId m = g \<and> mem_userId m = cl_userId claims \<and>
        mem_status m = M_ACTIVE \<and> mem_deletedAt m = None" by blast
    with x' claims g c show ?thesis by (intro bexI [of _ x]) simp_all
  qed
qed

text \<open>No access token of a revoked session is accepted.\<close>

lemma authenticate_revoked:
  "revoked_sessions which s \<Longrightarrow> authenticate names jwt now r s = Inr c \<Longrightarrow>
   \<exists>x\<in>set (sessions s). ses_id x = cl_sessionId (ac_claims c) \<and> ses_userId x = cl_userId (ac_claims c) \<and> \<not> which x"
  using authenticate_Inr [of names jwt now r s c] by (auto simp: revoked_sessions_def liveSession_def)

lemma revokeAllSessions_Inr:
  "revokeAllSessions A ef u md s = (Inr (), s') \<Longrightarrow> revoked_sessions (\<lambda>x. ses_userId x = u) s' \<and> revoked_tokens (\<lambda>t. rt_userId t = u) s'"
proof -
  assume "revokeAllSessions A ef u md s = (Inr (), s')"
  then have "sessions s' = update_many (\<lambda>x. ses_userId x = u \<and> ses_revokedAt x = None \<and> ses_deletedAt x = None)
      (\<lambda>x. x\<lparr>ses_revokedAt := Some (ef_now ef 0), ses_revokeReason := Some ''user_logout_all''\<rparr>) (sessions s)"
    and "refreshTokens s' = update_many (\<lambda>t. rt_userId t = u \<and> rt_revokedAt t = None \<and> rt_deletedAt t = None)
      (\<lambda>t. t\<lparr>rt_revokedAt := Some (ef_now ef 1)\<rparr>) (refreshTokens s)"
    by (auto simp: revokeAllSessions_def tx_simps)
  from revoked_after_sessions [OF this(1)] revoked_after_tokens [OF this(2)] show ?thesis by simp
qed

lemma removed_member_gone:
  assumes keys: "distinct (map mem_id (memberships s))"
    and uniq: "\<forall>a\<in>set (memberships s). \<forall>b\<in>set (memberships s).
       membershipKey org u a \<and> membershipKey org u b \<longrightarrow> a = b"
    and run: "removeMember A ef org u actor md s = (Inr (), s')"
  shows "\<forall>m\<in>set (memberships s'). membershipKey org u m \<longrightarrow> mem_deletedAt m \<noteq> None"
proof -
  from removeMember_Inr [OF run] obtain t where
    t: "find_first (\<lambda>m. membershipKey org u m \<and> mem_deletedAt m = None) (memberships s) = Some t"
    and s': "memberships s' = update_many (\<lambda>m. mem_id m = mem_id t \<and> mem_deletedAt m = None)
      (\<lambda>m. m\<lparr>mem_deletedAt := Some (ef_now ef 0), mem_status := M_SUSPENDED\<rparr>) (memberships s)" by blast
  note t' = find_first_SomeD [OF t]
  show ?thesis
  proof (intro ballI impI)
    fix m'
    assume "m' \<in> set (memberships s')" and key: "membershipKey org u m'"
    then obtain m where m: "m \<in> set (memberships s)"
      "m' = (if mem_id m = mem_id t \<and> mem_deletedAt m = None
             then m\<lparr>mem_deletedAt := Some (ef_now ef 0), mem_status := M_SUSPENDED\<rparr> else m)"
      by (auto simp: s' set_update_many)
    then have "membershipKey org u m" using key by (auto simp: membershipKey_def split: if_splits)
    with uniq m t' have "m = t" by blast
    with m t' show "mem_deletedAt m' \<noteq> None" by simp
  qed
qed

lemma stringValue_Some: "stringValue v = Some t \<longleftrightarrow> v = JStr t"
  by (cases v) auto

lemma truthy_iff: "truthy v \<longleftrightarrow> (\<exists>t. v = Some t \<and> t \<noteq> [])"
  by (cases v) auto

section \<open>Requests to run\<close>

definition demo_jwt :: "string \<Rightarrow> jsval option" where
  "demo_jwt token = (if token = ''a1'' then Some (JObj [(''sub'', JStr ''ann''), (''sid'', JStr ''s1'')]) else None)"

definition demo_request :: "(string \<times> string) list \<Rightarrow> request" where
  "demo_request hs = \<lparr>rq_method = ''POST'', rq_path = ''/api/v1/users'', rq_headers = hs, rq_cookies = [(''access_token'', JStr ''a1'')],
     rq_signedCookies = [(''csrf_token'', JStr ''x'')], rq_body = Undefined\<rparr>"

definition demo_member_store :: store where
  "demo_member_store = demo_tenant\<lparr>sessions := [(newSession ''s1'' 0 ''ann'' (Some ''o1'') ''ip'' None 999999)],
     memberships := [activeMembership ''m1'' 0 ''o1'' ''ann'' ''r1'', activeMembership ''m2'' 0 ''o1'' ''bob'' ''r1'']\<rparr>"

lemma demo_logs_out:
  "\<exists>s'. revokeAllSessions demo_app demo_effects ''ann'' demo_meta demo_member_store = (Inr (), s')"
  by (simp add: revokeAllSessions_def auditedTransaction_def tx_run revokeSessions_def revokeTokens_def publishChatRevocation_def)

lemma demo_removes:
  "\<exists>s'. removeMember demo_app demo_effects ''o1'' ''ann'' ''bob'' demo_meta demo_member_store = (Inr (), s')"
  by (simp add: removeMember_def auditedTransaction_def tx_run publishChatRevocation_def demo_member_store_def
      demo_tenant_simps membershipKey_def isActiveOwnerRow_def countActiveOwners_def activeOwner_def roleOf_def bumpEpoch_def)

section \<open>Properties\<close>

text \<open>
  cookie sessions are protected from cross-site requests. A request with a changing method to any
  path but the payment webhook passes exactly when it authenticates by itself (bearer token or mobile
  client) or repeats the non-empty value of its signed cookie in the header; one that carries none of
  the three headers a foreign page cannot set is refused with the dedicated error, whatever cookies
  the browser adds.
\<close>
theorem csrfProtection_exact:
  assumes "rq_method r \<in> set unsafeMethods" and "rq_path r \<noteq> ''/api/v1/webhooks/stripe''"
  shows "(csrfProtection names r = Inr () \<longleftrightarrow>
            getBearerToken r \<noteq> None \<or> isMobileClient r \<or>
            (\<exists>t. t \<noteq> [] \<and> getProp (cookie_csrf names) (rq_signedCookies r) = JStr t \<and> header ''x-csrf-token'' r = Some t)) \<and>
         ({''authorization'', CLIENT_TYPE_HEADER, ''x-csrf-token''} \<inter> fst ` set (rq_headers r) = {} \<longrightarrow>
            csrfProtection names r = Inl (App invalidCsrf))"
proof -
  have none: "header n r = None" if "n \<notin> fst ` set (rq_headers r)" for n
    using that by (simp add: header_def map_of_eq_None_iff)
  have "csrfProtection names r =
      (if usesCookieAuth r \<and> \<not> (\<exists>t. t \<noteq> [] \<and> getProp (cookie_csrf names) (rq_signedCookies r) = JStr t \<and>
                                   header ''x-csrf-token'' r = Some t)
       then Inl (App invalidCsrf) else Inr ())"
    using assms
    by (cases "stringValue (getProp (cookie_csrf names) (rq_signedCookies r))"; cases "header ''x-csrf-token'' r")
       (auto simp: csrfProtection_def truthy_iff stringValue_Some)
  then show ?thesis by (auto simp: usesCookieAuth_def getBearerToken_def isMobileClient_def none)
qed

theorem csrfProtection_exact_witness:
  "csrfProtection (cookieNamesFor False) (demo_request []) = Inl (App invalidCsrf) \<and>
   csrfProtection (cookieNamesFor False) (demo_request [(''x-csrf-token'', ''x'')]) = Inr ()"
proof -
  have "csrfProtection (cookieNamesFor False) (demo_request []) = Inl (App invalidCsrf)"
    using csrfProtection_exact [of "demo_request []" "cookieNamesFor False"]
    by (simp add: demo_request_def unsafeMethods_def)
  moreover have "csrfProtection (cookieNamesFor False) (demo_request [(''x-csrf-token'', ''x'')]) = Inr ()"
    using csrfProtection_exact [of "demo_request [(''x-csrf-token'', ''x'')]" "cookieNamesFor False"]
    by (simp add: demo_request_def unsafeMethods_def cookieNamesFor_def getProp_def header_def)
  ultimately show ?thesis ..
qed

text \<open>
  C28: logging out everywhere takes effect at once. After it returns, no request whatsoever is
  authenticated as that user, although unexpired access tokens are still around, and no refresh token
  of the user is exchanged.
\<close>
theorem revokeAllSessions_immediate:
  assumes run: "revokeAllSessions A ef u md s = (Inr (), s')"
  shows "(\<forall>c. authenticate names jwt now r s' = Inr c \<longrightarrow> cl_userId (ac_claims c) \<noteq> u) \<and>
         (\<forall>hs t pair. candidateOpaqueTokenHashes (cenv A) (prims A) raw = Inr hs \<and> found_token hs s' = Some t \<and>
            rt_userId t = u \<longrightarrow> fst (rotateRefreshToken A ef' raw md' s') \<noteq> Inr (Some pair))"
proof (intro conjI allI impI)
  fix c
  assume "authenticate names jwt now r s' = Inr c"
  with revokeAllSessions_Inr [OF run] authenticate_revoked [of "\<lambda>x. ses_userId x = u" s' names jwt now r c]
  show "cl_userId (ac_claims c) \<noteq> u" by auto
next
  fix hs t pair
  assume h: "candidateOpaqueTokenHashes (cenv A) (prims A) raw = Inr hs \<and> found_token hs s' = Some t \<and> rt_userId t = u"
  then have "rt_revokedAt t \<noteq> None"
    using revokeAllSessions_Inr [OF run] found_tokenD [of hs s' t] by (auto simp: revoked_tokens_def)
  with h show "fst (rotateRefreshToken A ef' raw md' s') \<noteq> Inr (Some pair)"
    using rotateRefreshToken_revoked by blast
qed

theorem revokeAllSessions_immediate_witness:
  "\<exists>s'. revokeAllSessions demo_app demo_effects ''ann'' demo_meta demo_member_store = (Inr (), s') \<and>
     (\<forall>c. authenticate (cookieNamesFor False) demo_jwt 5 (demo_request []) s' = Inr c \<longrightarrow> cl_userId (ac_claims c) \<noteq> ''ann'')"
proof -
  obtain s' where run: "revokeAllSessions demo_app demo_effects ''ann'' demo_meta demo_member_store = (Inr (), s')"
    using demo_logs_out by blast
  with revokeAllSessions_immediate [OF run, of "cookieNamesFor False" demo_jwt 5 "demo_request []"] show ?thesis by auto
qed

text \<open>
  A removed member is locked out at once. After a removal no request of that user acts in the
  organization, even with a session that was opened in it; users have one membership per organization.
\<close>
theorem removeMember_immediate:
  assumes "distinct (map mem_id (memberships s))"
    and "\<forall>a\<in>set (memberships s). \<forall>b\<in>set (memberships s). membershipKey org u a \<and> membershipKey org u b \<longrightarrow> a = b"
    and "removeMember A ef org u actor md s = (Inr (), s')"
    and "authenticate names jwt now r s' = Inr c" and "cl_userId (ac_claims c) = u"
  shows "ac_organizationId c \<noteq> Some org"
proof
  assume "ac_organizationId c = Some org"
  with authenticate_Inr [OF assms(4)] assms(5) obtain m where
    "m \<in> set (memberships s')" "membershipKey org u m" "mem_deletedAt m = None"
    by (auto simp: membershipKey_def)
  with removed_member_gone [OF assms(1-3)] show False by blast
qed

theorem removeMember_immediate_witness:
  "\<exists>s' c. removeMember demo_app demo_effects ''o1'' ''ann'' ''bob'' demo_meta demo_member_store = (Inr (), s') \<and>
     authenticate (cookieNamesFor False) demo_jwt 5 (demo_request []) s' = Inr c \<and> ac_organizationId c \<noteq> Some ''o1''"
proof -
  let ?s' = "snd (removeMember demo_app demo_effects ''o1'' ''ann'' ''bob'' demo_meta demo_member_store)"
  have run: "removeMember demo_app demo_effects ''o1'' ''ann'' ''bob'' demo_meta demo_member_store = (Inr (), ?s')"
    using demo_removes by auto
  have "\<exists>c. authenticate (cookieNamesFor False) demo_jwt 5 (demo_request []) ?s' = Inr c \<and> cl_userId (ac_claims c) = ''ann''"
    by (simp add: removeMember_def auditedTransaction_def tx_run publishChatRevocation_def demo_member_store_def
        demo_tenant_simps membershipKey_def isActiveOwnerRow_def countActiveOwners_def activeOwner_def roleOf_def
        bumpEpoch_def newSession_def)
       (simp add: authenticate_def resolveAccessToken_def getBearerToken_def header_def demo_request_def getProp_def
        cookieNamesFor_def verifyAccessToken_def demo_jwt_def liveSession_def userOf_def find_first_def)
  then obtain c where c: "authenticate (cookieNamesFor False) demo_jwt 5 (demo_request []) ?s' = Inr c" "cl_userId (ac_claims c) = ''ann''"
    by blast
  have "ac_organizationId c \<noteq> Some ''o1''"
    by (rule removeMember_immediate [OF _ _ run c]) (simp_all add: demo_member_store_def activeMembership_def membershipKey_def)
  with run c show ?thesis by blast
qed

end
