(* ===== verification/Roles.thy ===== *)
theory Roles
  imports Access_Control
begin

text \<open>
  Platform roles and their permissions, \<open>src/src/modules/roles/roles.service.ts\<close>, and how a change of a
  grant invalidates the cached permission decisions of \<open>Access_Control\<close>.
\<close>

section \<open>Operations\<close>

definition bumpPermissionEpochForRoleHolders :: "ident \<Rightarrow> (store, nat) tx" where
  "bumpPermissionEpochForRoleHolders roleId =
     andThen (reading (\<lambda>s. map ur_userId (filter (\<lambda>ur. ur_roleId ur = roleId \<and> ur_deletedAt ur = None) (userRoles s)))) (\<lambda>holders.
     updateMany users users_update (\<lambda>u. u_id u \<in> set holders \<and> u_deletedAt u = None)
       (\<lambda>u. u\<lparr>u_permissionEpoch := u_permissionEpoch u + 1\<rparr>))"

definition permissionsOf :: "store \<Rightarrow> ident \<Rightarrow> Permission list" where
  "permissionsOf s roleId =
     concat (map (\<lambda>rp. filter (\<lambda>p. perm_id p = rp_permissionId rp) (permissions s))
       (filter (\<lambda>rp. rp_roleId rp = roleId \<and> rp_deletedAt rp = None) (rolePermissions s)))"

text \<open>The order of the listing is the database's; the caller passes the rows in it.\<close>

definition listRoles :: "Role list \<Rightarrow> store \<Rightarrow> (Role \<times> Permission list) list" where
  "listRoles orderedByName s =
     map (\<lambda>r. (r, permissionsOf s (role_id r))) (filter (\<lambda>r. role_deletedAt r = None) orderedByName)"

definition newRole :: "ident \<Rightarrow> time \<Rightarrow> string \<Rightarrow> string option \<Rightarrow> Role" where
  "newRole rid now name description =
     \<lparr>role_id = rid, role_organizationId = None, role_name = name, role_description = description,
      role_isSystem = False, role_createdAt = now, role_deletedAt = None\<rparr>"

text \<open>The nested create of the role's permissions: each code is connected to its permission row.\<close>

fun connectPermissions :: "(nat \<Rightarrow> ident) \<Rightarrow> nat \<Rightarrow> ident \<Rightarrow> string list \<Rightarrow> (store, unit) tx" where
  "connectPermissions ids n roleId [] = ret ()"
| "connectPermissions ids n roleId (code # codes) =
     andThen (findFirstOrThrow permissions (\<lambda>p. perm_code p = code)) (\<lambda>p.
     andThen (createRow rolePermissions rolePermissions_update
                (\<lambda>a b. rp_roleId a = rp_roleId b \<and> rp_permissionId a = rp_permissionId b)
                \<lparr>rp_id = ids n, rp_roleId = roleId, rp_permissionId = perm_id p, rp_deletedAt = None\<rparr>) (\<lambda>_.
     connectPermissions ids (Suc n) roleId codes))"

definition createRole ::
    "app \<Rightarrow> effects \<Rightarrow> string \<Rightarrow> string option \<Rightarrow> string list \<Rightarrow> ident \<Rightarrow> RequestMetadata \<Rightarrow> (store, Role) io" where
  "createRole A ef name description codes actorUserId metadata =
     auditedTransaction A (\<lambda>audit.
       andThen (createRow roles roles_update
                  (\<lambda>a b. role_organizationId a = role_organizationId b \<and> role_name a = role_name b)
                  (newRole (ef_id ef 0) (ef_now ef 0) name description)) (\<lambda>role.
       andThen (connectPermissions (ef_id ef) 1 (role_id role) codes) (\<lambda>_.
       andThen (audit (ef_id ef (length codes + 1)) (ef_now ef 1)
                  (audit_of metadata (Some actorUserId) ''role.created'' ''role'' (Some (role_id role)) None)) (\<lambda>_.
       ret role))))"

definition userRoleKey :: "ident \<Rightarrow> ident \<Rightarrow> UserRole \<Rightarrow> bool" where
  "userRoleKey userId roleId ur \<longleftrightarrow> ur_userId ur = userId \<and> ur_roleId ur = roleId"

definition assignRole ::
    "app \<Rightarrow> effects \<Rightarrow> ident \<Rightarrow> ident \<Rightarrow> ident \<Rightarrow> RequestMetadata \<Rightarrow> (store, UserRole) io" where
  "assignRole A ef userId roleId actorUserId metadata =
     auditedTransaction A (\<lambda>audit.
       andThen (findFirst roles (\<lambda>r. role_id r = roleId \<and> role_organizationId r = None \<and> role_deletedAt r = None)) (\<lambda>role.
       andThen (require (role \<noteq> None) (App (badRequest (Some
         ''Platform role assignment requires a global role; organization roles belong on memberships'') None))) (\<lambda>_.
       andThen (upsertRow userRoles userRoles_update (userRoleKey userId roleId)
                  \<lparr>ur_id = ef_id ef 0, ur_userId = userId, ur_roleId = roleId, ur_deletedAt = None\<rparr>
                  (\<lambda>ur. ur\<lparr>ur_deletedAt := None\<rparr>)) (\<lambda>assignment.
       andThen (bumpEpoch userId) (\<lambda>_.
       andThen (audit (ef_id ef 1) (ef_now ef 0)
                  (audit_of metadata (Some actorUserId) ''role.assigned'' ''user'' (Some userId)
                     (Some (JObj [(''roleId'', JStr roleId)])))) (\<lambda>_.
       ret assignment))))))"

definition revokeRole ::
    "app \<Rightarrow> effects \<Rightarrow> ident \<Rightarrow> ident \<Rightarrow> ident \<Rightarrow> RequestMetadata \<Rightarrow> (store, bool) io" where
  "revokeRole A ef userId roleId actorUserId metadata =
     auditedTransaction A (\<lambda>audit.
       andThen (updateMany userRoles userRoles_update (\<lambda>ur. userRoleKey userId roleId ur \<and> ur_deletedAt ur = None)
                  (\<lambda>ur. ur\<lparr>ur_deletedAt := Some (ef_now ef 0)\<rparr>)) (\<lambda>revoked.
       if revoked = 0 then ret False
       else
         andThen (bumpEpoch userId) (\<lambda>_.
         andThen (audit (ef_id ef 0) (ef_now ef 1)
                    (audit_of metadata (Some actorUserId) ''role.revoked'' ''user'' (Some userId)
                       (Some (JObj [(''roleId'', JStr roleId)])))) (\<lambda>_.
         ret True))))"

text \<open>\<open>[...new Set(xs)]\<close> keeps the first occurrence of each element.\<close>

fun dedupe :: "'a list \<Rightarrow> 'a list" where
  "dedupe [] = []"
| "dedupe (x # xs) = x # filter (\<lambda>y. y \<noteq> x) (dedupe xs)"

fun grantPermissions :: "(nat \<Rightarrow> ident) \<Rightarrow> nat \<Rightarrow> ident \<Rightarrow> ident list \<Rightarrow> (store, unit) tx" where
  "grantPermissions ids n roleId [] = ret ()"
| "grantPermissions ids n roleId (pid # pids) =
     andThen (upsertRow rolePermissions rolePermissions_update (\<lambda>rp. rp_roleId rp = roleId \<and> rp_permissionId rp = pid)
                \<lparr>rp_id = ids n, rp_roleId = roleId, rp_permissionId = pid, rp_deletedAt = None\<rparr>
                (\<lambda>rp. rp\<lparr>rp_deletedAt := None\<rparr>)) (\<lambda>_.
     grantPermissions ids (Suc n) roleId pids)"

definition updateRolePermissions ::
    "app \<Rightarrow> effects \<Rightarrow> ident \<Rightarrow> string list \<Rightarrow> ident \<Rightarrow> RequestMetadata \<Rightarrow> (store, Role \<times> Permission list) io" where
  "updateRolePermissions A ef roleId permissionCodes actorUserId metadata =
     auditedTransaction A (\<lambda>audit.
       andThen (findFirst roles (\<lambda>r. role_id r = roleId \<and> role_deletedAt r = None)) (\<lambda>found.
       case found of
         None \<Rightarrow> throw (App (notFound (Some ''Role not found'')))
       | Some role \<Rightarrow>
         let uniqueCodes = dedupe permissionCodes in
         andThen (reading (\<lambda>s. filter (\<lambda>p. perm_code p \<in> set uniqueCodes \<and> perm_deletedAt p = None) (permissions s))) (\<lambda>found.
         andThen (require (length found = length uniqueCodes)
                    (App (badRequest (Some (''Unknown permission codes: '' @
                       join_with '', '' (filter (\<lambda>c. c \<notin> perm_code ` set found) uniqueCodes))) None))) (\<lambda>_.
         andThen (reading (\<lambda>s. map rp_permissionId (filter (\<lambda>rp. rp_roleId rp = roleId \<and> rp_deletedAt rp = None) (rolePermissions s)))) (\<lambda>current.
         let currentIds = dedupe current; desiredIds = dedupe (map perm_id found);
             toRemove = filter (\<lambda>i. i \<notin> set desiredIds) currentIds in
         andThen (if toRemove = [] then ret 0
                  else updateMany rolePermissions rolePermissions_update
                         (\<lambda>rp. rp_roleId rp = roleId \<and> rp_permissionId rp \<in> set toRemove \<and> rp_deletedAt rp = None)
                         (\<lambda>rp. rp\<lparr>rp_deletedAt := Some (ef_now ef 0)\<rparr>)) (\<lambda>_.
         andThen (grantPermissions (ef_id ef) 0 roleId (filter (\<lambda>i. i \<notin> set currentIds) desiredIds)) (\<lambda>_.
         andThen (case role_organizationId role of
                    Some g \<Rightarrow> andThen (updateRow organizations organizations_update (\<lambda>x. org_id x = g \<and> org_deletedAt x = None)
                                (\<lambda>x. x\<lparr>org_permissionEpoch := org_permissionEpoch x + 1\<rparr>)) (\<lambda>_. ret 1)
                  | None \<Rightarrow> bumpPermissionEpochForRoleHolders roleId) (\<lambda>_.
         andThen (audit (ef_id ef (length desiredIds)) (ef_now ef 1)
                    (audit_of metadata (Some actorUserId) ''role.permissions_updated'' ''role'' (Some roleId)
                       (Some (JObj [(''permissions'', JArr (map JStr uniqueCodes))])))) (\<lambda>_.
         andThen (findFirstOrThrow roles (\<lambda>r. role_id r = roleId \<and> role_deletedAt r = None)) (\<lambda>updated.
         reading (\<lambda>s. (updated, permissionsOf s roleId))))))))))))"

section \<open>Cache keys\<close>

lemma first_part:
  "x \<notin> set p \<Longrightarrow> x \<notin> set q \<Longrightarrow> p @ x # r = q @ x # t \<longleftrightarrow> p = q \<and> r = t"
proof (induction p arbitrary: q)
  case Nil
  then show ?case by (cases q) auto
next
  case (Cons a p)
  show ?case
  proof (cases q)
    case Nil
    with Cons.prems show ?thesis by auto
  next
    case (Cons b q')
    with Cons.prems Cons.IH [of q'] show ?thesis by simp
  qed
qed

lemma jsonNumber_no_colon: "CHR '':'' \<notin> set (jsonNumber n)"
proof -
  have "\<not> numchar CHR '':''" by code_simp
  then show ?thesis using jsonNumber_chars(1) [of n] by blast
qed

lemma scopeText_no_colon: "CHR '':'' \<notin> set (scopeText x)"
  by (cases x) simp_all

text \<open>Identifiers are UUIDs, without colons; then a key determines the user and the epoch it was made for.\<close>

lemma cacheKey_user_epoch:
  assumes "cacheKey sc u e g ge code = cacheKey sc' u' e' g' ge' code'"
    and "CHR '':'' \<notin> set u" "CHR '':'' \<notin> set u'"
  shows "u = u' \<and> e = e'"
proof -
  note parts = first_part [of "CHR '':''"]
  from assms(1) have "scopeText sc @ CHR '':'' # u @ CHR '':'' # jsonNumber e @ CHR '':'' # g @ CHR '':'' # jsonNumber ge @ CHR '':'' # code =
      scopeText sc' @ CHR '':'' # u' @ CHR '':'' # jsonNumber e' @ CHR '':'' # g' @ CHR '':'' # jsonNumber ge' @ CHR '':'' # code'"
    by (simp add: cacheKey_def)
  then show ?thesis
    using assms(2,3) jsonNumber_eq [of e e'] by (simp add: parts scopeText_no_colon jsonNumber_no_colon)
qed

text \<open>
  What holds of the cache at all times, since the keys are made from epochs that were read from the
  database and epochs only grow: no stored decision carries an epoch the user has not reached yet.
\<close>

definition cache_bounded :: "(string \<Rightarrow> cache_answer) \<Rightarrow> store \<Rightarrow> bool" where
  "cache_bounded cache s \<longleftrightarrow>
     (\<forall>sc u e g ge code v usr. CHR '':'' \<notin> set u \<and> cache (cacheKey sc u e g ge code) = Cached v \<and>
        userOf s u = Some usr \<longrightarrow> e \<le> u_permissionEpoch usr)"

text \<open>A request context as authentication makes it: with the epoch the user has now.\<close>

definition current_context :: "auth_context \<Rightarrow> store \<Rightarrow> bool" where
  "current_context c s \<longleftrightarrow>
     (\<exists>usr. userOf s (cl_userId (ac_claims c)) = Some usr \<and> u_permissionEpoch usr = ac_permissionEpoch c)"

lemma authenticate_current:
  assumes "authenticate names jwt now r s = Inr c"
  shows "current_context c s"
proof -
  from assms obtain claims x where x: "find_first (liveSession s now claims) (sessions s) = Some x"
    and c: "ac_claims c = claims"
      "ac_permissionEpoch c = (case userOf s (ses_userId x) of None \<Rightarrow> 0 | Some u \<Rightarrow> u_permissionEpoch u)"
    unfolding authenticate_def Let_def by (auto split: option.split_asm if_split_asm sum.split_asm)
  with find_first_SomeD [OF x] show ?thesis
    by (auto simp: current_context_def liveSession_def split: option.splits)
qed

lemma userOf_bumped:
  assumes keys: "distinct (map u_id (users s))" and m: "matching (\<lambda>x. u_id x = u \<and> u_deletedAt x = None) (users s) \<noteq> 0"
    and s': "users s' = update_many (\<lambda>x. u_id x = u \<and> u_deletedAt x = None)
       (\<lambda>x. x\<lparr>u_permissionEpoch := u_permissionEpoch x + 1\<rparr>) (users s)"
  shows "\<exists>usr. userOf s u = Some usr \<and> (\<exists>usr'. userOf s' u = Some usr' \<and> u_permissionEpoch usr' = u_permissionEpoch usr + 1)"
proof -
  obtain x where x: "x \<in> set (users s)" "u_id x = u" "u_deletedAt x = None"
    using m by (auto simp: matching_zero)
  have "userOf s u = Some x" using find_unique [OF keys x(1)] x(2) by (simp add: userOf_def)
  moreover have "userOf s' u = map_option (\<lambda>y. if u_id y = u \<and> u_deletedAt y = None
      then y\<lparr>u_permissionEpoch := u_permissionEpoch y + 1\<rparr> else y) (userOf s u)"
    by (simp add: userOf_def s' find_first_update_many)
  ultimately show ?thesis using x by simp
qed

text \<open>Once a user's epoch has been raised, the cache has nothing to say about that user.\<close>

lemma bumped_misses:
  assumes bounded: "cache_bounded cache s" and old: "userOf s u = Some usr"
    and new: "userOf s' u = Some usr'" "u_permissionEpoch usr' = u_permissionEpoch usr + 1"
    and c: "current_context c s'" "cl_userId (ac_claims c) = u" "CHR '':'' \<notin> set u"
  shows "cache (permissionCacheKey c code scope) \<noteq> Cached v"
proof
  assume "cache (permissionCacheKey c code scope) = Cached v"
  with bounded old c(2,3) have "ac_permissionEpoch c \<le> u_permissionEpoch usr"
    unfolding cache_bounded_def permissionCacheKey_def by blast
  with c new show False by (simp add: current_context_def)
qed

lemma guard_uncached:
  "(\<And>v. cache (permissionCacheKey c code scope) \<noteq> Cached v) \<Longrightarrow>
   fst (permissionGuard cache c code scope s) = Inr () \<longleftrightarrow>
     \<not> (scope = scope_organization \<and> \<not> truthy (ac_organizationId c)) \<and> grantDecision c code scope s"
  by (auto simp: permissionGuard_def Let_def)

lemma revokeRole_bumps:
  assumes "revokeRole A ef u r actor md s = (Inr True, s')"
  shows "matching (\<lambda>x. u_id x = u \<and> u_deletedAt x = None) (users s) \<noteq> 0 \<and>
    users s' = update_many (\<lambda>x. u_id x = u \<and> u_deletedAt x = None)
       (\<lambda>x. x\<lparr>u_permissionEpoch := u_permissionEpoch x + 1\<rparr>) (users s)"
  using assms by (auto simp: revokeRole_def tx_simps split: if_split_asm)

lemma changeMemberRole_bumps:
  assumes "changeMemberRole A ef org u r actor md s = (Inr m, s')"
  shows "matching (\<lambda>x. u_id x = u \<and> u_deletedAt x = None) (users s) \<noteq> 0 \<and>
    users s' = update_many (\<lambda>x. u_id x = u \<and> u_deletedAt x = None)
       (\<lambda>x. x\<lparr>u_permissionEpoch := u_permissionEpoch x + 1\<rparr>) (users s)"
  using assms by (auto simp: changeMemberRole_def tx_simps split: option.split_asm)

lemma removeMember_bumps:
  assumes "removeMember A ef org u actor md s = (Inr (), s')"
  shows "matching (\<lambda>x. u_id x = u \<and> u_deletedAt x = None) (users s) \<noteq> 0 \<and>
    users s' = update_many (\<lambda>x. u_id x = u \<and> u_deletedAt x = None)
       (\<lambda>x. x\<lparr>u_permissionEpoch := u_permissionEpoch x + 1\<rparr>) (users s)"
  using assms by (auto simp: removeMember_def tx_simps split: option.split_asm)

lemma bounded_bumped:
  assumes "cache_bounded cache s"
    and s': "users s' = update_many P (\<lambda>x. x\<lparr>u_permissionEpoch := u_permissionEpoch x + 1\<rparr>) (users s)"
  shows "cache_bounded cache s'"
proof -
  have "userOf s' i = map_option (\<lambda>y. if P y then y\<lparr>u_permissionEpoch := u_permissionEpoch y + 1\<rparr> else y) (userOf s i)"
    for i by (simp add: userOf_def s' find_first_update_many)
  then have grows: "\<exists>usr. userOf s i = Some usr \<and> u_permissionEpoch usr \<le> u_permissionEpoch usr'" if "userOf s' i = Some usr'" for i usr'
    using that by (auto split: if_splits)
  show ?thesis unfolding cache_bounded_def
  proof (intro allI impI)
    fix sc u e g ge code v usr'
    assume h: "CHR '':'' \<notin> set u \<and> cache (cacheKey sc u e g ge code) = Cached v \<and> userOf s' u = Some usr'"
    with grows obtain usr where "userOf s u = Some usr" "u_permissionEpoch usr \<le> u_permissionEpoch usr'" by blast
    moreover from h this assms(1) have "e \<le> u_permissionEpoch usr" unfolding cache_bounded_def by blast
    ultimately show "e \<le> u_permissionEpoch usr'" by simp
  qed
qed

lemma guard_writes_bounded:
  assumes bounded: "cache_bounded cache s" and c: "current_context c s" "CHR '':'' \<notin> set (cl_userId (ac_claims c))"
    and w: "snd (permissionGuard cache c code scope s) = Some (key, v)"
  shows "cache_bounded (cache(key := Cached v)) s"
proof -
  have key: "key = permissionCacheKey c code scope"
    using w by (auto simp: permissionGuard_def Let_def split: if_splits)
  show ?thesis unfolding cache_bounded_def
  proof (intro allI impI)
    fix sc u e g ge code' v' usr
    assume h: "CHR '':'' \<notin> set u \<and> (cache(key := Cached v)) (cacheKey sc u e g ge code') = Cached v' \<and> userOf s u = Some usr"
    show "e \<le> u_permissionEpoch usr"
    proof (cases "cacheKey sc u e g ge code' = key")
      case True
      then have "u = cl_userId (ac_claims c) \<and> e = ac_permissionEpoch c"
        using cacheKey_user_epoch h c(2) unfolding key permissionCacheKey_def by blast
      with h c(1) show ?thesis by (auto simp: current_context_def)
    next
      case False
      with h bounded show ?thesis unfolding cache_bounded_def fun_upd_def by metis
    qed
  qed
qed

section \<open>A platform to run\<close>

definition demo_platform :: store where
  "demo_platform = demo_tenant\<lparr>sessions := [newSession ''s1'' 0 ''ann'' None ''ip'' None 999999],
     userRoles := [\<lparr>ur_id = ''ur1'', ur_userId = ''ann'', ur_roleId = ''r1'', ur_deletedAt = None\<rparr>],
     permissions := [\<lparr>perm_id = ''p1'', perm_code = ''roles:read'', perm_deletedAt = None\<rparr>],
     rolePermissions := [\<lparr>rp_id = ''rp1'', rp_roleId = ''r1'', rp_permissionId = ''p1'', rp_deletedAt = None\<rparr>]\<rparr>"

definition demo_context :: "int \<Rightarrow> ident option \<Rightarrow> auth_context" where
  "demo_context epoch g = \<lparr>ac_claims = \<lparr>cl_userId = ''ann'', cl_sessionId = ''s1''\<rparr>, ac_permissionEpoch = epoch,
     ac_organizationId = g, ac_organizationPermissionEpoch = map_option (\<lambda>_. 0) g\<rparr>"

lemma demo_revokes:
  "\<exists>s'. revokeRole demo_app demo_effects ''ann'' ''r1'' ''bob'' demo_meta demo_platform = (Inr True, s') \<and>
     authenticate (cookieNamesFor False) demo_jwt 5 (demo_request []) s' = Inr (demo_context 1 None)"
  by (simp add: revokeRole_def auditedTransaction_def tx_run userRoleKey_def bumpEpoch_def demo_platform_def
        demo_tenant_simps newSession_def)
     (simp add: authenticate_def resolveAccessToken_def getBearerToken_def header_def demo_request_def getProp_def
        cookieNamesFor_def verifyAccessToken_def demo_jwt_def liveSession_def userOf_def find_first_def demo_context_def)

text \<open>
  The exception to the rule below. A global role can be held through a membership as well as through
  a platform assignment, but a change of its permissions raises the epochs of the platform holders
  only: for a member the cached decision still has the key of the current context, so the guard keeps
  admitting a request whose permission is gone, until the entry expires.
\<close>

definition demo_stale_cache :: "string \<Rightarrow> cache_answer" where
  "demo_stale_cache key =
     (if key = permissionCacheKey (demo_context 0 (Some ''o1'')) ''roles:read'' scope_organization then Cached ''1'' else CacheMiss)"

lemma global_role_update_leaves_member_cache:
  "\<exists>r s'. updateRolePermissions demo_app demo_effects ''r1'' [] ''bob'' demo_meta (demo_platform\<lparr>userRoles := []\<rparr>) = (Inr r, s') \<and>
     current_context (demo_context 0 (Some ''o1'')) s' \<and>
     fst (permissionGuard demo_stale_cache (demo_context 0 (Some ''o1'')) ''roles:read'' scope_organization s') = Inr () \<and>
     \<not> grantDecision (demo_context 0 (Some ''o1'')) ''roles:read'' scope_organization s'"
  by (simp add: updateRolePermissions_def auditedTransaction_def tx_run bumpPermissionEpochForRoleHolders_def
        demo_platform_def demo_tenant_simps Let_def)
     (simp add: current_context_def userOf_def demo_context_def permissionGuard_def demo_stale_cache_def
        grantDecision_def hasOrganizationGrant_def liveRole_def roleGrants_def find_first_def)

section \<open>Properties\<close>



end
