(* ===== verification/Auth_Accounts.thy ===== *)
theory Auth_Accounts
  imports Auth_Credentials
begin

text \<open>
  Social login and changes of the e-mail address: \<open>auth.social-login.service.ts\<close>,
  \<open>social.service.ts\<close> and the address change of \<open>auth.account.service.ts\<close> under
  \<open>src/src/modules/auth/\<close>. The verification of a provider's identity token is an argument.
\<close>

section \<open>Identities\<close>

record SocialIdentity =
  si_provider :: SocialProvider
  si_providerAccountId :: string
  si_email :: "string option"
  si_emailVerified :: bool
  si_displayName :: "string option"

definition claimString :: "jsval \<Rightarrow> string \<Rightarrow> string option" where
  "claimString payload key =
     (case jprop key payload of JStr v \<Rightarrow> if length v > 0 then Some v else None | _ \<Rightarrow> None)"

definition verifiedEmail :: "jsval \<Rightarrow> bool" where
  "verifiedEmail payload \<longleftrightarrow>
     jprop ''email_verified'' payload = JBool True \<or> jprop ''email_verified'' payload = JStr ''true''"

fun providerText :: "SocialProvider \<Rightarrow> string" where
  "providerText GOOGLE = ''GOOGLE''"
| "providerText APPLE = ''APPLE''"

text \<open>
  The client identifiers of the environment, and the library that checks a token's signature,
  algorithm, issuer and audience.
\<close>

record social_deps =
  sd_googleClientId :: "string option"
  sd_appleClientId :: "string option"
  sd_jwtVerify :: "SocialProvider \<Rightarrow> string \<Rightarrow> string \<Rightarrow> jsval option"

definition verifySocialIdentity :: "social_deps \<Rightarrow> SocialProvider \<Rightarrow> string \<Rightarrow> thrown + SocialIdentity" where
  "verifySocialIdentity D provider idToken =
     (let audience = (case provider of GOOGLE \<Rightarrow> sd_googleClientId D | APPLE \<Rightarrow> sd_appleClientId D) in
      if \<not> truthy audience then Inl (OtherError (providerText provider @ '' social login is not configured''))
      else case sd_jwtVerify D provider (the audience) idToken of
        None \<Rightarrow> Inl (App (unauthenticated (Some ''Invalid social identity token'')))
      | Some payload \<Rightarrow>
          (case claimString payload ''sub'' of
             None \<Rightarrow> Inl (App (unauthenticated (Some ''Invalid social identity token'')))
           | Some providerAccountId \<Rightarrow>
               (let email = map_option (\<lambda>e. toLowerCase (trim e)) (claimString payload ''email'') in
                if truthy email \<and> \<not> verifiedEmail payload
                then Inl (App (unauthenticated (Some ''Social email is not verified'')))
                else Inr \<lparr>si_provider = provider, si_providerAccountId = providerAccountId,
                          si_email = (if truthy email then email else None), si_emailVerified = verifiedEmail payload,
                          si_displayName = claimString payload ''name''\<rparr>)))"

section \<open>Social login\<close>

definition firstName :: "string option \<Rightarrow> string option \<Rightarrow> string option" where
  "firstName displayName fallback = (case displayName of Some n \<Rightarrow> Some n | None \<Rightarrow> fallback)"

definition socialUser :: "ident \<Rightarrow> time \<Rightarrow> string option \<Rightarrow> SocialIdentity \<Rightarrow> User" where
  "socialUser uid now displayName identity =
     \<lparr>u_id = uid, u_email = si_email identity, u_phone = None, u_passwordHash = None,
      u_displayName = firstName displayName (si_displayName identity), u_locale = ''en'', u_pendingEmail = None,
      u_stripeCustomerId = None, u_permissionEpoch = 0, u_status = U_ACTIVE,
      u_emailVerifiedAt = (if si_emailVerified identity then Some now else None), u_phoneVerifiedAt = None,
      u_lastLoginAt = None, u_createdAt = now, u_deletedAt = None\<rparr>"

definition activateUser :: "time \<Rightarrow> string option \<Rightarrow> SocialIdentity \<Rightarrow> User \<Rightarrow> User" where
  "activateUser now displayName identity u =
     u\<lparr>u_status := U_ACTIVE,
       u_emailVerifiedAt := (if si_emailVerified identity then Some now else u_emailVerifiedAt u),
       u_displayName := (if truthy displayName \<or> truthy (si_displayName identity)
                         then firstName displayName (si_displayName identity) else u_displayName u)\<rparr>"

definition linkSocial ::
    "app \<Rightarrow> effects \<Rightarrow> SocialIdentity \<Rightarrow> string option \<Rightarrow> RequestMetadata \<Rightarrow> AuditWriter \<Rightarrow> (store, ident option) tx" where
  "linkSocial A ef identity displayName metadata audit =
     andThen (reading (\<lambda>s. map_option (\<lambda>a. (a, userOf s (sa_userId a)))
                (find_first (\<lambda>a. sa_provider a = si_provider identity \<and>
                   sa_providerAccountId a = si_providerAccountId identity \<and> sa_deletedAt a = None) (socialAccounts s)))) (\<lambda>linked.
     case linked of
       Some (a, None) \<Rightarrow> throw (OtherError ''Cannot read properties of null'')
     | Some (a, Some u) \<Rightarrow>
         if u_deletedAt u \<noteq> None \<or> u_status u \<noteq> U_ACTIVE then ret None
         else
           andThen (updateMany socialAccounts socialAccounts_update
                      (\<lambda>x. sa_userId x = sa_userId a \<and> sa_provider x = si_provider identity \<and> sa_deletedAt x = None)
                      (\<lambda>x. x\<lparr>sa_email := (if si_email identity = None then sa_email x else si_email identity)\<rparr>)) (\<lambda>_.
           ret (Some (sa_userId a)))
     | None \<Rightarrow>
         andThen (findFirst users (\<lambda>u. truthy (si_email identity) \<and> u_email u = si_email identity \<and> u_deletedAt u = None)) (\<lambda>existing.
         if (case existing of None \<Rightarrow> False
             | Some u \<Rightarrow> u_deletedAt u \<noteq> None \<or> u_status u = U_SUSPENDED \<or> u_status u = U_DISABLED)
         then ret None
         else
           andThen (case existing of
               Some u \<Rightarrow>
                 andThen (updateRow users users_update (\<lambda>x. u_id x = u_id u \<and> u_deletedAt x = None)
                            (activateUser (ef_now ef 0) displayName identity)) (\<lambda>_.
                 ret (u_id u))
             | None \<Rightarrow>
                 andThen (createRow users users_update (\<lambda>x y. u_email x \<noteq> None \<and> u_email x = u_email y)
                            (socialUser (ef_id ef 0) (ef_now ef 0) displayName identity)) (\<lambda>u.
                 ret (u_id u))) (\<lambda>userIdForAccount.
           andThen (createRow socialAccounts socialAccounts_update
                      (\<lambda>x y. sa_provider x = sa_provider y \<and> sa_providerAccountId x = sa_providerAccountId y)
                      \<lparr>sa_id = ef_id ef 1, sa_userId = userIdForAccount, sa_provider = si_provider identity,
                       sa_providerAccountId = si_providerAccountId identity, sa_email = si_email identity,
                       sa_deletedAt = None\<rparr>) (\<lambda>_.
           andThen (audit (ef_id ef 2) (ef_now ef 1)
                      (audit_of metadata (Some userIdForAccount) ''auth.social_account.linked'' ''social_account'' None
                         (Some (JObj [(''provider'', JStr (providerText (si_provider identity)))])))) (\<lambda>_.
           ret (Some userIdForAccount))))))"

definition loginWithSocial ::
    "app \<Rightarrow> social_deps \<Rightarrow> effects \<Rightarrow> effects \<Rightarrow> SocialProvider \<Rightarrow> string \<Rightarrow> string option \<Rightarrow> RequestMetadata \<Rightarrow>
     (store, TokenPair option) io" where
  "loginWithSocial A D ef sessionEf provider idToken displayName metadata =
     (case verifySocialIdentity D provider idToken of
        Inl e \<Rightarrow> (\<lambda>s. (Inl e, s))
      | Inr identity \<Rightarrow>
          andNext (auditedTransaction A (linkSocial A ef identity displayName metadata)) (\<lambda>userId.
          case userId of
            None \<Rightarrow> answer None
          | Some uid \<Rightarrow> andNext (createSession A sessionEf uid metadata) (\<lambda>pair. answer (Some pair))))"

section \<open>Change of the e-mail address\<close>

record Confirmation =
  cf_password :: "string option"
  cf_socialReauth :: "(SocialProvider \<times> string) option"

definition confirmRecentCredential ::
    "app \<Rightarrow> social_deps \<Rightarrow> ident \<Rightarrow> Confirmation \<Rightarrow> (store, bool) io" where
  "confirmRecentCredential A D userId confirmation =
     andNext (transaction (findFirst users (\<lambda>u. u_id u = userId \<and> u_status u = U_ACTIVE \<and> u_deletedAt u = None))) (\<lambda>user.
     case user of
       None \<Rightarrow> answer False
     | Some u \<Rightarrow>
         if truthy (u_passwordHash u)
         then answer (truthy (cf_password confirmation) \<and>
                      verifySecret (prims A) (the (u_passwordHash u)) (the (cf_password confirmation)))
         else case cf_socialReauth confirmation of
           None \<Rightarrow> answer False
         | Some (provider, idToken) \<Rightarrow>
             (case verifySocialIdentity D provider idToken of
                Inl e \<Rightarrow> (\<lambda>s. (Inl e, s))
              | Inr identity \<Rightarrow>
                  andNext (transaction (findFirst socialAccounts (\<lambda>a. sa_userId a = userId \<and> sa_provider a = si_provider identity \<and>
                     sa_providerAccountId a = si_providerAccountId identity \<and> sa_deletedAt a = None))) (\<lambda>linked.
                  answer (linked \<noteq> None))))"

text \<open>The unique index on pending addresses refuses one that another account has asked for.\<close>

definition requestEmailChange ::
    "app \<Rightarrow> social_deps \<Rightarrow> effects \<Rightarrow> ident \<Rightarrow> string \<Rightarrow> Confirmation \<Rightarrow> RequestMetadata \<Rightarrow> (store, bool) io" where
  "requestEmailChange A D ef userId newEmailInput confirmation metadata =
     andNext (confirmRecentCredential A D userId confirmation) (\<lambda>confirmed.
     if \<not> confirmed then answer False
     else
       let newEmail = normalizeEmail newEmailInput in
       andNext (transaction (findFirst users (\<lambda>u. (u_email u = Some newEmail \<or> u_pendingEmail u = Some newEmail) \<and> u_deletedAt u = None))) (\<lambda>taken.
       if taken \<noteq> None then answer False
       else andNext (auditedTransaction A (\<lambda>audit.
         andThen (reading (\<lambda>s. list_ex (\<lambda>u. u_id u \<noteq> userId \<and> u_pendingEmail u = Some newEmail) (users s))) (\<lambda>clash.
         andThen (require (\<not> clash) (PrismaKnown ''P2002'')) (\<lambda>_.
         andThen (updateRow users users_update (\<lambda>u. u_id u = userId \<and> u_deletedAt u = None)
                    (\<lambda>u. u\<lparr>u_pendingEmail := Some newEmail\<rparr>)) (\<lambda>_.
         andThen (issueOtp A ef userId newEmail Otp_EMAIL EMAIL_CHANGE (randomOtp (ef_random ef 0)) ''email-change'') (\<lambda>_.
         audit (ef_id ef 2) (ef_now ef 3)
           (audit_of metadata (Some userId) ''auth.email_change.requested'' ''user'' (Some userId) None))))))) (\<lambda>_.
       answer True)))"

definition verifyEmailChange ::
    "app \<Rightarrow> effects \<Rightarrow> (store \<Rightarrow> store) \<Rightarrow> ident \<Rightarrow> string \<Rightarrow> string \<Rightarrow> RequestMetadata \<Rightarrow> (store, bool) io" where
  "verifyEmailChange A ef other userId newEmailInput code metadata =
     (let newEmail = normalizeEmail newEmailInput in
      andNext (transaction (reading (\<lambda>s. find_first (\<lambda>c. otp_userId c = Some userId \<and> otp_normalizedDestination c = newEmail \<and>
                 otp_purpose c = EMAIL_CHANGE \<and> otpOpen c \<and> otp_expiresAt c > ef_now ef 0)
                 (rev (sort_key otp_createdAt (otpChallenges s)))))) (\<lambda>found.
      case found of
        None \<Rightarrow> answer False
      | Some challenge \<Rightarrow>
          if \<not> verifySecret (prims A) (otp_codeHash challenge) code
          then andNext (recordInvalidOtpAttempt (ef_now ef 1) (otp_id challenge)) (\<lambda>_. answer False)
          else
            andNext (meanwhile other) (\<lambda>_.
            andNext (auditedTransaction A (\<lambda>audit.
              andThen (updateMany otpChallenges otpChallenges_update
                         (\<lambda>c. consumable (otp_id challenge) c \<and> otp_expiresAt c > ef_now ef 1) (consumeOtp (ef_now ef 1))) (\<lambda>consumed.
              if consumed \<noteq> 1 then ret False
              else
                andThen (reading (\<lambda>s. list_ex (\<lambda>u. u_id u \<noteq> userId \<and> u_email u = Some newEmail) (users s))) (\<lambda>clash.
                andThen (reading (\<lambda>s. matching (\<lambda>u. u_id u = userId \<and> u_pendingEmail u = Some newEmail \<and> u_status u = U_ACTIVE \<and> u_deletedAt u = None) (users s) \<noteq> 0)) (\<lambda>pending.
                andThen (require (\<not> (clash \<and> pending)) (PrismaKnown ''P2002'')) (\<lambda>_.
                andThen (updateMany users users_update
                           (\<lambda>u. u_id u = userId \<and> u_pendingEmail u = Some newEmail \<and> u_status u = U_ACTIVE \<and> u_deletedAt u = None)
                           (\<lambda>u. u\<lparr>u_email := Some newEmail, u_pendingEmail := None, u_emailVerifiedAt := Some (ef_now ef 2)\<rparr>)) (\<lambda>updated.
                if updated \<noteq> 1 then ret False
                else
                  andThen (revokeSessions (\<lambda>x. ses_userId x = userId) (ef_now ef 3) ''email_changed'') (\<lambda>_.
                  andThen (revokeTokens (\<lambda>t. rt_userId t = userId) (ef_now ef 4)) (\<lambda>_.
                  andThen (audit (ef_id ef 0) (ef_now ef 5)
                             (audit_of metadata (Some userId) ''auth.email_change.completed'' ''user'' (Some userId) None)) (\<lambda>_.
                  ret True)))))))))) (\<lambda>changed.
            if changed then andNext (publishChatRevocation A userId) (\<lambda>_. answer True) else answer False))))"

section \<open>Lemmas\<close>

definition blocked :: "User \<Rightarrow> bool" where
  "blocked u \<longleftrightarrow> u_status u = U_SUSPENDED \<or> u_status u = U_DISABLED"

lemma kept_other: "u \<in> set us \<Longrightarrow> \<not> P u \<Longrightarrow> u \<in> set (update_many P f us)"
  by (force simp: set_update_many image_iff)

text \<open>A user's row is as it was and no session of theirs was added.\<close>

definition left_alone :: "User \<Rightarrow> store \<Rightarrow> store \<Rightarrow> bool" where
  "left_alone u s s' \<longleftrightarrow> u \<in> set (users s') \<and> (\<forall>x\<in>set (sessions s'). ses_userId x = u_id u \<longrightarrow> x \<in> set (sessions s))"

lemma left_alone_trans: "left_alone u s s' \<Longrightarrow> left_alone u s' s'' \<Longrightarrow> left_alone u s s''"
  by (auto simp: left_alone_def)

lemma left_alone_same: "u \<in> set (users s') \<Longrightarrow> sessions s' = sessions s \<Longrightarrow> left_alone u s s'"
  by (simp add: left_alone_def)

lemma createSession_state:
  assumes run: "createSession A ef uid md s = (r, s')"
  obtains "s' = s"
    | f x where "users s' = update_many (\<lambda>u. u_id u = uid \<and> u_deletedAt u = None) f (users s)"
        "sessions s' = x # sessions s" "ses_userId x = uid"
proof (cases r)
  case (Inl e)
  with run have "s' = s" by (auto simp: createSession_def Let_def tx_simps)
  then show ?thesis by (rule that(1))
next
  case (Inr pair)
  with run have "users s' = update_many (\<lambda>u. u_id u = uid \<and> u_deletedAt u = None) (\<lambda>u. u\<lparr>u_lastLoginAt := Some (ef_now ef 4)\<rparr>) (users s) \<and>
      (\<exists>x. sessions s' = x # sessions s \<and> ses_userId x = uid)"
    by (auto simp: createSession_def resolveInitialOrganizationId_def findGlobalRoleId_def Let_def tx_simps newSession_def
        split: tenancyMode.split_asm option.split_asm)
  then show ?thesis by (elim conjE exE) (rule that(2))
qed

lemma createSession_left_alone:
  assumes "u \<in> set (users s)" "u_id u \<noteq> uid"
  shows "left_alone u s (snd (createSession A ef uid md s))"
proof -
  obtain r s' where run: "createSession A ef uid md s = (r, s')" by fastforce
  from createSession_state [OF run] show ?thesis
    using assms run by cases (auto simp: left_alone_def intro: kept_other)
qed

text \<open>The row an update by identifier touches is the one that was looked up.\<close>

lemma not_same_user:
  "distinct (map u_id (users s)) \<Longrightarrow> u \<in> set (users s) \<Longrightarrow> blocked u \<Longrightarrow>
   find_first (\<lambda>x. u_id x = i \<and> P x) (users s) = Some x \<Longrightarrow> \<not> blocked x \<Longrightarrow> u_id u \<noteq> i"
  by (auto dest!: find_first_SomeD dest: distinct_map_eq)

lemma verifyOtpTx_users:
  assumes tx: "verifyOtpTx ef input c uid md (auditEventWriter A) s = Inr (allowed, s')"
    and u: "u \<in> set (users s)" "blocked u"
  shows "left_alone u s s'"
proof -
  have "sessions s' = sessions s"
    using tx by (auto simp: verifyOtpTx_def applyVerification_def tx_simps split: if_split_asm option.split_asm)
  moreover from tx consider "users s' = users s" | st f where "verificationTransition st \<noteq> BLOCKED"
      "users s' = update_many (\<lambda>x. u_id x = uid \<and> u_status x = st \<and> u_deletedAt x = None) f (users s)"
    by (auto simp: verifyOtpTx_def applyVerification_def tx_simps split: if_split_asm option.split_asm)
  then have "u \<in> set (users s')"
  proof cases
    case 1
    with u show ?thesis by simp
  next
    case 2
    then have "u_status u \<noteq> st" using u(2) by (auto simp: blocked_def verificationTransition_def)
    with 2 u show ?thesis by (auto intro: kept_other)
  qed
  ultimately show ?thesis by (simp add: left_alone_same)
qed

lemma verifyOtpTx_login:
  assumes tx: "verifyOtpTx ef input c uid md (auditEventWriter A) s = Inr (True, s')" and login: "vo_purpose input = LOGIN"
    and keys: "distinct (map u_id (users s))" and u: "u \<in> set (users s)" "blocked u"
  shows "u_id u \<noteq> uid"
proof -
  from tx login obtain x where "find_first (\<lambda>u. u_id u = uid \<and> u_status u = U_ACTIVE \<and> u_deletedAt u = None) (users s) = Some x"
    by (auto simp: verifyOtpTx_def tx_simps split: if_split_asm option.split_asm)
  from not_same_user [OF keys u this] find_first_SomeD [OF this] show ?thesis by (auto simp: blocked_def)
qed

lemma linkSocial_users:
  assumes tx: "linkSocial A ef identity name md (auditEventWriter A) s = Inr (r, s')"
    and keys: "distinct (map u_id (users s))" and fresh: "ef_id ef 0 \<notin> u_id ` set (users s)"
    and u: "u \<in> set (users s)" "blocked u"
  shows "left_alone u s s' \<and> r \<noteq> Some (u_id u)"
proof -
  have "sessions s' = sessions s"
    using tx by (auto simp: linkSocial_def tx_simps split: if_split_asm option.split_asm)
  moreover from tx consider "users s' = users s" "r = None"
    | x i where "users s' = users s" "r = Some i" "userOf s i = Some x" "u_status x = U_ACTIVE"
    | x f where "users s' = update_many (\<lambda>y. u_id y = u_id x \<and> u_deletedAt y = None) f (users s)" "r = Some (u_id x)"
        "x \<in> set (users s)" "\<not> blocked x"
    | x where "users s' = x # users s" "r = Some (u_id x)" "u_id x = ef_id ef 0"
    by (auto simp: linkSocial_def tx_simps socialUser_def blocked_def split: if_split_asm option.split_asm
        dest!: find_first_SomeD)
  then have "u \<in> set (users s') \<and> r \<noteq> Some (u_id u)"
  proof cases
    case 1
    with u show ?thesis by simp
  next
    case 2
    have "find_first (\<lambda>y. u_id y = i \<and> True) (users s) = Some x" using 2 by (simp add: userOf_def)
    from not_same_user [OF keys u this] 2 u show ?thesis by (auto simp: blocked_def)
  next
    case 3
    then have "u_id u \<noteq> u_id x" using keys u by (auto dest: distinct_map_eq)
    with 3 u show ?thesis by (auto intro: kept_other)
  next
    case 4
    with u fresh show ?thesis by auto
  qed
  ultimately show ?thesis by (simp add: left_alone_same)
qed

lemma left_alone_andNext:
  assumes "left_alone u s (snd (m s))"
    and "\<And>a s1. m s = (Inr a, s1) \<Longrightarrow> left_alone u s s1 \<Longrightarrow> left_alone u s1 (snd (f a s1))"
  shows "left_alone u s (snd (andNext m f s))"
proof (cases "m s")
  case (Pair r s1)
  with assms show ?thesis
    by (cases r) (auto simp: andNext_def intro: left_alone_trans)
qed

lemma left_alone_answer: "u \<in> set (users s) \<Longrightarrow> left_alone u s (snd (answer a s))"
  by (simp add: answer_def left_alone_same)

lemma left_alone_users: "left_alone u s s' \<Longrightarrow> u \<in> set (users s')"
  by (simp add: left_alone_def)

lemma left_alone_tx:
  assumes "u \<in> set (users s)" and "\<And>a s'. operation (auditEventWriter A) s = Inr (a, s') \<Longrightarrow> left_alone u s s'"
  shows "left_alone u s (snd (auditedTransaction A operation s))"
  using assms by (auto simp: auditedTransaction_def transaction_def left_alone_same split: sum.split)

lemma createSession_answer_left_alone:
  assumes "u \<in> set (users s)" "u_id u \<noteq> uid"
  shows "left_alone u s (snd (andNext (createSession A ef uid md) (\<lambda>pair. answer (g pair)) s))"
  by (rule left_alone_andNext, rule createSession_left_alone [OF assms]) (rule left_alone_answer [OF left_alone_users])

lemma andNext_reading: "andNext (transaction (reading q)) f s = f (q s) s"
  by (simp add: andNext_def transaction_def reading_def)

lemma loginWithSocial_left_alone:
  assumes keys: "distinct (map u_id (users s))" and fresh: "ef_id ef 0 \<notin> u_id ` set (users s)"
    and u: "u \<in> set (users s)" "blocked u"
  shows "left_alone u s (snd (loginWithSocial A D ef sef provider tok name md s))"
proof (cases "verifySocialIdentity D provider tok")
  case (Inl e)
  with u show ?thesis by (simp add: loginWithSocial_def left_alone_same)
next
  case (Inr identity)
  have "left_alone u s (snd (andNext (auditedTransaction A (linkSocial A ef identity name md)) (\<lambda>userId.
          case userId of None \<Rightarrow> answer None
          | Some uid \<Rightarrow> andNext (createSession A sef uid md) (\<lambda>pair. answer (Some pair))) s))"
  proof (rule left_alone_andNext)
    show "left_alone u s (snd (auditedTransaction A (linkSocial A ef identity name md) s))"
      using u linkSocial_users [OF _ keys fresh u] by (intro left_alone_tx) blast+
  next
    fix a s1
    assume "auditedTransaction A (linkSocial A ef identity name md) s = (Inr a, s1)" and one: "left_alone u s s1"
    then have "a \<noteq> Some (u_id u)" using linkSocial_users [OF _ keys fresh u] by (simp add: tx_simps)
    then show "left_alone u s1 (snd ((case a of None \<Rightarrow> answer None
          | Some uid \<Rightarrow> andNext (createSession A sef uid md) (\<lambda>pair. answer (Some pair))) s1))"
      using left_alone_users [OF one]
      by (cases a) (simp_all add: left_alone_answer createSession_answer_left_alone)
  qed
  with Inr show ?thesis by (simp add: loginWithSocial_def)
qed

lemma loginWithPassword_left_alone:
  assumes keys: "distinct (map u_id (users s))" and u: "u \<in> set (users s)" "blocked u"
  shows "left_alone u s (snd (loginWithPassword A ef dummy email password md s))"
proof -
  have failed: "left_alone u s (snd (andNext (auditedTransaction A (\<lambda>audit. audit i t x)) (\<lambda>_. answer (None :: TokenPair option)) s))" for i t x
    using u by (intro left_alone_andNext left_alone_tx)
      (auto intro: left_alone_answer left_alone_users simp: tx_simps left_alone_same)
  show ?thesis
  proof (cases "find_first (\<lambda>u. u_email u = Some (normalizeEmail email) \<and> u_deletedAt u = None) (users s)")
    case None
    with failed show ?thesis by (simp add: loginWithPassword_def Let_def)
  next
    case (Some x)
    then have "x \<in> set (users s)" by (auto dest: find_first_SomeD)
    then have "u_id u \<noteq> u_id x" if "u_status x = U_ACTIVE"
      using that u distinct_map_eq [OF keys, of u x] by (auto simp: blocked_def)
    with Some failed u show ?thesis
      by (simp add: loginWithPassword_def Let_def createSession_answer_left_alone)
  qed
qed

lemma verifyOtp_left_alone:
  assumes u: "u \<in> set (users s)" "blocked u" and other: "left_alone u s (other s)"
    and keys: "distinct (map u_id (users (other s)))"
  shows "left_alone u s (snd (verifyOtp A ef sef other input md s))"
proof -
  have tries: "left_alone u s (snd (andNext (recordInvalidOtpAttempt t i) (\<lambda>_. answer (None :: VerifyOtpResult option)) s))" for t i
    using u by (intro left_alone_andNext)
      (auto intro: left_alone_answer left_alone_users simp: recordInvalidOtpAttempt_def transaction_def updateMany_def
        andThen_def left_alone_same)
  let ?rest = "\<lambda>c i. andNext (auditedTransaction A (verifyOtpTx ef input c i md)) (\<lambda>verified.
           if \<not> verified then answer None
           else if vo_purpose input = LOGIN
           then andNext (createSession A sef i md) (\<lambda>pair. answer (Some (Tokens pair)))
           else answer (Some VERIFIED))"
  have rest: "left_alone u (other s) (snd (?rest c i (other s)))" for c i
  proof (rule left_alone_andNext)
    show "left_alone u (other s) (snd (auditedTransaction A (verifyOtpTx ef input c i md) (other s)))"
      using left_alone_users [OF other] verifyOtpTx_users [OF _ left_alone_users [OF other] u(2)]
      by (intro left_alone_tx) blast+
  next
    fix ok s1
    assume run: "auditedTransaction A (verifyOtpTx ef input c i md) (other s) = (Inr ok, s1)" and one: "left_alone u (other s) s1"
    have "u_id u \<noteq> i" if ok "vo_purpose input = LOGIN"
      using run that verifyOtpTx_login [OF _ that(2) keys left_alone_users [OF other] u(2)] by (simp add: tx_simps)
    then show "left_alone u s1 (snd ((if \<not> ok then answer None
           else if vo_purpose input = LOGIN
           then andNext (createSession A sef i md) (\<lambda>pair. answer (Some (Tokens pair)))
           else answer (Some VERIFIED)) s1))"
      using left_alone_users [OF one] by (simp add: left_alone_answer createSession_answer_left_alone)
  qed
  have "left_alone u s (snd (?rest c i (other s)))" for c i
    using left_alone_trans [OF other rest] .
  with tries u show ?thesis
    by (simp add: verifyOtp_def andNext_reading left_alone_answer split: option.split)
qed

section \<open>Concrete instances\<close>

definition demo_social :: social_deps where
  "demo_social = \<lparr>sd_googleClientId = Some ''g'', sd_appleClientId = None,
     sd_jwtVerify = (\<lambda>_ _ tok. if tok = ''t'' then Some (JObj [(''sub'', JStr ''1''), (''email'', JStr ''ann@x''),
       (''email_verified'', JBool True)]) else None)\<rparr>"

definition demo_identity :: SocialIdentity where
  "demo_identity = \<lparr>si_provider = GOOGLE, si_providerAccountId = ''1'', si_email = Some ''ann@x'', si_emailVerified = True,
     si_displayName = None\<rparr>"

lemma demo_social_identity: "verifySocialIdentity demo_social GOOGLE ''t'' = Inr demo_identity"
  by code_simp

definition demo_later :: effects where
  "demo_later = demo_effects\<lparr>ef_id := (\<lambda>n. ''later'' @ decimal n), ef_random := (\<lambda>n. ''other'' @ decimal n)\<rparr>"

text \<open>
  Somebody who signs up with another person's address leaves a pending account with a password of
  their choice. A social login of the owner of the address activates that account and keeps the
  password, so the password logs in from then on.
\<close>

lemma demo_session_possible:
  "\<exists>h. hashOpaqueToken (cenv demo_app) (prims demo_app) t = Inr h" "\<exists>h. hashMetadata (cenv demo_app) (prims demo_app) t = Inr h"
proof -
  have ok: "crypto_env_ok (cenv demo_app)" by (simp add: demo_app_def demo_audit_def demo_crypto)
  show "\<exists>h. hashOpaqueToken (cenv demo_app) (prims demo_app) t = Inr h" "\<exists>h. hashMetadata (cenv demo_app) (prims demo_app) t = Inr h"
    unfolding hashOpaqueToken_def hashMetadata_def by (rule versionedHmac_present [OF ok active_present [OF ok]])+
qed

lemma demo_linked:
  "linkSocial demo_app demo_effects demo_identity None demo_meta (auditEventWriter demo_app) demo_otp_store = Inr (Some ''ann'', s') \<Longrightarrow>
   users s' = [(demo_user ''ann'')\<lparr>u_emailVerifiedAt := Some 5000\<rparr>] \<and> sessions s' = [] \<and> refreshTokens s' = [] \<and> memberships s' = []"
  by (simp add: linkSocial_def tx_run) (auto simp: demo_otp_simps demo_identity_def activateUser_def tx_run)

lemma demo_links:
  "\<exists>s'. linkSocial demo_app demo_effects demo_identity None demo_meta (auditEventWriter demo_app) demo_otp_store = Inr (Some ''ann'', s')"
  by (simp add: linkSocial_def tx_run) (simp add: demo_otp_simps demo_identity_def tx_run)

lemma demo_createSession:
  assumes "users s = [u]" "u_id u = uid" "u_deletedAt u = None" "sessions s = []" "refreshTokens s = []" "memberships s = []"
  shows "\<exists>pair s'. createSession demo_app demo_later uid demo_meta s = (Inr pair, s') \<and>
     users s' = [u\<lparr>u_lastLoginAt := Some 5004\<rparr>]"
proof -
  obtain h k where "hashOpaqueToken (cenv demo_app) (prims demo_app) (randomToken (ef_random demo_later 0)) = Inr h"
      "hashMetadata (cenv demo_app) (prims demo_app) (rm_ip demo_meta) = Inr k"
    using demo_session_possible by blast
  moreover have "ap_tenancyMode demo_app = tenancy_multi" by (simp add: demo_app_def)
  ultimately show ?thesis using assms
    by (simp add: createSession_def resolveInitialOrganizationId_def auditedTransaction_def tx_run Let_def)
       (simp add: demo_later_def demo_effects_def)
qed

lemma social_login_keeps_planted_password:
  "\<exists>pair s' u. loginWithSocial demo_app demo_social demo_effects demo_later GOOGLE ''t'' None demo_meta demo_otp_store =
       (Inr (Some pair), s') \<and>
     map u_status (users demo_otp_store) = [U_PENDING] \<and> users s' = [u] \<and> u_status u = U_ACTIVE \<and>
     map u_passwordHash (users demo_otp_store) = [u_passwordHash u] \<and> verifySecret (prims demo_app) (the (u_passwordHash u)) ''pw''"
proof -
  obtain s1 where link: "linkSocial demo_app demo_effects demo_identity None demo_meta (auditEventWriter demo_app) demo_otp_store = Inr (Some ''ann'', s1)"
    using demo_links by blast
  note s1 = demo_linked [OF link]
  then obtain pair s' where run: "createSession demo_app demo_later ''ann'' demo_meta s1 = (Inr pair, s')"
    and s': "users s' = [(demo_user ''ann'')\<lparr>u_emailVerifiedAt := Some 5000, u_lastLoginAt := Some 5004\<rparr>]"
    using demo_createSession [of s1 "(demo_user ''ann'')\<lparr>u_emailVerifiedAt := Some 5000\<rparr>" "''ann''"]
    by (auto simp: demo_user_def)
  have "auditedTransaction demo_app (linkSocial demo_app demo_effects demo_identity None demo_meta) demo_otp_store = (Inr (Some ''ann''), s1)"
    using link by (simp add: tx_simps)
  with run have "loginWithSocial demo_app demo_social demo_effects demo_later GOOGLE ''t'' None demo_meta demo_otp_store = (Inr (Some pair), s')"
    by (simp add: loginWithSocial_def demo_social_identity andNext_def answer_def)
  then show ?thesis
    by (intro exI [of _ pair] exI [of _ s']
          exI [of _ "(demo_user ''ann'')\<lparr>u_emailVerifiedAt := Some 5000, u_lastLoginAt := Some 5004\<rparr>"])
       (simp add: s' demo_secret, simp add: demo_otp_store_def demo_user_def)
qed

section \<open>Properties\<close>

text \<open>
  C31: a suspended or disabled account stays closed. No login, with a password, with a one-time code
  or through a provider's identity token, changes the row of a suspended or disabled user or gives
  them a session.
\<close>
theorem blocked_account_left_alone:
  assumes "u \<in> set (users s)" "blocked u" and "distinct (map u_id (users s))"
    and "ef_id ef 0 \<notin> u_id ` set (users s)"
    and "left_alone u s (other s)" "distinct (map u_id (users (other s)))"
  shows "left_alone u s (snd (loginWithPassword A ef dummy email password md s)) \<and>
         left_alone u s (snd (loginWithSocial A D ef sef provider tok name md s)) \<and>
         left_alone u s (snd (verifyOtp A ef sef other input md s))"
  by (intro conjI loginWithPassword_left_alone loginWithSocial_left_alone verifyOtp_left_alone assms)

theorem blocked_account_left_alone_witness:
  "(demo_user ''ann'')\<lparr>u_status := U_SUSPENDED\<rparr> \<in> set (users (snd
     (loginWithSocial demo_app demo_social demo_effects demo_effects GOOGLE ''t'' None demo_meta
       (demo_store\<lparr>users := [(demo_user ''ann'')\<lparr>u_status := U_SUSPENDED\<rparr>]\<rparr>))))"
proof -
  let ?u = "(demo_user ''ann'')\<lparr>u_status := U_SUSPENDED\<rparr>"
  let ?s = "demo_store\<lparr>users := [?u]\<rparr>"
  have "?u \<in> set (users ?s)" "blocked ?u" "distinct (map u_id (users ?s))" "ef_id demo_effects 0 \<notin> u_id ` set (users ?s)"
    "left_alone ?u ?s ?s"
    by (simp_all add: blocked_def left_alone_def demo_user_def demo_effects_def)
  from blocked_account_left_alone [where other = "\<lambda>s. s", OF this this(3)] show ?thesis
    by (rule conjunct2 [THEN conjunct1, THEN left_alone_users])
qed

end
