(* ===== verification/Client_Address.thy ===== *)
theory Client_Address
  imports Crypto Rate_Limit
begin

text \<open>
  Client addresses and the limiters keyed by them: \<open>src/src/lib/client-ip.ts\<close>,
  \<open>src/src/middleware/rate-limit.ts\<close> and \<open>src/src/modules/auth/auth.abuse.ts\<close>. Addresses are parsed
  into bytes, mapped to rate-limit buckets, matched against CIDR networks and resolved behind trusted
  proxies. The tests \<open>isIPv4\<close> and \<open>isIPv6\<close> of \<open>node:net\<close> are written out as the grammars of RFC 4291
  text forms that Node documents.
\<close>

section \<open>The tests of \<open>node:net\<close>\<close>

definition octet :: "string \<Rightarrow> bool" where
  "octet s \<longleftrightarrow> s \<noteq> [] \<and> length s \<le> 3 \<and> list_all (\<lambda>c. c \<in> set digits) s \<and> undecimal s \<le> 255 \<and>
               (length s > 1 \<longrightarrow> hd s \<noteq> CHR ''0'')"

definition isIPv4 :: "string \<Rightarrow> bool" where
  "isIPv4 value = (let parts = split_on CHR ''.'' value in length parts = 4 \<and> list_all octet parts)"

definition hexChar :: "char \<Rightarrow> bool" where
  "hexChar c \<longleftrightarrow> lower_char c \<in> set hex_alphabet"

definition hextet :: "string \<Rightarrow> bool" where
  "hextet g \<longleftrightarrow> 1 \<le> length g \<and> length g \<le> 4 \<and> list_all hexChar g"

text \<open>\<open>value.split('::')\<close>.\<close>

fun split_double :: "string \<Rightarrow> string list" where
  "split_double [] = [[]]"
| "split_double [c] = [[c]]"
| "split_double (c # d # s) =
     (if c = CHR '':'' \<and> d = CHR '':'' then [] # split_double s
      else case split_double (d # s) of [] \<Rightarrow> [[c]] | p # ps \<Rightarrow> (c # p) # ps)"

definition splitGroups :: "string \<Rightarrow> string list" where
  "splitGroups s = (if s = [] then [] else split_on CHR '':'' s)"

text \<open>
  The last group may be a dotted quad, which stands for two groups. Eight groups are written out, or
  at most seven with one \<open>::\<close>. The callers pass texts without a zone index.
\<close>

definition groupsOk :: "string list \<Rightarrow> bool" where
  "groupsOk gs \<longleftrightarrow> gs = [] \<or> (list_all hextet (butlast gs) \<and> (hextet (last gs) \<or> isIPv4 (last gs)))"

definition groupWidth :: "string list \<Rightarrow> nat" where
  "groupWidth gs = length gs + (if gs \<noteq> [] \<and> isIPv4 (last gs) then 1 else 0)"

definition isIPv6 :: "string \<Rightarrow> bool" where
  "isIPv6 value =
     (case split_double value of
        [whole] \<Rightarrow> groupsOk (splitGroups whole) \<and> groupWidth (splitGroups whole) = 8
      | [l, r] \<Rightarrow> list_all hextet (splitGroups l) \<and> groupsOk (splitGroups r) \<and>
                  length (splitGroups l) + groupWidth (splitGroups r) \<le> 7
      | _ \<Rightarrow> False)"

section \<open>Parsing\<close>

datatype family = family4 | family6

record ParsedIp =
  ip_family :: family
  ip_bytes :: "nat list"

definition UNRESOLVED_CLIENT_IP :: string where
  "UNRESOLVED_CLIENT_IP = ''ip:unresolved''"

definition IPV6_BUCKET_BITS :: nat where
  "IPV6_BUCKET_BITS = 64"

definition parseIpv4Bytes :: "string \<Rightarrow> nat list option" where
  "parseIpv4Bytes value = (if \<not> isIPv4 value then None else Some (map undecimal (split_on CHR ''.'' value)))"

text \<open>\<open>n.toString(16)\<close> and \<open>Number.parseInt(s, 16)\<close> of hexadecimal text.\<close>

fun hexText :: "nat \<Rightarrow> string" where
  "hexText n = (if n < 16 then [hexdigit n] else hexText (n div 16) @ [hexdigit (n mod 16)])"

declare hexText.simps [simp del]

definition parseHex :: "string \<Rightarrow> nat" where
  "parseHex s = unhex (toLowerCase s)"

unbundle bit_operations_syntax

definition joinBytes :: "nat \<Rightarrow> nat \<Rightarrow> nat" where
  "joinBytes hi lo = (push_bit 8 hi OR lo)"

text \<open>The text through its last colon, and the rest.\<close>

definition throughColon :: "string \<Rightarrow> string" where
  "throughColon s = rev (dropWhile (\<lambda>c. c \<noteq> CHR '':'') (rev s))"

definition afterColon :: "string \<Rightarrow> string" where
  "afterColon s = rev (takeWhile (\<lambda>c. c \<noteq> CHR '':'') (rev s))"

definition rewriteDottedTail :: "string \<Rightarrow> string option" where
  "rewriteDottedTail value =
     (if CHR ''.'' \<in> set (afterColon value) then
        (case parseIpv4Bytes (afterColon value) of
           Some [a, b, c, d] \<Rightarrow>
             Some (throughColon value @ hexText (joinBytes a b) @ '':'' @ hexText (joinBytes c d))
         | _ \<Rightarrow> None)
      else Some value)"

definition expandGroups :: "string \<Rightarrow> string list option" where
  "expandGroups value =
     (case split_double value of
        [_] \<Rightarrow> Some (split_on CHR '':'' value)
      | [l, r] \<Rightarrow>
          (let left = splitGroups l; right = splitGroups r in
           if length left + length right + 1 > 8 then None
           else Some (left @ replicate (8 - length left - length right) ''0'' @ right))
      | _ \<Rightarrow> None)"

fun groupBytes :: "string list \<Rightarrow> nat list option" where
  "groupBytes [] = Some []"
| "groupBytes (g # gs) =
     (if \<not> hextet g then None
      else map_option (\<lambda>bs. (drop_bit 8 (parseHex g) AND 255) # (parseHex g AND 255) # bs) (groupBytes gs))"

definition parseIpv6Bytes :: "string \<Rightarrow> nat list option" where
  "parseIpv6Bytes input =
     (case rewriteDottedTail (takeWhile (\<lambda>c. c \<noteq> CHR ''%'') input) of
        None \<Rightarrow> None
      | Some value \<Rightarrow>
          (case expandGroups value of
             None \<Rightarrow> None
           | Some gs \<Rightarrow> if length gs \<noteq> 8 then None else groupBytes gs))"

definition isIpv4Mapped :: "nat list \<Rightarrow> bool" where
  "isIpv4Mapped bytes \<longleftrightarrow> take 10 bytes = replicate 10 0 \<and> bytes ! 10 = 255 \<and> bytes ! 11 = 255"

definition stripBrackets :: "string \<Rightarrow> string" where
  "stripBrackets s =
     (let t = (if s \<noteq> [] \<and> hd s = CHR ''['' then tl s else s)
      in if t \<noteq> [] \<and> last t = CHR '']'' then butlast t else t)"

definition parseClientIp :: "string option \<Rightarrow> ParsedIp option" where
  "parseClientIp value =
     (case value of
        None \<Rightarrow> None
      | Some v \<Rightarrow>
          (let trimmed = stripBrackets (trim v) in
           if trimmed = [] then None
           else case parseIpv4Bytes trimmed of
             Some bytes \<Rightarrow> Some \<lparr>ip_family = family4, ip_bytes = bytes\<rparr>
           | None \<Rightarrow>
               if \<not> isIPv6 (takeWhile (\<lambda>c. c \<noteq> CHR ''%'') trimmed) then None
               else case parseIpv6Bytes trimmed of
                 None \<Rightarrow> None
               | Some bytes \<Rightarrow>
                   if isIpv4Mapped bytes then Some \<lparr>ip_family = family4, ip_bytes = drop 12 bytes\<rparr>
                   else Some \<lparr>ip_family = family6, ip_bytes = bytes\<rparr>))"

section \<open>Buckets\<close>

definition byteAt :: "nat list \<Rightarrow> nat \<Rightarrow> nat option" where
  "byteAt bytes i = (if i < length bytes then Some (bytes ! i) else None)"

definition hextets :: "nat list \<Rightarrow> nat \<Rightarrow> string" where
  "hextets bytes n =
     join_with '':'' (map (\<lambda>i. hexText (joinBytes (orElse (byteAt bytes (2 * i)) 0) (orElse (byteAt bytes (2 * i + 1)) 0)))
                         [0..<(n + 1) div 2])"

definition clientIpKey :: "string option \<Rightarrow> string" where
  "clientIpKey value =
     (case parseClientIp value of
        None \<Rightarrow> UNRESOLVED_CLIENT_IP
      | Some parsed \<Rightarrow>
          (case ip_family parsed of
             family4 \<Rightarrow> ''ip4:'' @ join_with ''.'' (map decimal (ip_bytes parsed))
           | family6 \<Rightarrow> ''ip6:'' @ hextets (ip_bytes parsed) (IPV6_BUCKET_BITS div 8)))"

section \<open>Networks\<close>

record ParsedCidr = ParsedIp +
  cidr_prefix :: nat

definition withPrefix :: "ParsedIp \<Rightarrow> nat \<Rightarrow> ParsedCidr" where
  "withPrefix p n = \<lparr>ip_family = ip_family p, ip_bytes = ip_bytes p, cidr_prefix = n\<rparr>"

definition parseCidr :: "string \<Rightarrow> ParsedCidr option" where
  "parseCidr input =
     (case split_on CHR ''/'' (trim input) of
        address # rest \<Rightarrow>
          if length rest > 1 \<or> address = [] then None
          else (case parseClientIp (Some address) of
            None \<Rightarrow> None
          | Some parsed \<Rightarrow>
              (let maxPrefix = length (ip_bytes parsed) * 8 in
               case rest of
                 [] \<Rightarrow> Some (withPrefix parsed maxPrefix)
               | prefixText # _ \<Rightarrow>
                   if \<not> (1 \<le> length prefixText \<and> length prefixText \<le> 3 \<and> list_all (\<lambda>c. c \<in> set digits) prefixText) then None
                   else if undecimal prefixText > maxPrefix then None
                   else Some (withPrefix parsed (undecimal prefixText))))
      | [] \<Rightarrow> None)"

definition withinPrefix :: "nat list \<Rightarrow> nat list \<Rightarrow> nat \<Rightarrow> bool" where
  "withinPrefix candidate network n =
     (let wholeBytes = drop_bit 3 n; remainingBits = (n AND 7);
          msk = (push_bit (8 - remainingBits) 255 AND 255)
      in list_all (\<lambda>i. byteAt candidate i = byteAt network i) [0..<wholeBytes] \<and>
         (remainingBits = 0 \<or>
          (orElse (byteAt candidate wholeBytes) 0 AND msk) = (orElse (byteAt network wholeBytes) 0 AND msk)))"

definition matchesAnyCidr :: "string option \<Rightarrow> ParsedCidr list \<Rightarrow> bool" where
  "matchesAnyCidr value networks =
     (if networks = [] then False
      else case parseClientIp value of
        None \<Rightarrow> False
      | Some parsed \<Rightarrow>
          list_ex (\<lambda>net. ip_family net = ip_family parsed \<and>
                         withinPrefix (ip_bytes parsed) (ip_bytes net) (cidr_prefix net)) networks)"

section \<open>Trusted proxies\<close>

record TrustedProxyInput =
  tp_remoteAddress :: "string option"
  tp_forwardedFor :: "string list option"
  tp_trustedHops :: int
  tp_trustedCidrs :: "ParsedCidr list"

text \<open>The entries of the header, the nearest hop first; a repeated header is joined with commas.\<close>

definition forwardedEntries :: "string list option \<Rightarrow> string list" where
  "forwardedEntries header =
     (case header of
        None \<Rightarrow> []
      | Some hs \<Rightarrow>
          (let raw = join_with '','' hs in
           if raw = [] then [] else rev (filter (\<lambda>v. v \<noteq> []) (map trim (split_on CHR '','' raw)))))"

fun walkProxies :: "ParsedCidr list \<Rightarrow> string \<Rightarrow> string list \<Rightarrow> string" where
  "walkProxies networks address [] = address"
| "walkProxies networks address (candidate # rest) =
     (if \<not> matchesAnyCidr (Some address) networks then address else walkProxies networks candidate rest)"

definition trustedClientAddress :: "TrustedProxyInput \<Rightarrow> string option" where
  "trustedClientAddress input =
     (case map_option trim (tp_remoteAddress input) of
        None \<Rightarrow> None
      | Some remote \<Rightarrow>
          if remote = [] \<or> parseClientIp (Some remote) = None then None
          else
            let forwarded = forwardedEntries (tp_forwardedFor input) in
            if list_ex (\<lambda>v. parseClientIp (Some v) = None) forwarded then Some remote
            else if tp_trustedHops input > 0
            then let chain = remote # forwarded in Some (chain ! min (nat (tp_trustedHops input)) (length chain - 1))
            else if tp_trustedCidrs input = [] then Some remote
            else Some (walkProxies (tp_trustedCidrs input) remote forwarded))"

section \<open>Limiters\<close>

text \<open>
  A call of the limiter is given what Redis answers and the two clock readings of the outage path.
\<close>

record limiter_env =
  le_hash :: "string \<Rightarrow> string"
  le_reply :: "(int \<times> int) option"
  le_now :: time
  le_now' :: time

definition limited ::
    "limiter_env \<Rightarrow> string \<Rightarrow> string \<Rightarrow> int \<Rightarrow> int \<Rightarrow> RateLimitOptions \<Rightarrow> rate_state \<Rightarrow> (thrown + unit) \<times> rate_state" where
  "limited E scope v limit windowSeconds options st =
     map_prod (map_sum id (\<lambda>_. ()))  id
       (enforceRateLimit (le_hash E) scope v limit windowSeconds options (le_reply E) (le_now E) (le_now' E) st)"

definition allowlist_of :: "string list \<Rightarrow> ParsedCidr list" where
  "allowlist_of entries = List.map_filter parseCidr entries"

definition isRateLimitAllowlisted :: "string list \<Rightarrow> string option \<Rightarrow> bool" where
  "isRateLimitAllowlisted entries ip = matchesAnyCidr ip (allowlist_of entries)"

definition ipRateLimit ::
    "string list \<Rightarrow> limiter_env \<Rightarrow> string \<Rightarrow> int \<Rightarrow> int \<Rightarrow> RateLimitOptions \<Rightarrow> string option \<Rightarrow> rate_state \<Rightarrow>
     (thrown + unit) \<times> rate_state" where
  "ipRateLimit entries E scope limit windowSeconds options ip st =
     (if isRateLimitAllowlisted entries ip then (Inr (), st)
      else limited E scope (clientIpKey ip) limit windowSeconds options st)"

definition noOptions :: RateLimitOptions where
  "noOptions = \<lparr>opt_redisFailureMode = None, opt_alertAt = None\<rparr>"

definition globalIpRateLimit ::
    "string list \<Rightarrow> limiter_env \<Rightarrow> int \<Rightarrow> string option \<Rightarrow> rate_state \<Rightarrow> (thrown + unit) \<times> rate_state" where
  "globalIpRateLimit entries E perMinute = ipRateLimit entries E ''global:ip'' perMinute 60 noOptions"

definition userRateLimit ::
    "limiter_env \<Rightarrow> string \<Rightarrow> int \<Rightarrow> int \<Rightarrow> string option \<Rightarrow> rate_state \<Rightarrow> (thrown + unit) \<times> rate_state" where
  "userRateLimit E scope limit windowSeconds userId st =
     (if \<not> truthy userId then (Inr (), st)
      else limited E scope (''user:'' @ the userId) limit windowSeconds noOptions st)"

definition userIdentityRateLimit ::
    "limiter_env \<Rightarrow> string option \<Rightarrow> rate_state \<Rightarrow> (thrown + unit) \<times> rate_state" where
  "userIdentityRateLimit E = userRateLimit E ''global:user'' 300 60"

text \<open>
  The owner of a refresh token is looked up by the hashes the token may be stored under; rows are
  pairs of hash and user here.
\<close>

definition refreshUserRateLimit ::
    "crypto_env \<Rightarrow> crypto_prims \<Rightarrow> limiter_env \<Rightarrow> (string \<times> ident) list \<Rightarrow> string option \<Rightarrow> rate_state \<Rightarrow>
     (thrown + unit) \<times> rate_state" where
  "refreshUserRateLimit env prims E tokens refreshToken st =
     (if \<not> truthy refreshToken then (Inr (), st)
      else case candidateOpaqueTokenHashes env prims (the refreshToken) of
        Inl e \<Rightarrow> (Inl e, st)
      | Inr hashes \<Rightarrow>
          (case find_first (\<lambda>t. fst t \<in> set hashes) tokens of
             None \<Rightarrow> (Inr (), st)
           | Some t \<Rightarrow> limited E ''auth:refresh:user'' (''user:'' @ snd t) 20 (15 * 60) noOptions st))"

datatype PublicAuthEndpoint = ep_signup | ep_login | ep_otp_send | ep_otp_verify | ep_reset_request | ep_reset_verify | ep_reset_confirm

fun endpointText :: "PublicAuthEndpoint \<Rightarrow> string" where
  "endpointText ep_signup = ''signup''"
| "endpointText ep_login = ''login''"
| "endpointText ep_otp_send = ''otp-send''"
| "endpointText ep_otp_verify = ''otp-verify''"
| "endpointText ep_reset_request = ''password-reset-request''"
| "endpointText ep_reset_verify = ''password-reset-verify''"
| "endpointText ep_reset_confirm = ''password-reset-confirm''"

record backstop =
  bs_ipLimit :: int
  bs_globalLimit :: int
  bs_window :: int

fun policy :: "PublicAuthEndpoint \<Rightarrow> backstop" where
  "policy ep_signup = \<lparr>bs_ipLimit = 100, bs_globalLimit = 20000, bs_window = 60 * 60\<rparr>"
| "policy ep_login = \<lparr>bs_ipLimit = 300, bs_globalLimit = 100000, bs_window = 15 * 60\<rparr>"
| "policy ep_otp_send = \<lparr>bs_ipLimit = 300, bs_globalLimit = 20000, bs_window = 10 * 60\<rparr>"
| "policy ep_otp_verify = \<lparr>bs_ipLimit = 600, bs_globalLimit = 50000, bs_window = 10 * 60\<rparr>"
| "policy ep_reset_request = \<lparr>bs_ipLimit = 100, bs_globalLimit = 20000, bs_window = 60 * 60\<rparr>"
| "policy ep_reset_verify = \<lparr>bs_ipLimit = 300, bs_globalLimit = 50000, bs_window = 10 * 60\<rparr>"
| "policy ep_reset_confirm = \<lparr>bs_ipLimit = 100, bs_globalLimit = 20000, bs_window = 10 * 60\<rparr>"

definition failClosed :: RateLimitOptions where
  "failClosed = \<lparr>opt_redisFailureMode = Some deny_mode, opt_alertAt = None\<rparr>"

definition alertAtFourFifths :: "int \<Rightarrow> RateLimitOptions" where
  "alertAtFourFifths limit = failClosed\<lparr>opt_alertAt := Some (max 1 ((limit * 8 + 9) div 10))\<rparr>"

text \<open>All calls are started; the first that rejects decides the outcome.\<close>

fun promiseAll :: "(rate_state \<Rightarrow> (thrown + unit) \<times> rate_state) list \<Rightarrow> rate_state \<Rightarrow> (thrown + unit) \<times> rate_state" where
  "promiseAll [] st = (Inr (), st)"
| "promiseAll (c # cs) st =
     (let (r, st1) = c st; (rest, st2) = promiseAll cs st1 in (case r of Inl e \<Rightarrow> Inl e | Inr _ \<Rightarrow> rest, st2))"

definition enforceAuthBackstops ::
    "limiter_env \<Rightarrow> limiter_env \<Rightarrow> limiter_env \<Rightarrow> PublicAuthEndpoint \<Rightarrow> string option \<Rightarrow> string option \<Rightarrow> rate_state \<Rightarrow>
     (thrown + unit) \<times> rate_state" where
  "enforceAuthBackstops E1 E2 E3 endpoint ip provider =
     (let v = policy endpoint in
      promiseAll
        ([limited E1 (''auth:'' @ endpointText endpoint @ '':ip'') (clientIpKey ip) (bs_ipLimit v) (bs_window v) failClosed,
          limited E2 (''auth:'' @ endpointText endpoint @ '':global'') ''all'' (bs_globalLimit v) (bs_window v)
            (alertAtFourFifths (bs_globalLimit v))] @
         (case provider of
            None \<Rightarrow> []
          | Some p \<Rightarrow> [limited E3 (''provider-spend:'' @ p) ''all'' 10000 (60 * 60) (alertAtFourFifths 10000)])))"

text \<open>Requests that reach the limiter one after the other, with a Redis that answers.\<close>

fun ipRequests ::
    "'rd redis_cmds \<Rightarrow> (string \<Rightarrow> string) \<Rightarrow> string list \<Rightarrow> string \<Rightarrow> int \<Rightarrow> int \<Rightarrow> RateLimitOptions \<Rightarrow> string option list \<Rightarrow>
     'rd \<Rightarrow> rate_state \<Rightarrow> (thrown + unit) list" where
  "ipRequests cmds h entries scope limit w opts [] rd st = []"
| "ipRequests cmds h entries scope limit w opts (ip # ips) rd st =
     (let (reply, rd') = (if isRateLimitAllowlisted entries ip then ((0, 0), rd)
                          else incrementScript cmds (rateKey h scope (clientIpKey ip)) w rd);
          (r, st') = ipRateLimit entries \<lparr>le_hash = h, le_reply = Some reply, le_now = 0, le_now' = 0\<rparr> scope limit w opts ip st
      in r # ipRequests cmds h entries scope limit w opts ips rd' st')"

section \<open>Lemmas on texts and bytes\<close>

lemma joinBytes_eq: "lo < 256 \<Longrightarrow> joinBytes hi lo = hi * 256 + lo"
proof -
  assume "lo < 256"
  then have "take_bit 8 lo = lo" by (simp add: take_bit_nat_eq_self)
  then have "push_bit 8 hi OR lo = push_bit 8 hi + lo"
    by (metis disjunctive_add bit_push_bit_iff bit_take_bit_iff not_le)
  then show ?thesis by (simp add: joinBytes_def push_bit_eq_mult)
qed

lemma and_255: "(n::nat) AND 255 = n mod 256"
proof -
  have "(255::nat) = mask 8" by (simp add: mask_eq_exp_minus_1)
  then have "n AND 255 = take_bit 8 n" by (simp only: take_bit_eq_mask)
  then show ?thesis by (simp add: take_bit_eq_mod)
qed

lemma and_7: "(n::nat) AND 7 = n mod 8"
proof -
  have "(7::nat) = mask 3" by (simp add: mask_eq_exp_minus_1)
  then have "n AND 7 = take_bit 3 n" by (simp only: take_bit_eq_mask)
  then show ?thesis by (simp add: take_bit_eq_mod)
qed

text \<open>Masking off the low bits of a byte keeps the quotient.\<close>

lemma masked_byte:
  assumes "(x::nat) < 256"
  shows "x AND (push_bit k 255 AND 255) = push_bit k (drop_bit k x)"
proof -
  have m: "(255::nat) = mask 8" by (simp add: mask_eq_exp_minus_1)
  have "take_bit 8 x = x" using assms by (simp add: take_bit_nat_eq_self)
  then have "bit x i \<longrightarrow> i < 8" for i by (metis bit_take_bit_iff)
  then show ?thesis
    unfolding m by (intro bit_eqI) (auto simp: bit_simps intro: le_less_trans [OF diff_le_self])
qed

lemma masked_eq_iff:
  assumes "(x::nat) < 256" "y < 256"
  shows "x AND (push_bit k 255 AND 255) = y AND (push_bit k 255 AND 255) \<longleftrightarrow> x div 2 ^ k = y div 2 ^ k"
  unfolding masked_byte [OF assms(1)] masked_byte [OF assms(2)] by (simp add: push_bit_eq_mult drop_bit_eq_div)

lemma hexdigit_alphabet: "d < 16 \<Longrightarrow> hexdigit d \<in> set hex_alphabet"
proof -
  have "list_all (\<lambda>d. List.member hex_alphabet (hexdigit d)) [0..<16]" by code_simp
  then show "d < 16 \<Longrightarrow> hexdigit d \<in> set hex_alphabet" by (simp add: list_all_iff del: upt_Suc)
qed

lemma set_hexText: "set (hexText n) \<subseteq> set hex_alphabet"
proof (induction n rule: hexText.induct)
  case (1 n)
  then show ?case by (cases "n < 16") (auto simp: hexText.simps [of n] hexdigit_alphabet)
qed

lemma unhex_hexText [simp]: "unhex (hexText n) = n"
proof (induction n rule: hexText.induct)
  case (1 n)
  then show ?case by (cases "n < 16") (simp_all add: hexText.simps [of n] unhex_def unhexdigit_hexdigit)
qed

lemma hexText_inject: "hexText m = hexText n \<longleftrightarrow> m = n"
  by (metis unhex_hexText)

lemma join_inject:
  assumes "ps \<noteq> []" "qs \<noteq> []" "\<forall>p\<in>set ps \<union> set qs. sep \<notin> set p"
  shows "join_with [sep] ps = join_with [sep] qs \<longleftrightarrow> ps = qs"
proof -
  have "split_on sep (join_with [sep] ps) = ps" "split_on sep (join_with [sep] qs) = qs"
    using assms by (simp_all add: split_on_join)
  then show ?thesis by metis
qed

section \<open>What the parser returns\<close>

definition bytes_ok :: "nat list \<Rightarrow> bool" where
  "bytes_ok bs \<longleftrightarrow> (\<forall>b\<in>set bs. b < 256)"

definition address_ok :: "ParsedIp \<Rightarrow> bool" where
  "address_ok p \<longleftrightarrow> bytes_ok (ip_bytes p) \<and> length (ip_bytes p) = (case ip_family p of family4 \<Rightarrow> 4 | family6 \<Rightarrow> 16)"

lemma parseIpv4Bytes_ok:
  assumes "parseIpv4Bytes v = Some bs"
  shows "length bs = 4 \<and> bytes_ok bs"
proof -
  have bs: "bs = map undecimal (split_on CHR ''.'' v)" and "isIPv4 v"
    using assms by (auto simp: parseIpv4Bytes_def split: if_split_asm)
  then have "length bs = 4" and os: "list_all octet (split_on CHR ''.'' v)"
    by (auto simp: isIPv4_def Let_def)
  moreover have "octet x \<Longrightarrow> undecimal x < 256" for x by (simp add: octet_def)
  ultimately show ?thesis by (auto simp: bs bytes_ok_def list_all_iff)
qed

lemma groupBytes_ok: "groupBytes gs = Some bs \<Longrightarrow> length bs = 2 * length gs \<and> bytes_ok bs"
  by (induction gs arbitrary: bs) (auto simp: bytes_ok_def and_255 split: if_split_asm)

lemma parseIpv6Bytes_ok: "parseIpv6Bytes v = Some bs \<Longrightarrow> length bs = 16 \<and> bytes_ok bs"
  by (auto simp: parseIpv6Bytes_def split: option.split_asm if_split_asm dest!: groupBytes_ok)

lemma parseClientIp_ok:
  assumes "parseClientIp v = Some p"
  shows "address_ok p"
  using assms
  by (auto simp: parseClientIp_def Let_def address_ok_def bytes_ok_def
      dest!: parseIpv4Bytes_ok parseIpv6Bytes_ok split: option.split_asm if_split_asm)
     (meson in_set_dropD)

section \<open>Lemmas on buckets\<close>

text \<open>What a bucket stands for: an IPv4 address, or the network half of an IPv6 address.\<close>

definition bucket :: "ParsedIp \<Rightarrow> family \<times> nat list" where
  "bucket p = (ip_family p, take (case ip_family p of family4 \<Rightarrow> 4 | family6 \<Rightarrow> 8) (ip_bytes p))"

lemma list8: "8 \<le> length xs \<Longrightarrow> \<exists>a b c d e f g h r. xs = a # b # c # d # e # f # g # h # r"
  by (auto simp: numeral_eq_Suc Suc_le_length_iff)

lemma hextets_8:
  assumes "bytes_ok (a # b # c # d # e # f # g # h # r)"
  shows "hextets (a # b # c # d # e # f # g # h # r) 8 =
    join_with '':'' [hexText (a * 256 + b), hexText (c * 256 + d), hexText (e * 256 + f), hexText (g * 256 + h)]"
proof -
  have "[0..<(8 + 1) div 2] = [0, 1, 2, 3 :: nat]" by (simp add: upt_rec)
  then show ?thesis using assms by (simp add: hextets_def byteAt_def bytes_ok_def joinBytes_eq)
qed

lemma two_bytes:
  assumes "b < 256" "d < (256::nat)"
  shows "a * 256 + b = c * 256 + d \<longleftrightarrow> a = c \<and> b = d"
proof -
  have "(a * 256 + b) div 256 = a" "(a * 256 + b) mod 256 = b" "(c * 256 + d) div 256 = c" "(c * 256 + d) mod 256 = d"
    using assms by simp_all
  then show ?thesis by metis
qed

lemma hex_no_colon: "CHR '':'' \<notin> set (hexText n)"
  using set_hexText [of n] by (auto simp: hex_alphabet_def)

lemma hextets_inject:
  assumes "bytes_ok xs" "bytes_ok ys" "8 \<le> length xs" "8 \<le> length ys"
  shows "hextets xs 8 = hextets ys 8 \<longleftrightarrow> take 8 xs = take 8 ys"
proof -
  obtain a b c d e f g h r where x: "xs = a # b # c # d # e # f # g # h # r" using list8 [OF assms(3)] by blast
  obtain a' b' c' d' e' f' g' h' r' where y: "ys = a' # b' # c' # d' # e' # f' # g' # h' # r'"
    using list8 [OF assms(4)] by blast
  have "hextets xs 8 = hextets ys 8 \<longleftrightarrow>
    [hexText (a * 256 + b), hexText (c * 256 + d), hexText (e * 256 + f), hexText (g * 256 + h)] =
    [hexText (a' * 256 + b'), hexText (c' * 256 + d'), hexText (e' * 256 + f'), hexText (g' * 256 + h')]"
    unfolding x y hextets_8 [OF assms(1) [unfolded x]] hextets_8 [OF assms(2) [unfolded y]]
    by (rule join_inject) (simp_all add: hex_no_colon)
  also have "\<dots> \<longleftrightarrow> take 8 xs = take 8 ys"
    using assms(1,2) by (simp add: x y hexText_inject bytes_ok_def two_bytes)
  finally show ?thesis .
qed

lemma dotted_inject:
  assumes "xs \<noteq> []" "ys \<noteq> []"
  shows "join_with ''.'' (map decimal xs) = join_with ''.'' (map decimal ys) \<longleftrightarrow> xs = ys"
proof -
  have "CHR ''.'' \<notin> set (decimal n)" for n using set_decimal [of n] by (auto simp: digits_def)
  then have "join_with ''.'' (map decimal xs) = join_with ''.'' (map decimal ys) \<longleftrightarrow> map decimal xs = map decimal ys"
    using assms by (subst join_inject) auto
  moreover have "inj decimal" by (auto intro: injI simp: decimal_inject)
  ultimately show ?thesis by (simp add: inj_map_eq_map)
qed

definition bucketText :: "ParsedIp \<Rightarrow> string" where
  "bucketText p =
     (case ip_family p of
        family4 \<Rightarrow> ''ip4:'' @ join_with ''.'' (map decimal (ip_bytes p))
      | family6 \<Rightarrow> ''ip6:'' @ hextets (ip_bytes p) 8)"

lemma clientIpKey_text: "clientIpKey v = (case parseClientIp v of None \<Rightarrow> UNRESOLVED_CLIENT_IP | Some p \<Rightarrow> bucketText p)"
  by (simp add: clientIpKey_def bucketText_def IPV6_BUCKET_BITS_def cong: option.case_cong family.case_cong)

lemma bucketText_resolved: "bucketText p \<noteq> UNRESOLVED_CLIENT_IP" "UNRESOLVED_CLIENT_IP \<noteq> bucketText p"
  by (auto simp: bucketText_def UNRESOLVED_CLIENT_IP_def split: family.split)

lemma bucketText_inject:
  assumes "address_ok p" "address_ok q"
  shows "bucketText p = bucketText q \<longleftrightarrow> bucket p = bucket q"
proof (cases "ip_family p"; cases "ip_family q")
  assume f: "ip_family p = family4" "ip_family q = family4"
  then have l: "length (ip_bytes p) = 4" "length (ip_bytes q) = 4" using assms by (simp_all add: address_ok_def)
  then have "ip_bytes p \<noteq> []" "ip_bytes q \<noteq> []" by auto
  from dotted_inject [OF this] l show ?thesis using f by (simp add: bucketText_def bucket_def)
next
  assume f: "ip_family p = family6" "ip_family q = family6"
  then show ?thesis using assms hextets_inject [of "ip_bytes p" "ip_bytes q"]
    by (simp add: bucketText_def bucket_def address_ok_def)
qed (simp_all add: bucketText_def bucket_def)

section \<open>Lemmas on networks\<close>

text \<open>The number an address denotes.\<close>

primrec addressNumber :: "nat list \<Rightarrow> nat" where
  "addressNumber [] = 0"
| "addressNumber (b # bs) = b * 256 ^ length bs + addressNumber bs"

lemma addressNumber_append: "addressNumber (xs @ ys) = addressNumber xs * 256 ^ length ys + addressNumber ys"
  by (induction xs) (simp_all add: algebra_simps power_add)

lemma addressNumber_snoc: "addressNumber (xs @ [b]) = addressNumber xs * 256 + b"
  by (simp add: addressNumber_append)

lemma addressNumber_less: "bytes_ok bs \<Longrightarrow> addressNumber bs < 256 ^ length bs"
proof (induction bs rule: rev_induct)
  case (snoc b bs)
  then have "addressNumber bs < 256 ^ length bs" "b < 256" by (auto simp: bytes_ok_def)
  then have "addressNumber bs * 256 + b < (addressNumber bs + 1) * 256" "(addressNumber bs + 1) * 256 \<le> 256 ^ length bs * 256"
    by simp_all
  then show ?case by (simp add: addressNumber_snoc)
qed simp

lemma addressNumber_inject:
  "bytes_ok xs \<Longrightarrow> bytes_ok ys \<Longrightarrow> length xs = length ys \<Longrightarrow> addressNumber xs = addressNumber ys \<longleftrightarrow> xs = ys"
proof (induction xs arbitrary: ys rule: rev_induct)
  case (snoc b xs)
  then obtain c zs where y: "ys = zs @ [c]" by (cases ys rule: rev_cases) auto
  then show ?case using snoc by (auto simp: addressNumber_snoc bytes_ok_def two_bytes)
qed simp

lemma number_div:
  assumes "bytes_ok ys"
  shows "addressNumber (xs @ ys) div 2 ^ (8 * length ys + k) = addressNumber xs div 2 ^ k"
proof -
  have "(2::nat) ^ (8 * length ys) = 256 ^ length ys" by (simp add: power_mult)
  then have "addressNumber (xs @ ys) div 2 ^ (8 * length ys + k) =
      (addressNumber xs * 256 ^ length ys + addressNumber ys) div 256 ^ length ys div 2 ^ k"
    by (simp add: addressNumber_append power_add div_mult2_eq)
  also have "\<dots> = addressNumber xs div 2 ^ k"
    using addressNumber_less [OF assms] by (simp add: div_add1_eq)
  finally show ?thesis .
qed

lemma upto_bytes_equal:
  "length xs = length ys \<Longrightarrow> n \<le> length xs \<Longrightarrow>
   list_all (\<lambda>i. byteAt xs i = byteAt ys i) [0..<n] \<longleftrightarrow> take n xs = take n ys"
  by (auto simp: list_all_iff byteAt_def list_eq_iff_nth_eq)

lemma scaled_eq_iff:
  assumes "b < 2 ^ r" "d < (2::nat) ^ r"
  shows "a * 2 ^ r + b = c * 2 ^ r + d \<longleftrightarrow> a = c \<and> b = d"
proof -
  have "(a * 2 ^ r + b) div 2 ^ r = a" "(a * 2 ^ r + b) mod 2 ^ r = b"
    "(c * 2 ^ r + d) div 2 ^ r = c" "(c * 2 ^ r + d) mod 2 ^ r = d"
    using assms by simp_all
  then show ?thesis by metis
qed

lemma partial_byte:
  assumes "r \<le> 8" "(b::nat) < 256"
  shows "(m * 256 + b) div 2 ^ (8 - r) = m * 2 ^ r + b div 2 ^ (8 - r)" and "b div 2 ^ (8 - r) < 2 ^ r"
proof -
  have e: "(256::nat) = 2 ^ r * 2 ^ (8 - r)" using assms(1) by (simp flip: power_add)
  have "m * 256 + b = b + m * 2 ^ r * 2 ^ (8 - r)" by (simp only: e mult.assoc add.commute)
  then have "(m * 256 + b) div 2 ^ (8 - r) = (b + m * 2 ^ r * 2 ^ (8 - r)) div 2 ^ (8 - r)" by (rule arg_cong)
  then show "(m * 256 + b) div 2 ^ (8 - r) = m * 2 ^ r + b div 2 ^ (8 - r)" by simp
  have "b < 2 ^ r * 2 ^ (8 - r)" using assms(2) e by simp
  then show "b div 2 ^ (8 - r) < 2 ^ r" by (rule less_mult_imp_div_less)
qed

lemma withinPrefix_number:
  assumes ok: "bytes_ok xs" "bytes_ok ys" and len: "length xs = length ys" and n: "n \<le> 8 * length xs"
  shows "withinPrefix xs ys n \<longleftrightarrow>
         addressNumber xs div 2 ^ (8 * length xs - n) = addressNumber ys div 2 ^ (8 * length ys - n)"
proof -
  define w r where wr: "w = n div 8" "r = n mod 8"
  have w: "drop_bit 3 n = w" "n AND 7 = r" by (simp_all add: wr drop_bit_eq_div and_7)
  have wl: "w \<le> length xs" using n by (simp add: wr)
  have tk: "bytes_ok (take k xs)" "bytes_ok (take k ys)" "bytes_ok (drop k xs)" "bytes_ok (drop k ys)" for k
    using ok by (auto simp: bytes_ok_def dest: in_set_takeD in_set_dropD)
  have whole: "addressNumber (take w xs) = addressNumber (take w ys) \<longleftrightarrow> take w xs = take w ys"
    using addressNumber_inject [OF tk(1,2)] len by simp
  note first = upto_bytes_equal [OF len wl]
  show ?thesis
  proof (cases "r = 0")
    case True
    then have e: "8 * length xs - n = 8 * length (drop w xs) + 0" "8 * length ys - n = 8 * length (drop w ys) + 0"
      using n len by (auto simp: wr)
    have "addressNumber zs div 2 ^ (8 * length (drop w zs) + 0) = addressNumber (take w zs)" if "bytes_ok (drop w zs)" for zs
      using number_div [OF that, of "take w zs" 0] by simp
    then show ?thesis using True tk whole first by (simp add: withinPrefix_def w e del: length_drop)
  next
    case False
    have nwr: "n = 8 * w + r" by (simp add: wr)
    with False have wl': "w < length xs" "w < length ys" using n len by linarith+
    have r8: "r \<le> 8" by (simp add: wr)
    have b: "xs ! w < 256" "ys ! w < 256" using ok wl' by (auto simp: bytes_ok_def)
    have e: "8 * length xs - n = 8 * length (drop (Suc w) xs) + (8 - r)"
        "8 * length ys - n = 8 * length (drop (Suc w) ys) + (8 - r)"
      using n len wl' r8 unfolding length_drop nwr by linarith+
    have "addressNumber zs div 2 ^ (8 * length (drop (Suc w) zs) + (8 - r)) =
        addressNumber (take w zs) * 2 ^ r + zs ! w div 2 ^ (8 - r)"
      if "bytes_ok (drop (Suc w) zs)" "w < length zs" "zs ! w < 256" for zs
    proof -
      have "addressNumber zs div 2 ^ (8 * length (drop (Suc w) zs) + (8 - r)) = addressNumber (take (Suc w) zs) div 2 ^ (8 - r)"
        using number_div [OF that(1), of "take (Suc w) zs" "8 - r"] by simp
      also have "take (Suc w) zs = take w zs @ [zs ! w]" using that(2) by (simp add: take_Suc_conv_app_nth)
      finally show ?thesis using partial_byte(1) [OF r8 that(3)] by (simp add: addressNumber_snoc)
    qed
    then have "addressNumber xs div 2 ^ (8 * length xs - n) = addressNumber ys div 2 ^ (8 * length ys - n) \<longleftrightarrow>
        take w xs = take w ys \<and> xs ! w div 2 ^ (8 - r) = ys ! w div 2 ^ (8 - r)"
      using tk wl' b partial_byte(2) [OF r8] whole by (simp add: e scaled_eq_iff del: length_drop)
    moreover have "withinPrefix xs ys n \<longleftrightarrow> take w xs = take w ys \<and> xs ! w div 2 ^ (8 - r) = ys ! w div 2 ^ (8 - r)"
      using False wl' first masked_eq_iff [OF b] by (simp add: withinPrefix_def w byteAt_def)
    ultimately show ?thesis by simp
  qed
qed

text \<open>A network given in CIDR notation is an address with a prefix that fits it.\<close>

definition cidr_ok :: "ParsedCidr \<Rightarrow> bool" where
  "cidr_ok net \<longleftrightarrow> address_ok \<lparr>ip_family = ip_family net, ip_bytes = ip_bytes net\<rparr> \<and> cidr_prefix net \<le> 8 * length (ip_bytes net)"

lemma parseCidr_ok:
  assumes "parseCidr t = Some net"
  shows "cidr_ok net"
proof -
  obtain p n where "net = withPrefix p n" "address_ok p" "n \<le> 8 * length (ip_bytes p)"
    using assms
    by (auto simp: parseCidr_def Let_def split: list.split_asm if_split_asm option.split_asm dest!: parseClientIp_ok)
  then show ?thesis by (simp add: cidr_ok_def withPrefix_def address_ok_def)
qed

definition in_network :: "ParsedIp \<Rightarrow> ParsedCidr \<Rightarrow> bool" where
  "in_network p net \<longleftrightarrow> ip_family net = ip_family p \<and>
     addressNumber (ip_bytes p) div 2 ^ (8 * length (ip_bytes p) - cidr_prefix net) =
     addressNumber (ip_bytes net) div 2 ^ (8 * length (ip_bytes p) - cidr_prefix net)"

lemma network_test:
  assumes "address_ok p" "cidr_ok net"
  shows "ip_family net = ip_family p \<and> withinPrefix (ip_bytes p) (ip_bytes net) (cidr_prefix net) \<longleftrightarrow> in_network p net"
proof (cases "ip_family net = ip_family p")
  case True
  then have "length (ip_bytes p) = length (ip_bytes net)" using assms by (simp add: address_ok_def cidr_ok_def)
  then show ?thesis using True assms withinPrefix_number [of "ip_bytes p" "ip_bytes net" "cidr_prefix net"]
    by (simp add: in_network_def address_ok_def cidr_ok_def)
qed (simp add: in_network_def)

section \<open>Lemmas on proxies\<close>

lemma walkProxies_stops: "\<not> matchesAnyCidr (Some c) nets \<Longrightarrow> walkProxies nets c rest = c"
  by (cases rest) simp_all

lemma walkProxies_trusted:
  "\<forall>a\<in>set (remote # proxies). matchesAnyCidr (Some a) nets \<Longrightarrow>
   walkProxies nets remote (proxies @ c # rest) = walkProxies nets c rest"
  by (induction proxies arbitrary: remote) simp_all

text \<open>
  One entry of the header that is not an address hides the client behind the nearest proxy, even when
  the entry was sent by the client: the address returned is the proxy's.
\<close>

lemma garbage_entry_yields_proxy:
  "trustedClientAddress \<lparr>tp_remoteAddress = Some ''10.0.0.1'', tp_forwardedFor = Some [''x, 203.0.113.7''],
     tp_trustedHops = 1, tp_trustedCidrs = []\<rparr> = Some ''10.0.0.1'' \<and>
   trustedClientAddress \<lparr>tp_remoteAddress = Some ''10.0.0.1'', tp_forwardedFor = Some [''203.0.113.7''],
     tp_trustedHops = 1, tp_trustedCidrs = []\<rparr> = Some ''203.0.113.7''"
  by code_simp

lemma clientIpKey_bucket:
  "clientIpKey a = clientIpKey b \<longleftrightarrow> map_option bucket (parseClientIp a) = map_option bucket (parseClientIp b)"
  by (simp add: clientIpKey_text bucketText_resolved bucketText_inject parseClientIp_ok split: option.split)

lemma ipRequests_enforceRedis:
  "\<forall>x\<in>set ips. clientIpKey x = key \<and> \<not> isRateLimitAllowlisted entries x \<Longrightarrow>
   map (\<lambda>r. r = Inr ()) (ipRequests cmds h entries scope limit w opts ips rd st) =
   map admitted (enforceRedis cmds h scope key limit w opts (length ips) rd st)"
proof (induction ips arbitrary: rd st)
  case (Cons ip ips)
  have "map_sum id (\<lambda>_. ()) r = Inr () \<longleftrightarrow> admitted r" for r by (cases r) (auto simp: admitted_def)
  with Cons show ?case by (simp add: ipRateLimit_def limited_def split: prod.split)
qed simp

section \<open>Properties\<close>

text \<open>
  C35: two client addresses share a rate-limit bucket exactly when they are the same IPv4 address
  (written as such or as a mapped IPv6 address), or IPv6 addresses of the same /64 network, or both
  unreadable. No spelling of an address leads to another bucket, and no address shares the bucket of
  the unreadable ones.
\<close>
theorem clientIpKey_exact:
  "clientIpKey a = clientIpKey b \<longleftrightarrow> map_option bucket (parseClientIp a) = map_option bucket (parseClientIp b)"
  by (rule clientIpKey_bucket)

text \<open>
  the holders of one IPv6 network share one budget. However the requests are spread over the
  addresses of a /64 network, or over the spellings of one IPv4 address, exactly the first
  \<open>limit\<close> of them before the key expires pass the address limiter, if none of the addresses is on the
  allowlist and Redis obeys its documented laws.
\<close>
theorem ipRateLimit_network_budget:
  assumes laws: "redis_laws cmds val" and fresh: "val rd (rateKey h scope (clientIpKey ip)) = 0"
    and same: "\<forall>x\<in>set ips. map_option bucket (parseClientIp x) = map_option bucket (parseClientIp ip) \<and>
                            \<not> isRateLimitAllowlisted entries x"
  shows "map (\<lambda>r. r = Inr ()) (ipRequests cmds h entries scope limit w opts ips rd st) =
         map (\<lambda>i. int i < limit) [0..<length ips]"
proof -
  have "\<forall>x\<in>set ips. clientIpKey x = clientIpKey ip \<and> \<not> isRateLimitAllowlisted entries x"
    using same clientIpKey_bucket by blast
  then have "map (\<lambda>r. r = Inr ()) (ipRequests cmds h entries scope limit w opts ips rd st) =
      map admitted (enforceRedis cmds h scope (clientIpKey ip) limit w opts (length ips) rd st)"
    by (rule ipRequests_enforceRedis)
  also have "\<dots> = map (\<lambda>i. int i < limit) [0..<length ips]" by (rule redis_window [OF laws fresh])
  finally show ?thesis .
qed

theorem ipRateLimit_network_budget_witness:
  "map (\<lambda>r. r = Inr ()) (ipRequests mem_redis id [] ''login'' 2 60 noOptions
      [Some ''10.0.0.1'', Some '' 10.0.0.1'', Some ''[10.0.0.1]''] (\<lambda>_. 0) (rate_state0 4)) = [True, True, False]"
proof -
  let ?ips = "[Some ''10.0.0.1'', Some '' 10.0.0.1'', Some ''[10.0.0.1]'']"
  have laws: "redis_laws mem_redis (\<lambda>r. r)" by (simp add: redis_laws_def mem_redis_def)
  have "map (\<lambda>x. (map_option (\<lambda>p. (ip_family p, ip_bytes p)) (parseClientIp x), isRateLimitAllowlisted [] x)) ?ips =
      replicate 3 (Some (family4, [10, 0, 0, 1]), False)" by code_simp
  then have "\<forall>x\<in>set ?ips. map_option bucket (parseClientIp x) = map_option bucket (parseClientIp (Some ''10.0.0.1'')) \<and>
      \<not> isRateLimitAllowlisted [] x"
    by (auto simp: numeral_eq_Suc bucket_def)
  from ipRateLimit_network_budget [OF laws _ this, of "\<lambda>_. 0" id "''login''" 2 60 noOptions "rate_state0 4"]
  show ?thesis by (simp add: numeral_eq_Suc del: ipRequests.simps)
qed

text \<open>
  Network membership is numeric. The byte and mask loop accepts an address for a list of networks
  in CIDR notation exactly when it is readable and agrees with one of them, of the same family, in the
  leading prefix bits of the numbers the two denote; a prefix of zero accepts the whole family and a
  full one only the address itself.
\<close>
theorem matchesAnyCidr_numeric:
  assumes "\<forall>net\<in>set nets. \<exists>t. parseCidr t = Some net"
  shows "matchesAnyCidr value nets \<longleftrightarrow>
         (\<exists>p. parseClientIp value = Some p \<and> (\<exists>net\<in>set nets. in_network p net))"
proof -
  have "\<forall>net\<in>set nets. cidr_ok net" using assms parseCidr_ok by blast
  then have "(\<exists>net\<in>set nets. ip_family net = ip_family p \<and> withinPrefix (ip_bytes p) (ip_bytes net) (cidr_prefix net)) \<longleftrightarrow>
      (\<exists>net\<in>set nets. in_network p net)" if "parseClientIp value = Some p" for p
    using network_test [OF parseClientIp_ok [OF that]] by (intro bex_cong) simp_all
  then show ?thesis by (cases "parseClientIp value") (simp_all add: matchesAnyCidr_def list_ex_iff)
qed

theorem matchesAnyCidr_numeric_witness:
  "\<exists>net. parseCidr ''10.1.0.0/12'' = Some net \<and> matchesAnyCidr (Some ''10.15.2.3'') [net] \<and>
     \<not> matchesAnyCidr (Some ''10.16.2.3'') [net]"
proof -
  let ?net = "\<lparr>ip_family = family4, ip_bytes = [10, 1, 0, 0], cidr_prefix = 12\<rparr>"
  have read: "trim ''10.1.0.0/12'' = ''10.1.0.0/12''" "undecimal ''12'' = 12" "list_all (\<lambda>c. c \<in> set digits) ''12''"
    by code_simp+
  have "map (map_option (\<lambda>p. (ip_family p, ip_bytes p)) \<circ> parseClientIp \<circ> Some) [''10.1.0.0'', ''10.15.2.3'', ''10.16.2.3''] =
    [Some (family4, [10, 1, 0, 0]), Some (family4, [10, 15, 2, 3]), Some (family4, [10, 16, 2, 3])]" by code_simp
  then have p: "parseClientIp (Some ''10.1.0.0'') = Some \<lparr>ip_family = family4, ip_bytes = [10, 1, 0, 0]\<rparr>"
    "parseClientIp (Some ''10.15.2.3'') = Some \<lparr>ip_family = family4, ip_bytes = [10, 15, 2, 3]\<rparr>"
    "parseClientIp (Some ''10.16.2.3'') = Some \<lparr>ip_family = family4, ip_bytes = [10, 16, 2, 3]\<rparr>"
    by auto
  from read p(1) have net: "parseCidr ''10.1.0.0/12'' = Some ?net" by (simp add: parseCidr_def withPrefix_def)
  then have "\<forall>n\<in>set [?net]. \<exists>t. parseCidr t = Some n" by auto
  note numeric = matchesAnyCidr_numeric [OF this]
  have "in_network \<lparr>ip_family = family4, ip_bytes = [10, 15, 2, 3]\<rparr> ?net"
    "\<not> in_network \<lparr>ip_family = family4, ip_bytes = [10, 16, 2, 3]\<rparr> ?net" by (simp_all add: in_network_def)
  with net show ?thesis using numeric [of "Some ''10.15.2.3''"] numeric [of "Some ''10.16.2.3''"] p(2,3) by auto
qed

text \<open>
  C34: a client cannot choose its address. Without trusted proxies, or when the connection does not come
  from a trusted network, the address is that of the connection whatever the header says. Behind
  trusted networks it is the nearest untrusted entry, and behind a fixed number of hops the entry
  written by the last of them, whatever readable entries the client has put further left.
\<close>
theorem trustedClientAddress_unspoofable:
  assumes remote: "parseClientIp (Some remote) \<noteq> None" "trim remote = remote"
    and inp: "tp_remoteAddress inp = Some remote"
  shows "(tp_trustedHops inp \<le> 0 \<and> \<not> matchesAnyCidr (Some remote) (tp_trustedCidrs inp) \<longrightarrow>
            trustedClientAddress inp = Some remote) \<and>
         (forwardedEntries (tp_forwardedFor inp) = proxies @ client # spoofed \<and>
          (\<forall>v\<in>set (proxies @ client # spoofed). parseClientIp (Some v) \<noteq> None) \<longrightarrow>
            (tp_trustedHops inp \<le> 0 \<and> \<not> matchesAnyCidr (Some client) (tp_trustedCidrs inp) \<and>
             (\<forall>v\<in>set (remote # proxies). matchesAnyCidr (Some v) (tp_trustedCidrs inp)) \<longrightarrow>
               trustedClientAddress inp = Some client) \<and>
            (tp_trustedHops inp = int (length proxies) + 1 \<longrightarrow> trustedClientAddress inp = Some client))"
proof -
  let ?fwd = "forwardedEntries (tp_forwardedFor inp)" and ?nets = "tp_trustedCidrs inp" and ?hops = "tp_trustedHops inp"
  have "remote \<noteq> []"
    using remote(1) by (auto simp: parseClientIp_def trim_def stripBrackets_def)
  then have run: "trustedClientAddress inp =
      (if list_ex (\<lambda>v. parseClientIp (Some v) = None) ?fwd then Some remote
       else if ?hops > 0 then Some ((remote # ?fwd) ! min (nat ?hops) (length ?fwd))
       else if ?nets = [] then Some remote else Some (walkProxies ?nets remote ?fwd))"
    using remote inp by (simp add: trustedClientAddress_def Let_def)
  have "trustedClientAddress inp = Some remote" if "?hops \<le> 0" "\<not> matchesAnyCidr (Some remote) ?nets"
    using that by (simp add: run walkProxies_stops)
  moreover have "trustedClientAddress inp = Some client"
    if fwd: "?fwd = proxies @ client # spoofed" and ok: "\<forall>v\<in>set (proxies @ client # spoofed). parseClientIp (Some v) \<noteq> None"
      and how: "?hops \<le> 0 \<and> \<not> matchesAnyCidr (Some client) ?nets \<and> (\<forall>v\<in>set (remote # proxies). matchesAnyCidr (Some v) ?nets) \<or>
                ?hops = int (length proxies) + 1"
  proof -
    have "\<not> list_ex (\<lambda>v. parseClientIp (Some v) = None) ?fwd" using ok by (auto simp: fwd list_ex_iff)
    moreover have "?nets \<noteq> []" if "matchesAnyCidr (Some remote) ?nets" using that by (auto simp: matchesAnyCidr_def)
    ultimately show ?thesis using how
      by (elim disjE) (simp_all add: run fwd walkProxies_trusted walkProxies_stops nat_add_distrib, auto)
  qed
  ultimately show ?thesis by blast
qed

theorem trustedClientAddress_unspoofable_witness:
  "trustedClientAddress \<lparr>tp_remoteAddress = Some ''10.0.0.1'', tp_forwardedFor = Some [''1.1.1.1, 203.0.113.7''],
     tp_trustedHops = 1, tp_trustedCidrs = []\<rparr> = Some ''203.0.113.7''"
proof -
  let ?inp = "\<lparr>tp_remoteAddress = Some ''10.0.0.1'', tp_forwardedFor = Some [''1.1.1.1, 203.0.113.7''],
     tp_trustedHops = 1, tp_trustedCidrs = []\<rparr>"
  have "parseClientIp (Some ''10.0.0.1'') \<noteq> None" "trim ''10.0.0.1'' = ''10.0.0.1''" by code_simp+
  moreover have "forwardedEntries (tp_forwardedFor ?inp) = [] @ ''203.0.113.7'' # [''1.1.1.1'']" by code_simp
  moreover have "parseClientIp (Some ''203.0.113.7'') \<noteq> None" "parseClientIp (Some ''1.1.1.1'') \<noteq> None" by code_simp+
  ultimately show ?thesis
    using trustedClientAddress_unspoofable [of "''10.0.0.1''" ?inp "[]" "''203.0.113.7''" "[''1.1.1.1'']"] by simp
qed

end
