(* ===== verification/Content.thy ===== *)
theory Content
  imports Auth_Sessions
begin

text \<open>
  The rows of uploads and conversations, the part of the database that
  \<open>src/src/modules/uploads/\<close> and \<open>src/src/modules/chat/\<close> share, and how the client extensions of
  \<open>src/src/lib/prisma.ts\<close> and \<open>src/src/lib/tenant-scope.ts\<close> act on its queries: rows of another
  organization are out of sight, and a query without a usable context is refused.
\<close>

section \<open>Rows\<close>

datatype UploadStatus = UP_PENDING | UP_QUARANTINED | UP_SCANNING | UP_READY | UP_REJECTED | UP_FAILED | UP_DELETED

datatype UploadProvider = S3 | CLOUDINARY

datatype UploadVisibility = UP_PRIVATE | UP_PUBLIC

record Upload =
  up_id :: ident
  up_organizationId :: "ident option"
  up_userId :: ident
  up_provider :: UploadProvider
  up_status :: UploadStatus
  up_visibility :: UploadVisibility
  up_objectKey :: string
  up_originalName :: string
  up_contentType :: string
  up_expectedSize :: int
  up_actualSize :: "int option"
  up_checksum :: "string option"
  up_detectedContentType :: "string option"
  up_scanProvider :: "string option"
  up_scanReference :: "string option"
  up_scanVerdict :: "string option"
  up_scannedAt :: "time option"
  up_url :: "string option"
  up_uploadExpiresAt :: time
  up_readyAt :: "time option"
  up_storageDeletedAt :: "time option"
  up_createdAt :: time
  up_deletedAt :: "time option"

record UploadBandwidthUsage =
  bw_id :: ident
  bw_organizationId :: "ident option"
  bw_userId :: ident
  bw_scopeKey :: string
  bw_periodStart :: time
  bw_bytes :: int

datatype ConversationType = DIRECT | GROUP | SUPPORT

record Conversation =
  co_id :: ident
  co_organizationId :: "ident option"
  co_type :: ConversationType
  co_title :: "string option"
  co_createdByUserId :: "ident option"
  co_lastSeq :: int
  co_lastMessageAt :: "time option"
  co_directKey :: "string option"
  co_createdAt :: time
  co_deletedAt :: "time option"

datatype ParticipantRole = P_OWNER | P_MEMBER

record ConversationParticipant =
  cp_id :: ident
  cp_organizationId :: "ident option"
  cp_conversationId :: ident
  cp_userId :: ident
  cp_role :: ParticipantRole
  cp_lastReadSeq :: int
  cp_mutedUntil :: "time option"
  cp_leftAt :: "time option"
  cp_deletedAt :: "time option"

datatype MessageType = TEXT | SYSTEM | ATTACHMENT

record Message =
  msg_id :: ident
  msg_organizationId :: "ident option"
  msg_conversationId :: ident
  msg_senderUserId :: "ident option"
  msg_seq :: int
  msg_clientMessageId :: string
  msg_type :: MessageType
  msg_body :: "string option"
  msg_uploadId :: "ident option"
  msg_editedAt :: "time option"
  msg_createdAt :: time
  msg_deletedAt :: "time option"

record content =
  accounts :: store
  uploads :: "Upload list"
  bandwidthUsage :: "UploadBandwidthUsage list"
  conversations :: "Conversation list"
  participants :: "ConversationParticipant list"
  messages :: "Message list"
  removed :: "string list"  \<comment> \<open>keys of the objects the storage provider has been asked to delete\<close>

section \<open>Statements on the other tables\<close>

definition inAccounts :: "(store, 'a) tx \<Rightarrow> (content, 'a) tx" where
  "inAccounts m s = (case m (accounts s) of Inl e \<Rightarrow> Inl e | Inr (a, b) \<Rightarrow> Inr (a, s\<lparr>accounts := b\<rparr>))"

lemma inAccounts_Inr [tx_simps]:
  "inAccounts m s = Inr r \<longleftrightarrow> (\<exists>a b. m (accounts s) = Inr (a, b) \<and> r = (a, s\<lparr>accounts := b\<rparr>))"
  by (auto simp: inAccounts_def split: sum.split)

type_synonym ContentAudit = "ident \<Rightarrow> time \<Rightarrow> AuditInput \<Rightarrow> (content, unit) tx"

definition auditedContent :: "app \<Rightarrow> (ContentAudit \<Rightarrow> (content, 'a) tx) \<Rightarrow> (content, 'a) io" where
  "auditedContent A operation = transaction (operation (\<lambda>eid now input. inAccounts (auditEventWriter A eid now input)))"

text \<open>What a \<open>catch\<close> clause does with an error; what was committed before it stays.\<close>

definition catching :: "('s, 'a) io \<Rightarrow> (thrown \<Rightarrow> ('s, 'a) io) \<Rightarrow> ('s, 'a) io" where
  "catching m handler s = (case m s of (Inl e, s') \<Rightarrow> handler e s' | (Inr a, s') \<Rightarrow> (Inr a, s'))"

definition failing :: "thrown \<Rightarrow> ('s, 'a) io" where
  "failing e s = (Inl e, s)"

text \<open>A call of a service outside the database.\<close>

definition calling :: "thrown + 'a \<Rightarrow> ('s, 'a) io" where
  "calling r s = (r, s)"

text \<open>A condition on the database that holds after every step holds at the end.\<close>

lemma andNext_post:
  assumes "Q (snd (m s))" "\<And>a s1. m s = (Inr a, s1) \<Longrightarrow> Q s1 \<Longrightarrow> Q (snd (f a s1))"
  shows "Q (snd (andNext m f s))"
  using assms by (cases "m s"; cases "fst (m s)") (auto simp: andNext_def)

lemma catching_post:
  assumes "Q (snd (m s))" "\<And>e s1. m s = (Inl e, s1) \<Longrightarrow> Q s1 \<Longrightarrow> Q (snd (handler e s1))"
  shows "Q (snd (catching m handler s))"
  using assms by (cases "m s"; cases "fst (m s)") (auto simp: catching_def)

lemma transaction_post:
  assumes "Q s" "\<And>a s'. m s = Inr (a, s') \<Longrightarrow> Q s'"
  shows "Q (snd (transaction m s))"
  using assms by (auto simp: transaction_def split: sum.split)

lemma answer_post [simp]: "snd (answer a s) = s" "snd (failing e s) = s"
  by (simp_all add: answer_def failing_def)

lemma meanwhile_post [simp]: "snd (meanwhile other s) = other s" "meanwhile other s = (Inr a, s1) \<longleftrightarrow> s1 = other s"
  by (auto simp: meanwhile_def)

lemma transaction_reads: "(\<And>a s'. m s = Inr (a, s') \<Longrightarrow> s' = s) \<Longrightarrow> snd (transaction m s) = s"
  by (auto simp: transaction_def split: sum.split)

text \<open>The same as a property of a computation, for the conditions that every step of it keeps.\<close>

definition commits :: "('s \<Rightarrow> bool) \<Rightarrow> ('s, 'a) io \<Rightarrow> bool" where
  "commits Q m \<longleftrightarrow> (\<forall>s. Q s \<longrightarrow> Q (snd (m s)))"

lemma commitsD: "commits Q m \<Longrightarrow> Q s \<Longrightarrow> Q (snd (m s))"
  by (simp add: commits_def)

lemma commits_pure: "commits Q (answer a)" "commits Q (failing e)"
  by (simp_all add: commits_def)

lemma commits_calling: "commits Q (calling r)"
  by (simp add: commits_def calling_def)

lemma commits_meanwhile: "(\<And>s. Q s \<Longrightarrow> Q (other s)) \<Longrightarrow> commits Q (meanwhile other)"
  by (simp add: commits_def)

lemma commits_andNext: "commits Q m \<Longrightarrow> (\<And>a. commits Q (f a)) \<Longrightarrow> commits Q (andNext m f)"
  unfolding commits_def by (intro allI impI andNext_post [where Q = Q]) simp_all

lemma commits_catching: "commits Q m \<Longrightarrow> (\<And>e. commits Q (handler e)) \<Longrightarrow> commits Q (catching m handler)"
  unfolding commits_def by (intro allI impI catching_post [where Q = Q]) simp_all

lemma commits_transaction: "(\<And>s a s'. m s = Inr (a, s') \<Longrightarrow> Q s \<Longrightarrow> Q s') \<Longrightarrow> commits Q (transaction m)"
  unfolding commits_def by (intro allI impI transaction_post [where Q = Q]) simp_all

lemma commits_if: "(b \<Longrightarrow> commits Q m) \<Longrightarrow> (\<not> b \<Longrightarrow> commits Q n) \<Longrightarrow> commits Q (if b then m else n)"
  by simp

lemma commits_option:
  "(v = None \<Longrightarrow> commits Q m) \<Longrightarrow> (\<And>x. v = Some x \<Longrightarrow> commits Q (f x)) \<Longrightarrow> commits Q (case v of None \<Rightarrow> m | Some x \<Rightarrow> f x)"
  by (simp split: option.split)

lemmas commits_rules = commits_if commits_option commits_pure commits_andNext commits_catching

section \<open>The client extensions\<close>

text \<open>
  With tenancy enabled a query on a tenant-owned table needs a context, and inside a request an
  organization, whose rows are then the only ones in sight.
\<close>

definition currentOrganization :: "app \<Rightarrow> ident option" where
  "currentOrganization A =
     (case activeOrganization (ap_ctx A) of None \<Rightarrow> None | Some g \<Rightarrow> if g = [] then None else Some g)"

definition scopeError :: "app \<Rightarrow> string \<Rightarrow> thrown option" where
  "scopeError A loc =
     (if ap_tenancyMode A = tenancy_disabled then None
      else case ap_ctx A of
        Some (UnscopedCtx _) \<Rightarrow> None
      | None \<Rightarrow> Some (OtherError (loc @ '' ran outside a request context; wrap trusted background work in withoutTenantScope()''))
      | Some (RequestCtx _ _ org) \<Rightarrow>
          if truthy org then None
          else Some (OtherError (loc @ '' ran before an organization was resolved for the request'')))"

definition scoped :: "app \<Rightarrow> string \<Rightarrow> ('s, unit) tx" where
  "scoped A loc = (case scopeError A loc of None \<Rightarrow> ret () | Some e \<Rightarrow> throw e)"

definition scopedOrganization :: "app \<Rightarrow> ident option" where
  "scopedOrganization A = (if ap_tenancyMode A = tenancy_disabled then None else currentOrganization A)"

definition within :: "ident option \<Rightarrow> ident option \<Rightarrow> bool" where
  "within org rowOrganization \<longleftrightarrow> (case org of None \<Rightarrow> True | Some g \<Rightarrow> rowOrganization = Some g)"

lemma scoped_Inr [tx_simps]: "scoped A loc s = Inr r \<longleftrightarrow> scopeError A loc = None \<and> r = ((), s)"
  by (auto simp: scoped_def tx_simps split: option.split)

text \<open>
  This is the decision of the tenant extension, for a table that is tenant-owned in the data model and
  not among those with global rows.
\<close>

lemma scopeError_resolve:
  assumes "List.member (tenantScopedModels models) model" "\<not> List.member nullableGlobalOwnerModels model" "model \<noteq> []"
    "ap_tenancyMode A \<noteq> tenancy_disabled"
  shows "resolveScopeOrganization models (Some model) operation args (ap_ctx A) =
         (case scopeError A (model @ ''.'' @ operation) of None \<Rightarrow> Inr (scopedOrganization A) | Some e \<Rightarrow> Inl e)"
proof -
  have "org = currentOrganization A" if "ap_ctx A = Some (RequestCtx r u org)" "truthy org" for r u org
    using that by (cases org) (simp_all add: currentOrganization_def activeOrganization_def)
  moreover have "currentOrganization A = None" if "ap_ctx A = Some (UnscopedCtx r)" for r
    using that by (simp add: currentOrganization_def activeOrganization_def)
  ultimately show ?thesis
    using assms
    by (simp add: resolveScopeOrganization_def getRequestContext_def scopeError_def scopedOrganization_def explicitlyGlobal_def
        split: option.split RequestContext.split)
qed

definition demo_content :: content where
  "demo_content = \<lparr>accounts = demo_store, uploads = [], bandwidthUsage = [], conversations = [], participants = [], messages = [], removed = []\<rparr>"

end
