(* ===== verification/Chat.thy ===== *)
theory Chat
  imports Content
begin

text \<open>
  Conversations and messages: \<open>src/src/modules/chat/chat.service.ts\<close>. The one raw SQL statement that
  advances a conversation's counter and inserts the message is one transaction here; between the
  statements of an operation other requests may run.
\<close>

section \<open>Conversations\<close>

definition MAX_PARTICIPANTS :: nat where
  "MAX_PARTICIPANTS = 256"

definition MESSAGE_PAGE_SIZE :: nat where
  "MESSAGE_PAGE_SIZE = 50"

definition MAX_SAFE_INTEGER :: int where
  "MAX_SAFE_INTEGER = 9007199254740991"

text \<open>The large integer becomes a number; the fields are otherwise unchanged.\<close>

definition serializeMessage :: "Message \<Rightarrow> thrown + Message" where
  "serializeMessage m =
     (if msg_seq m > MAX_SAFE_INTEGER then Inl (OtherError ''Message sequence exceeds the JSON-safe integer range'') else Inr m)"

fun serializeAll :: "Message list \<Rightarrow> thrown + Message list" where
  "serializeAll [] = Inr []"
| "serializeAll (m # ms) =
     (case serializeMessage m of Inl e \<Rightarrow> Inl e
      | Inr x \<Rightarrow> (case serializeAll ms of Inl e \<Rightarrow> Inl e | Inr xs \<Rightarrow> Inr (x # xs)))"

definition conversationOf :: "content \<Rightarrow> ident \<Rightarrow> Conversation option" where
  "conversationOf s cid = find_first (\<lambda>c. co_id c = cid \<and> co_deletedAt c = None) (conversations s)"

definition activeParticipant :: "app \<Rightarrow> ConversationParticipant \<Rightarrow> bool" where
  "activeParticipant A p \<longleftrightarrow> within (currentOrganization A) (cp_organizationId p) \<and> cp_leftAt p = None \<and> cp_deletedAt p = None"

definition requireParticipant :: "app \<Rightarrow> ident \<Rightarrow> ident \<Rightarrow> (content, ConversationParticipant \<times> int) tx" where
  "requireParticipant A conversationId userId =
     andThen (scoped A ''ConversationParticipant.findFirst'') (\<lambda>_.
     andThen (reading (\<lambda>s. (find_first (\<lambda>p. activeParticipant A p \<and> cp_conversationId p = conversationId \<and> cp_userId p = userId \<and>
                                      conversationOf s conversationId \<noteq> None) (participants s),
                            conversationOf s conversationId))) (\<lambda>found.
     case found of
       (Some p, Some c) \<Rightarrow> ret (p, co_lastSeq c)
     | _ \<Rightarrow> throw (App (notFound (Some ''Conversation not found'')))))"

record ConversationSummary =
  cs_id :: ident
  cs_type :: ConversationType
  cs_title :: "string option"
  cs_lastSeq :: int
  cs_lastMessageAt :: "time option"
  cs_createdAt :: time
  cs_unreadCount :: int

definition summarize :: "ConversationParticipant \<times> Conversation \<Rightarrow> ConversationSummary" where
  "summarize row = (case row of (p, c) \<Rightarrow>
     \<lparr>cs_id = co_id c, cs_type = co_type c, cs_title = co_title c, cs_lastSeq = co_lastSeq c,
      cs_lastMessageAt = co_lastMessageAt c, cs_createdAt = co_createdAt c,
      cs_unreadCount = (if co_lastSeq c > cp_lastReadSeq p then co_lastSeq c - cp_lastReadSeq p else 0)\<rparr>)"

text \<open>Descending order puts conversations without messages first.\<close>

definition byLastMessage :: "(ConversationParticipant \<times> Conversation) list \<Rightarrow> (ConversationParticipant \<times> Conversation) list" where
  "byLastMessage rows =
     filter (\<lambda>r. co_lastMessageAt (snd r) = None) rows @
     rev (sort_key (\<lambda>r. the (co_lastMessageAt (snd r))) (filter (\<lambda>r. co_lastMessageAt (snd r) \<noteq> None) rows))"

definition listConversations :: "app \<Rightarrow> ident \<Rightarrow> nat \<Rightarrow> (content, ConversationSummary list) tx" where
  "listConversations A userId limit =
     andThen (scoped A ''ConversationParticipant.findMany'') (\<lambda>_.
     reading (\<lambda>s. map summarize (take limit (byLastMessage
       (List.map_filter (\<lambda>p. if activeParticipant A p \<and> cp_userId p = userId
                             then map_option (Pair p) (conversationOf s (cp_conversationId p)) else None)
                        (participants s))))))"

text \<open>\<open>[...new Set(xs)]\<close> keeps the first occurrences.\<close>

fun distinctIds :: "ident list \<Rightarrow> ident list" where
  "distinctIds [] = []"
| "distinctIds (x # xs) = x # filter (\<lambda>y. y \<noteq> x) (distinctIds xs)"

definition directConversationKey :: "ident list \<Rightarrow> ident option \<Rightarrow> string" where
  "directConversationKey participantIds organizationId =
     orElse organizationId ''global'' @ '':'' @ join_with '':'' (sort_key (\<lambda>x. x) participantIds)"

definition findDirectConversation :: "app \<Rightarrow> string \<Rightarrow> (content, Conversation option) tx" where
  "findDirectConversation A directKey =
     andThen (scoped A ''Conversation.findFirst'') (\<lambda>_.
     findFirst conversations (\<lambda>c. within (scopedOrganization A) (co_organizationId c) \<and> co_directKey c = Some directKey \<and>
                                  co_type c = DIRECT \<and> co_deletedAt c = None))"

record ConversationInput =
  ci_type :: ConversationType
  ci_participantUserIds :: "ident list"
  ci_title :: "string option"

definition newConversation ::
    "ident \<Rightarrow> time \<Rightarrow> ident \<Rightarrow> ident option \<Rightarrow> ConversationInput \<Rightarrow> string option \<Rightarrow> Conversation" where
  "newConversation cid now userId organizationId input directKey =
     \<lparr>co_id = cid, co_organizationId = organizationId, co_type = ci_type input, co_title = ci_title input,
      co_createdByUserId = Some userId, co_lastSeq = 0, co_lastMessageAt = None, co_directKey = directKey,
      co_createdAt = now, co_deletedAt = None\<rparr>"

definition newParticipant :: "ident \<Rightarrow> ident \<Rightarrow> ident \<Rightarrow> ident option \<Rightarrow> ident \<Rightarrow> ConversationParticipant" where
  "newParticipant pid cid userId organizationId participantId =
     \<lparr>cp_id = pid, cp_organizationId = organizationId, cp_conversationId = cid, cp_userId = participantId,
      cp_role = (if participantId = userId then P_OWNER else P_MEMBER), cp_lastReadSeq = 0, cp_mutedUntil = None,
      cp_leftAt = None, cp_deletedAt = None\<rparr>"

text \<open>Identifiers and direct keys are unique; a missing direct key clashes with nothing.\<close>

definition conversationClash :: "Conversation \<Rightarrow> Conversation \<Rightarrow> bool" where
  "conversationClash a b \<longleftrightarrow> co_id a = co_id b \<or> (co_directKey a \<noteq> None \<and> co_directKey a = co_directKey b)"

definition insertParticipants :: "ConversationParticipant list \<Rightarrow> (content, unit) tx" where
  "insertParticipants rows s =
     (if distinct (map cp_id (rows @ participants s)) then Inr ((), s\<lparr>participants := rows @ participants s\<rparr>)
      else Inl (PrismaKnown ''P2002''))"

definition insertConversation ::
    "app \<Rightarrow> effects \<Rightarrow> ident \<Rightarrow> ident list \<Rightarrow> ConversationInput \<Rightarrow> string option \<Rightarrow> (content, Conversation) tx" where
  "insertConversation A ef userId participantIds input directKey =
     (let organizationId = currentOrganization A; cid = ef_id ef 0 in
      andThen (scoped A ''Conversation.create'') (\<lambda>_.
      andThen (createRow conversations conversations_update conversationClash
                 (newConversation cid (ef_now ef 0) userId organizationId input directKey)) (\<lambda>c.
      andThen (insertParticipants
                 (map (\<lambda>(i, u). newParticipant (ef_id ef (Suc i)) cid userId organizationId u)
                   (zip [0..<length participantIds] participantIds))) (\<lambda>_.
      ret c))))"

definition reachableUsers :: "ident option \<Rightarrow> ident list \<Rightarrow> store \<Rightarrow> nat" where
  "reachableUsers organizationId ids db =
     matching (\<lambda>u. u_id u \<in> set ids \<and> u_status u = U_ACTIVE \<and> u_deletedAt u = None \<and>
       (case organizationId of None \<Rightarrow> True
        | Some g \<Rightarrow> list_ex (\<lambda>m. mem_userId m = u_id u \<and> mem_organizationId m = g \<and> mem_status m = M_ACTIVE \<and>
                                 mem_deletedAt m = None) (memberships db))) (users db)"

definition createConversation ::
    "app \<Rightarrow> effects \<Rightarrow> (content \<Rightarrow> content) \<Rightarrow> ident \<Rightarrow> ConversationInput \<Rightarrow> (content, Conversation) io" where
  "createConversation A ef other userId input =
     (let participantIds = distinctIds (userId # ci_participantUserIds input);
          organizationId = currentOrganization A;
          directKey = (if ci_type input = DIRECT then Some (directConversationKey participantIds organizationId) else None)
      in
      if length participantIds > MAX_PARTICIPANTS
      then failing (App (badRequest (Some ''A conversation may have at most 256 participants'') None))
      else if ci_type input = DIRECT \<and> length participantIds \<noteq> 2
      then failing (App (badRequest (Some ''A direct conversation must have exactly two participants'') None))
      else
        andNext (transaction (reading (\<lambda>s. reachableUsers organizationId participantIds (accounts s)))) (\<lambda>reachable.
        if reachable \<noteq> length participantIds
        then failing (App (badRequest (Some ''Every participant must be an active member of this organization'') None))
        else
          andNext (case directKey of None \<Rightarrow> answer None | Some k \<Rightarrow> transaction (findDirectConversation A k)) (\<lambda>existing.
          case existing of
            Some c \<Rightarrow> answer c
          | None \<Rightarrow>
              andNext (meanwhile other) (\<lambda>_.
              catching (transaction (insertConversation A ef userId participantIds input directKey)) (\<lambda>e.
                case directKey of
                  Some k \<Rightarrow>
                    if e = PrismaKnown ''P2002''
                    then andNext (transaction (findDirectConversation A k)) (\<lambda>winner.
                         case winner of Some c \<Rightarrow> answer c | None \<Rightarrow> failing e)
                    else failing e
                | None \<Rightarrow> failing e)))))"

section \<open>Messages\<close>

record SendMessageInput =
  sm_clientMessageId :: string
  sm_body :: "string option"
  sm_uploadId :: "ident option"
  sm_type :: "MessageType option"

definition MAX_BIGINT :: int where
  "MAX_BIGINT = 2 ^ 63 - 1"

definition messageClash :: "Message \<Rightarrow> Message \<Rightarrow> bool" where
  "messageClash a b \<longleftrightarrow> msg_conversationId a = msg_conversationId b \<and>
     (msg_seq a = msg_seq b \<or> msg_clientMessageId a = msg_clientMessageId b)"

definition inConversation :: "app \<Rightarrow> ident \<Rightarrow> Conversation \<Rightarrow> bool" where
  "inConversation A conversationId c \<longleftrightarrow>
     co_id c = conversationId \<and> co_deletedAt c = None \<and> co_organizationId c = currentOrganization A"

definition newMessage :: "ident \<Rightarrow> time \<Rightarrow> ident \<Rightarrow> SendMessageInput \<Rightarrow> Conversation \<Rightarrow> Message" where
  "newMessage mid now userId input c =
     \<lparr>msg_id = mid, msg_organizationId = co_organizationId c, msg_conversationId = co_id c,
      msg_senderUserId = Some userId, msg_seq = co_lastSeq c, msg_clientMessageId = sm_clientMessageId input,
      msg_type = (case sm_type input of Some t \<Rightarrow> t | None \<Rightarrow> if truthy (sm_uploadId input) then ATTACHMENT else TEXT),
      msg_body = sm_body input, msg_uploadId = sm_uploadId input, msg_editedAt = None, msg_createdAt = now,
      msg_deletedAt = None\<rparr>"

text \<open>
  The statement \<open>WITH next_sequence AS (UPDATE ... RETURNING ...) INSERT INTO messages SELECT ...\<close>: the
  counter of type \<open>BIGINT\<close> is advanced and the message takes its new value, both or neither.
\<close>

definition advance :: "time \<Rightarrow> Conversation \<Rightarrow> Conversation" where
  "advance now c = c\<lparr>co_lastSeq := co_lastSeq c + 1, co_lastMessageAt := Some now\<rparr>"

definition insertMessage :: "app \<Rightarrow> effects \<Rightarrow> ident \<Rightarrow> ident \<Rightarrow> SendMessageInput \<Rightarrow> (content, Message) tx" where
  "insertMessage A ef conversationId userId input =
     andThen (findFirst conversations (inConversation A conversationId)) (\<lambda>found.
     case found of
       None \<Rightarrow> throw (App (notFound (Some ''Conversation not found'')))
     | Some c \<Rightarrow>
         andThen (require (co_lastSeq c < MAX_BIGINT) (OtherError ''bigint out of range'')) (\<lambda>_.
         andThen (updateMany conversations conversations_update (inConversation A conversationId) (advance (ef_now ef 0))) (\<lambda>_.
         createRow messages messages_update messageClash
           (newMessage (ef_id ef 0) (ef_now ef 0) userId input (advance (ef_now ef 0) c)))))"

definition readyAttachment :: "app \<Rightarrow> ident \<Rightarrow> ident \<Rightarrow> (content, unit) tx" where
  "readyAttachment A userId uploadId =
     andThen (scoped A ''Upload.findFirst'') (\<lambda>_.
     andThen (findFirst uploads (\<lambda>u. within (scopedOrganization A) (up_organizationId u) \<and> up_id u = uploadId \<and>
                up_userId u = userId \<and> up_status u = UP_READY \<and> up_deletedAt u = None)) (\<lambda>upload.
     require (upload \<noteq> None) (App (badRequest (Some ''Attachment is not available'') None))))"

definition sentBefore :: "app \<Rightarrow> ident \<Rightarrow> SendMessageInput \<Rightarrow> (content, Message option) tx" where
  "sentBefore A conversationId input =
     andThen (scoped A ''Message.findFirst'') (\<lambda>_.
     findFirst messages (\<lambda>m. within (currentOrganization A) (msg_organizationId m) \<and>
       msg_conversationId m = conversationId \<and> msg_clientMessageId m = sm_clientMessageId input))"

definition sendMessage ::
    "app \<Rightarrow> effects \<Rightarrow> (content \<Rightarrow> content) \<Rightarrow> ident \<Rightarrow> ident \<Rightarrow> SendMessageInput \<Rightarrow> (content, Message \<times> bool) io" where
  "sendMessage A ef other conversationId userId input =
     andNext (transaction (requireParticipant A conversationId userId)) (\<lambda>_.
     andNext (if truthy (sm_uploadId input) then transaction (readyAttachment A userId (the (sm_uploadId input))) else answer ()) (\<lambda>_.
     andNext (meanwhile other) (\<lambda>_.
     catching (andNext (transaction (insertMessage A ef conversationId userId input)) (\<lambda>m. answer (m, False))) (\<lambda>e.
       if e = PrismaKnown ''P2002''
       then andNext (transaction (sentBefore A conversationId input)) (\<lambda>existing.
            case existing of Some m \<Rightarrow> answer (m, True) | None \<Rightarrow> failing e)
       else failing e))))"

record ListInput =
  li_afterSeq :: "int option"
  li_beforeSeq :: "int option"
  li_limit :: "nat option"

definition messagePage :: "app \<Rightarrow> ident \<Rightarrow> ListInput \<Rightarrow> content \<Rightarrow> Message list" where
  "messagePage A conversationId input s =
     (let rows = sort_key msg_seq (filter (\<lambda>m. within (currentOrganization A) (msg_organizationId m) \<and>
                   msg_conversationId m = conversationId \<and>
                   (case li_afterSeq input of None \<Rightarrow> True | Some a \<Rightarrow> a < msg_seq m) \<and>
                   (case li_beforeSeq input of None \<Rightarrow> True | Some b \<Rightarrow> msg_seq m < b)) (messages s))
      in take (min (orElse (li_limit input) MESSAGE_PAGE_SIZE) MESSAGE_PAGE_SIZE)
           (if li_afterSeq input = None then rev rows else rows))"

definition listMessages :: "app \<Rightarrow> ident \<Rightarrow> ident \<Rightarrow> ListInput \<Rightarrow> (content, Message list) tx" where
  "listMessages A conversationId userId input =
     andThen (requireParticipant A conversationId userId) (\<lambda>_.
     andThen (scoped A ''Message.findMany'') (\<lambda>_.
     andThen (reading (messagePage A conversationId input)) (\<lambda>rows.
     attempt (serializeAll rows))))"

text \<open>The position is checked against what the first query returned; the update that follows is not conditional.\<close>

definition markRead ::
    "app \<Rightarrow> (content \<Rightarrow> content) \<Rightarrow> ident \<Rightarrow> ident \<Rightarrow> int \<Rightarrow> (content, int) io" where
  "markRead A other conversationId userId seq =
     andNext (transaction (requireParticipant A conversationId userId)) (\<lambda>(p, lastSeq).
     if seq > lastSeq then failing (App (badRequest (Some ''Read sequence cannot be ahead of the conversation'') None))
     else if seq \<le> cp_lastReadSeq p then answer (cp_lastReadSeq p)
     else
       andNext (meanwhile other) (\<lambda>_.
       andNext (transaction (updateRow participants participants_update
                  (\<lambda>x. cp_id x = cp_id p \<and> within (currentOrganization A) (cp_organizationId x) \<and> cp_deletedAt x = None)
                  (\<lambda>x. x\<lparr>cp_lastReadSeq := seq\<rparr>))) (\<lambda>_.
       answer seq)))"

definition tombstone :: "time \<Rightarrow> Message \<Rightarrow> Message" where
  "tombstone now m = m\<lparr>msg_deletedAt := Some now, msg_body := None, msg_uploadId := None\<rparr>"

definition deleteMessage ::
    "app \<Rightarrow> time \<Rightarrow> (content \<Rightarrow> content) \<Rightarrow> ident \<Rightarrow> ident \<Rightarrow> (content, ident \<times> ident) io" where
  "deleteMessage A now other messageId userId =
     andNext (transaction (andThen (scoped A ''Message.findFirst'') (\<lambda>_.
        findFirst messages (\<lambda>m. within (currentOrganization A) (msg_organizationId m) \<and> msg_id m = messageId \<and>
                                msg_deletedAt m = None)))) (\<lambda>found.
     case found of
       None \<Rightarrow> failing (App (notFound (Some ''Message not found'')))
     | Some m \<Rightarrow>
         andNext (transaction (requireParticipant A (msg_conversationId m) userId)) (\<lambda>_.
         if msg_senderUserId m \<noteq> Some userId then failing (App (forbidden (Some ''You can only delete your own messages'')))
         else
           andNext (meanwhile other) (\<lambda>_.
           andNext (transaction (updateRow messages messages_update
                      (\<lambda>x. msg_id x = msg_id m \<and> within (currentOrganization A) (msg_organizationId x)) (tombstone now))) (\<lambda>_.
           answer (msg_id m, msg_conversationId m)))))"

definition listParticipantUserIds :: "app \<Rightarrow> ident \<Rightarrow> (content, ident list) tx" where
  "listParticipantUserIds A conversationId =
     andThen (scoped A ''ConversationParticipant.findMany'') (\<lambda>_.
     reading (\<lambda>s. map cp_userId (filter (\<lambda>p. activeParticipant A p \<and> cp_conversationId p = conversationId) (participants s))))"

section \<open>The invariant\<close>

text \<open>
  Messages are stored newest first. Those of a conversation are numbered from one to its counter
  without a gap, no reader is ahead of the counter, and identifiers are unique.
\<close>

definition thread :: "ident \<Rightarrow> content \<Rightarrow> Message list" where
  "thread cid s = filter (\<lambda>m. msg_conversationId m = cid) (messages s)"

definition dense :: "content \<Rightarrow> bool" where
  "dense s \<longleftrightarrow> (\<forall>c\<in>set (conversations s). 0 \<le> co_lastSeq c \<and> map msg_seq (thread (co_id c) s) = rev [1..co_lastSeq c])"

definition readers_behind :: "content \<Rightarrow> bool" where
  "readers_behind s \<longleftrightarrow> (\<forall>p\<in>set (participants s). \<forall>c\<in>set (conversations s).
     cp_conversationId p = co_id c \<longrightarrow> cp_lastReadSeq p \<le> co_lastSeq c)"

definition rows_owned :: "content \<Rightarrow> bool" where
  "rows_owned s \<longleftrightarrow> distinct (map co_id (conversations s)) \<and> distinct (map cp_id (participants s)) \<and>
     msg_conversationId ` set (messages s) \<subseteq> co_id ` set (conversations s) \<and>
     cp_conversationId ` set (participants s) \<subseteq> co_id ` set (conversations s) \<and>
     (\<forall>m\<in>set (messages s). \<forall>c\<in>set (conversations s). msg_conversationId m = co_id c \<longrightarrow> msg_organizationId m = co_organizationId c)"

definition sent_once :: "content \<Rightarrow> bool" where
  "sent_once s \<longleftrightarrow> distinct (map (\<lambda>m. (msg_conversationId m, msg_clientMessageId m)) (messages s))"

definition chat_inv :: "content \<Rightarrow> bool" where
  "chat_inv s \<longleftrightarrow> dense s \<and> readers_behind s \<and> rows_owned s \<and> sent_once s"

text \<open>The writes that operations commit, each a single statement or transaction.\<close>

inductive chat_write :: "content \<Rightarrow> content \<Rightarrow> bool" where
  start: "insertConversation A ef userId ids input key s = Inr (c, s') \<Longrightarrow> chat_write s s'"
| post: "insertMessage A ef cid userId input s = Inr (m, s') \<Longrightarrow> chat_write s s'"
| acknowledge: "(\<And>x c. x \<in> set (participants s) \<Longrightarrow> P x \<Longrightarrow> c \<in> set (conversations s) \<Longrightarrow> cp_conversationId x = co_id c \<Longrightarrow>
       seq \<le> co_lastSeq c) \<Longrightarrow>
     s' = participants_update (update_many P (\<lambda>x. x\<lparr>cp_lastReadSeq := seq\<rparr>)) s \<Longrightarrow> chat_write s s'"
| erase: "s' = messages_update (update_many P (tombstone now)) s \<Longrightarrow> chat_write s s'"
| elsewhere: "conversations s' = conversations s \<Longrightarrow> participants s' = participants s \<Longrightarrow> messages s' = messages s \<Longrightarrow>
     chat_write s s'"

inductive_cases chat_writeE: "chat_write s s'"

abbreviation chat_writes :: "content \<Rightarrow> content \<Rightarrow> bool" where
  "chat_writes \<equiv> chat_write\<^sup>*\<^sup>*"

lemma insertMessage_Inr:
  assumes "insertMessage A ef cid userId input s = Inr (m, s')"
  obtains c where "c \<in> set (conversations s)" "inConversation A cid c"
    "m = newMessage (ef_id ef 0) (ef_now ef 0) userId input (advance (ef_now ef 0) c)"
    "\<forall>x\<in>set (messages s). \<not> messageClash m x"
    "s' = s\<lparr>conversations := update_many (inConversation A cid) (advance (ef_now ef 0)) (conversations s), messages := m # messages s\<rparr>"
  using assms
  by (auto simp: insertMessage_def tx_simps row_simps dest!: find_first_SomeD split: option.split_asm)

lemma insertConversation_Inr:
  assumes "insertConversation A ef userId ids input key s = Inr (c, s')"
  obtains ps where "co_id c \<notin> co_id ` set (conversations s)" "co_lastSeq c = 0"
    "\<forall>p\<in>set ps. cp_conversationId p = co_id c \<and> cp_lastReadSeq p = 0" "distinct (map cp_id (ps @ participants s))"
    "s' = s\<lparr>conversations := c # conversations s, participants := ps @ participants s\<rparr>"
proof -
  let ?ps = "map (\<lambda>(i, u). newParticipant (ef_id ef (Suc i)) (ef_id ef 0) userId (currentOrganization A) u) (zip [0..<length ids] ids)"
  have c: "c = newConversation (ef_id ef 0) (ef_now ef 0) userId (currentOrganization A) input key"
      "\<forall>x\<in>set (conversations s). \<not> conversationClash c x" "distinct (map cp_id (?ps @ participants s))"
      "s' = s\<lparr>conversations := c # conversations s, participants := ?ps @ participants s\<rparr>"
    using assms
    by (auto simp: insertConversation_def insertParticipants_def Let_def tx_simps row_simps split: if_split_asm)
  moreover have "\<forall>p\<in>set ?ps. cp_conversationId p = co_id c \<and> cp_lastReadSeq p = 0"
    by (auto simp: c(1) newParticipant_def newConversation_def)
  moreover have "co_id c \<notin> co_id ` set (conversations s)" using c(2) by (auto simp: conversationClash_def)
  moreover have "co_lastSeq c = 0" by (simp add: c(1) newConversation_def)
  ultimately show thesis using that by blast
qed

section \<open>Every write keeps it\<close>

lemma advance_simps [simp]:
  "co_id (advance now c) = co_id c" "co_lastSeq (advance now c) = co_lastSeq c + 1"
  "co_deletedAt (advance now c) = co_deletedAt c" "co_organizationId (advance now c) = co_organizationId c"
  by (simp_all add: advance_def)

lemma newMessage_simps [simp]:
  "msg_conversationId (newMessage i now u input c) = co_id c" "msg_seq (newMessage i now u input c) = co_lastSeq c"
  "msg_clientMessageId (newMessage i now u input c) = sm_clientMessageId input" "msg_id (newMessage i now u input c) = i"
  "msg_organizationId (newMessage i now u input c) = co_organizationId c"
  by (simp_all add: newMessage_def)

lemma tombstone_simps [simp]:
  "msg_id (tombstone now m) = msg_id m" "msg_conversationId (tombstone now m) = msg_conversationId m"
  "msg_seq (tombstone now m) = msg_seq m" "msg_clientMessageId (tombstone now m) = msg_clientMessageId m"
  "msg_organizationId (tombstone now m) = msg_organizationId m"
  by (simp_all add: tombstone_def)

lemma thread_Cons: "thread cid (s\<lparr>conversations := cs, messages := m # messages s\<rparr>) =
    (if msg_conversationId m = cid then m # thread cid s else thread cid s)"
  by (simp add: thread_def)

lemma thread_map_tombstone:
  "map msg_seq (thread cid (messages_update (update_many P (tombstone now)) s)) = map msg_seq (thread cid s)"
proof -
  have "map msg_seq (filter (\<lambda>m. msg_conversationId m = cid) (update_many P (tombstone now) ms)) =
      map msg_seq (filter (\<lambda>m. msg_conversationId m = cid) ms)" for ms
    by (induction ms) (simp_all add: update_many_def)
  then show ?thesis by (simp add: thread_def)
qed

lemma upto_snoc_rev: "0 \<le> n \<Longrightarrow> rev [1..n + 1] = (n + 1) # rev [1..n]" for n :: int
  by (subst upto_rec2) simp_all

text \<open>The conversations after a message was posted.\<close>

lemma posted_conversation:
  assumes "x \<in> set (update_many (inConversation A cid) (advance now) cs)"
  obtains c where "c \<in> set cs" "inConversation A cid c" "x = advance now c"
    | "x \<in> set cs" "\<not> inConversation A cid x"
  using assms by (auto simp: set_update_many)

lemma post_keeps:
  assumes inv: "chat_inv s" and run: "insertMessage A ef cid userId input s = Inr (m, s')"
  shows "chat_inv s'"
proof -
  let ?now = "ef_now ef 0"
  from run obtain c where c: "c \<in> set (conversations s)" "inConversation A cid c"
      and m: "m = newMessage (ef_id ef 0) ?now userId input (advance ?now c)"
      and fresh: "\<forall>x\<in>set (messages s). \<not> messageClash m x"
      and s': "s' = s\<lparr>conversations := update_many (inConversation A cid) (advance ?now) (conversations s), messages := m # messages s\<rparr>"
    by (rule insertMessage_Inr)
  have mc: "msg_conversationId m = co_id c" "msg_seq m = co_lastSeq c + 1" "co_id c = cid"
    using c(2) by (simp_all add: m inConversation_def)
  have ids: "map co_id (conversations s') = map co_id (conversations s)"
    by (simp add: s' map_update_many)
  have one: "x = c" if "x \<in> set (conversations s)" "co_id x = co_id c" for x
    using inv c(1) that by (auto simp: chat_inv_def rows_owned_def dest: distinct_map_eq)
  have "0 \<le> co_lastSeq x \<and> map msg_seq (thread (co_id x) s') = rev [1..co_lastSeq x]" if "x \<in> set (conversations s')" for x
  proof -
    from that have "x \<in> set (update_many (inConversation A cid) (advance ?now) (conversations s))" by (simp add: s')
    then show ?thesis
    proof (cases rule: posted_conversation)
      case (1 y)
      then have "y = c" using one by (simp add: inConversation_def mc)
      moreover have "0 \<le> co_lastSeq c" "map msg_seq (thread (co_id c) s) = rev [1..co_lastSeq c]"
        using inv c(1) by (auto simp: chat_inv_def dense_def)
      ultimately show ?thesis using 1 by (simp add: s' thread_Cons mc upto_snoc_rev)
    next
      case 2
      then have "co_id x \<noteq> co_id c" using one [of x] c(2) by blast
      then show ?thesis using inv 2 by (auto simp: s' thread_Cons mc chat_inv_def dense_def)
    qed
  qed
  then have "dense s'" by (simp add: dense_def)
  moreover have "readers_behind s'"
    using inv by (fastforce simp: s' readers_behind_def chat_inv_def set_update_many)
  moreover have "rows_owned s'"
  proof -
  have "co_id ` set (conversations s') = co_id ` set (conversations s)"
    using ids by (metis list.set_map)
  moreover have "msg_organizationId y = co_organizationId x"
    if x: "x \<in> set (conversations s')" and y: "y \<in> set (messages s')" and xy: "msg_conversationId y = co_id x" for x y
  proof -
    obtain z where z: "z \<in> set (conversations s)" "co_id z = co_id x" "co_organizationId z = co_organizationId x"
      using x by (auto simp: s' set_update_many)
    show ?thesis
    proof (cases "y = m")
      case True
      then have "z = c" using one z xy mc(1) by simp
      with z True show ?thesis by (simp add: m)
    next
      case False
      then have "y \<in> set (messages s)" using y by (simp add: s')
      then show ?thesis using inv z xy by (auto simp: chat_inv_def rows_owned_def)
    qed
  qed
  ultimately show ?thesis using inv ids imageI [OF c(1), of co_id] by (auto simp: rows_owned_def chat_inv_def s' mc)
  qed
  moreover have "sent_once s'" using inv fresh by (auto simp: sent_once_def chat_inv_def s' messageClash_def)
  ultimately show ?thesis by (simp add: chat_inv_def)
qed

lemma start_keeps:
  assumes inv: "chat_inv s" and run: "insertConversation A ef userId ids input key s = Inr (c, s')"
  shows "chat_inv s'"
proof -
  from run obtain ps where c: "co_id c \<notin> co_id ` set (conversations s)" "co_lastSeq c = 0"
      and ps: "\<forall>p\<in>set ps. cp_conversationId p = co_id c \<and> cp_lastReadSeq p = 0" "distinct (map cp_id (ps @ participants s))"
      and s': "s' = s\<lparr>conversations := c # conversations s, participants := ps @ participants s\<rparr>"
    by (rule insertConversation_Inr)
  have owned: "msg_conversationId ` set (messages s) \<subseteq> co_id ` set (conversations s)"
    "cp_conversationId ` set (participants s) \<subseteq> co_id ` set (conversations s)"
    using inv by (simp_all add: chat_inv_def rows_owned_def)
  have other: "msg_conversationId m \<noteq> co_id c" if "m \<in> set (messages s)" for m
    using that owned(1) c(1) by (metis image_eqI subsetD)
  have reader: "cp_conversationId p \<noteq> co_id c" if "p \<in> set (participants s)" for p
    using that owned(2) c(1) by (metis image_eqI subsetD)
  from other have "thread (co_id c) s' = []" by (simp add: thread_def s' filter_empty_conv)
  moreover have "thread x s' = thread x s" for x by (simp add: thread_def s')
  ultimately have "dense s'" using inv c(2) by (auto simp: dense_def chat_inv_def s')
  moreover have "readers_behind s'" using inv ps(1) c reader by (auto simp: readers_behind_def chat_inv_def s')
  moreover have "rows_owned s'" using inv ps c(1) other by (auto simp: rows_owned_def chat_inv_def s')
  moreover have "sent_once s'" using inv by (simp add: sent_once_def chat_inv_def s')
  ultimately show ?thesis by (simp add: chat_inv_def)
qed

lemma chat_write_keeps: "chat_write s s' \<Longrightarrow> chat_inv s \<Longrightarrow> chat_inv s'"
proof (induction rule: chat_write.induct)
  case (start A ef userId ids input key s c s')
  then show ?case by (blast intro: start_keeps)
next
  case (post A ef cid userId input s m s')
  then show ?case by (blast intro: post_keeps)
next
  case (acknowledge s P seq s')
  have "dense s'" using acknowledge by (simp add: chat_inv_def dense_def thread_def)
  moreover have "readers_behind s'"
    using acknowledge by (auto simp: chat_inv_def readers_behind_def set_update_many)
  moreover have "map cp_id (participants s') = map cp_id (participants s)"
    "map cp_conversationId (participants s') = map cp_conversationId (participants s)"
    by (simp_all add: acknowledge map_update_many)
  then have "rows_owned s'" using acknowledge by (simp add: chat_inv_def rows_owned_def) (metis list.set_map)
  ultimately show ?case using acknowledge by (simp add: chat_inv_def sent_once_def)
next
  case (erase s' P now s)
  have "map (\<lambda>m. (msg_conversationId m, msg_clientMessageId m)) (messages s') =
      map (\<lambda>m. (msg_conversationId m, msg_clientMessageId m)) (messages s)"
    by (simp add: erase map_update_many)
  then have "sent_once s'" using erase by (simp only: chat_inv_def sent_once_def)
  moreover have "map msg_conversationId (messages s') = map msg_conversationId (messages s)"
    by (simp add: erase map_update_many)
  then have "msg_conversationId ` set (messages s') = msg_conversationId ` set (messages s)" by (metis list.set_map)
  moreover have "\<exists>x\<in>set (messages s). msg_conversationId m = msg_conversationId x \<and> msg_organizationId m = msg_organizationId x"
    if "m \<in> set (messages s')" for m
    using that by (auto simp: erase set_update_many)
  ultimately have "sent_once s' \<and> rows_owned s'"
    using erase by (simp add: chat_inv_def rows_owned_def) metis
  moreover have "dense s'" using erase by (simp add: chat_inv_def dense_def thread_map_tombstone)
  moreover have "readers_behind s'" using erase by (simp add: chat_inv_def readers_behind_def)
  ultimately show ?case by (simp add: chat_inv_def)
next
  case (elsewhere s' s)
  then show ?case by (simp add: chat_inv_def dense_def readers_behind_def rows_owned_def sent_once_def thread_def)
qed

lemma chat_writes_keep: "chat_writes s s' \<Longrightarrow> chat_inv s \<Longrightarrow> chat_inv s'"
  by (induction rule: rtranclp_induct) (auto intro: chat_write_keeps)

section \<open>How the tables evolve\<close>

text \<open>Conversations stay and their counters only grow; participants and messages stay what they are.\<close>

definition persist :: "('a \<Rightarrow> 'a \<Rightarrow> bool) \<Rightarrow> 'a list \<Rightarrow> 'a list \<Rightarrow> bool" where
  "persist R xs ys \<longleftrightarrow> (\<forall>x\<in>set xs. \<exists>y\<in>set ys. R x y)"

lemma persist_refl: "(\<And>x. R x x) \<Longrightarrow> persist R xs xs"
  by (auto simp: persist_def)

lemma persist_trans: "(\<And>x y z. R x y \<Longrightarrow> R y z \<Longrightarrow> R x z) \<Longrightarrow> persist R xs ys \<Longrightarrow> persist R ys zs \<Longrightarrow> persist R xs zs"
  unfolding persist_def by blast

lemma persist_update:
  assumes "\<And>x. R x x" "\<And>x. R x (f x)"
  shows "persist R xs (update_many P f xs)"
  unfolding persist_def
proof
  fix x assume "x \<in> set xs"
  then have "(if P x then f x else x) \<in> set (update_many P f xs)" by (auto simp: set_update_many)
  moreover have "R x (if P x then f x else x)" using assms by simp
  ultimately show "\<exists>y\<in>set (update_many P f xs). R x y" by blast
qed

lemma persist_mono: "persist R xs ys \<Longrightarrow> set ys \<subseteq> set zs \<Longrightarrow> persist R xs zs"
  unfolding persist_def by blast

definition sameConversation :: "Conversation \<Rightarrow> Conversation \<Rightarrow> bool" where
  "sameConversation c c' \<longleftrightarrow> co_id c' = co_id c \<and> co_lastSeq c \<le> co_lastSeq c' \<and> co_deletedAt c' = co_deletedAt c \<and>
     co_organizationId c' = co_organizationId c"

definition sameParticipant :: "ConversationParticipant \<Rightarrow> ConversationParticipant \<Rightarrow> bool" where
  "sameParticipant p p' \<longleftrightarrow> cp_id p' = cp_id p \<and> cp_conversationId p' = cp_conversationId p"

definition sameMessage :: "Message \<Rightarrow> Message \<Rightarrow> bool" where
  "sameMessage m m' \<longleftrightarrow> msg_id m' = msg_id m \<and> msg_conversationId m' = msg_conversationId m \<and> msg_seq m' = msg_seq m \<and>
     msg_clientMessageId m' = msg_clientMessageId m \<and> msg_organizationId m' = msg_organizationId m"

lemmas same_defs = sameConversation_def sameParticipant_def sameMessage_def

definition evolves :: "content \<Rightarrow> content \<Rightarrow> bool" where
  "evolves s s' \<longleftrightarrow> persist sameConversation (conversations s) (conversations s') \<and>
     persist sameParticipant (participants s) (participants s') \<and> persist sameMessage (messages s) (messages s')"

lemma evolves_refl: "evolves s s"
  by (simp add: evolves_def persist_refl same_defs)

lemma evolves_trans:
  assumes "evolves s s'" "evolves s' s''"
  shows "evolves s s''"
proof -
  note t = assms [unfolded evolves_def]
  have "persist sameConversation (conversations s) (conversations s'')"
    by (rule persist_trans [OF _ t(1) [THEN conjunct1] t(2) [THEN conjunct1]]) (auto simp: same_defs)
  moreover have "persist sameParticipant (participants s) (participants s'')"
    by (rule persist_trans [OF _ t(1) [THEN conjunct2, THEN conjunct1] t(2) [THEN conjunct2, THEN conjunct1]])
       (auto simp: same_defs)
  moreover have "persist sameMessage (messages s) (messages s'')"
    by (rule persist_trans [OF _ t(1) [THEN conjunct2, THEN conjunct2] t(2) [THEN conjunct2, THEN conjunct2]])
       (auto simp: same_defs)
  ultimately show ?thesis by (simp add: evolves_def)
qed

lemma chat_write_evolves: "chat_write s s' \<Longrightarrow> evolves s s'"
proof (induction rule: chat_write.induct)
  case (start A ef userId ids input key s c s')
  then obtain ps where "s' = s\<lparr>conversations := c # conversations s, participants := ps @ participants s\<rparr>"
    by (rule insertConversation_Inr)
  then show ?case using evolves_refl [of s]
    by (auto simp: evolves_def intro: persist_mono)
next
  case (post A ef cid userId input s m s')
  then obtain c where s': "s' = s\<lparr>conversations := update_many (inConversation A cid) (advance (ef_now ef 0)) (conversations s),
      messages := m # messages s\<rparr>" by (rule insertMessage_Inr)
  have "persist sameConversation (conversations s) (conversations s')"
    unfolding s' by (simp add: persist_update same_defs)
  then show ?case using evolves_refl [of s] by (auto simp: evolves_def s' intro: persist_mono)
next
  case (acknowledge s P seq s')
  then show ?case using evolves_refl [of s] by (simp add: evolves_def persist_update same_defs)
next
  case (erase s' P now s)
  then show ?case using evolves_refl [of s] by (simp add: evolves_def persist_update same_defs)
next
  case (elsewhere s' s)
  then show ?case using evolves_refl [of s] by (simp add: evolves_def)
qed

lemma chat_writes_evolve: "chat_writes s s' \<Longrightarrow> evolves s s'"
  by (induction rule: rtranclp_induct) (auto intro: evolves_refl evolves_trans chat_write_evolves)

section \<open>Operations only make these writes\<close>

lemma requireParticipant_Inr:
  "requireParticipant A cid uid s = Inr (r, s') \<longleftrightarrow>
     scopeError A ''ConversationParticipant.findFirst'' = None \<and> s' = s \<and>
     (\<exists>p c. find_first (\<lambda>p. activeParticipant A p \<and> cp_conversationId p = cid \<and> cp_userId p = uid) (participants s) = Some p \<and>
            conversationOf s cid = Some c \<and> r = (p, co_lastSeq c))"
  by (cases "conversationOf s cid")
     (auto simp: requireParticipant_def tx_simps find_first_def split: option.split_asm option.split)

lemma reads_only:
  "snd (transaction (requireParticipant A cid uid) s) = s"
  "snd (transaction (readyAttachment A uid u) s) = s"
  "snd (transaction (sentBefore A cid input) s) = s"
  "snd (transaction (findDirectConversation A k) s) = s"
  by (rule transaction_reads, auto simp: requireParticipant_Inr readyAttachment_def sentBefore_def findDirectConversation_def tx_simps)+

lemma andNext_read: "snd (m s) = s \<Longrightarrow> andNext m f s = (case fst (m s) of Inl e \<Rightarrow> (Inl e, s) | Inr a \<Rightarrow> f a s)"
  by (cases "m s") (simp add: andNext_def split: sum.split)

lemma sendMessage_writes:
  assumes other: "chat_writes s (other s)"
  shows "chat_writes s (snd (sendMessage A ef other cid uid input s))"
proof -
  let ?insert = "transaction (insertMessage A ef cid uid input)"
  have post: "chat_writes s (snd (?insert (other s)))"
    using other by (intro transaction_post [where Q = "chat_writes s"])
      (auto intro: rtranclp.rtrancl_into_rtrancl chat_write.post)
  have found: "snd (andNext (transaction (sentBefore A cid input)) (\<lambda>existing.
            case existing of Some m \<Rightarrow> answer (m, True) | None \<Rightarrow> failing e) s1) = s1" for e s1
    by (simp add: andNext_read reads_only split: sum.split option.split)
  have send: "snd (catching (andNext ?insert (\<lambda>m. answer (m, False))) (\<lambda>e.
       if e = PrismaKnown ''P2002''
       then andNext (transaction (sentBefore A cid input)) (\<lambda>existing.
            case existing of Some m \<Rightarrow> answer (m, True) | None \<Rightarrow> failing e)
       else failing e) s1) = snd (?insert s1)" for s1
    by (cases "?insert s1"; cases "fst (?insert s1)") (simp_all add: catching_def andNext_def [of ?insert] answer_def found)
  show ?thesis
    by (simp add: sendMessage_def andNext_read [OF reads_only(1)] andNext_read [OF reads_only(2)] send post split: sum.split)
qed

lemma markRead_writes:
  assumes inv: "chat_inv s" and other: "chat_writes s (other s)"
  shows "chat_writes s (snd (markRead A other cid uid seq s))"
proof (cases "requireParticipant A cid uid s")
  case (Inl e)
  then show ?thesis by (simp add: markRead_def andNext_read reads_only transaction_def [of "requireParticipant A cid uid"])
next
  case (Inr r)
  obtain p c where p: "find_first (\<lambda>p. activeParticipant A p \<and> cp_conversationId p = cid \<and> cp_userId p = uid) (participants s) = Some p"
      "conversationOf s cid = Some c" and r: "r = ((p, co_lastSeq c), s)"
    using Inr requireParticipant_Inr [of A cid uid s "fst r" "snd r"] by (metis prod.collapse)
  have mem: "p \<in> set (participants s)" "cp_conversationId p = cid" "c \<in> set (conversations s)" "co_id c = cid"
    using p find_first_SomeD by (fastforce simp: conversationOf_def)+
  have evo: "evolves s (other s)" "chat_inv (other s)" using chat_writes_evolve chat_writes_keep inv other by blast+
  have ahead: "seq \<le> co_lastSeq d" if "seq \<le> co_lastSeq c" "x \<in> set (participants (other s))" "cp_id x = cp_id p"
      "d \<in> set (conversations (other s))" "cp_conversationId x = co_id d" for x d
  proof -
    obtain p' where "p' \<in> set (participants (other s))" "cp_id p' = cp_id p" "cp_conversationId p' = cp_conversationId p"
      using evo(1) mem(1) by (auto simp: evolves_def persist_def same_defs)
    with that evo(2) have "cp_conversationId x = cid"
      using mem(2) by (auto simp: chat_inv_def rows_owned_def dest: distinct_map_eq)
    moreover obtain c' where "c' \<in> set (conversations (other s))" "co_id c' = co_id c" "co_lastSeq c \<le> co_lastSeq c'"
      using evo(1) mem(3) by (auto simp: evolves_def persist_def same_defs)
    moreover from this that(4,5) evo(2) mem(4) calculation(1) have "d = c'"
      by (auto simp: chat_inv_def rows_owned_def dest: distinct_map_eq)
    ultimately show ?thesis using that(1) by simp
  qed
  let ?P = "\<lambda>x. cp_id x = cp_id p \<and> within (currentOrganization A) (cp_organizationId x) \<and> cp_deletedAt x = None"
  let ?set = "transaction (updateRow participants participants_update ?P (\<lambda>x. x\<lparr>cp_lastReadSeq := seq\<rparr>))"
  have "chat_write (other s) (participants_update (update_many ?P (\<lambda>x. x\<lparr>cp_lastReadSeq := seq\<rparr>)) (other s))"
    if "seq \<le> co_lastSeq c"
    by (rule chat_write.acknowledge [OF _ refl]) (use ahead [OF that] in blast)
  then have "chat_writes s (snd (?set (other s)))" if "seq \<le> co_lastSeq c"
    using other that by (intro transaction_post [where Q = "chat_writes s"])
      (auto simp: tx_simps intro: rtranclp.rtrancl_into_rtrancl)
  moreover have "snd (andNext ?set (\<lambda>_. answer seq) s1) = snd (?set s1)" for s1 :: content
    by (cases "?set s1"; cases "fst (?set s1)") (simp_all add: andNext_def answer_def)
  ultimately show ?thesis
    using Inr r by (simp add: markRead_def andNext_read reads_only transaction_def [of "requireParticipant A cid uid"])
qed


lemma deleteMessage_writes:
  assumes other: "chat_writes s (other s)"
  shows "chat_writes s (snd (deleteMessage A now other mid uid s))"
proof -
  let ?find = "transaction (andThen (scoped A ''Message.findFirst'') (\<lambda>_.
        findFirst messages (\<lambda>m. within (currentOrganization A) (msg_organizationId m) \<and> msg_id m = mid \<and>
                                msg_deletedAt m = None)))"
  let ?mark = "\<lambda>m. transaction (updateRow messages messages_update
                      (\<lambda>x. msg_id x = msg_id m \<and> within (currentOrganization A) (msg_organizationId x)) (tombstone now))"
  have find: "snd (?find s) = s" by (rule transaction_reads) (auto simp: tx_simps)
  have erased: "chat_writes s (snd (?mark m (other s)))" for m :: Message
    using other by (intro transaction_post [where Q = "chat_writes s"])
      (auto simp: tx_simps intro: rtranclp.rtrancl_into_rtrancl chat_write.erase)
  have "snd (andNext (?mark m) (\<lambda>_. answer (msg_id m, msg_conversationId m)) s1) = snd (?mark m s1)" for m :: Message and s1 :: content
    by (cases "?mark m s1"; cases "fst (?mark m s1)") (simp_all add: andNext_def answer_def)
  with erased show ?thesis
    by (simp add: deleteMessage_def andNext_read [of ?find, OF find] andNext_read [OF reads_only(1)] split: sum.split option.split)
qed

lemma createConversation_writes:
  assumes other: "chat_writes s (other s)"
  shows "chat_writes s (snd (createConversation A ef other uid input s))"
proof -
  define ids where "ids = distinctIds (uid # ci_participantUserIds input)"
  define key where "key = (if ci_type input = DIRECT then Some (directConversationKey ids (currentOrganization A)) else None)"
  let ?insert = "transaction (insertConversation A ef uid ids input key)"
  define handle where "handle = (\<lambda>e. case key of
                  Some k \<Rightarrow>
                    if e = PrismaKnown ''P2002''
                    then andNext (transaction (findDirectConversation A k)) (\<lambda>winner.
                         case winner of Some c \<Rightarrow> answer c | None \<Rightarrow> failing e)
                    else failing e
                | None \<Rightarrow> failing e)"
  define look where "look = (case key of None \<Rightarrow> answer None | Some k \<Rightarrow> transaction (findDirectConversation A k))"
  let ?count = "transaction (reading (\<lambda>s. reachableUsers (currentOrganization A) ids (accounts s)))"
  have started: "chat_writes s (snd (?insert (other s)))"
    using other by (intro transaction_post [where Q = "chat_writes s"])
      (auto intro: rtranclp.rtrancl_into_rtrancl chat_write.start)
  have handled: "snd (handle e s1) = s1" for e s1
    by (simp add: handle_def andNext_read reads_only split: sum.split option.split)
  have "snd (catching ?insert handle s1) = snd (?insert s1)" for s1
    by (cases "?insert s1"; cases "fst (?insert s1)") (simp_all add: catching_def handled)
  with started have "chat_writes s (snd (catching ?insert handle (other s)))" by simp
  moreover have looked: "snd (look s) = s" by (simp add: look_def reads_only split: option.split)
  moreover have count: "snd (?count s) = s" by (rule transaction_reads) (simp add: tx_simps)
  ultimately show ?thesis
    unfolding createConversation_def Let_def ids_def [symmetric] key_def [symmetric] handle_def [symmetric] look_def [symmetric]
    by (simp add: andNext_read [of ?count, OF count] andNext_read [of look, OF looked] split: sum.split option.split)
qed


section \<open>Retries\<close>

lemma scopeError_any: "scopeError A loc = None \<Longrightarrow> scopeError A loc' = None"
  by (auto simp: scopeError_def split: if_split_asm option.split_asm RequestContext.split_asm)

lemma sendMessage_Inr:
  assumes run: "sendMessage A ef other cid uid input s = (Inr (m, d), s1)"
  shows "m \<in> set (messages s1) \<and> msg_conversationId m = cid \<and> msg_clientMessageId m = sm_clientMessageId input \<and>
    within (currentOrganization A) (msg_organizationId m) \<and> evolves (other s) s1 \<and>
    (\<exists>c\<in>set (conversations (other s)). inConversation A cid c)"
proof -
  let ?insert = "transaction (insertMessage A ef cid uid input)" and ?found = "transaction (sentBefore A cid input)"
  have step: "catching (andNext ?insert (\<lambda>m. answer (m, False))) (\<lambda>e.
       if e = PrismaKnown ''P2002''
       then andNext ?found (\<lambda>existing. case existing of Some m \<Rightarrow> answer (m, True) | None \<Rightarrow> failing e)
       else failing e) (other s) = (Inr (m, d), s1)"
    using run
    by (auto simp: sendMessage_def andNext_read [OF reads_only(1)] andNext_read [OF reads_only(2)] failing_def
        split: sum.split_asm if_split_asm)
  show ?thesis
  proof (cases "insertMessage A ef cid uid input (other s)")
    case (Inr r)
    with step have r: "insertMessage A ef cid uid input (other s) = Inr (m, s1)"
      by (cases r) (simp add: catching_def andNext_def [of ?insert] transaction_def [of "insertMessage A ef cid uid input"] answer_def)
    then have "evolves (other s) s1" by (blast intro: chat_write_evolves chat_write.post)
    moreover from r obtain c where "c \<in> set (conversations (other s))" "inConversation A cid c"
      "m = newMessage (ef_id ef 0) (ef_now ef 0) uid input (advance (ef_now ef 0) c)" "m \<in> set (messages s1)"
      by (elim insertMessage_Inr) auto
    ultimately show ?thesis by (auto simp: inConversation_def within_def split: option.split)
  next
    case (Inl e)
    then have "?insert (other s) = (Inl e, other s)" by (simp add: transaction_def)
    with step have e: "e = PrismaKnown ''P2002''" and f: "andNext ?found (\<lambda>existing. case existing of
        Some m \<Rightarrow> answer (m, True) | None \<Rightarrow> failing e) (other s) = (Inr (m, d), s1)"
      by (auto simp: catching_def andNext_def [of ?insert] failing_def split: if_split_asm)
    have "find_first (inConversation A cid) (conversations (other s)) \<noteq> None"
    proof
      assume "find_first (inConversation A cid) (conversations (other s)) = None"
      then have "insertMessage A ef cid uid input (other s) = Inl (App (notFound (Some ''Conversation not found'')))"
        by (simp add: insertMessage_def andThen_def findFirst_def throw_def)
      with Inl e show False by simp
    qed
    then have "\<exists>c\<in>set (conversations (other s)). inConversation A cid c" by (auto simp: find_first_None)
    moreover have "s1 = other s" "sentBefore A cid input (other s) = Inr (Some m, other s)"
      using f by (auto simp: andNext_read [OF reads_only(3)] failing_def answer_def transaction_def sentBefore_def tx_simps
          split: sum.split_asm option.split_asm)
    ultimately show ?thesis
      by (auto simp: sentBefore_def tx_simps evolves_refl dest!: find_first_SomeD [OF sym])
  qed
qed

lemma evolves_conversation:
  assumes "evolves s s'" "\<exists>c\<in>set (conversations s). inConversation A cid c"
  shows "\<exists>c\<in>set (conversations s'). inConversation A cid c"
proof -
  obtain c where c: "c \<in> set (conversations s)" "inConversation A cid c" using assms(2) by blast
  moreover have "persist sameConversation (conversations s) (conversations s')" using assms(1) by (simp add: evolves_def)
  ultimately obtain c' where "c' \<in> set (conversations s')" "sameConversation c c'" by (auto simp: persist_def)
  with c(2) show ?thesis by (auto simp: inConversation_def same_defs)
qed

lemma retry_clashes:
  assumes "m \<in> set (messages s)" "msg_conversationId m = cid" "msg_clientMessageId m = sm_clientMessageId input"
    and "\<exists>c\<in>set (conversations s). inConversation A cid c" "\<forall>c\<in>set (conversations s). co_lastSeq c < MAX_BIGINT"
  shows "insertMessage A ef cid uid input s = Inl (PrismaKnown ''P2002'')"
proof -
  obtain c where c: "find_first (inConversation A cid) (conversations s) = Some c"
    using find_first_ex [OF assms(4)] by (elim exE)
  then have "co_lastSeq c < MAX_BIGINT" "co_id c = cid" using assms(5) find_first_SomeD [OF c] by (auto simp: inConversation_def)
  then have "clashes messageClash (newMessage (ef_id ef 0) (ef_now ef 0) uid input (advance (ef_now ef 0) c)) (messages s)"
    unfolding clashes_iff by (intro bexI [OF _ assms(1)]) (simp add: messageClash_def assms(2,3))
  then show ?thesis using c \<open>co_lastSeq c < MAX_BIGINT\<close>
    by (simp add: insertMessage_def andThen_def findFirst_def require_def updateMany_def createRow_def)
qed

lemma found_again:
  assumes "sent_once s" "m \<in> set (messages s)" "within (currentOrganization A) (msg_organizationId m)"
    "msg_conversationId m = cid" "msg_clientMessageId m = sm_clientMessageId input"
    "scopeError A ''ConversationParticipant.findFirst'' = None"
  shows "sentBefore A cid input s = Inr (Some m, s)"
proof -
  obtain x where x: "find_first (\<lambda>m. within (currentOrganization A) (msg_organizationId m) \<and> msg_conversationId m = cid \<and>
      msg_clientMessageId m = sm_clientMessageId input) (messages s) = Some x"
    using assms(2-5) find_first_ex [of "messages s" "\<lambda>m. within (currentOrganization A) (msg_organizationId m) \<and>
      msg_conversationId m = cid \<and> msg_clientMessageId m = sm_clientMessageId input"] by blast
  then have "x = m" using assms(1,2,4,5) find_first_SomeD [OF x] by (auto simp: sent_once_def dest: distinct_map_eq)
  with x scopeError_any [OF assms(6)] show ?thesis by (simp add: sentBefore_def tx_simps)
qed

section \<open>Catching up\<close>

text \<open>A client that has seen the messages up to a position asks for what follows until nothing does.\<close>

fun catchUp :: "nat \<Rightarrow> app \<Rightarrow> ident \<Rightarrow> ident \<Rightarrow> int \<Rightarrow> content \<Rightarrow> Message list" where
  "catchUp 0 A cid uid seen s = []"
| "catchUp (Suc n) A cid uid seen s =
     (case listMessages A cid uid \<lparr>li_afterSeq = Some seen, li_beforeSeq = None, li_limit = None\<rparr> s of
        Inl e \<Rightarrow> []
      | Inr (page, _) \<Rightarrow> if page = [] then [] else page @ catchUp n A cid uid (msg_seq (last page)) s)"

lemma serializeAll_small: "\<forall>m\<in>set ms. msg_seq m \<le> MAX_SAFE_INTEGER \<Longrightarrow> serializeAll ms = Inr ms"
  by (induction ms) (simp_all add: serializeMessage_def)

lemma sort_distinct_keys:
  assumes "distinct (map f xs)" "sorted (map f (rev xs))"
  shows "sort_key f xs = rev xs"
proof (rule properties_for_sort_key)
  fix k assume "k \<in> set (rev xs)"
  have "filter (\<lambda>x. f k = f x) xs = [k]" if "k \<in> set xs" for k
    using assms(1) that
  proof (induction xs)
    case (Cons a xs)
    then show ?case by (cases "k = a") (auto simp: filter_empty_conv image_iff)
  qed simp
  then show "filter (\<lambda>x. f k = f x) (rev xs) = filter (\<lambda>x. f k = f x) xs"
    using \<open>k \<in> set (rev xs)\<close> by (simp add: rev_filter [symmetric])
qed (use assms(2) in simp_all)


text \<open>The messages of a conversation, oldest first.\<close>

lemma thread_sorted:
  assumes "map msg_seq xs = rev [1..n]"
  shows "sort_key msg_seq xs = rev xs"
proof (rule sort_distinct_keys)
  have "map msg_seq (rev xs) = [1..n]" by (simp add: rev_map [symmetric] assms)
  then show "sorted (map msg_seq (rev xs))" by simp
  show "distinct (map msg_seq xs)" using assms by simp
qed

lemma numbered_nth:
  assumes "map msg_seq R = [1..n]" "i < length R"
  shows "msg_seq (R ! i) = int i + 1"
proof -
  have "length R = length [1..n]" using assms(1) by (metis length_map)
  then have "1 + int i \<le> n" using assms(2) by (simp add: nat_less_iff)
  moreover have "msg_seq (R ! i) = [1..n] ! i" using assms by (metis nth_map)
  ultimately show ?thesis by (simp add: nth_upto)
qed

lemma later_messages:
  assumes "map msg_seq R = [1..n]" "0 \<le> seen"
  shows "filter (\<lambda>m. seen < msg_seq m) R = drop (nat seen) R"
proof -
  note seq = numbered_nth [OF assms(1)]
  have "filter (\<lambda>m. seen < msg_seq m) (take (nat seen) R) = []"
    using seq assms(2) by (auto simp: filter_empty_conv in_set_conv_nth)
  moreover have "filter (\<lambda>m. seen < msg_seq m) (drop (nat seen) R) = drop (nat seen) R"
    using seq assms(2) by (auto simp: filter_id_conv in_set_conv_nth)
  ultimately show ?thesis by (metis append_Nil append_take_drop_id filter_append)
qed

definition follows :: "app \<Rightarrow> ident \<Rightarrow> ident \<Rightarrow> Conversation \<Rightarrow> content \<Rightarrow> bool" where
  "follows A cid uid c s \<longleftrightarrow> (\<exists>r. requireParticipant A cid uid s = Inr r) \<and> c \<in> set (conversations s) \<and> co_id c = cid \<and>
     within (currentOrganization A) (co_organizationId c) \<and> co_lastSeq c \<le> MAX_SAFE_INTEGER"

lemma listMessages_after:
  assumes inv: "chat_inv s" and f: "follows A cid uid c s" and seen: "0 \<le> seen"
  shows "listMessages A cid uid \<lparr>li_afterSeq = Some seen, li_beforeSeq = None, li_limit = None\<rparr> s =
         Inr (take MESSAGE_PAGE_SIZE (drop (nat seen) (rev (thread cid s))), s)"
proof -
  let ?in = "\<lparr>li_afterSeq = Some seen, li_beforeSeq = None, li_limit = None\<rparr>"
  have seqs: "map msg_seq (thread cid s) = rev [1..co_lastSeq c]"
    using inv f by (auto simp: chat_inv_def dense_def follows_def)
  have org: "within (currentOrganization A) (msg_organizationId m)" if "m \<in> set (messages s)" "msg_conversationId m = cid" for m
    using inv f that by (auto simp: chat_inv_def rows_owned_def follows_def)
  have "filter (\<lambda>m. within (currentOrganization A) (msg_organizationId m) \<and> msg_conversationId m = cid \<and> seen < msg_seq m \<and> True) (messages s) =
      filter (\<lambda>m. seen < msg_seq m) (thread cid s)"
    using org by (auto simp: thread_def intro: filter_cong)
  then have "messagePage A cid ?in s = take MESSAGE_PAGE_SIZE (sort_key msg_seq (filter (\<lambda>m. seen < msg_seq m) (thread cid s)))"
    by (simp add: messagePage_def)
  also have "sort_key msg_seq (filter (\<lambda>m. seen < msg_seq m) (thread cid s)) = filter (\<lambda>m. seen < msg_seq m) (rev (thread cid s))"
    using thread_sorted [OF seqs] by (simp add: filter_sort [symmetric])
  also have "\<dots> = drop (nat seen) (rev (thread cid s))"
    using seqs seen by (intro later_messages) (simp_all add: rev_map [symmetric])
  finally have page: "messagePage A cid ?in s = take MESSAGE_PAGE_SIZE (drop (nat seen) (rev (thread cid s)))" .
  have "msg_seq m \<le> MAX_SAFE_INTEGER" if "m \<in> set (thread cid s)" for m
  proof -
    have "msg_seq m \<in> set [1..co_lastSeq c]" using that seqs by (metis image_eqI list.set_map set_rev)
    then show ?thesis using f by (simp add: follows_def)
  qed
  then have "serializeAll (messagePage A cid ?in s) = Inr (messagePage A cid ?in s)"
    by (intro serializeAll_small) (auto simp: page dest!: in_set_takeD in_set_dropD)
  moreover obtain r where r: "requireParticipant A cid uid s = Inr r" using f by (auto simp: follows_def)
  then have "snd r = s" "scopeError A ''Message.findMany'' = None"
    using requireParticipant_Inr [of A cid uid s "fst r" "snd r"] scopeError_any by auto
  ultimately show ?thesis using r
    by (cases r) (simp add: listMessages_def andThen_def scoped_def ret_def reading_def attempt_def page)
qed

lemma last_of_page:
  assumes "take n (drop k R) \<noteq> []"
  shows "last (take n (drop k R)) = R ! (k + (length (take n (drop k R)) - 1))"
proof -
  let ?i = "length (take n (drop k R)) - 1"
  have "?i < length (take n (drop k R))" using assms by (cases "take n (drop k R)") auto
  then have "?i < n" "?i < length (drop k R)" by auto
  then have "take n (drop k R) ! ?i = R ! (k + ?i)" by simp
  then show ?thesis using last_conv_nth [OF assms] by simp
qed

lemma catchUp_gets_rest:
  assumes inv: "chat_inv s" and f: "follows A cid uid c s"
  shows "0 \<le> seen \<Longrightarrow> length (thread cid s) - nat seen < n \<Longrightarrow> catchUp n A cid uid seen s = drop (nat seen) (rev (thread cid s))"
proof (induction n arbitrary: seen)
  case (Suc n)
  let ?R = "rev (thread cid s)" and ?k = "nat seen"
  let ?page = "take MESSAGE_PAGE_SIZE (drop ?k ?R)"
  have R: "map msg_seq ?R = [1..co_lastSeq c]"
    using inv f by (auto simp: chat_inv_def dense_def follows_def rev_map [symmetric])
  note page = listMessages_after [OF inv f Suc.prems(1)]
  show ?case
  proof (cases "?page = []")
    case True
    then show ?thesis using page by (simp add: MESSAGE_PAGE_SIZE_def)
  next
    case False
    then have len: "?k < length ?R" by (metis drop_all leI take_Nil)
    have lp: "length ?page = min MESSAGE_PAGE_SIZE (length ?R - ?k)" "0 < length ?page"
      using len by (simp_all add: MESSAGE_PAGE_SIZE_def)
    have "last ?page = ?R ! (?k + (length ?page - 1))"
      by (rule last_of_page [OF False])
    moreover have "?k + (length ?page - 1) < length ?R" using lp len by linarith
    ultimately have "msg_seq (last ?page) = int (?k + (length ?page - 1)) + 1" by (simp only: numbered_nth [OF R])
    then have seq: "msg_seq (last ?page) = int (?k + length ?page)" using lp(2) by linarith
    have "catchUp n A cid uid (msg_seq (last ?page)) s = drop (?k + length ?page) ?R"
    proof -
      have "length (thread cid s) - nat (int (?k + length ?page)) < n" using Suc.prems lp(2) len unfolding nat_int length_rev by linarith
      from Suc.IH [OF _ this] show ?thesis unfolding seq by (simp only: nat_int of_nat_0_le_iff)
    qed
    moreover have "?page @ drop (?k + length ?page) ?R = drop ?k ?R"
    proof -
      have "?page = take (length ?page) (drop ?k ?R)" by (simp add: min_def)
      then show ?thesis using append_take_drop_id [of "length ?page" "drop ?k ?R"] by (simp add: add.commute)
    qed
    ultimately show ?thesis using page False by simp
  qed
qed simp


section \<open>Concrete conversations\<close>

definition demo_send :: "string \<Rightarrow> SendMessageInput" where
  "demo_send i = \<lparr>sm_clientMessageId = i, sm_body = Some ''hi'', sm_uploadId = None, sm_type = None\<rparr>"

definition demo_conversation :: "int \<Rightarrow> Conversation" where
  "demo_conversation n = \<lparr>co_id = ''c1'', co_organizationId = None, co_type = GROUP, co_title = None, co_createdByUserId = Some ''ann'',
     co_lastSeq = n, co_lastMessageAt = None, co_directKey = None, co_createdAt = 0, co_deletedAt = None\<rparr>"

definition demo_chat :: content where
  "demo_chat = demo_content\<lparr>conversations := [demo_conversation 2],
     participants := [newParticipant ''p1'' ''c1'' ''ann'' None ''ann'', newParticipant ''p2'' ''c1'' ''ann'' None ''bob''],
     messages := [newMessage ''m2'' 0 ''bob'' (demo_send ''b'') (demo_conversation 2),
                  newMessage ''m1'' 0 ''ann'' (demo_send ''a'') (demo_conversation 1)]\<rparr>"

definition demo_plain :: app where
  "demo_plain = demo_app\<lparr>ap_tenancyMode := tenancy_disabled\<rparr>"

lemmas demo_chat_simps = demo_chat_def demo_content_def demo_conversation_def newParticipant_def demo_send_def

lemma demo_plain_scope: "scopeError demo_plain loc = None" "currentOrganization demo_plain = None"
  by (simp_all add: scopeError_def currentOrganization_def activeOrganization_def demo_plain_def demo_app_def)

lemma demo_chat_inv: "chat_inv demo_chat"
proof -
  have "[1..2] = [1, 2 :: int]" by (simp add: upto.simps)
  then show ?thesis
    by (simp add: chat_inv_def dense_def readers_behind_def rows_owned_def sent_once_def thread_def demo_chat_simps newMessage_def)
qed

lemma demo_requires:
  "requireParticipant demo_plain ''c1'' ''ann'' demo_chat = Inr ((newParticipant ''p1'' ''c1'' ''ann'' None ''ann'', 2), demo_chat)"
  by (simp add: requireParticipant_Inr demo_plain_scope)
     (simp add: demo_chat_simps find_first_def conversationOf_def activeParticipant_def within_def demo_plain_scope)

lemma demo_sends:
  "\<exists>m s'. sendMessage demo_plain demo_effects (\<lambda>s. s) ''c1'' ''ann'' (demo_send ''n'') demo_chat = (Inr (m, False), s') \<and>
     conversations s' = [advance 5000 (demo_conversation 2)] \<and> participants s' = participants demo_chat"
proof -
  have "\<exists>m s'. insertMessage demo_plain demo_effects ''c1'' ''ann'' (demo_send ''n'') demo_chat = Inr (m, s') \<and>
     conversations s' = [advance 5000 (demo_conversation 2)] \<and> participants s' = participants demo_chat"
    by (simp add: insertMessage_def tx_run) (simp add: demo_chat_simps tx_run inConversation_def demo_plain_scope MAX_BIGINT_def
        demo_effects_def newMessage_def messageClash_def advance_def)
  then obtain m s' where ins: "insertMessage demo_plain demo_effects ''c1'' ''ann'' (demo_send ''n'') demo_chat = Inr (m, s')"
    and s': "conversations s' = [advance 5000 (demo_conversation 2)]" "participants s' = participants demo_chat" by blast
  have "\<not> truthy (sm_uploadId (demo_send ''n''))" by (simp add: demo_send_def)
  with ins have "sendMessage demo_plain demo_effects (\<lambda>s. s) ''c1'' ''ann'' (demo_send ''n'') demo_chat = (Inr (m, False), s')"
    by (simp add: sendMessage_def andNext_def transaction_def demo_requires meanwhile_def catching_def answer_def)
  with s' show ?thesis by blast
qed

text \<open>
  Two acknowledgements of one reader that overlap: the one that was checked first is written last and
  takes back what the other has marked as read.
\<close>

definition demo_read :: "int \<Rightarrow> content" where
  "demo_read k = demo_chat\<lparr>participants := [(newParticipant ''p1'' ''c1'' ''ann'' None ''ann'')\<lparr>cp_lastReadSeq := k\<rparr>,
     newParticipant ''p2'' ''c1'' ''ann'' None ''bob'']\<rparr>"

lemma demo_markRead:
  assumes "0 < n" "n \<le> 2" "other demo_chat = demo_read k"
  shows "markRead demo_plain other ''c1'' ''ann'' n demo_chat = (Inr n, demo_read n)"
proof -
  have "\<not> n \<le> cp_lastReadSeq (newParticipant ''p1'' ''c1'' ''ann'' None ''ann'')" using assms(1) by (simp add: newParticipant_def)
  then have "markRead demo_plain other ''c1'' ''ann'' n demo_chat =
    andNext (transaction (updateRow participants participants_update
                  (\<lambda>x. cp_id x = ''p1'' \<and> cp_deletedAt x = None) (\<lambda>x. x\<lparr>cp_lastReadSeq := n\<rparr>))) (\<lambda>_. answer n) (demo_read k)"
    using assms by (simp add: markRead_def andNext_def [of "transaction (requireParticipant demo_plain ''c1'' ''ann'')"]
        transaction_def [of "requireParticipant demo_plain ''c1'' ''ann''"] demo_requires demo_plain_scope within_def)
      (simp add: newParticipant_def)
  also have "\<dots> = (Inr n, demo_read n)"
    by (simp add: andNext_def transaction_def updateRow_def demo_read_def matching_def update_many_def answer_def newParticipant_def)
  finally show ?thesis .
qed

lemma overlapping_acknowledgements_unread:
  "markRead demo_plain (\<lambda>s. s) ''c1'' ''ann'' 2 demo_chat = (Inr 2, demo_read 2) \<and>
   markRead demo_plain (\<lambda>s. snd (markRead demo_plain (\<lambda>s. s) ''c1'' ''ann'' 2 s)) ''c1'' ''ann'' 1 demo_chat = (Inr 1, demo_read 1)"
proof
  have "demo_chat = demo_read 0" by (simp add: demo_read_def demo_chat_def newParticipant_def)
  then show two: "markRead demo_plain (\<lambda>s. s) ''c1'' ''ann'' 2 demo_chat = (Inr 2, demo_read 2)" by (intro demo_markRead) simp_all
  show "markRead demo_plain (\<lambda>s. snd (markRead demo_plain (\<lambda>s. s) ''c1'' ''ann'' 2 s)) ''c1'' ''ann'' 1 demo_chat = (Inr 1, demo_read 1)"
    by (rule demo_markRead [where k = 2]) (simp_all add: two)
qed

section \<open>Properties\<close>

text \<open>
  C5: conversations are numbered without gaps. Whatever requests overlap, after any operation the
  messages of every conversation carry the numbers one to its counter, each once and in order of
  insertion, no reader's position is beyond the counter, and no client message identifier occurs twice
  in a conversation; failed and repeated sends do not consume a number. The writes of the overlapping
  requests are those of the module itself.
\<close>
theorem chat_numbers_dense:
  assumes "chat_inv s" and "chat_writes s (other s)"
  shows "chat_inv (snd (createConversation A ef other uid cinput s)) \<and>
         chat_inv (snd (sendMessage A ef other cid uid input s)) \<and>
         chat_inv (snd (markRead A other cid uid seq s)) \<and>
         chat_inv (snd (deleteMessage A now other mid uid s))"
  by (intro conjI chat_writes_keep [OF _ assms(1)] createConversation_writes sendMessage_writes markRead_writes
      deleteMessage_writes assms)

theorem chat_numbers_dense_witness:
  "chat_inv (snd (sendMessage demo_plain demo_effects (\<lambda>s. s) ''c1'' ''ann'' (demo_send ''n'') demo_chat))"
  by (rule chat_numbers_dense [OF demo_chat_inv, where other = "\<lambda>s. s", THEN conjunct2, THEN conjunct1]) simp

text \<open>
  A retried send posts nothing twice. After a send has returned a message, a send with the same
  client identifier at any later time, in which the caller is still a participant and attaches
  nothing, changes nothing and returns the same message, marked as a duplicate; its text may have been
  erased in between. The counter has not reached the largest database integer.
\<close>
theorem sendMessage_retry_is_duplicate:
  assumes inv: "chat_inv s" and other: "chat_writes s (other s)"
    and first: "sendMessage A ef other cid uid input s = (Inr (m, d), s1)"
    and later: "chat_writes s1 s2" "chat_writes s2 (other' s2)"
    and retry: "\<exists>r. requireParticipant A cid uid s2 = Inr r" "\<not> truthy (sm_uploadId input')"
      "sm_clientMessageId input' = sm_clientMessageId input"
    and room: "\<forall>c\<in>set (conversations (other' s2)). co_lastSeq c < MAX_BIGINT"
  shows "\<exists>m'. sendMessage A ef' other' cid uid input' s2 = (Inr (m', True), other' s2) \<and> sameMessage m m'"
proof -
  let ?t = "other' s2"
  note f = sendMessage_Inr [OF first]
  have "chat_inv s1" using sendMessage_writes [of s other A ef cid uid input, OF other] first inv chat_writes_keep by (metis snd_conv)
  then have inv': "chat_inv ?t" using later chat_writes_keep by blast
  have evo: "evolves s1 ?t" using later chat_writes_evolve evolves_trans by blast
  then obtain m' where m': "m' \<in> set (messages ?t)" "sameMessage m m'" using f by (auto simp: evolves_def persist_def)
  then have key: "msg_conversationId m' = cid" "msg_clientMessageId m' = sm_clientMessageId input'"
      "within (currentOrganization A) (msg_organizationId m')"
    using f retry(3) by (auto simp: same_defs)
  have "\<exists>c\<in>set (conversations ?t). inConversation A cid c"
    using f evo evolves_conversation evolves_trans by metis
  from retry_clashes [OF m'(1) key(1,2) this room] have clash: "insertMessage A ef' cid uid input' ?t = Inl (PrismaKnown ''P2002'')" .
  obtain r where r: "requireParticipant A cid uid s2 = Inr r" using retry(1) by blast
  then have rs: "snd r = s2" "scopeError A ''ConversationParticipant.findFirst'' = None"
    using requireParticipant_Inr [of A cid uid s2 "fst r" "snd r"] by auto
  have "sentBefore A cid input' ?t = Inr (Some m', ?t)"
    using inv' m'(1) key rs(2) by (intro found_again) (auto simp: chat_inv_def)
  then have "sendMessage A ef' other' cid uid input' s2 = (Inr (m', True), ?t)"
    using r rs(1) retry(2) clash
    by (cases r) (simp add: sendMessage_def catching_def andNext_def transaction_def meanwhile_def answer_def)
  with m'(2) show ?thesis by blast
qed

theorem sendMessage_retry_is_duplicate_witness:
  "\<exists>m m' s1. sendMessage demo_plain demo_effects (\<lambda>s. s) ''c1'' ''ann'' (demo_send ''n'') demo_chat = (Inr (m, False), s1) \<and>
     sendMessage demo_plain demo_effects (\<lambda>s. s) ''c1'' ''ann'' (demo_send ''n'') s1 = (Inr (m', True), s1) \<and> sameMessage m m'"
proof -
  obtain m s1 where run: "sendMessage demo_plain demo_effects (\<lambda>s. s) ''c1'' ''ann'' (demo_send ''n'') demo_chat = (Inr (m, False), s1)"
    and s1: "conversations s1 = [advance 5000 (demo_conversation 2)]" "participants s1 = participants demo_chat"
    using demo_sends by blast
  have "\<exists>r. requireParticipant demo_plain ''c1'' ''ann'' s1 = Inr r"
    by (simp add: requireParticipant_Inr demo_plain_scope)
       (simp add: s1 demo_chat_simps find_first_def conversationOf_def activeParticipant_def within_def demo_plain_scope advance_def)
  moreover have "\<not> truthy (sm_uploadId (demo_send ''n''))" by (simp add: demo_send_def)
  moreover have "\<forall>c\<in>set (conversations s1). co_lastSeq c < MAX_BIGINT" by (simp add: s1 demo_conversation_def MAX_BIGINT_def)
  ultimately have "\<exists>m'. sendMessage demo_plain demo_effects (\<lambda>s. s) ''c1'' ''ann'' (demo_send ''n'') s1 = (Inr (m', True), s1) \<and>
      sameMessage m m'"
    by (intro sendMessage_retry_is_duplicate [where other = "\<lambda>s. s" and other' = "\<lambda>s. s", OF demo_chat_inv _ run]) simp_all
  with run show ?thesis by blast
qed

text \<open>
  C33: a reconnecting client misses nothing. A participant who has seen the messages up to a position
  and asks for the following ones until a page is empty gets every later message of the conversation,
  erased ones as tombstones, exactly once and in order, after finitely many requests: one more than the
  number of missing messages is enough fuel, however they are split into pages of at most fifty.
\<close>
theorem catchUp_complete:
  assumes inv: "chat_inv s" and f: "follows A cid uid c s" and seen: "0 \<le> seen"
    and fuel: "length (thread cid s) - nat seen < n"
  shows "catchUp n A cid uid seen s = drop (nat seen) (rev (thread cid s)) \<and>
         map msg_seq (catchUp n A cid uid seen s) = [seen + 1..co_lastSeq c]"
proof -
  have R: "map msg_seq (rev (thread cid s)) = [1..co_lastSeq c]"
    using inv f by (auto simp: chat_inv_def dense_def follows_def rev_map [symmetric])
  have "drop (nat seen) [1..co_lastSeq c] = [seen + 1..co_lastSeq c]"
    using seen by (simp add: list_eq_iff_nth_eq nth_upto nat_diff_distrib)
  then show ?thesis using catchUp_gets_rest [OF inv f seen fuel] R by (metis drop_map)
qed

theorem catchUp_complete_witness:
  "map msg_seq (catchUp 2 demo_plain ''c1'' ''ann'' 1 demo_chat) = [2]"
proof -
  have f: "follows demo_plain ''c1'' ''ann'' (demo_conversation 2) demo_chat"
    by (simp add: follows_def demo_requires demo_plain_scope within_def MAX_SAFE_INTEGER_def) (simp add: demo_chat_simps)
  have "length (thread ''c1'' demo_chat) - nat 1 < 2" by (simp add: thread_def demo_chat_simps newMessage_def)
  from catchUp_complete [OF demo_chat_inv f _ this, THEN conjunct2] show ?thesis
    by (simp add: demo_conversation_def del: catchUp.simps)
qed

end
