(* ===== verification/Uploads.thy ===== *)
theory Uploads
  imports Content
begin

text \<open>
  File uploads: \<open>src/src/modules/uploads/uploads.service.ts\<close> and \<open>upload-security.ts\<close>. The storage
  provider and the scanner behind its webhook are arguments. An upload is reserved, sent to the provider
  by the client, inspected, quarantined, scanned, and then ready or rejected.
\<close>

section \<open>The provider and the scanner\<close>

type_synonym ObjectRef = "string \<times> string \<times> UploadVisibility option"  \<comment> \<open>key, content type, visibility\<close>

datatype UploadMethod = PUT | POST

record UploadDirective =
  ud_method :: UploadMethod
  ud_url :: string
  ud_headers :: "(string \<times> string) list option"
  ud_fields :: "(string \<times> string) list option"
  ud_expiresAt :: time

record DirectDownload =
  dd_url :: string
  dd_expiresAt :: time

record StoredObjectMetadata =
  so_size :: int
  so_contentType :: "string option"
  so_checksum :: "string option"
  so_url :: "string option"

record DownloadedObject =
  do_body :: string
  do_contentLength :: "int option"
  do_contentType :: "string option"

record UploadProviderAdapter =
  pv_kind :: UploadProvider
  pv_createUpload :: "string \<Rightarrow> string \<Rightarrow> int \<Rightarrow> UploadVisibility \<Rightarrow> thrown + UploadDirective"
  pv_inspectObject :: "ObjectRef \<Rightarrow> thrown + StoredObjectMetadata"
  pv_createDownloadUrl :: "ObjectRef \<Rightarrow> thrown + string"
  pv_createDirectDownload :: "(ObjectRef \<Rightarrow> string \<Rightarrow> int \<Rightarrow> thrown + DirectDownload) option"
  pv_openDownload :: "ObjectRef \<Rightarrow> thrown + DownloadedObject"
  pv_readObjectPrefix :: "ObjectRef \<Rightarrow> nat \<Rightarrow> thrown + string"
  pv_deleteObject :: "ObjectRef \<Rightarrow> thrown + unit"

record upload_env =
  ue_allowedMimeTypes :: "string list"
  ue_maxBytes :: int
  ue_urlTtlSeconds :: int
  ue_userStorageQuotaBytes :: int
  ue_userMonthlyBandwidthQuotaBytes :: int
  ue_scanDisabled :: bool
  ue_redirectDownloads :: bool
  ue_downloadUrlTtlSeconds :: int
  ue_postScan :: "jsval \<Rightarrow> thrown + int \<times> jsval"  \<comment> \<open>status and body of the webhook's answer\<close>

definition refOf :: "Upload \<Rightarrow> ObjectRef" where
  "refOf u = (up_objectKey u, up_contentType u, Some (up_visibility u))"

definition deletingObject :: "UploadProviderAdapter \<Rightarrow> ObjectRef \<Rightarrow> (content, unit) io" where
  "deletingObject P ref s =
     (case pv_deleteObject P ref of Inl e \<Rightarrow> (Inl e, s) | Inr _ \<Rightarrow> (Inr (), s\<lparr>removed := fst ref # removed s\<rparr>))"

section \<open>Signatures and scans\<close>

text \<open>\<open>toString('ascii')\<close> drops the high bit of every byte.\<close>

definition asciiText :: "string \<Rightarrow> string" where
  "asciiText bytes = map (\<lambda>c. char_of (of_char c mod (128 :: nat))) bytes"

definition chars :: "nat list \<Rightarrow> string" where
  "chars ns = map char_of ns"

definition signatures :: "(string \<times> (string \<Rightarrow> bool)) list" where
  "signatures =
     [(''image/jpeg'', \<lambda>b. take 3 b = chars [255, 216, 255]),
      (''image/png'', \<lambda>b. take 8 b = chars [137, 80, 78, 71, 13, 10, 26, 10]),
      (''image/webp'', \<lambda>b. asciiText (take 4 b) = ''RIFF'' \<and> asciiText (take 4 (drop 8 b)) = ''WEBP''),
      (''application/pdf'', \<lambda>b. asciiText (take 5 b) = ''%PDF-'')]"

definition detectContentType :: "string \<Rightarrow> string option" where
  "detectContentType bytes = map_option fst (find (\<lambda>(mime, matches). matches bytes) signatures)"

fun containsText :: "string \<Rightarrow> string \<Rightarrow> bool" where
  "containsText part [] = (part = [])"
| "containsText part (c # cs) = (take (length part) (c # cs) = part \<or> containsText part cs)"

definition requiresDocumentCdr :: "string \<Rightarrow> bool" where
  "requiresDocumentCdr contentType \<longleftrightarrow>
     contentType = ''application/pdf'' \<or> containsText ''word'' contentType \<or> containsText ''officedocument'' contentType"

record ScanResult =
  sr_verdict :: string
  sr_provider :: string
  sr_reference :: "string option"

definition optionalField :: "string \<Rightarrow> string option \<Rightarrow> (string \<times> jsval) list" where
  "optionalField k v = (case v of None \<Rightarrow> [] | Some t \<Rightarrow> [(k, JStr t)])"

definition scanUpload :: "upload_env \<Rightarrow> Upload \<Rightarrow> string \<Rightarrow> thrown + ScanResult" where
  "scanUpload U u sourceUrl =
     (if ue_scanDisabled U then Inr \<lparr>sr_verdict = ''CLEAN'', sr_provider = ''signature-only'', sr_reference = None\<rparr>
      else case ue_postScan U (JObj ([(''uploadId'', JStr (up_id u)), (''filename'', JStr (up_originalName u)),
               (''contentType'', JStr (up_contentType u)), (''size'', JNum (orElse (up_actualSize u) (up_expectedSize u)))] @
               optionalField ''checksum'' (up_checksum u) @
               [(''sourceUrl'', JStr sourceUrl), (''cdrRequired'', JBool (requiresDocumentCdr (up_contentType u)))])) of
        Inl e \<Rightarrow> Inl e
      | Inr (status, body) \<Rightarrow>
          if \<not> (200 \<le> status \<and> status \<le> 299) then Inl (OtherError (''Upload scanner returned HTTP '' @ jsonNumber status))
          else if body = Null \<or> body = Undefined then Inl (OtherError ''Cannot read properties of null'')
          else if jprop ''verdict'' body \<noteq> JStr ''CLEAN'' \<and> jprop ''verdict'' body \<noteq> JStr ''MALICIOUS''
          then Inl (OtherError ''Upload scanner returned an invalid verdict'')
          else Inr \<lparr>sr_verdict = (if jprop ''verdict'' body = JStr ''CLEAN'' then ''CLEAN'' else ''MALICIOUS''),
                    sr_provider = ''webhook'',
                    sr_reference = (case jprop ''reference'' body of JStr r \<Rightarrow> Some r | _ \<Rightarrow> None)\<rparr>)"

section \<open>Statements on the table of uploads\<close>

text \<open>
  The table is tenant-owned and soft-deletable, so every query sees the live rows of the current
  organization only. The integers are kept as such: \<open>serializeUpload\<close>, which turns them into numbers,
  changes nothing else.
\<close>

definition visible :: "app \<Rightarrow> (Upload \<Rightarrow> bool) \<Rightarrow> Upload \<Rightarrow> bool" where
  "visible A P u \<longleftrightarrow> within (scopedOrganization A) (up_organizationId u) \<and> up_deletedAt u = None \<and> P u"

definition findUpload :: "app \<Rightarrow> (Upload \<Rightarrow> bool) \<Rightarrow> (content, Upload option) tx" where
  "findUpload A P = andThen (scoped A ''Upload.findFirst'') (\<lambda>_. findFirst uploads (visible A P))"

definition findUploadOrThrow :: "app \<Rightarrow> ident \<Rightarrow> (content, Upload) tx" where
  "findUploadOrThrow A uploadId =
     andThen (scoped A ''Upload.findUniqueOrThrow'') (\<lambda>_. findFirstOrThrow uploads (visible A (\<lambda>u. up_id u = uploadId)))"

definition updateUpload :: "app \<Rightarrow> ident \<Rightarrow> (Upload \<Rightarrow> Upload) \<Rightarrow> (content, Upload) tx" where
  "updateUpload A uploadId f =
     andThen (scoped A ''Upload.update'') (\<lambda>_.
     andThen (findFirstOrThrow uploads (visible A (\<lambda>u. up_id u = uploadId))) (\<lambda>u.
     andThen (updateMany uploads uploads_update (visible A (\<lambda>u. up_id u = uploadId)) f) (\<lambda>_.
     ret (f u))))"

definition updateUploads :: "app \<Rightarrow> (Upload \<Rightarrow> bool) \<Rightarrow> (Upload \<Rightarrow> Upload) \<Rightarrow> (content, nat) tx" where
  "updateUploads A P f =
     andThen (scoped A ''Upload.updateMany'') (\<lambda>_. updateMany uploads uploads_update (visible A P) f)"

section \<open>Reserving an upload\<close>

text \<open>The calendar of \<open>Date\<close>: year, month and day of a time in milliseconds, in UTC.\<close>

definition dayOf :: "time \<Rightarrow> int" where
  "dayOf now = now div 86400000"

definition civil :: "int \<Rightarrow> int \<times> int \<times> int" where
  "civil days =
     (let z = days + 719468; era = z div 146097; doe = z mod 146097;
          yoe = (doe - doe div 1460 + doe div 36524 - doe div 146096) div 365;
          doy = doe - (365 * yoe + yoe div 4 - yoe div 100);
          mp = (5 * doy + 2) div 153;
          month = (if mp < 10 then mp + 3 else mp - 9)
      in (yoe + era * 400 + (if month \<le> 2 then 1 else 0), month, doy - (153 * mp + 2) div 5 + 1))"

definition monthStart :: "time \<Rightarrow> time" where
  "monthStart now = (dayOf now - (snd (snd (civil (dayOf now))) - 1)) * 86400000"

definition twoDigits :: "int \<Rightarrow> string" where
  "twoDigits n = (if n < 10 then ''0'' @ jsonNumber n else jsonNumber n)"

definition objectKey :: "effects \<Rightarrow> ident \<Rightarrow> string" where
  "objectKey ef userId =
     (case civil (dayOf (ef_now ef 0)) of (year, month, _) \<Rightarrow>
        userId @ ''/'' @ jsonNumber year @ ''/'' @ twoDigits month @ ''/'' @
        uuidV7 (map (\<lambda>c. word_of_nat (of_char c)) (ef_random ef 0)) (ef_now ef 1))"

definition uploadQuotaScopeKey :: "app \<Rightarrow> ident \<Rightarrow> string" where
  "uploadQuotaScopeKey A userId =
     (case currentOrganization A of
        Some g \<Rightarrow> ''organization:'' @ g @ '':user:'' @ userId
      | None \<Rightarrow> ''user:'' @ userId)"

record NewUpload =
  nu_filename :: string
  nu_contentType :: string
  nu_size :: int
  nu_visibility :: UploadVisibility

definition holding :: "UploadStatus \<Rightarrow> bool" where
  "holding st \<longleftrightarrow> st \<in> {UP_PENDING, UP_QUARANTINED, UP_SCANNING, UP_READY}"

definition reserved :: "ident option \<Rightarrow> ident \<Rightarrow> Upload list \<Rightarrow> int" where
  "reserved org userId us =
     sum_list (map up_expectedSize (filter (\<lambda>u. within org (up_organizationId u) \<and> up_deletedAt u = None \<and>
       up_userId u = userId \<and> holding (up_status u)) us))"

definition newUpload :: "app \<Rightarrow> effects \<Rightarrow> ident \<Rightarrow> UploadProvider \<Rightarrow> NewUpload \<Rightarrow> string \<Rightarrow> time \<Rightarrow> Upload" where
  "newUpload A ef userId provider input key expiresAt =
     \<lparr>up_id = ef_id ef 0, up_organizationId = scopedOrganization A, up_userId = userId, up_provider = provider,
      up_status = UP_PENDING, up_visibility = nu_visibility input, up_objectKey = key, up_originalName = nu_filename input,
      up_contentType = nu_contentType input, up_expectedSize = nu_size input, up_actualSize = None, up_checksum = None,
      up_detectedContentType = None, up_scanProvider = None, up_scanReference = None, up_scanVerdict = None,
      up_scannedAt = None, up_url = None, up_uploadExpiresAt = expiresAt, up_readyAt = None, up_storageDeletedAt = None,
      up_createdAt = ef_now ef 3, up_deletedAt = None\<rparr>"

definition uploadClash :: "Upload \<Rightarrow> Upload \<Rightarrow> bool" where
  "uploadClash a b \<longleftrightarrow> up_id a = up_id b \<or> (up_provider a = up_provider b \<and> up_objectKey a = up_objectKey b)"

text \<open>
  The advisory lock of the transaction makes the sum and the insert one step for every replica.
\<close>

definition reserveUpload :: "upload_env \<Rightarrow> app \<Rightarrow> ident \<Rightarrow> Upload \<Rightarrow> (content, Upload) tx" where
  "reserveUpload U A userId row =
     andThen (scoped A ''Upload.aggregate'') (\<lambda>_.
     andThen (reading (\<lambda>s. reserved (scopedOrganization A) userId (uploads s))) (\<lambda>usage.
     andThen (require (\<not> usage + up_expectedSize row > ue_userStorageQuotaBytes U)
                (App (forbidden (Some ''Per-user storage quota exceeded'')))) (\<lambda>_.
     createRow uploads uploads_update uploadClash row)))"

definition noProvider :: thrown where
  "noProvider = App (serviceUnavailable (Some ''File uploads are not configured''))"

definition providerChanged :: thrown where
  "providerChanged = App (serviceUnavailable (Some ''The configured upload provider has changed''))"

text \<open>What follows the reservation: the provider's directive, or the row marked as failed.\<close>

definition obtainDirective ::
    "app \<Rightarrow> (content \<Rightarrow> content) \<Rightarrow> UploadProviderAdapter \<Rightarrow> Upload \<Rightarrow> (content, Upload \<times> UploadDirective) io" where
  "obtainDirective A other P upload =
     andNext (meanwhile other) (\<lambda>_.
     catching
       (andNext (calling (pv_createUpload P (up_objectKey upload) (up_contentType upload) (up_expectedSize upload)
                            (up_visibility upload))) (\<lambda>directive.
        andNext (if ud_expiresAt directive \<noteq> up_uploadExpiresAt upload
                 then transaction (updateUpload A (up_id upload) (\<lambda>u. u\<lparr>up_uploadExpiresAt := ud_expiresAt directive\<rparr>))
                 else answer upload) (\<lambda>persistedUpload.
        answer (persistedUpload, directive))))
       (\<lambda>e.
        andNext (transaction (updateUpload A (up_id upload) (\<lambda>u. u\<lparr>up_status := UP_FAILED\<rparr>))) (\<lambda>_.
        failing e)))"

definition initiateUpload ::
    "upload_env \<Rightarrow> app \<Rightarrow> effects \<Rightarrow> (content \<Rightarrow> content) \<Rightarrow> ident \<Rightarrow> NewUpload \<Rightarrow> UploadProviderAdapter option \<Rightarrow>
     (content, Upload \<times> UploadDirective) io" where
  "initiateUpload U A ef other userId input provider =
     (case provider of
        None \<Rightarrow> failing noProvider
      | Some P \<Rightarrow>
        if nu_contentType input \<notin> set (ue_allowedMimeTypes U)
        then failing (App (badRequest (Some ''This file type is not allowed'') None))
        else if nu_size input > ue_maxBytes U
        then failing (App (badRequest (Some (''File exceeds the '' @ jsonNumber (ue_maxBytes U) @ ''-byte upload limit'')) None))
        else
          andNext (transaction (reserveUpload U A userId (newUpload A ef userId (pv_kind P) input
                     (objectKey ef userId) (ef_now ef 2 + ue_urlTtlSeconds U * 1000)))) (\<lambda>upload.
          obtainDirective A other P upload))"

section \<open>Completing an upload\<close>

definition SIGNATURE_PREFIX_BYTES :: nat where
  "SIGNATURE_PREFIX_BYTES = 16"

fun providerName :: "UploadProvider \<Rightarrow> string" where
  "providerName S3 = ''S3''"
| "providerName CLOUDINARY = ''CLOUDINARY''"

definition completable :: "UploadStatus \<Rightarrow> bool" where
  "completable st \<longleftrightarrow> st \<in> {UP_PENDING, UP_QUARANTINED}"

text \<open>A field of the update that is \<open>undefined\<close> leaves its column unchanged.\<close>

definition quarantine :: "StoredObjectMetadata \<Rightarrow> string \<Rightarrow> Upload \<Rightarrow> Upload" where
  "quarantine stored detected u =
     u\<lparr>up_status := UP_QUARANTINED, up_actualSize := Some (so_size stored),
       up_checksum := (case so_checksum stored of None \<Rightarrow> up_checksum u | Some c \<Rightarrow> Some c),
       up_detectedContentType := Some detected, up_url := None\<rparr>"

definition quarantineTx ::
    "app \<Rightarrow> effects \<Rightarrow> ident \<Rightarrow> Upload \<Rightarrow> StoredObjectMetadata \<Rightarrow> string \<Rightarrow> RequestMetadata \<Rightarrow> (content, Upload) io" where
  "quarantineTx A ef userId upload stored detected metadata =
     auditedContent A (\<lambda>audit.
       andThen (updateUploads A (\<lambda>u. up_id u = up_id upload \<and> up_userId u = userId \<and> completable (up_status u))
                  (quarantine stored detected)) (\<lambda>_.
       andThen (audit (ef_id ef 0) (ef_now ef 0)
                  (audit_of metadata (Some userId) ''upload.quarantined'' ''upload'' (Some (up_id upload))
                    (Some (JObj [(''provider'', JStr (providerName (up_provider upload))),
                                 (''contentType'', JStr (up_contentType upload)), (''size'', JNum (so_size stored))])))) (\<lambda>_.
       findUploadOrThrow A (up_id upload))))"

definition scanned :: "time \<Rightarrow> ScanResult \<Rightarrow> Upload \<Rightarrow> Upload" where
  "scanned now scan u =
     u\<lparr>up_status := (if sr_verdict scan = ''CLEAN'' then UP_READY else UP_REJECTED),
       up_scanProvider := Some (sr_provider scan),
       up_scanReference := (case sr_reference scan of None \<Rightarrow> up_scanReference u | Some r \<Rightarrow> Some r),
       up_scanVerdict := Some (sr_verdict scan), up_scannedAt := Some now,
       up_readyAt := (if sr_verdict scan = ''CLEAN'' then Some now else None), up_url := None\<rparr>"

definition finalizeUploadScan ::
    "app \<Rightarrow> effects \<Rightarrow> ident \<Rightarrow> ident \<Rightarrow> ScanResult \<Rightarrow> RequestMetadata \<Rightarrow> (content, Upload) io" where
  "finalizeUploadScan A ef uploadId userId scan metadata =
     auditedContent A (\<lambda>audit.
       andThen (updateUpload A uploadId (scanned (ef_now ef 1) scan)) (\<lambda>_.
       andThen (audit (ef_id ef 1) (ef_now ef 2)
                  (audit_of metadata (Some userId) (if sr_verdict scan = ''CLEAN'' then ''upload.ready'' else ''upload.rejected'')
                    ''upload'' (Some uploadId)
                    (Some (JObj [(''scanProvider'', JStr (sr_provider scan)), (''verdict'', JStr (sr_verdict scan))])))) (\<lambda>_.
       findUploadOrThrow A uploadId)))"

definition beginScan :: "Upload \<Rightarrow> Upload" where
  "beginScan u = u\<lparr>up_status := UP_SCANNING, up_scanVerdict := None\<rparr>"

definition requestScan :: "app \<Rightarrow> effects \<Rightarrow> Upload \<Rightarrow> StoredObjectMetadata \<Rightarrow> (content, Upload) tx" where
  "requestScan A ef upload stored =
     andThen (updateUpload A (up_id upload) beginScan) (\<lambda>_.
     andThen (inAccounts (outboxInsert (ef_id ef 1) (ef_now ef 2)
                \<lparr>oi_aggregateType = ''upload'', oi_aggregateId = up_id upload, oi_eventType = ''upload.scan.requested'',
                 oi_channel = INTERNAL, oi_payload = JObj [(''uploadId'', JStr (up_id upload))],
                 oi_dedupeKey = ''upload-scan:'' @ up_id upload @ '':'' @ orElse (so_checksum stored) (jsonNumber (so_size stored)),
                 oi_availableAt = None, oi_expiresAt = Some (ef_now ef 1 + 24 * 60 * 60 * 1000)\<rparr>)) (\<lambda>_.
     findUploadOrThrow A (up_id upload)))"

definition mismatched :: "StoredObjectMetadata \<Rightarrow> Upload \<Rightarrow> bool" where
  "mismatched stored upload \<longleftrightarrow> so_size stored \<noteq> up_expectedSize upload \<or>
     (so_contentType stored \<noteq> None \<and> so_contentType stored \<noteq> Some (up_contentType upload))"

definition wrongSignature :: "string option \<Rightarrow> Upload \<Rightarrow> Upload" where
  "wrongSignature detected u =
     u\<lparr>up_status := UP_REJECTED, up_detectedContentType := detected, up_scanVerdict := Some ''SIGNATURE_MISMATCH''\<rparr>"

text \<open>The object is removed, the row is closed, and the request is refused.\<close>

definition discard ::
    "app \<Rightarrow> (content \<Rightarrow> content) \<Rightarrow> UploadProviderAdapter \<Rightarrow> Upload \<Rightarrow> (Upload \<Rightarrow> Upload) \<Rightarrow> string \<Rightarrow> (content, 'a) io" where
  "discard A other P upload close message =
     andNext (deletingObject P (refOf upload)) (\<lambda>_.
     andNext (meanwhile other) (\<lambda>_.
     andNext (transaction (updateUpload A (up_id upload) close)) (\<lambda>_.
     failing (App (badRequest (Some message) None)))))"

definition admit ::
    "upload_env \<Rightarrow> app \<Rightarrow> effects \<Rightarrow> (nat \<Rightarrow> content \<Rightarrow> content) \<Rightarrow> ident \<Rightarrow> Upload \<Rightarrow> StoredObjectMetadata \<Rightarrow> string \<Rightarrow>
     RequestMetadata \<Rightarrow> (content, Upload) io" where
  "admit U A ef other userId upload stored detected metadata =
     andNext (quarantineTx A ef userId upload stored detected metadata) (\<lambda>quarantined.
     if requiresDocumentCdr (up_contentType upload) \<and> ue_scanDisabled U then answer quarantined
     else
       andNext (meanwhile (other 1)) (\<lambda>_.
       if ue_scanDisabled U
       then finalizeUploadScan A ef (up_id upload) userId
              \<lparr>sr_verdict = ''CLEAN'', sr_provider = ''signature-only'', sr_reference = None\<rparr> metadata
       else transaction (requestScan A ef upload stored)))"

definition completeUpload ::
    "upload_env \<Rightarrow> app \<Rightarrow> effects \<Rightarrow> (nat \<Rightarrow> content \<Rightarrow> content) \<Rightarrow> ident \<Rightarrow> ident \<Rightarrow> RequestMetadata \<Rightarrow>
     UploadProviderAdapter option \<Rightarrow> (content, Upload) io" where
  "completeUpload U A ef other userId uploadId metadata provider =
     (case provider of
        None \<Rightarrow> failing noProvider
      | Some P \<Rightarrow>
        andNext (transaction (findUpload A (\<lambda>u. up_id u = uploadId \<and> up_userId u = userId))) (\<lambda>found.
        case found of
          None \<Rightarrow> failing (App (notFound (Some ''Upload not found'')))
        | Some upload \<Rightarrow>
          if up_provider upload \<noteq> pv_kind P then failing providerChanged
          else if up_status upload = UP_READY then answer upload
          else if \<not> completable (up_status upload) then failing (App (conflict (Some ''Upload cannot be completed'')))
          else
            andNext (calling (pv_inspectObject P (refOf upload))) (\<lambda>stored.
            if mismatched stored upload
            then discard A (other 0) P upload (\<lambda>u. u\<lparr>up_status := UP_FAILED\<rparr>)
                   ''Uploaded file does not match the declared size or content type''
            else
              andNext (calling (pv_readObjectPrefix P (refOf upload) SIGNATURE_PREFIX_BYTES)) (\<lambda>prefix.
              let detected = detectContentType prefix in
              if detected \<noteq> Some (up_contentType upload)
              then discard A (other 0) P upload (wrongSignature detected)
                     ''Uploaded file signature does not match the declared content type''
              else
                andNext (meanwhile (other 0)) (\<lambda>_.
                admit U A ef other userId upload stored (the detected) metadata)))))"

section \<open>The scan worker\<close>

text \<open>
  The worker reads without a tenant scope and finishes the scan in the context of the upload's owner.
\<close>

definition ownerContext :: "app \<Rightarrow> Upload \<Rightarrow> app" where
  "ownerContext A upload =
     A\<lparr>ap_ctx := Some (RequestCtx (''worker:upload-scan:'' @ up_id upload) (Some (up_userId upload)) (up_organizationId upload))\<rparr>"

definition workerMetadata :: "Upload \<Rightarrow> RequestMetadata" where
  "workerMetadata upload = \<lparr>rm_ip = ''internal'', rm_userAgent = None, rm_requestId = ''worker:upload-scan:'' @ up_id upload\<rparr>"

definition removeRejected ::
    "app \<Rightarrow> effects \<Rightarrow> (content \<Rightarrow> content) \<Rightarrow> UploadProviderAdapter \<Rightarrow> Upload \<Rightarrow> (content, unit) io" where
  "removeRejected A ef other P upload =
     andNext (deletingObject P (refOf upload)) (\<lambda>_.
     andNext (meanwhile other) (\<lambda>_.
     andNext (transaction (updateUploads A
                (\<lambda>u. up_id u = up_id upload \<and> up_status u = UP_REJECTED \<and> up_storageDeletedAt u = None)
                (\<lambda>u. u\<lparr>up_storageDeletedAt := Some (ef_now ef 3)\<rparr>))) (\<lambda>_.
     answer ())))"

definition scanFailed :: "Upload \<Rightarrow> Upload" where
  "scanFailed u = u\<lparr>up_status := UP_QUARANTINED, up_scanVerdict := Some ''ERROR''\<rparr>"

definition scanObject ::
    "upload_env \<Rightarrow> app \<Rightarrow> effects \<Rightarrow> (nat \<Rightarrow> content \<Rightarrow> content) \<Rightarrow> UploadProviderAdapter \<Rightarrow> Upload \<Rightarrow> (content, unit) io" where
  "scanObject U A ef other P upload =
     andNext (calling (pv_createDownloadUrl P (refOf upload))) (\<lambda>sourceUrl.
     andNext (calling (scanUpload U upload sourceUrl)) (\<lambda>scan.
     andNext (meanwhile (other 1)) (\<lambda>_.
     andNext (finalizeUploadScan (ownerContext A upload) ef (up_id upload) (up_userId upload) scan (workerMetadata upload)) (\<lambda>_.
     if sr_verdict scan = ''MALICIOUS'' then removeRejected A ef (other 2) P upload else answer ()))))"

definition processUploadScan ::
    "upload_env \<Rightarrow> app \<Rightarrow> effects \<Rightarrow> (nat \<Rightarrow> content \<Rightarrow> content) \<Rightarrow> ident \<Rightarrow> UploadProviderAdapter option \<Rightarrow> (content, unit) io" where
  "processUploadScan U A ef other uploadId provider =
     (case provider of
        None \<Rightarrow> failing noProvider
      | Some P \<Rightarrow>
        andNext (transaction (findUpload A (\<lambda>u. up_id u = uploadId \<and> up_status u \<in> {UP_QUARANTINED, UP_SCANNING, UP_REJECTED}))) (\<lambda>found.
        case found of
          None \<Rightarrow> answer ()
        | Some upload \<Rightarrow>
          if up_provider upload \<noteq> pv_kind P
          then failing (OtherError (''Upload '' @ up_id upload @ '' belongs to unavailable provider '' @ providerName (up_provider upload)))
          else if up_status upload = UP_REJECTED
          then if up_scanVerdict upload = Some ''MALICIOUS'' \<and> up_storageDeletedAt upload = None
               then removeRejected A ef (other 0) P upload else answer ()
          else
            andNext (meanwhile (other 0)) (\<lambda>_.
            andNext (transaction (updateUploads A
                       (\<lambda>u. up_id u = up_id upload \<and> up_status u \<in> {UP_QUARANTINED, UP_SCANNING}) beginScan)) (\<lambda>_.
            catching (scanObject U A ef other P upload) (\<lambda>e.
              andNext (transaction (updateUploads A (\<lambda>u. up_id u = up_id upload \<and> up_status u = UP_SCANNING) scanFailed)) (\<lambda>_.
              failing e))))))"

section \<open>Lists, downloads and deletion\<close>

text \<open>Newest first, ties by descending identifier.\<close>

definition newestFirst :: "Upload list \<Rightarrow> Upload list" where
  "newestFirst us = rev (sort_key up_createdAt (sort_key up_id us))"

definition listUploads :: "app \<Rightarrow> ident \<Rightarrow> CursorPaginationInput \<Rightarrow> (content, Upload CursorPage) tx" where
  "listUploads A userId input =
     andThen (scoped A ''Upload.findMany'') (\<lambda>_.
     reading (\<lambda>s. paginateCursor up_id input
       (fetch_rows up_id (newestFirst (filter (visible A (\<lambda>u. up_userId u = userId)) (uploads s))))))"

definition sharedThroughChat :: "app \<Rightarrow> ident \<Rightarrow> ident \<Rightarrow> content \<Rightarrow> bool" where
  "sharedThroughChat A userId uploadId s \<longleftrightarrow>
     list_ex (\<lambda>m. within (scopedOrganization A) (msg_organizationId m) \<and> msg_uploadId m = Some uploadId \<and> msg_deletedAt m = None \<and>
       list_ex (\<lambda>c. co_id c = msg_conversationId m \<and> co_deletedAt c = None \<and>
         list_ex (\<lambda>p. cp_conversationId p = co_id c \<and> cp_userId p = userId \<and> cp_leftAt p = None \<and> cp_deletedAt p = None)
           (participants s)) (conversations s)) (messages s)"

definition bandwidthClash :: "UploadBandwidthUsage \<Rightarrow> UploadBandwidthUsage \<Rightarrow> bool" where
  "bandwidthClash a b \<longleftrightarrow> bw_id a = bw_id b \<or> (bw_scopeKey a = bw_scopeKey b \<and> bw_periodStart a = bw_periodStart b)"

definition quotaExceeded :: thrown where
  "quotaExceeded = App (forbidden (Some ''Monthly download bandwidth quota exceeded''))"

definition createUsage :: "app \<Rightarrow> UploadBandwidthUsage \<Rightarrow> (content, UploadBandwidthUsage) tx" where
  "createUsage A row =
     andThen (scoped A ''UploadBandwidthUsage.create'') (\<lambda>_.
     createRow bandwidthUsage bandwidthUsage_update bandwidthClash row)"

definition affordable :: "upload_env \<Rightarrow> app \<Rightarrow> UploadBandwidthUsage \<Rightarrow> UploadBandwidthUsage \<Rightarrow> bool" where
  "affordable U A row b \<longleftrightarrow>
     within (scopedOrganization A) (bw_organizationId b) \<and> bw_scopeKey b = bw_scopeKey row \<and>
     bw_periodStart b = bw_periodStart row \<and> bw_bytes b \<le> ue_userMonthlyBandwidthQuotaBytes U - bw_bytes row"

definition incrementUsage :: "upload_env \<Rightarrow> app \<Rightarrow> UploadBandwidthUsage \<Rightarrow> (content, nat) tx" where
  "incrementUsage U A row =
     andThen (scoped A ''UploadBandwidthUsage.updateMany'') (\<lambda>_.
     updateMany bandwidthUsage bandwidthUsage_update (affordable U A row) (\<lambda>b. b\<lparr>bw_bytes := bw_bytes b + bw_bytes row\<rparr>))"

definition chargeQuota ::
    "upload_env \<Rightarrow> app \<Rightarrow> (content \<Rightarrow> content) \<Rightarrow> UploadBandwidthUsage \<Rightarrow> (content, unit) io" where
  "chargeQuota U A other row =
     catching (andNext (transaction (createUsage A row)) (\<lambda>_. answer ()))
       (\<lambda>e. if e \<noteq> PrismaKnown ''P2002'' then failing e
            else
              andNext (meanwhile other) (\<lambda>_.
              andNext (transaction (incrementUsage U A row)) (\<lambda>n.
              if n \<noteq> 1 then failing quotaExceeded else answer ())))"

datatype UploadDownload =
    Redirect DirectDownload string string int  \<comment> \<open>file name, content type, length\<close>
  | Proxy DownloadedObject string string int

definition deliver ::
    "upload_env \<Rightarrow> app \<Rightarrow> (nat \<Rightarrow> content \<Rightarrow> content) \<Rightarrow> UploadProviderAdapter \<Rightarrow> Upload \<Rightarrow> UploadBandwidthUsage \<Rightarrow>
     (content, UploadDownload) io" where
  "deliver U A other P upload charge =
     (if ue_redirectDownloads U
      then case pv_createDirectDownload P of
             None \<Rightarrow> failing (App (serviceUnavailable (Some ''Direct downloads are unavailable for this provider'')))
           | Some createDirectDownload \<Rightarrow>
             andNext (calling (createDirectDownload (refOf upload) (up_originalName upload) (ue_downloadUrlTtlSeconds U))) (\<lambda>direct.
             andNext (meanwhile (other 0)) (\<lambda>_.
             andNext (chargeQuota U A (other 1) charge) (\<lambda>_.
             answer (Redirect direct (up_originalName upload) (up_contentType upload) (bw_bytes charge)))))
      else
        andNext (calling (pv_openDownload P (refOf upload))) (\<lambda>download.
        andNext (meanwhile (other 0)) (\<lambda>_.
        andNext (chargeQuota U A (other 1) charge) (\<lambda>_.
        answer (Proxy download (up_originalName upload) (orElse (do_contentType download) (up_contentType upload))
                  (orElse (do_contentLength download) (bw_bytes charge)))))))"

definition downloadCharge :: "app \<Rightarrow> effects \<Rightarrow> ident \<Rightarrow> Upload \<Rightarrow> UploadBandwidthUsage" where
  "downloadCharge A ef userId upload =
     \<lparr>bw_id = ef_id ef 0, bw_organizationId = activeOrganization (ap_ctx A), bw_userId = userId,
      bw_scopeKey = uploadQuotaScopeKey A userId, bw_periodStart = monthStart (ef_now ef 0),
      bw_bytes = orElse (up_actualSize upload) (up_expectedSize upload)\<rparr>"

definition createUploadDownload ::
    "upload_env \<Rightarrow> app \<Rightarrow> effects \<Rightarrow> (nat \<Rightarrow> content \<Rightarrow> content) \<Rightarrow> ident \<Rightarrow> ident \<Rightarrow> UploadProviderAdapter option \<Rightarrow>
     (content, UploadDownload) io" where
  "createUploadDownload U A ef other userId uploadId provider =
     (case provider of
        None \<Rightarrow> failing noProvider
      | Some P \<Rightarrow>
        andNext (transaction (findUpload A (\<lambda>u. up_id u = uploadId \<and> up_status u = UP_READY))) (\<lambda>found.
        case found of
          None \<Rightarrow> failing (App (notFound (Some ''Upload not found'')))
        | Some upload \<Rightarrow>
          andNext (transaction (andThen (if up_userId upload = userId then ret True
                                         else reading (sharedThroughChat A userId (up_id upload))) (\<lambda>allowed.
             require allowed (App (notFound (Some ''Upload not found'')))))) (\<lambda>_.
          if up_provider upload \<noteq> pv_kind P then failing providerChanged
          else if orElse (up_actualSize upload) (up_expectedSize upload) > ue_userMonthlyBandwidthQuotaBytes U
          then failing quotaExceeded
          else deliver U A other P upload (downloadCharge A ef userId upload))))"

definition removeUpload :: "time \<Rightarrow> Upload \<Rightarrow> Upload" where
  "removeUpload now u = u\<lparr>up_status := UP_DELETED, up_deletedAt := Some now\<rparr>"

definition deleteUpload ::
    "app \<Rightarrow> effects \<Rightarrow> (content \<Rightarrow> content) \<Rightarrow> ident \<Rightarrow> ident \<Rightarrow> RequestMetadata \<Rightarrow> UploadProviderAdapter option \<Rightarrow> (content, unit) io" where
  "deleteUpload A ef other userId uploadId metadata provider =
     (case provider of
        None \<Rightarrow> failing noProvider
      | Some P \<Rightarrow>
        andNext (transaction (findUpload A (\<lambda>u. up_id u = uploadId \<and> up_userId u = userId))) (\<lambda>found.
        case found of
          None \<Rightarrow> failing (App (notFound (Some ''Upload not found'')))
        | Some upload \<Rightarrow>
          if up_provider upload \<noteq> pv_kind P then failing providerChanged
          else
            andNext (deletingObject P (refOf upload)) (\<lambda>_.
            andNext (meanwhile other) (\<lambda>_.
            auditedContent A (\<lambda>audit.
              andThen (updateUpload A (up_id upload) (removeUpload (ef_now ef 0))) (\<lambda>_.
              audit (ef_id ef 0) (ef_now ef 1)
                (audit_of metadata (Some userId) ''upload.deleted'' ''upload'' (Some (up_id upload))
                  (Some (JObj [(''provider'', JStr (providerName (up_provider upload)))])))))))))"

text \<open>
  One upload of the cleanup job \<open>src/src/maintenance/upload-cleanup.ts\<close>, which runs without a tenant
  scope over the pending uploads whose time has run out. An abort signal between two uploads is not modelled.
\<close>

definition expireUpload :: "UploadProviderAdapter \<Rightarrow> (content \<Rightarrow> content) \<Rightarrow> Upload \<Rightarrow> (content, nat) io" where
  "expireUpload P other upload =
     andNext (deletingObject P (up_objectKey upload, up_contentType upload, None)) (\<lambda>_.
     andNext (meanwhile other) (\<lambda>_.
     transaction (updateMany uploads uploads_update
       (\<lambda>u. up_deletedAt u = None \<and> up_id u = up_id upload \<and> up_status u = UP_PENDING) (\<lambda>u. u\<lparr>up_status := UP_FAILED\<rparr>))))"

text \<open>
  The query that reads a batch after a cursor is a parameter. An error of one upload is counted and
  the next one is tried; the fuel bounds the number of batches.
\<close>

definition expireOne ::
    "UploadProviderAdapter \<Rightarrow> (content \<Rightarrow> content) \<Rightarrow> Upload \<Rightarrow> nat \<times> nat \<Rightarrow> content \<Rightarrow> (nat \<times> nat) \<times> content" where
  "expireOne P other upload counts s =
     (case expireUpload P other upload s of
        (Inl _, s') \<Rightarrow> ((fst counts, snd counts + 1), s')
      | (Inr n, s') \<Rightarrow> ((fst counts + n, snd counts), s'))"

fun expireBatch ::
    "UploadProviderAdapter \<Rightarrow> (content \<Rightarrow> content) \<Rightarrow> Upload list \<Rightarrow> nat \<times> nat \<Rightarrow> content \<Rightarrow> (nat \<times> nat) \<times> content" where
  "expireBatch P other [] counts s = (counts, s)"
| "expireBatch P other (u # us) counts s =
     (case expireOne P other u counts s of (counts', s') \<Rightarrow> expireBatch P other us counts' s')"

fun expireLoop ::
    "nat \<Rightarrow> UploadProviderAdapter \<Rightarrow> (content \<Rightarrow> content) \<Rightarrow> (ident option \<Rightarrow> content \<Rightarrow> Upload list) \<Rightarrow> nat \<Rightarrow> ident option \<Rightarrow>
     nat \<times> nat \<Rightarrow> content \<Rightarrow> ((nat \<times> nat) \<times> content) option" where
  "expireLoop 0 P other fetch batchSize cursor counts s = None"
| "expireLoop (Suc fuel) P other fetch batchSize cursor counts s =
     (let us = fetch cursor s in
      case expireBatch P other us counts s of (counts', s') \<Rightarrow>
        if length us < batchSize then Some (counts', s')
        else expireLoop fuel P other fetch batchSize (if us = [] then None else Some (up_id (last us))) counts' s')"

definition expirePendingUploads ::
    "nat \<Rightarrow> UploadProviderAdapter option \<Rightarrow> (content \<Rightarrow> content) \<Rightarrow> (ident option \<Rightarrow> content \<Rightarrow> Upload list) \<Rightarrow> nat \<Rightarrow>
     content \<Rightarrow> ((nat \<times> nat) \<times> content) option" where
  "expirePendingUploads fuel provider other fetch batchSize s =
     (case provider of None \<Rightarrow> Some ((0, 0), s) | Some P \<Rightarrow> expireLoop fuel P other fetch batchSize None (0, 0) s)"

end
