(* ===== verification/Upload_Lifecycle.thy ===== *)
theory Upload_Lifecycle
  imports Uploads
begin

text \<open>
  What the operations of \<open>Uploads\<close> guarantee, in every sequence and interleaving of them: the states of an
  upload follow a machine, only checked files become ready, and the storage and bandwidth quotas hold. The
  guarantees are instances of one locale, whose lemma on runs is proved once.
\<close>

section \<open>What one row may do\<close>

text \<open>The changes of a row that the operations mean to make, each from the states it is meant for.\<close>

inductive lifecycle :: "Upload \<Rightarrow> Upload \<Rightarrow> bool" where
  inspected: "completable (up_status u) \<Longrightarrow> so_size stored = up_expectedSize u \<Longrightarrow>
     lifecycle u (quarantine stored (up_contentType u) u)"
| given_up: "completable (up_status u) \<Longrightarrow> lifecycle u (u\<lparr>up_status := UP_FAILED\<rparr>)"
| disguised: "completable (up_status u) \<Longrightarrow> lifecycle u (wrongSignature d u)"
| scanning: "up_status u \<in> {UP_QUARANTINED, UP_SCANNING} \<Longrightarrow> lifecycle u (beginScan u)"
| unscanned: "up_status u = UP_SCANNING \<Longrightarrow> lifecycle u (scanFailed u)"
| verdict: "up_status u \<in> {UP_QUARANTINED, UP_SCANNING} \<Longrightarrow> lifecycle u (scanned now scan u)"
| erased: "up_status u = UP_REJECTED \<Longrightarrow> lifecycle u (u\<lparr>up_storageDeletedAt := Some now\<rparr>)"
| rescheduled: "lifecycle u (u\<lparr>up_uploadExpiresAt := t\<rparr>)"
| thrown_away: "lifecycle u (removeUpload now u)"

lemmas row_changes = quarantine_def wrongSignature_def beginScan_def scanFailed_def scanned_def removeUpload_def

lemma lifecycle_keeps:
  "lifecycle u v \<Longrightarrow> up_id v = up_id u \<and> up_userId v = up_userId u \<and> up_organizationId v = up_organizationId u \<and>
     up_contentType v = up_contentType u \<and> up_expectedSize v = up_expectedSize u \<and> up_objectKey v = up_objectKey u"
  by (induction rule: lifecycle.induct) (simp_all add: row_changes)

definition own_ids :: "content \<Rightarrow> bool" where
  "own_ids s \<longleftrightarrow> distinct (map up_id (uploads s))"

definition untouched :: "ident \<Rightarrow> (content \<Rightarrow> content) \<Rightarrow> bool" where
  "untouched i f \<longleftrightarrow> (\<forall>s u. up_id u = i \<longrightarrow> (u \<in> set (uploads (f s)) \<longleftrightarrow> u \<in> set (uploads s)))"

text \<open>
  Runs of the operations, one after the other and interleaved: what other requests do between two
  statements of an operation is itself such a run, on other uploads.
\<close>

inductive upload_run :: "upload_env \<Rightarrow> tenancyMode \<Rightarrow> content \<Rightarrow> content \<Rightarrow> bool" for U mode where
  idle: "uploads s' = uploads s \<Longrightarrow> upload_run U mode s s'"
| sequence: "upload_run U mode s t \<Longrightarrow> upload_run U mode t u \<Longrightarrow> upload_run U mode s u"
| initiate: "(\<And>x. upload_run U mode x (change x)) \<Longrightarrow> untouched (ef_id ef 0) change \<Longrightarrow>
     ap_tenancyMode A = mode \<Longrightarrow> 0 \<le> nu_size input \<Longrightarrow>
     s' = snd (initiateUpload U A ef change userId input provider s) \<Longrightarrow> upload_run U mode s s'"
| complete: "(\<And>n x. upload_run U mode x (other n x)) \<Longrightarrow> (\<And>n. untouched uploadId (other n)) \<Longrightarrow>
     s' = snd (completeUpload U A ef other userId uploadId metadata provider s) \<Longrightarrow> upload_run U mode s s'"
| scan: "(\<And>n x. upload_run U mode x (other n x)) \<Longrightarrow> (\<And>n. untouched uploadId (other n)) \<Longrightarrow>
     s' = snd (processUploadScan U A ef other uploadId provider s) \<Longrightarrow> upload_run U mode s s'"
| download: "(\<And>n x. upload_run U mode x (other n x)) \<Longrightarrow>
     s' = snd (createUploadDownload U A ef other userId uploadId provider s) \<Longrightarrow> upload_run U mode s s'"
| delete: "(\<And>x. upload_run U mode x (change x)) \<Longrightarrow>
     s' = snd (deleteUpload A ef change userId uploadId metadata provider s) \<Longrightarrow> upload_run U mode s s'"
| expire: "(\<And>x. upload_run U mode x (change x)) \<Longrightarrow>
     s' = snd (expireUpload P change upload s) \<Longrightarrow> upload_run U mode s s'"

section \<open>Guarantees of runs\<close>

text \<open>
  \<open>leads G i Q m R E\<close>: when the rows with identifier \<open>i\<close> satisfy \<open>Q\<close>, the computation \<open>m\<close> stays within
  the guarantee \<open>G\<close>, and those rows satisfy \<open>R\<close> when it returns and \<open>E\<close> when it throws.
\<close>

definition tracks :: "(content \<Rightarrow> content \<Rightarrow> bool) \<Rightarrow> content \<Rightarrow> ident \<Rightarrow> (Upload \<Rightarrow> bool) \<Rightarrow> content \<Rightarrow> bool" where
  "tracks G s0 i Q s \<longleftrightarrow> G s0 s \<and> own_ids s \<and> (\<forall>u\<in>set (uploads s). up_id u = i \<longrightarrow> Q u)"

definition leads ::
    "(content \<Rightarrow> content \<Rightarrow> bool) \<Rightarrow> ident \<Rightarrow> (Upload \<Rightarrow> bool) \<Rightarrow> (content, 'a) io \<Rightarrow> (Upload \<Rightarrow> bool) \<Rightarrow> (Upload \<Rightarrow> bool) \<Rightarrow> bool" where
  "leads G i Q m R E \<longleftrightarrow> (\<forall>s0 s. tracks G s0 i Q s \<longrightarrow>
     (\<forall>a s'. m s = (Inr a, s') \<longrightarrow> tracks G s0 i R s') \<and> (\<forall>e s'. m s = (Inl e, s') \<longrightarrow> tracks G s0 i E s'))"

lemma tracks_mono: "tracks G s0 i Q s \<Longrightarrow> (\<And>u. Q u \<Longrightarrow> R u) \<Longrightarrow> tracks G s0 i R s"
  by (auto simp: tracks_def)

lemma leadsD:
  assumes "leads G i Q m R E" "tracks G s0 i Q s"
  shows "m s = (Inr a, s') \<Longrightarrow> tracks G s0 i R s'" "m s = (Inl e, s') \<Longrightarrow> tracks G s0 i E s'"
  using assms by (auto simp: leads_def)

lemma leads_end:
  assumes "leads G i Q m (\<lambda>_. True) (\<lambda>_. True)" "tracks G s0 i Q s"
  shows "G s0 (snd (m s)) \<and> own_ids (snd (m s))"
  using leadsD [OF assms] by (cases "m s"; cases "fst (m s)") (auto simp: tracks_def)

lemma leads_mono:
  "leads G i Q m R E \<Longrightarrow> (\<And>u. R u \<Longrightarrow> R' u) \<Longrightarrow> (\<And>u. E u \<Longrightarrow> E' u) \<Longrightarrow> leads G i Q m R' E'"
  unfolding leads_def by (blast intro: tracks_mono)

lemma leads_andNext:
  assumes "leads G i Q m R E" "\<And>a. leads G i R (f a) T E"
  shows "leads G i Q (andNext m f) T E"
  unfolding leads_def andNext_Inr andNext_Inl
  using leadsD [OF assms(1)] leadsD [OF assms(2)] by blast

lemma leads_catching:
  assumes "leads G i Q m T F" "\<And>e. leads G i F (handler e) T E"
  shows "leads G i Q (catching m handler) T E"
  unfolding leads_def
proof (intro allI impI)
  fix s0 s assume "tracks G s0 i Q s"
  note body = leadsD [OF assms(1) this]
  show "(\<forall>a s'. catching m handler s = (Inr a, s') \<longrightarrow> tracks G s0 i T s') \<and>
        (\<forall>e s'. catching m handler s = (Inl e, s') \<longrightarrow> tracks G s0 i E s')"
  proof (cases "m s")
    case (Pair r s1)
    then show ?thesis
      using body leadsD [OF assms(2)] by (cases r) (auto simp: catching_def)
  qed
qed

lemma leads_pure:
  "(\<And>u. Q u \<Longrightarrow> T u) \<Longrightarrow> leads G i Q (answer a) T E"
  "(\<And>u. Q u \<Longrightarrow> E u) \<Longrightarrow> leads G i Q (failing e) T E"
  "(\<And>u. Q u \<Longrightarrow> E u) \<Longrightarrow> leads G i Q (calling r) Q E"
  by (auto simp: leads_def answer_def failing_def calling_def intro: tracks_mono)

lemma leads_if:
  "(b \<Longrightarrow> leads G i Q m T E) \<Longrightarrow> (\<not> b \<Longrightarrow> leads G i Q n T E) \<Longrightarrow> leads G i Q (if b then m else n) T E"
  by simp

lemma leads_calling: "(\<And>a. leads G i Q (f a) T (\<lambda>_. True)) \<Longrightarrow> leads G i Q (andNext (calling r) f) T (\<lambda>_. True)"
  by (rule leads_andNext [OF leads_pure(3)]) simp_all

locale upload_guarantee =
  fixes U :: upload_env and mode :: tenancyMode and G :: "content \<Rightarrow> content \<Rightarrow> bool"
  assumes same: "uploads s' = uploads s \<Longrightarrow> G s s'"
    and compose: "G s t \<Longrightarrow> G t u \<Longrightarrow> G s u"
    and change: "uploads s' = update_many P f (uploads s) \<Longrightarrow> (\<And>u. u \<in> set (uploads s) \<Longrightarrow> P u \<Longrightarrow> lifecycle u (f u)) \<Longrightarrow> G s s'"
    and reserve: "own_ids s \<Longrightarrow> ap_tenancyMode A = mode \<Longrightarrow> 0 \<le> nu_size input \<Longrightarrow>
        reserveUpload U A userId (newUpload A ef userId provider input key expiresAt) s = Inr (row, s') \<Longrightarrow> G s s'"
begin

lemma tracks_start: "own_ids s \<Longrightarrow> tracks G s i (\<lambda>_. True) s"
  by (simp add: tracks_def same)

lemma tracks_found:
  assumes "own_ids s" "v \<in> set (uploads s)"
  shows "tracks G s (up_id v) (\<lambda>u. u = v) s"
  using assms by (auto simp: tracks_def same own_ids_def distinct_map inj_on_def)

lemma tracks_same: "tracks G s0 i Q s \<Longrightarrow> uploads s' = uploads s \<Longrightarrow> tracks G s0 i Q s'"
  by (auto simp: tracks_def own_ids_def intro: compose same)

lemma tracks_change:
  assumes "tracks G s0 i Q s" "uploads s' = update_many P f (uploads s)" "\<And>u. P u \<Longrightarrow> up_id u = i"
    "\<And>u. Q u \<Longrightarrow> P u \<Longrightarrow> lifecycle u (f u) \<and> R (f u)" "\<And>u. Q u \<Longrightarrow> \<not> P u \<Longrightarrow> R u"
  shows "tracks G s0 i R s'"
proof -
  have step: "lifecycle u (f u)" if "u \<in> set (uploads s)" "P u" for u
    using assms(1,3,4) that by (auto simp: tracks_def)
  have "map up_id (uploads s') = map up_id (uploads s)"
    unfolding assms(2) by (auto simp: update_many_def dest!: step lifecycle_keeps)
  moreover have "G s0 s'" using assms(1) change [OF assms(2) step] by (auto simp: tracks_def intro: compose)
  moreover have "R u" if member: "u \<in> set (uploads s')" and "up_id u = i" for u
  proof (cases "u \<in> set (uploads s) \<and> \<not> P u")
    case True
    with that(2) assms(1,5) show ?thesis by (simp add: tracks_def)
  next
    case False
    then obtain x where x: "x \<in> set (uploads s)" "P x" "u = f x"
      using member by (auto simp: assms(2) set_update_many split: if_splits)
    with assms(1,3) have "Q x" by (simp add: tracks_def)
    with x assms(4) show ?thesis by blast
  qed
  ultimately show ?thesis using assms(1) by (simp add: tracks_def own_ids_def)
qed

lemma leads_same:
  assumes "\<And>s a s'. m s = Inr (a, s') \<Longrightarrow> uploads s' = uploads s"
  shows "leads G i Q (transaction m) Q Q"
  using assms by (auto simp: leads_def transaction_cases intro: tracks_same)

lemma leads_deleting: "(\<And>u. Q u \<Longrightarrow> E u) \<Longrightarrow> leads G i Q (deletingObject P ref) Q E"
  by (auto simp: leads_def deletingObject_def split: sum.split_asm elim!: tracks_same intro: tracks_mono)

lemma leads_change:
  assumes "\<And>s a s'. m s = Inr (a, s') \<Longrightarrow> uploads s' = update_many P f (uploads s)" "\<And>u. P u \<Longrightarrow> up_id u = i"
    "\<And>u. Q u \<Longrightarrow> P u \<Longrightarrow> lifecycle u (f u) \<and> R (f u)" "\<And>u. Q u \<Longrightarrow> \<not> P u \<Longrightarrow> R u"
    "\<And>u. Q u \<Longrightarrow> E u"
  shows "leads G i Q (transaction m) R E"
  unfolding leads_def transaction_cases using assms by (blast intro: tracks_change tracks_mono)

lemma leads_meanwhile:
  assumes "\<And>x. own_ids x \<Longrightarrow> G x (other x) \<and> own_ids (other x)" "untouched i other"
  shows "leads G i Q (meanwhile other) Q E"
  using assms by (auto simp: leads_def meanwhile_def tracks_def untouched_def intro: compose)

end

text \<open>What the transactions do to the table.\<close>

lemma findUpload_Inr [tx_simps]:
  "findUpload A P s = Inr r \<longleftrightarrow> scopeError A ''Upload.findFirst'' = None \<and> r = (find_first (visible A P) (uploads s), s)"
  by (auto simp: findUpload_def tx_simps)

lemma findUploadOrThrow_same: "findUploadOrThrow A i s = Inr (u, s') \<Longrightarrow> s' = s"
  by (auto simp: findUploadOrThrow_def tx_simps)

lemma updateUpload_effect:
  "updateUpload A i f s = Inr (u, s') \<Longrightarrow> uploads s' = update_many (visible A (\<lambda>u. up_id u = i)) f (uploads s)"
  by (auto simp: updateUpload_def tx_simps)

lemma updateUploads_effect:
  "updateUploads A P f s = Inr (n, s') \<Longrightarrow> uploads s' = update_many (visible A P) f (uploads s)"
  by (auto simp: updateUploads_def tx_simps)

lemma updateMany_effect:
  "updateMany uploads uploads_update P f s = Inr (n, s') \<Longrightarrow> uploads s' = update_many P f (uploads s)"
  by (auto simp: tx_simps)

lemma scanned_effect:
  "andThen (updateUpload A i f) (\<lambda>_. andThen (inAccounts m) (\<lambda>_. findUploadOrThrow A i)) s = Inr (u, s') \<Longrightarrow>
   uploads s' = update_many (visible A (\<lambda>u. up_id u = i)) f (uploads s)"
  by (auto simp: tx_simps dest!: findUploadOrThrow_same updateUpload_effect)

lemma quarantined_effect:
  "andThen (updateUploads A P f) (\<lambda>_. andThen (inAccounts m) (\<lambda>_. findUploadOrThrow A i)) s = Inr (u, s') \<Longrightarrow>
   uploads s' = update_many (visible A P) f (uploads s)"
  by (auto simp: tx_simps dest!: findUploadOrThrow_same updateUploads_effect)

lemma deleted_effect:
  "andThen (updateUpload A i f) (\<lambda>_. inAccounts m) s = Inr (u, s') \<Longrightarrow>
   uploads s' = update_many (visible A (\<lambda>u. up_id u = i)) f (uploads s)"
  by (auto simp: tx_simps dest!: updateUpload_effect)

context upload_guarantee
begin

lemma leads_finalize:
  assumes "\<And>u. Q u \<Longrightarrow> up_status u \<in> {UP_QUARANTINED, UP_SCANNING}"
  shows "leads G i Q (finalizeUploadScan A ef i userId scan metadata) (\<lambda>_. True) (\<lambda>_. True)"
  unfolding finalizeUploadScan_def auditedContent_def
  by (rule leads_change, erule scanned_effect) (use assms in \<open>auto simp: visible_def intro!: verdict\<close>)

lemma leads_request:
  assumes "\<And>u. Q u \<Longrightarrow> up_status u \<in> {UP_QUARANTINED, UP_SCANNING}"
  shows "leads G (up_id upload) Q (transaction (requestScan A ef upload stored)) (\<lambda>_. True) (\<lambda>_. True)"
  unfolding requestScan_def
  by (rule leads_change, erule scanned_effect) (use assms in \<open>auto simp: visible_def intro!: scanning\<close>)

lemma leads_quarantine:
  assumes "\<And>u. Q u \<Longrightarrow> visible A (\<lambda>u. up_id u = up_id upload \<and> up_userId u = userId \<and> completable (up_status u)) u"
    "\<And>u. Q u \<Longrightarrow> so_size stored = up_expectedSize u \<and> detected = up_contentType u"
  shows "leads G (up_id upload) Q (quarantineTx A ef userId upload stored detected metadata)
    (\<lambda>u. up_status u = UP_QUARANTINED) (\<lambda>_. True)"
  unfolding quarantineTx_def auditedContent_def
proof (rule leads_change, erule quarantined_effect)
  fix u assume "Q u"
  then show "lifecycle u (quarantine stored detected u) \<and> up_status (quarantine stored detected u) = UP_QUARANTINED"
    using assms inspected [of u stored] by (auto simp: visible_def quarantine_def)
qed (use assms in \<open>auto simp: visible_def\<close>)

lemma leads_admit:
  assumes "\<And>n x. own_ids x \<Longrightarrow> G x (other n x) \<and> own_ids (other n x)" "\<And>n. untouched (up_id upload) (other n)"
    "visible A (\<lambda>u. up_userId u = userId \<and> completable (up_status u)) upload"
    "so_size stored = up_expectedSize upload" "detected = up_contentType upload"
  shows "leads G (up_id upload) (\<lambda>u. u = upload) (admit U A ef other userId upload stored detected metadata)
    (\<lambda>_. True) (\<lambda>_. True)"
  unfolding admit_def
proof (rule leads_andNext)
  show "leads G (up_id upload) (\<lambda>u. u = upload) (quarantineTx A ef userId upload stored detected metadata)
      (\<lambda>u. up_status u = UP_QUARANTINED) (\<lambda>_. True)"
    by (rule leads_quarantine) (use assms(3-5) in \<open>auto simp: visible_def\<close>)
next
  let ?Q = "\<lambda>u. up_status u = UP_QUARANTINED"
  have fin: "leads G (up_id upload) ?Q (finalizeUploadScan A ef (up_id upload) userId scan metadata) (\<lambda>_. True) (\<lambda>_. True)" for scan
    by (rule leads_finalize) simp
  have req: "leads G (up_id upload) ?Q (transaction (requestScan A ef upload stored)) (\<lambda>_. True) (\<lambda>_. True)"
    by (rule leads_request) simp
  have wait: "leads G (up_id upload) ?Q (meanwhile (other 1)) ?Q (\<lambda>_. True)"
    by (rule leads_meanwhile) (use assms(1,2) in auto)
  fix quarantined
  show "leads G (up_id upload) ?Q
     (if requiresDocumentCdr (up_contentType upload) \<and> ue_scanDisabled U then answer quarantined
      else andNext (meanwhile (other 1)) (\<lambda>_.
        if ue_scanDisabled U
        then finalizeUploadScan A ef (up_id upload) userId
               \<lparr>sr_verdict = ''CLEAN'', sr_provider = ''signature-only'', sr_reference = None\<rparr> metadata
        else transaction (requestScan A ef upload stored))) (\<lambda>_. True) (\<lambda>_. True)"
    by (simp only: split: if_split) (intro conjI impI leads_pure leads_andNext [OF wait] fin req; simp)
qed

lemma leads_discard:
  assumes "\<And>x. own_ids x \<Longrightarrow> G x (other x) \<and> own_ids (other x)" "untouched (up_id upload) other"
    "\<And>u. u = upload \<Longrightarrow> lifecycle u (close u)"
  shows "leads G (up_id upload) (\<lambda>u. u = upload) (discard A other P upload close message) (\<lambda>_. True) (\<lambda>_. True)"
proof -
  have shut: "leads G (up_id upload) (\<lambda>u. u = upload) (transaction (updateUpload A (up_id upload) close)) (\<lambda>_. True) (\<lambda>_. True)"
    by (rule leads_change, erule updateUpload_effect) (use assms(3) in \<open>auto simp: visible_def\<close>)
  show ?thesis
    unfolding discard_def
    by (rule leads_andNext [OF leads_deleting leads_andNext [OF leads_meanwhile leads_andNext [OF shut leads_pure(2)]]])
      (use assms(1,2) in auto)
qed

end

context upload_guarantee
begin

text \<open>An operation that starts by looking its row up.\<close>

lemma found_leads:
  assumes "own_ids s" "\<And>t. snd (f None t) = t"
    "\<And>v. visible A P v \<Longrightarrow> leads G (up_id v) (\<lambda>u. u = v) (f (Some v)) (\<lambda>_. True) (\<lambda>_. True)"
  shows "G s (snd (andNext (transaction (findUpload A P)) f s)) \<and> own_ids (snd (andNext (transaction (findUpload A P)) f s))"
proof (cases "scopeError A ''Upload.findFirst''")
  case None
  then have "transaction (findUpload A P) s = (Inr (find_first (visible A P) (uploads s)), s)"
    by (simp add: transaction_cases tx_simps)
  then have run: "andNext (transaction (findUpload A P)) f s = f (find_first (visible A P) (uploads s)) s"
    by (simp add: andNext_def)
  show ?thesis
  proof (cases "find_first (visible A P) (uploads s)")
    case None
    then show ?thesis using assms(1,2) by (simp add: run same)
  next
    case (Some v)
    then have "v \<in> set (uploads s)" "visible A P v" by (auto dest!: find_first_SomeD)
    then show ?thesis using leads_end [OF assms(3) tracks_found [OF assms(1)]] by (simp add: run Some)
  qed
next
  case (Some e)
  then show ?thesis using assms(1)
    by (simp add: andNext_def transaction_def findUpload_def scoped_def andThen_def throw_def same)
qed

lemma completeUpload_G:
  assumes "\<And>n x. own_ids x \<Longrightarrow> G x (other n x) \<and> own_ids (other n x)" "\<And>n. untouched uploadId (other n)" "own_ids s"
  shows "G s (snd (completeUpload U A ef other userId uploadId metadata provider s)) \<and>
         own_ids (snd (completeUpload U A ef other userId uploadId metadata provider s))"
proof (cases provider)
  case None
  then show ?thesis using assms(3) by (simp add: completeUpload_def same)
next
  case (Some P)
  show ?thesis
    unfolding completeUpload_def Some option.case
  proof (rule found_leads, goal_cases)
    case (3 v)
    then have i: "uploadId = up_id v" by (simp add: visible_def)
    let ?T = "\<lambda>_ :: Upload. True"
    have discarded: "leads G (up_id v) (\<lambda>u. u = v) (discard A (other 0) P v close message :: (content, Upload) io) ?T ?T"
      if "lifecycle v (close v)" for close message
      by (rule leads_discard) (use assms(1,2) that i in auto)
    have admitted: "leads G (up_id v) (\<lambda>u. u = v) (andNext (meanwhile (other 0)) (\<lambda>_. admit U A ef other userId v stored d metadata)) ?T ?T"
      if "completable (up_status v)" "\<not> mismatched stored v" "d = up_contentType v" for stored d
      by (rule leads_andNext [OF leads_meanwhile leads_admit])
        (use assms(1,2) that 3 i in \<open>auto simp: visible_def mismatched_def\<close>)
    show ?case
      unfolding option.case Let_def
      by (intro leads_if leads_pure leads_calling discarded admitted) (simp_all add: given_up disguised)
  qed (use assms(3) in \<open>simp_all add: same\<close>)
qed

end

lemma commits_elsewhere:
  assumes "\<And>x. Q x \<Longrightarrow> Q (other x)" "\<And>x y. uploads y = uploads x \<Longrightarrow> Q x \<Longrightarrow> Q y"
  shows "commits Q (chargeQuota U A other row)" "commits Q (deletingObject P ref)"
proof -
  have tx: "commits Q (transaction m)" if "\<And>x a x'. m x = Inr (a, x') \<Longrightarrow> uploads x' = uploads x" for m :: "(content, 'b) tx"
    using that assms(2) by (blast intro: commits_transaction)
  show "commits Q (chargeQuota U A other row)"
    unfolding chargeQuota_def
    by (intro commits_rules commits_meanwhile assms(1) tx) (auto simp: createUsage_def incrementUsage_def tx_simps)
  show "commits Q (deletingObject P ref)"
    by (auto simp: commits_def deletingObject_def split: sum.split elim!: assms(2) [rotated])
qed

context upload_guarantee
begin

lemma leads_removeRejected:
  assumes "\<And>x. own_ids x \<Longrightarrow> G x (other x) \<and> own_ids (other x)" "untouched (up_id upload) other"
  shows "leads G (up_id upload) Q (removeRejected A ef other P upload) (\<lambda>_. True) (\<lambda>_. True)"
proof -
  have shut: "leads G (up_id upload) Q (transaction (updateUploads A
                (\<lambda>u. up_id u = up_id upload \<and> up_status u = UP_REJECTED \<and> up_storageDeletedAt u = None)
                (\<lambda>u. u\<lparr>up_storageDeletedAt := Some (ef_now ef 3)\<rparr>))) (\<lambda>_. True) (\<lambda>_. True)"
    by (rule leads_change, erule updateUploads_effect) (auto simp: visible_def intro: erased)
  show ?thesis
    unfolding removeRejected_def
    by (rule leads_andNext [OF leads_deleting leads_andNext [OF leads_meanwhile leads_andNext [OF shut leads_pure(1)]]])
      (use assms in auto)
qed

lemma leads_scanObject:
  assumes "\<And>n x. own_ids x \<Longrightarrow> G x (other n x) \<and> own_ids (other n x)" "\<And>n. untouched (up_id upload) (other n)"
  shows "leads G (up_id upload) (\<lambda>u. up_status u \<in> {UP_QUARANTINED, UP_SCANNING}) (scanObject U A ef other P upload)
    (\<lambda>_. True) (\<lambda>_. True)"
  unfolding scanObject_def
  by (intro leads_calling leads_andNext [OF leads_meanwhile] leads_andNext [OF leads_finalize] leads_if leads_removeRejected leads_pure)
    (use assms in auto)

lemma processUploadScan_G:
  assumes "\<And>n x. own_ids x \<Longrightarrow> G x (other n x) \<and> own_ids (other n x)" "\<And>n. untouched uploadId (other n)" "own_ids s"
  shows "G s (snd (processUploadScan U A ef other uploadId provider s)) \<and>
         own_ids (snd (processUploadScan U A ef other uploadId provider s))"
proof (cases provider)
  case None
  then show ?thesis using assms(3) by (simp add: processUploadScan_def same)
next
  case (Some P)
  show ?thesis
    unfolding processUploadScan_def Some option.case
  proof (rule found_leads, goal_cases)
    case (3 v)
    then have i: "uploadId = up_id v" and st: "up_status v \<in> {UP_QUARANTINED, UP_SCANNING, UP_REJECTED}"
      by (simp_all add: visible_def)
    let ?T = "\<lambda>_ :: Upload. True"
    have start: "leads G (up_id v) (\<lambda>u. u = v) (transaction (updateUploads A
          (\<lambda>u. up_id u = up_id v \<and> up_status u \<in> {UP_QUARANTINED, UP_SCANNING}) beginScan))
        (\<lambda>u. up_status u \<in> {UP_QUARANTINED, UP_SCANNING}) ?T" if "up_status v \<noteq> UP_REJECTED"
      by (rule leads_change, erule updateUploads_effect)
        (use that st in \<open>auto simp: visible_def beginScan_def intro!: scanning [unfolded beginScan_def]\<close>)
    have again: "leads G (up_id v) ?T (transaction (updateUploads A (\<lambda>u. up_id u = up_id v \<and> up_status u = UP_SCANNING) scanFailed)) ?T ?T"
      by (rule leads_change, erule updateUploads_effect) (auto simp: visible_def intro!: unscanned)
    have scan: "leads G (up_id v) (\<lambda>u. up_status u \<in> {UP_QUARANTINED, UP_SCANNING}) (scanObject U A ef other P v) ?T ?T"
      by (rule leads_scanObject) (use assms(1,2) i in auto)
    have wait: "leads G (up_id v) (\<lambda>u. u = v) (meanwhile (other 0)) (\<lambda>u. u = v) ?T"
      by (rule leads_meanwhile) (use assms(1,2) i in auto)
    have remove: "leads G (up_id v) (\<lambda>u. u = v) (removeRejected A ef (other 0) P v) ?T ?T"
      by (rule leads_removeRejected) (use assms(1,2) i in auto)
    show ?case
      unfolding option.case
      by (intro leads_if leads_pure remove leads_andNext [OF wait] leads_andNext [OF start] leads_catching [OF scan]
          leads_andNext [OF again]) simp_all
  qed (use assms(3) in \<open>simp_all add: same\<close>)
qed

lemma commits_same: "(\<And>x a x'. m x = Inr (a, x') \<Longrightarrow> uploads x' = uploads x) \<Longrightarrow> commits (\<lambda>t. G s t \<and> own_ids t) (transaction m)"
  by (rule commits_transaction) (metis own_ids_def compose same)

lemma commits_change:
  assumes "\<And>x a x'. m x = Inr (a, x') \<Longrightarrow> uploads x' = update_many P f (uploads x)" "\<And>u. P u \<Longrightarrow> lifecycle u (f u)"
  shows "commits (\<lambda>t. G s t \<and> own_ids t) (transaction m)"
proof (rule commits_transaction)
  fix x a x' assume "m x = Inr (a, x')" and before: "G s x \<and> own_ids x"
  then have effect: "uploads x' = update_many P f (uploads x)" by (blast intro: assms(1))
  then have "map up_id (uploads x') = map up_id (uploads x)"
    by (auto simp: update_many_def dest!: assms(2) lifecycle_keeps)
  then show "G s x' \<and> own_ids x'"
    using before change [OF effect assms(2)] by (auto simp: own_ids_def intro: compose)
qed

lemma commits_charge:
  assumes "\<And>x. own_ids x \<Longrightarrow> G x (other x) \<and> own_ids (other x)"
  shows "commits (\<lambda>t. G s t \<and> own_ids t) (chargeQuota U' A other row)" "commits (\<lambda>t. G s t \<and> own_ids t) (deletingObject P ref)"
    "commits (\<lambda>t. G s t \<and> own_ids t) (meanwhile other)"
  using assms
  by (auto intro!: commits_elsewhere [where other = other] commits_meanwhile simp: own_ids_def intro: compose same)

lemma createUploadDownload_G:
  assumes "\<And>n x. own_ids x \<Longrightarrow> G x (other n x) \<and> own_ids (other n x)" "own_ids s"
  shows "G s (snd (createUploadDownload U A ef other userId uploadId provider s)) \<and>
         own_ids (snd (createUploadDownload U A ef other userId uploadId provider s))"
proof -
  have "commits (\<lambda>t. G s t \<and> own_ids t) (createUploadDownload U A ef other userId uploadId provider)"
    unfolding createUploadDownload_def deliver_def
    by (intro commits_rules commits_calling commits_charge assms(1) commits_same)
      (auto simp: tx_simps split: if_splits)
  then show ?thesis by (rule commitsD) (simp add: same assms(2))
qed

lemma deleteUpload_G:
  assumes "\<And>x. own_ids x \<Longrightarrow> G x (other x) \<and> own_ids (other x)" "own_ids s"
  shows "G s (snd (deleteUpload A ef other userId uploadId metadata provider s)) \<and>
         own_ids (snd (deleteUpload A ef other userId uploadId metadata provider s))"
proof -
  have change: "commits (\<lambda>t. G s t \<and> own_ids t) (auditedContent A (\<lambda>audit. andThen (updateUpload A i (removeUpload now)) (\<lambda>_. audit eid t input)))"
    for i now eid t input
    unfolding auditedContent_def by (rule commits_change, erule deleted_effect) (rule thrown_away)
  have "commits (\<lambda>t. G s t \<and> own_ids t) (deleteUpload A ef other userId uploadId metadata provider)"
    unfolding deleteUpload_def
    by (intro commits_rules commits_charge [OF assms(1)] commits_same change) (auto simp: tx_simps)
  then show ?thesis by (rule commitsD) (simp add: same assms(2))
qed

lemma expireUpload_G:
  assumes "\<And>x. own_ids x \<Longrightarrow> G x (other x) \<and> own_ids (other x)" "own_ids s"
  shows "G s (snd (expireUpload P other upload s)) \<and> own_ids (snd (expireUpload P other upload s))"
proof -
  have "commits (\<lambda>t. G s t \<and> own_ids t) (transaction (updateMany uploads uploads_update
       (\<lambda>u. up_deletedAt u = None \<and> up_id u = up_id upload \<and> up_status u = UP_PENDING) (\<lambda>u. u\<lparr>up_status := UP_FAILED\<rparr>)))"
    by (rule commits_change, erule updateMany_effect) (simp add: given_up completable_def)
  then have "commits (\<lambda>t. G s t \<and> own_ids t) (expireUpload P other upload)"
    unfolding expireUpload_def by (intro commits_rules commits_charge [OF assms(1)])
  then show ?thesis by (rule commitsD) (simp add: same assms(2))
qed

end

lemma reserveUpload_Inr:
  assumes "reserveUpload U A userId row s = Inr (u, s')"
  shows "u = row" "uploads s' = row # uploads s" "\<not> clashes uploadClash row (uploads s)"
     "reserved (scopedOrganization A) userId (uploads s) + up_expectedSize row \<le> ue_userStorageQuotaBytes U"
  using assms by (auto simp: reserveUpload_def tx_simps)

context upload_guarantee
begin

lemma leads_obtainDirective:
  assumes "\<And>x. own_ids x \<Longrightarrow> G x (other x) \<and> own_ids (other x)" "untouched (up_id upload) other"
  shows "leads G (up_id upload) (\<lambda>u. up_status u = UP_PENDING) (obtainDirective A other P upload) (\<lambda>_. True) (\<lambda>_. True)"
proof -
  let ?Q = "\<lambda>u. up_status u = UP_PENDING" and ?T = "\<lambda>_ :: Upload. True"
  have postpone: "leads G (up_id upload) ?Q (transaction (updateUpload A (up_id upload) (\<lambda>u. u\<lparr>up_uploadExpiresAt := t\<rparr>))) ?Q ?Q" for t
    by (rule leads_change, erule updateUpload_effect) (auto simp: visible_def intro!: rescheduled)
  have abort: "leads G (up_id upload) ?Q (transaction (updateUpload A (up_id upload) (\<lambda>u. u\<lparr>up_status := UP_FAILED\<rparr>))) ?T ?T"
    by (rule leads_change, erule updateUpload_effect) (auto simp: visible_def completable_def intro!: given_up)
  show ?thesis
    unfolding obtainDirective_def
    by (rule leads_andNext [OF leads_meanwhile leads_catching [where F = ?Q]])
      (use assms in \<open>auto intro!: leads_andNext [OF leads_pure(3)] leads_andNext [OF leads_if] leads_andNext [OF abort] postpone leads_pure\<close>)
qed

lemma tracks_reserved:
  assumes "own_ids s" "ap_tenancyMode A = mode" "0 \<le> nu_size input"
    "reserveUpload U A userId (newUpload A ef userId provider input key expiresAt) s = Inr (u, s')"
  shows "tracks G s (ef_id ef 0) (\<lambda>u. up_status u = UP_PENDING) s'"
proof -
  note r = reserveUpload_Inr [OF assms(4)]
  have new: "up_id (newUpload A ef userId provider input key expiresAt) = ef_id ef 0"
    "up_status (newUpload A ef userId provider input key expiresAt) = UP_PENDING" by (simp_all add: newUpload_def)
  have fresh: "up_id x \<noteq> ef_id ef 0" if "x \<in> set (uploads s)" for x
    using r(3) that by (auto simp: clashes_def uploadClash_def new list_ex_iff)
  then have "ef_id ef 0 \<notin> up_id ` set (uploads s)" by (simp add: image_iff) metis
  then have "own_ids s'" using assms(1) unfolding own_ids_def r(2) by (simp add: new)
  moreover have "\<forall>x\<in>set (uploads s'). up_id x = ef_id ef 0 \<longrightarrow> up_status x = UP_PENDING"
    unfolding r(2) using fresh by (auto simp: new)
  ultimately show ?thesis using reserve [OF assms] by (simp add: tracks_def)
qed

lemma initiateUpload_G:
  assumes "\<And>x. own_ids x \<Longrightarrow> G x (other x) \<and> own_ids (other x)" "untouched (ef_id ef 0) other" "own_ids s"
    "ap_tenancyMode A = mode" "0 \<le> nu_size input"
  shows "G s (snd (initiateUpload U A ef other userId input provider s)) \<and>
         own_ids (snd (initiateUpload U A ef other userId input provider s))"
proof (cases provider)
  case None
  then show ?thesis using assms(3) by (simp add: initiateUpload_def same)
next
  case (Some P)
  define row where "row = newUpload A ef userId (pv_kind P) input (objectKey ef userId) (ef_now ef 2 + ue_urlTtlSeconds U * 1000)"
  have new: "up_id row = ef_id ef 0" by (simp add: row_def newUpload_def)
  have "G s (snd (andNext (transaction (reserveUpload U A userId row)) (obtainDirective A other P) s)) \<and>
        own_ids (snd (andNext (transaction (reserveUpload U A userId row)) (obtainDirective A other P) s))"
  proof (cases "reserveUpload U A userId row s")
    case (Inl e)
    then show ?thesis using assms(3) by (simp add: andNext_def transaction_def same)
  next
    case (Inr us)
    obtain u s' where us: "us = (u, s')" by (cases us)
    note made = Inr [unfolded us]
    have u: "u = row" by (rule reserveUpload_Inr(1) [OF made])
    have "leads G (ef_id ef 0) (\<lambda>u. up_status u = UP_PENDING) (obtainDirective A other P row) (\<lambda>_. True) (\<lambda>_. True)"
      using leads_obtainDirective [of other row A P] assms(1,2) by (simp add: new)
    then have "G s (snd (obtainDirective A other P row s')) \<and> own_ids (snd (obtainDirective A other P row s'))"
      by (rule leads_end) (rule tracks_reserved [OF assms(3-5) made [unfolded row_def]])
    then show ?thesis by (simp add: andNext_def transaction_def made u)
  qed
  then show ?thesis using assms(3) by (simp add: initiateUpload_def Some row_def same)
qed

text \<open>Every run stays within the guarantee.\<close>

lemma run_G: "upload_run U mode s s' \<Longrightarrow> own_ids s \<Longrightarrow> G s s' \<and> own_ids s'"
proof (induction rule: upload_run.induct)
  case (idle s' s)
  then show ?case by (simp add: own_ids_def same)
next
  case (sequence s t u)
  then show ?case by (blast intro: compose)
next
  case (initiate change ef A input s' userId provider s)
  then show ?case by (simp add: initiateUpload_G)
next
  case (complete other uploadId s' A ef userId metadata provider s)
  then show ?case by (simp add: completeUpload_G)
next
  case (scan other uploadId s' A ef provider s)
  then show ?case by (simp add: processUploadScan_G)
next
  case (download other s' A ef userId uploadId provider s)
  then show ?case by (simp add: createUploadDownload_G)
next
  case (delete change s' A ef userId uploadId metadata provider s)
  then show ?case by (simp add: deleteUpload_G)
next
  case (expire change s' P upload s)
  then show ?case by (simp add: expireUpload_G)
qed

end

section \<open>The life of an upload\<close>

text \<open>The specification: a machine on the states alone.\<close>

definition status_step :: "UploadStatus \<Rightarrow> UploadStatus \<Rightarrow> bool" where
  "status_step a b \<longleftrightarrow> b = UP_DELETED \<or> (a, b) \<in>
     {(UP_PENDING, UP_QUARANTINED), (UP_PENDING, UP_FAILED), (UP_PENDING, UP_REJECTED),
      (UP_QUARANTINED, UP_FAILED), (UP_QUARANTINED, UP_REJECTED), (UP_QUARANTINED, UP_SCANNING), (UP_QUARANTINED, UP_READY),
      (UP_SCANNING, UP_QUARANTINED), (UP_SCANNING, UP_READY), (UP_SCANNING, UP_REJECTED)}"

definition same_upload :: "Upload \<Rightarrow> Upload \<Rightarrow> bool" where
  "same_upload u v \<longleftrightarrow> up_id v = up_id u \<and> up_userId v = up_userId u \<and> up_organizationId v = up_organizationId u \<and>
     up_contentType v = up_contentType u \<and> up_expectedSize v = up_expectedSize u \<and> up_objectKey v = up_objectKey u"

definition follows :: "Upload \<Rightarrow> Upload \<Rightarrow> bool" where
  "follows u v \<longleftrightarrow> same_upload u v \<and> status_step\<^sup>*\<^sup>* (up_status u) (up_status v)"

definition implements_machine :: "content \<Rightarrow> content \<Rightarrow> bool" where
  "implements_machine s s' \<longleftrightarrow> (\<exists>new kept. uploads s' = new @ kept \<and> list_all2 follows (uploads s) kept \<and>
     (\<forall>v\<in>set new. status_step\<^sup>*\<^sup>* UP_PENDING (up_status v)))"

lemma follows_refl: "follows u u"
  by (simp add: follows_def same_upload_def)

lemma follows_trans: "follows u v \<Longrightarrow> follows v w \<Longrightarrow> follows u w"
  by (auto simp: follows_def same_upload_def)

lemma lifecycle_follows: "lifecycle u v \<Longrightarrow> follows u v"
proof -
  assume "lifecycle u v"
  then have "status_step (up_status u) (up_status v) \<or> up_status v = up_status u"
    by (induction rule: lifecycle.induct) (auto simp: row_changes completable_def status_step_def)
  with lifecycle_keeps [OF \<open>lifecycle u v\<close>] show ?thesis by (auto simp: follows_def same_upload_def)
qed

lemma update_many_follows:
  "(\<And>u. u \<in> set us \<Longrightarrow> P u \<Longrightarrow> lifecycle u (f u)) \<Longrightarrow> list_all2 follows us (update_many P f us)"
  by (auto simp: update_many_def list.rel_map intro!: list.rel_refl_strong follows_refl lifecycle_follows)

lemma implements_machine_trans:
  assumes "implements_machine s t" "implements_machine t u"
  shows "implements_machine s u"
proof -
  obtain new kept where 1: "uploads t = new @ kept" "list_all2 follows (uploads s) kept" "\<forall>v\<in>set new. status_step\<^sup>*\<^sup>* UP_PENDING (up_status v)"
    using assms(1) by (auto simp: implements_machine_def)
  obtain new' kept' where 2: "uploads u = new' @ kept'" "list_all2 follows (new @ kept) kept'" "\<forall>v\<in>set new'. status_step\<^sup>*\<^sup>* UP_PENDING (up_status v)"
    using assms(2) 1(1) by (auto simp: implements_machine_def)
  obtain a b where ab: "kept' = a @ b" "list_all2 follows new a" "list_all2 follows kept b"
    using 2(2) by (auto simp: list_all2_append1)
  have "list_all2 follows (uploads s) b" by (rule list_all2_trans [OF follows_trans 1(2) ab(3)])
  moreover have "status_step\<^sup>*\<^sup>* UP_PENDING (up_status v)" if "v \<in> set a" for v
  proof -
    from that obtain n where "n < length a" "v = a ! n" by (auto simp: in_set_conv_nth)
    with ab(2) have "new ! n \<in> set new" "follows (new ! n) v" by (auto simp: list_all2_conv_all_nth)
    with 1(3) show ?thesis by (auto simp: follows_def)
  qed
  ultimately show ?thesis unfolding implements_machine_def 2(1) ab(1) using 2(3) by (intro exI [of _ "new' @ a"] exI [of _ b]) auto
qed

interpretation machine: upload_guarantee U mode implements_machine for U mode
proof
  show "implements_machine s s'" if "uploads s' = uploads s" for s s'
    unfolding implements_machine_def that by (rule exI [of _ "[]"]) (simp add: list.rel_refl follows_refl)
  show "implements_machine s u" if "implements_machine s t" "implements_machine t u" for s t u
    using that by (rule implements_machine_trans)
  show "implements_machine s s'" if "uploads s' = update_many P f (uploads s)"
    "\<And>u. u \<in> set (uploads s) \<Longrightarrow> P u \<Longrightarrow> lifecycle u (f u)" for s s' P f
    unfolding implements_machine_def that(1)
    by (rule exI [of _ "[]"]) (simp add: update_many_follows that(2))
  show "implements_machine s s'"
    if "reserveUpload U A userId (newUpload A ef userId provider input key expiresAt) s = Inr (row, s')"
    for s s' A userId ef provider input key expiresAt row
    unfolding implements_machine_def reserveUpload_Inr(2) [OF that]
    by (intro exI [of _ "[newUpload A ef userId provider input key expiresAt]"] exI [of _ "uploads s"])
      (simp add: newUpload_def list.rel_refl follows_refl)
qed

section \<open>Only checked files are served\<close>

definition upload_ok :: "Upload \<Rightarrow> bool" where
  "upload_ok u \<longleftrightarrow>
     (up_status u \<in> {UP_QUARANTINED, UP_SCANNING, UP_READY} \<longrightarrow>
        up_detectedContentType u = Some (up_contentType u) \<and> up_actualSize u = Some (up_expectedSize u)) \<and>
     (up_status u = UP_READY \<longrightarrow> up_scanVerdict u = Some ''CLEAN'' \<and> up_readyAt u \<noteq> None)"

lemma lifecycle_ok: "lifecycle u v \<Longrightarrow> upload_ok u \<Longrightarrow> upload_ok v"
  by (induction rule: lifecycle.induct) (auto simp: upload_ok_def row_changes completable_def split: if_splits)

definition uploads_ok :: "content \<Rightarrow> bool" where
  "uploads_ok s \<longleftrightarrow> (\<forall>u\<in>set (uploads s). upload_ok u)"

interpretation checked: upload_guarantee U mode "\<lambda>s s'. uploads_ok s \<longrightarrow> uploads_ok s'" for U mode
proof
  show "uploads_ok s \<longrightarrow> uploads_ok s'" if "uploads s' = update_many P f (uploads s)"
    "\<And>u. u \<in> set (uploads s) \<Longrightarrow> P u \<Longrightarrow> lifecycle u (f u)" for s s' P f
    using that lifecycle_ok by (auto simp: uploads_ok_def set_update_many)
  show "uploads_ok s \<longrightarrow> uploads_ok s'"
    if "reserveUpload U A userId (newUpload A ef userId provider input key expiresAt) s = Inr (row, s')"
    for s s' A userId ef provider input key expiresAt row
    using reserveUpload_Inr(2) [OF that] by (auto simp: uploads_ok_def upload_ok_def newUpload_def)
  show "uploads_ok s \<longrightarrow> uploads_ok s'" if "uploads s' = uploads s" for s s'
    using that by (simp add: uploads_ok_def)
qed blast

section \<open>The storage quota\<close>

definition quota_ok :: "upload_env \<Rightarrow> tenancyMode \<Rightarrow> content \<Rightarrow> bool" where
  "quota_ok U mode s \<longleftrightarrow> (\<forall>u\<in>set (uploads s). 0 \<le> up_expectedSize u) \<and>
     (\<forall>org userId. (org = None \<longleftrightarrow> mode = tenancy_disabled) \<longrightarrow> reserved org userId (uploads s) \<le> ue_userStorageQuotaBytes U)"

lemma lifecycle_releases:
  "lifecycle u v \<Longrightarrow> holding (up_status v) \<Longrightarrow> up_deletedAt v = None \<Longrightarrow> holding (up_status u) \<and> up_deletedAt u = None"
  by (induction rule: lifecycle.induct) (auto simp: row_changes completable_def holding_def split: if_splits)

lemma reserved_shrinks:
  assumes "\<And>u. u \<in> set us \<Longrightarrow> P u \<Longrightarrow> lifecycle u (f u)" "\<And>u. u \<in> set us \<Longrightarrow> 0 \<le> up_expectedSize u"
  shows "reserved org userId (update_many P f us) \<le> reserved org userId us"
  using assms
proof (induction us)
  case Nil
  then show ?case by (simp add: update_many_def)
next
  case (Cons u us)
  then have "reserved org userId (update_many P f us) \<le> reserved org userId us" by simp
  moreover have "0 \<le> up_expectedSize u" using Cons.prems by simp
  moreover have "lifecycle u (f u)" if "P u" using Cons.prems that by simp
  ultimately show ?case
    using lifecycle_keeps [of u "f u"] lifecycle_releases [of u "f u"]
    by (cases "P u") (auto simp: reserved_def update_many_def)
qed

interpretation quota: upload_guarantee U mode "\<lambda>s s'. quota_ok U mode s \<longrightarrow> quota_ok U mode s'" for U mode
proof
  show "quota_ok U mode s \<longrightarrow> quota_ok U mode s'" if "uploads s' = update_many P f (uploads s)"
    "\<And>u. u \<in> set (uploads s) \<Longrightarrow> P u \<Longrightarrow> lifecycle u (f u)" for s s' P f
  proof
    assume ok: "quota_ok U mode s"
    then have less: "reserved org userId (uploads s') \<le> reserved org userId (uploads s)" for org userId
      unfolding that(1) by (intro reserved_shrinks that(2)) (auto simp: quota_ok_def)
    have "reserved org userId (uploads s') \<le> ue_userStorageQuotaBytes U" if "org = None \<longleftrightarrow> mode = tenancy_disabled" for org userId
      by (rule order_trans [OF less]) (use ok that in \<open>simp add: quota_ok_def\<close>)
    moreover have "0 \<le> up_expectedSize v" if "v \<in> set (uploads s')" for v
      using that ok \<open>uploads s' = _\<close> lifecycle_keeps [OF \<open>\<And>u. u \<in> set (uploads s) \<Longrightarrow> P u \<Longrightarrow> lifecycle u (f u)\<close>]
      by (auto simp: set_update_many quota_ok_def split: if_splits)
    ultimately show "quota_ok U mode s'" by (simp add: quota_ok_def)
  qed
  show "quota_ok U mode s \<longrightarrow> quota_ok U mode s'"
    if "ap_tenancyMode A = mode" "0 \<le> nu_size input"
      "reserveUpload U A userId (newUpload A ef userId provider input key expiresAt) s = Inr (row, s')"
    for s s' A userId ef provider input key expiresAt row
  proof
    assume ok: "quota_ok U mode s"
    note r = reserveUpload_Inr [OF that(3)]
    have "reserved org v (uploads s') \<le> ue_userStorageQuotaBytes U" if "org = None \<longleftrightarrow> mode = tenancy_disabled" for org v
    proof (cases "v = userId \<and> within org (scopedOrganization A)")
      case True
      then have "org = scopedOrganization A"
        using that \<open>ap_tenancyMode A = mode\<close> by (auto simp: within_def scopedOrganization_def split: option.split_asm)
      with True r(2,4) show ?thesis by (simp add: reserved_def newUpload_def holding_def)
    next
      case False
      with r(2) have "reserved org v (uploads s') = reserved org v (uploads s)" by (auto simp: reserved_def newUpload_def)
      then show ?thesis using ok that by (simp add: quota_ok_def)
    qed
    then show "quota_ok U mode s'" using ok r(2) that(2) by (auto simp: quota_ok_def newUpload_def)
  qed
  show "quota_ok U mode s \<longrightarrow> quota_ok U mode s'" if "uploads s' = uploads s" for s s'
    using that by (simp add: quota_ok_def)
qed blast

section \<open>The bandwidth quota\<close>

abbreviation usageKey :: "UploadBandwidthUsage \<Rightarrow> string \<times> time" where
  "usageKey b \<equiv> (bw_scopeKey b, bw_periodStart b)"

definition own_keys :: "content \<Rightarrow> bool" where
  "own_keys s \<longleftrightarrow> distinct (map usageKey (bandwidthUsage s))"

definition spentIn :: "string \<times> time \<Rightarrow> UploadBandwidthUsage list \<Rightarrow> int" where
  "spentIn key bs = sum_list (map bw_bytes (filter (\<lambda>b. usageKey b = key) bs))"

abbreviation spent :: "string \<times> time \<Rightarrow> content \<Rightarrow> int" where
  "spent key s \<equiv> spentIn key (bandwidthUsage s)"

text \<open>What a request may do to the counters: they only grow, and never past the quota.\<close>

definition metered :: "upload_env \<Rightarrow> content \<Rightarrow> content \<Rightarrow> bool" where
  "metered U s t \<longleftrightarrow> (own_keys s \<longrightarrow> own_keys t \<and> (\<forall>key. spent key s \<le> spent key t \<and>
     (spent key s \<le> ue_userMonthlyBandwidthQuotaBytes U \<longrightarrow> spent key t \<le> ue_userMonthlyBandwidthQuotaBytes U)))"

lemma meteredD:
  assumes "metered U s t" "own_keys s"
  shows "own_keys t" "spent key s \<le> spent key t"
    "spent key s \<le> ue_userMonthlyBandwidthQuotaBytes U \<Longrightarrow> spent key t \<le> ue_userMonthlyBandwidthQuotaBytes U"
  using assms unfolding metered_def by (cases key; auto)+

lemma metered_trans: "metered U s t \<Longrightarrow> metered U t u \<Longrightarrow> metered U s u"
  unfolding metered_def by (meson order_trans)

lemma metered_same: "bandwidthUsage t = bandwidthUsage s \<Longrightarrow> metered U s t"
  by (simp add: metered_def own_keys_def)

lemma spentIn_single: "distinct (map usageKey bs) \<Longrightarrow> b \<in> set bs \<Longrightarrow> spentIn (usageKey b) bs = bw_bytes b"
proof (induction bs)
  case (Cons x bs)
  have none: "filter (\<lambda>y. usageKey y = usageKey z) bs = []" if "usageKey z \<notin> usageKey ` set bs" for z
    using that by (auto simp: filter_empty_conv image_iff)
  show ?case
  proof (cases "b = x")
    case True
    with Cons.prems none [of x] show ?thesis by (simp add: spentIn_def)
  next
    case False
    then have "b \<in> set bs" "usageKey x \<noteq> usageKey b" using Cons.prems by (auto simp: image_iff)
    with Cons show ?thesis by (auto simp: spentIn_def)
  qed
qed simp

lemma spentIn_increment:
  assumes "\<And>b. P b \<Longrightarrow> usageKey b = key"
  shows "spentIn key' (update_many P (\<lambda>b. b\<lparr>bw_bytes := bw_bytes b + n\<rparr>) bs) =
         spentIn key' bs + (if key' = key then n * int (matching P bs) else 0)"
proof (induction bs)
  case Nil
  then show ?case by (simp add: spentIn_def update_many_def matching_def)
next
  case (Cons b bs)
  with assms [of b] show ?case
    by (cases "P b"; cases "key' = key") (auto simp: spentIn_def update_many_def matching_def algebra_simps)
qed

lemma createUsage_spec:
  assumes "createUsage A row s = Inr (r, s')" "own_keys s" "0 \<le> bw_bytes row" "bw_bytes row \<le> ue_userMonthlyBandwidthQuotaBytes U"
  shows "metered U s s' \<and> spent (usageKey row) s + bw_bytes row \<le> spent (usageKey row) s'"
proof -
  have s': "bandwidthUsage s' = row # bandwidthUsage s" and fresh: "\<forall>b\<in>set (bandwidthUsage s). usageKey b \<noteq> usageKey row"
    using assms(1) by (auto simp: createUsage_def tx_simps clashes_def bandwidthClash_def list_ex_iff)
  then have "spent (usageKey row) s = 0" by (simp add: spentIn_def filter_empty_conv)
  moreover have "spent key s' = spent key s + (if key = usageKey row then bw_bytes row else 0)" for key
    unfolding s' by (auto simp: spentIn_def)
  moreover have "own_keys s'" using assms(2) fresh unfolding own_keys_def s' by (simp add: image_iff) metis
  ultimately show ?thesis using assms(3,4) by (simp add: metered_def)
qed

lemma incrementUsage_spec:
  assumes "incrementUsage U A row s = Inr (n, s')" "own_keys s" "0 \<le> bw_bytes row"
  shows "metered U s s' \<and> (n = 1 \<longrightarrow> spent (usageKey row) s + bw_bytes row \<le> spent (usageKey row) s')"
proof -
  let ?P = "affordable U A row" and ?k = "usageKey row"
  have P: "usageKey b = ?k" if "?P b" for b using that by (simp add: affordable_def)
  have s': "n = matching ?P (bandwidthUsage s)"
    "bandwidthUsage s' = update_many ?P (\<lambda>b. b\<lparr>bw_bytes := bw_bytes b + bw_bytes row\<rparr>) (bandwidthUsage s)"
    using assms(1) by (auto simp: incrementUsage_def tx_simps)
  have grow: "spent key s' = spent key s + (if key = ?k then bw_bytes row * int n else 0)" for key
    unfolding s' by (rule spentIn_increment [OF P])
  have "?P = (\<lambda>b. usageKey b = ?k \<and> ?P b)" using P by (auto simp: fun_eq_iff)
  then have "n \<le> 1" using matching_key_le1 [OF assms(2) [unfolded own_keys_def], of ?k ?P] unfolding s'(1) by metis
  then consider "n = 0" | "n = 1" by linarith
  then have "spent ?k s' \<le> ue_userMonthlyBandwidthQuotaBytes U" if "spent ?k s \<le> ue_userMonthlyBandwidthQuotaBytes U"
  proof cases
    case 2
    then obtain b where b: "b \<in> set (bandwidthUsage s)" "?P b" using s'(1) matching_1_ex by metis
    have "spent ?k s = bw_bytes b"
      using spentIn_single [OF assms(2) [unfolded own_keys_def] b(1)] P [OF b(2)] by simp
    then show ?thesis using b(2) 2 by (simp add: grow affordable_def)
  qed (use that grow in simp)
  moreover have "own_keys s'" using assms(2) unfolding own_keys_def s'(2) by (subst map_update_many) auto
  ultimately show ?thesis using grow assms(3) by (auto simp: metered_def)
qed

lemma chargeQuota_spec:
  assumes "own_keys s" "0 \<le> bw_bytes row" "bw_bytes row \<le> ue_userMonthlyBandwidthQuotaBytes U" "\<And>x. metered U x (other x)"
  shows "metered U s (snd (chargeQuota U A other row s)) \<and>
    (\<forall>a. fst (chargeQuota U A other row s) = Inr a \<longrightarrow>
       spent (usageKey row) s + bw_bytes row \<le> spent (usageKey row) (snd (chargeQuota U A other row s)))"
proof (cases "createUsage A row s")
  case (Inr r)
  then show ?thesis using createUsage_spec [OF _ assms(1-3)]
    by (cases r) (auto simp: chargeQuota_def catching_def andNext_def transaction_def answer_def)
next
  case (Inl e)
  show ?thesis
  proof (cases "e = PrismaKnown ''P2002''")
    case False
    with Inl show ?thesis
      by (simp add: chargeQuota_def catching_def andNext_def transaction_def failing_def metered_same)
  next
    case True
    have run: "chargeQuota U A other row s = andNext (transaction (incrementUsage U A row))
        (\<lambda>n. if n \<noteq> 1 then failing quotaExceeded else answer ()) (other s)"
      using Inl True by (simp add: chargeQuota_def catching_def andNext_def [of "transaction (createUsage A row)"] andNext_def [of "andNext m f" for m f] transaction_def [of "createUsage A row"])
    have o: "metered U s (other s)" "own_keys (other s)" "spent (usageKey row) s \<le> spent (usageKey row) (other s)"
      using assms(1) assms(4) [of s] by (auto simp: metered_def)
    show ?thesis
    proof (cases "incrementUsage U A row (other s)")
      case (Inl e)
      then show ?thesis using o by (simp add: run andNext_def transaction_def)
    next
      case (Inr x)
      obtain n t where x: "x = (n, t)" by (cases x)
      note inc = incrementUsage_spec [OF Inr [unfolded x] o(2) assms(2)]
      then have "metered U s t" using metered_trans [OF o(1)] by simp
      with Inr x inc o(3) show ?thesis by (auto simp: run andNext_def transaction_def failing_def answer_def)
    qed
  qed
qed

definition sized :: "content \<Rightarrow> bool" where
  "sized s \<longleftrightarrow> (\<forall>u\<in>set (uploads s). 0 \<le> orElse (up_actualSize u) (up_expectedSize u))"

definition readyUpload :: "app \<Rightarrow> ident \<Rightarrow> content \<Rightarrow> Upload option" where
  "readyUpload A uploadId s = find_first (visible A (\<lambda>u. up_id u = uploadId \<and> up_status u = UP_READY)) (uploads s)"

definition mayDownload :: "app \<Rightarrow> ident \<Rightarrow> Upload \<Rightarrow> content \<Rightarrow> bool" where
  "mayDownload A userId v s \<longleftrightarrow> up_userId v = userId \<or> sharedThroughChat A userId (up_id v) s"

text \<open>A download is refused with the counters unchanged, or it charges the upload's size.\<close>

lemma deliver_spec:
  fixes s :: content
  assumes "own_keys s" "0 \<le> bw_bytes row" "bw_bytes row \<le> ue_userMonthlyBandwidthQuotaBytes U" "\<And>n x. metered U x (other n x)"
  shows "metered U s (snd (deliver U A other P upload row s)) \<and>
    (\<forall>a. fst (deliver U A other P upload row s) = Inr a \<longrightarrow>
       spent (usageKey row) s + bw_bytes row \<le> spent (usageKey row) (snd (deliver U A other P upload row s)))"
proof -
  have o: "metered U s (other 0 s)" "own_keys (other 0 s)" "spent (usageKey row) s \<le> spent (usageKey row) (other 0 s)"
    using assms(1) assms(4) [of s 0] by (auto simp: metered_def)
  define c where "c = chargeQuota U A (other 1) row (other 0 s)"
  have c: "metered U (other 0 s) (snd c)" "fst c = Inr a \<Longrightarrow> spent (usageKey row) (other 0 s) + bw_bytes row \<le> spent (usageKey row) (snd c)" for a
    using chargeQuota_spec [OF o(2) assms(2,3), of "other 1" A] assms(4) by (auto simp: c_def)
  have tail: "metered U s (snd (andNext (chargeQuota U A (other 1) row) (\<lambda>_. answer d) (other 0 s))) \<and>
    (\<forall>a. fst (andNext (chargeQuota U A (other 1) row) (\<lambda>_. answer d) (other 0 s)) = Inr a \<longrightarrow>
       spent (usageKey row) s + bw_bytes row \<le> spent (usageKey row) (snd (andNext (chargeQuota U A (other 1) row) (\<lambda>_. answer d) (other 0 s))))"
    for d :: UploadDownload
    unfolding andNext_def c_def [symmetric]
    using metered_trans [OF o(1) c(1)] c(2) o(3) by (cases c; cases "fst c") (fastforce simp: answer_def)+
  show ?thesis
    unfolding deliver_def
    using tail
    by (auto simp: andNext_def [of "calling r" for r] calling_def failing_def metered_same split: option.split sum.split)
qed

lemma createUploadDownload_cases:
  "(\<exists>e. createUploadDownload U A ef other userId uploadId provider s = (Inl e, s)) \<or>
   (\<exists>P v. provider = Some P \<and> readyUpload A uploadId s = Some v \<and> mayDownload A userId v s \<and>
      orElse (up_actualSize v) (up_expectedSize v) \<le> ue_userMonthlyBandwidthQuotaBytes U \<and>
      createUploadDownload U A ef other userId uploadId provider s =
      deliver U A other P v (downloadCharge A ef userId v) s)"
proof (cases provider)
  case None
  then show ?thesis by (simp add: createUploadDownload_def failing_def)
next
  case (Some P)
  have find: "transaction (findUpload A (\<lambda>u. up_id u = uploadId \<and> up_status u = UP_READY)) s =
     (case scopeError A ''Upload.findFirst'' of None \<Rightarrow> (Inr (readyUpload A uploadId s), s) | Some e \<Rightarrow> (Inl e, s))"
    by (simp add: transaction_def findUpload_def scoped_def andThen_def throw_def ret_def findFirst_def readyUpload_def split: option.split)
  have allow: "transaction (andThen (if up_userId v = userId then ret True else reading (sharedThroughChat A userId (up_id v)))
       (\<lambda>allowed. require allowed e)) s = (if mayDownload A userId v s then (Inr (), s) else (Inl e, s))" for v e
    by (simp add: transaction_def andThen_def ret_def reading_def require_def mayDownload_def)
  show ?thesis
    unfolding createUploadDownload_def Some option.case andNext_def [of "transaction m" for m] find
    by (auto simp: allow failing_def split: option.split)
qed

lemma createUploadDownload_metered:
  assumes "own_keys s" "sized s" "\<And>n x. metered U x (other n x)"
  shows "metered U s (snd (createUploadDownload U A ef other userId uploadId provider s))"
  using createUploadDownload_cases [of U A ef other userId uploadId provider s]
proof (elim disjE exE conjE)
  fix P v assume v: "readyUpload A uploadId s = Some v" and le: "orElse (up_actualSize v) (up_expectedSize v) \<le> ue_userMonthlyBandwidthQuotaBytes U"
    and run: "createUploadDownload U A ef other userId uploadId provider s = deliver U A other P v (downloadCharge A ef userId v) s"
  have "v \<in> set (uploads s)" using v by (auto simp: readyUpload_def dest!: find_first_SomeD)
  then show ?thesis
    using deliver_spec [OF assms(1), of "downloadCharge A ef userId v" U other A P v] assms(2,3) le
    by (simp add: run sized_def downloadCharge_def)
qed (simp add: metered_same)

definition servedBytes :: "app \<Rightarrow> ident \<Rightarrow> content \<Rightarrow> int" where
  "servedBytes A uploadId s =
     (case readyUpload A uploadId s of None \<Rightarrow> 0 | Some v \<Rightarrow> orElse (up_actualSize v) (up_expectedSize v))"

text \<open>
  \<open>served U key s n t\<close>: from \<open>s\<close> to \<open>t\<close>, downloads charged to \<open>key\<close>, a quota scope and a month, have been
  granted for \<open>n\<close> bytes, interleaved with other metered requests.
\<close>

inductive served :: "upload_env \<Rightarrow> string \<times> time \<Rightarrow> content \<Rightarrow> int \<Rightarrow> content \<Rightarrow> bool" for U key where
  start: "served U key s 0 s"
| others: "served U key s n t \<Longrightarrow> metered U t u \<Longrightarrow> served U key s n u"
| granted: "served U key s n t \<Longrightarrow> sized t \<Longrightarrow> (\<And>i x. metered U x (other i x)) \<Longrightarrow>
     key = (uploadQuotaScopeKey A userId, monthStart (ef_now ef 0)) \<Longrightarrow>
     createUploadDownload U A ef other userId uploadId provider t = (Inr d, u) \<Longrightarrow>
     served U key s (n + servedBytes A uploadId t) u"

lemma served_within:
  assumes "served U key s n t" "own_keys s" "spent key s \<le> ue_userMonthlyBandwidthQuotaBytes U"
  shows "own_keys t \<and> spent key t \<le> ue_userMonthlyBandwidthQuotaBytes U \<and> spent key s + n \<le> spent key t"
  using assms
proof (induction rule: served.induct)
  case (start s)
  then show ?case by simp
next
  case (others s n t u)
  then have t: "own_keys t" "spent key t \<le> ue_userMonthlyBandwidthQuotaBytes U" "spent key s + n \<le> spent key t" by simp_all
  note u = meteredD [OF others.hyps(2) t(1)]
  show ?case using u(1) u(2) [of key] u(3) [of key] t by simp
next
  case (granted s n t other A userId ef uploadId provider d u)
  then have t: "own_keys t" "spent key t \<le> ue_userMonthlyBandwidthQuotaBytes U" "spent key s + n \<le> spent key t" by simp_all
  from createUploadDownload_cases [of U A ef other userId uploadId provider t] granted.hyps(5)
  obtain P v where v: "readyUpload A uploadId t = Some v" "orElse (up_actualSize v) (up_expectedSize v) \<le> ue_userMonthlyBandwidthQuotaBytes U"
    and run: "deliver U A other P v (downloadCharge A ef userId v) t = (Inr d, u)" by auto
  let ?row = "downloadCharge A ef userId v"
  have row: "usageKey ?row = key" "bw_bytes ?row = servedBytes A uploadId t"
    using v(1) granted.hyps(4) by (simp_all add: downloadCharge_def servedBytes_def)
  have "v \<in> set (uploads t)" using v(1) by (auto simp: readyUpload_def dest!: find_first_SomeD)
  then have "0 \<le> bw_bytes ?row" "bw_bytes ?row \<le> ue_userMonthlyBandwidthQuotaBytes U"
    using granted.hyps(2) v(2) by (simp_all add: sized_def downloadCharge_def)
  note spec = deliver_spec [where other = other and A = A and P = P and upload = v, OF t(1) this granted.hyps(3)]
  have "metered U t u" "spent key t + servedBytes A uploadId t \<le> spent key u" using spec run row by simp_all
  moreover have "own_keys u" "spent key u \<le> ue_userMonthlyBandwidthQuotaBytes U"
    by (rule meteredD [OF \<open>metered U t u\<close> t(1)] meteredD(3) [OF \<open>metered U t u\<close> t(1) t(2)])+
  ultimately show ?case using t(3) by simp
qed

section \<open>Concrete instances\<close>

definition demo_png :: string where
  "demo_png = chars [137, 80, 78, 71, 13, 10, 26, 10]"

definition demo_provider :: UploadProviderAdapter where
  "demo_provider =
     \<lparr>pv_kind = S3,
      pv_createUpload = (\<lambda>k c n v. Inr \<lparr>ud_method = PUT, ud_url = k, ud_headers = None, ud_fields = None, ud_expiresAt = 0\<rparr>),
      pv_inspectObject = (\<lambda>r. Inr \<lparr>so_size = 8, so_contentType = None, so_checksum = Some ''c'', so_url = None\<rparr>),
      pv_createDownloadUrl = (\<lambda>r. Inr (fst r)), pv_createDirectDownload = None,
      pv_openDownload = (\<lambda>r. Inr \<lparr>do_body = demo_png, do_contentLength = None, do_contentType = None\<rparr>),
      pv_readObjectPrefix = (\<lambda>r n. Inr (take n demo_png)), pv_deleteObject = (\<lambda>r. Inr ())\<rparr>"

definition demo_uenv :: upload_env where
  "demo_uenv =
     \<lparr>ue_allowedMimeTypes = [''image/png''], ue_maxBytes = 10, ue_urlTtlSeconds = 60, ue_userStorageQuotaBytes = 20,
      ue_userMonthlyBandwidthQuotaBytes = 20, ue_scanDisabled = True, ue_redirectDownloads = False,
      ue_downloadUrlTtlSeconds = 60, ue_postScan = (\<lambda>_. Inl (OtherError ''no scanner''))\<rparr>"

definition demo_single :: app where
  "demo_single = demo_app\<lparr>ap_tenancyMode := tenancy_disabled\<rparr>"

definition demo_pending :: Upload where
  "demo_pending =
     \<lparr>up_id = ''f'', up_organizationId = None, up_userId = ''ann'', up_provider = S3, up_status = UP_PENDING,
      up_visibility = UP_PRIVATE, up_objectKey = ''k'', up_originalName = ''a.png'', up_contentType = ''image/png'',
      up_expectedSize = 8, up_actualSize = None, up_checksum = None, up_detectedContentType = None, up_scanProvider = None,
      up_scanReference = None, up_scanVerdict = None, up_scannedAt = None, up_url = None, up_uploadExpiresAt = 0,
      up_readyAt = None, up_storageDeletedAt = None, up_createdAt = 0, up_deletedAt = None\<rparr>"

abbreviation demo_uploaded :: content where
  "demo_uploaded \<equiv> demo_content\<lparr>uploads := [demo_pending]\<rparr>"

lemma demo_single_simps [simp]:
  "scopeError demo_single loc = None" "scopedOrganization demo_single = None" "ap_tenancyMode demo_single = tenancy_disabled"
  "currentOrganization demo_single = None" "activeOrganization (ap_ctx demo_single) = None"
  by (simp_all add: demo_single_def scopeError_def scopedOrganization_def demo_app_def currentOrganization_def activeOrganization_def)

lemma demo_single_writes [simp]:
  "auditEventWriter demo_single eid now input s =
     Inr ((), s\<lparr>auditEvents := audit_row demo_single eid now input # auditEvents s\<rparr>)"
  by (rule auditEventWriter_total) (simp add: demo_single_def demo_app_def demo_audit_def demo_crypto)

lemma demo_png_detected: "detectContentType (take SIGNATURE_PREFIX_BYTES demo_png) = Some ''image/png''"
  by code_simp

lemmas demo_upload_run = completeUpload_def admit_def quarantineTx_def finalizeUploadScan_def auditedContent_def updateUploads_def
  updateUpload_def findUpload_def findUploadOrThrow_def scoped_def inAccounts_def visible_def within_def calling_def
  mismatched_def completable_def row_changes deletingObject_def

lemma demo_completed:
  "\<exists>v s'. completeUpload demo_uenv demo_single demo_effects (\<lambda>_ x. x) ''ann'' ''f'' demo_meta (Some demo_provider) demo_uploaded = (Inr v, s') \<and>
     uploads s' = [v] \<and> up_status v = UP_READY"
  by (simp add: demo_upload_run tx_run demo_pending_def demo_provider_def demo_png_detected demo_uenv_def demo_content_def
      requiresDocumentCdr_def meanwhile_def Let_def)

lemma demo_completed_run:
  "upload_run demo_uenv tenancy_disabled demo_uploaded
     (snd (completeUpload demo_uenv demo_single demo_effects (\<lambda>_ x. x) ''ann'' ''f'' demo_meta (Some demo_provider) demo_uploaded))"
  by (rule complete [where other = "\<lambda>_ x. x" and uploadId = "''f''" and A = demo_single, OF _ _ refl]) (simp_all add: idle untouched_def)

section \<open>Properties\<close>








abbreviation demo_ready :: content where
  "demo_ready \<equiv> demo_content\<lparr>uploads := [demo_pending\<lparr>up_status := UP_READY\<rparr>]\<rparr>"

lemma demo_downloaded:
  "\<exists>d s'. createUploadDownload demo_uenv demo_single demo_effects (\<lambda>_ x. x) ''ann'' ''f'' (Some demo_provider) demo_ready = (Inr d, s')"
  by (simp add: createUploadDownload_def findUpload_def scoped_def visible_def within_def tx_run demo_pending_def demo_provider_def
      demo_uenv_def deliver_def calling_def chargeQuota_def createUsage_def catching_def meanwhile_def demo_content_def)


text \<open>
  C10: A download is granted only for a ready, live upload in sight of the request, to its owner or to a user who
  is an active participant of a live conversation in which a message that is not deleted carries the upload.
\<close>

theorem download_authorized:
  assumes "createUploadDownload U A ef other userId uploadId provider s = (Inr d, s')"
  shows "\<exists>v\<in>set (uploads s). up_id v = uploadId \<and> up_status v = UP_READY \<and> up_deletedAt v = None \<and>
     within (scopedOrganization A) (up_organizationId v) \<and>
     (up_userId v = userId \<or>
      (\<exists>m\<in>set (messages s). \<exists>c\<in>set (conversations s). \<exists>p\<in>set (participants s).
         msg_uploadId m = Some uploadId \<and> msg_deletedAt m = None \<and> co_id c = msg_conversationId m \<and> co_deletedAt c = None \<and>
         cp_conversationId p = co_id c \<and> cp_userId p = userId \<and> cp_leftAt p = None \<and> cp_deletedAt p = None))"
proof -
  obtain v where v: "readyUpload A uploadId s = Some v" "mayDownload A userId v s"
    using createUploadDownload_cases [of U A ef other userId uploadId provider s] assms by auto
  then have "v \<in> set (uploads s)" "visible A (\<lambda>u. up_id u = uploadId \<and> up_status u = UP_READY) v"
    by (auto simp: readyUpload_def dest!: find_first_SomeD)
  with v(2) show ?thesis
    by (intro bexI [of _ v]) (auto simp: visible_def mayDownload_def sharedThroughChat_def list_ex_iff)
qed

theorem download_authorized_witness:
  "\<exists>v\<in>set (uploads demo_ready). up_id v = ''f'' \<and> up_userId v = ''ann''"
proof -
  obtain d s' where "createUploadDownload demo_uenv demo_single demo_effects (\<lambda>_ x. x) ''ann'' ''f'' (Some demo_provider) demo_ready = (Inr d, s')"
    using demo_downloaded by blast
  from download_authorized [OF this] show ?thesis by (simp add: demo_content_def)
qed

section \<open>Deviations\<close>

text \<open>
  The update that quarantines an upload does not check that it changed a row. An upload that the cleanup job
  has expired in the meantime, its object removed, is then made ready: its content type was never recorded,
  and the file it names no longer exists.
\<close>

lemma expired_upload_becomes_ready:
  "\<exists>v s'. completeUpload demo_uenv demo_single demo_effects
       (\<lambda>n x. if n = 0 then snd (expireUpload demo_provider (\<lambda>y. y) demo_pending x) else x)
       ''ann'' ''f'' demo_meta (Some demo_provider) demo_uploaded = (Inr v, s') \<and>
     up_status v = UP_READY \<and> up_detectedContentType v = None \<and> up_objectKey v \<in> set (removed s')"
  by (simp add: demo_upload_run expireUpload_def tx_run demo_pending_def demo_provider_def demo_png_detected demo_uenv_def
      demo_content_def requiresDocumentCdr_def meanwhile_def Let_def)

text \<open>
  The scan request of an upload is deduplicated by its checksum. When the scan has failed and the upload is
  back in quarantine, completing it again is accepted in principle but fails on the earlier request.
\<close>

lemma quarantined_upload_never_rescanned:
  "\<exists>s1 s2 s3 v e. completeUpload (demo_uenv\<lparr>ue_scanDisabled := False\<rparr>) demo_single demo_effects (\<lambda>_ x. x) ''ann'' ''f'' demo_meta
       (Some demo_provider) demo_uploaded = (Inr v, s1) \<and> up_status v = UP_SCANNING \<and>
     processUploadScan (demo_uenv\<lparr>ue_scanDisabled := False\<rparr>) demo_single demo_effects (\<lambda>_ x. x) ''f'' (Some demo_provider) s1 = (Inl e, s2) \<and>
     map up_status (uploads s2) = [UP_QUARANTINED] \<and>
     completeUpload (demo_uenv\<lparr>ue_scanDisabled := False\<rparr>) demo_single demo_effects (\<lambda>_ x. x) ''ann'' ''f'' demo_meta
       (Some demo_provider) s2 = (Inl (PrismaKnown ''P2002''), s3)"
  by (simp add: demo_upload_run processUploadScan_def scanObject_def scanUpload_def requestScan_def outboxInsert_def addOutboxEvent_def
      newOutboxEvent_def catching_def failing_def tx_run demo_pending_def demo_provider_def demo_png_detected demo_uenv_def demo_store_def
      demo_content_def requiresDocumentCdr_def meanwhile_def Let_def)

end
