(* ===== verification/Billing.thy ===== *)
theory Billing
  imports Content
begin

text \<open>
  Payments: the rows, the billing owner and customer of \<open>src/src/modules/stripe/stripe.shared.ts\<close>, and the
  webhook events of \<open>stripe.webhooks.service.ts\<close>. The client of the payment provider is an argument; the
  objects it returns and the events it sends are untyped values.
\<close>

section \<open>Rows\<close>

record StripeWebhookEvent =
  sw_id :: ident
  sw_stripeEventId :: string
  sw_stripeCreatedAt :: time
  sw_type :: string
  sw_apiVersion :: "string option"
  sw_livemode :: bool
  sw_payload :: jsval
  sw_status :: WebhookStatus
  sw_processedAt :: "time option"
  sw_lastError :: "string option"
  sw_createdAt :: time
  sw_deletedAt :: "time option"

record StripeSubscription =
  ss_id :: ident
  ss_organizationId :: "ident option"
  ss_userId :: ident
  ss_stripeSubscriptionId :: string
  ss_status :: string
  ss_priceId :: "string option"
  ss_currency :: "string option"
  ss_currentPeriodStart :: "time option"
  ss_currentPeriodEnd :: "time option"
  ss_cancelAtPeriodEnd :: bool
  ss_canceledAt :: "time option"
  ss_lastStripeEventId :: "string option"
  ss_lastStripeEventCreatedAt :: "time option"
  ss_createdAt :: time
  ss_deletedAt :: "time option"

record StripePayment =
  sp_id :: ident
  sp_organizationId :: "ident option"
  sp_userId :: ident
  sp_stripePaymentIntentId :: "string option"
  sp_checkoutSessionId :: "string option"
  sp_chargeId :: "string option"
  sp_status :: string
  sp_amount :: "int option"
  sp_amountRefunded :: int
  sp_currency :: "string option"
  sp_lastStripeEventId :: "string option"
  sp_lastStripeEventCreatedAt :: "time option"
  sp_createdAt :: time
  sp_deletedAt :: "time option"

record PaymentMethod =
  pm_id :: ident
  pm_organizationId :: "ident option"
  pm_userId :: ident
  pm_stripePaymentMethodId :: string
  pm_type :: string
  pm_brand :: "string option"
  pm_last4 :: "string option"
  pm_expMonth :: "int option"
  pm_expYear :: "int option"
  pm_fingerprint :: "string option"
  pm_isDefault :: bool
  pm_detachedAt :: "time option"
  pm_createdAt :: time
  pm_deletedAt :: "time option"

datatype ChargeableStatus = C_OPEN | C_RESERVED | C_CONSUMED | C_EXPIRED | C_CANCELED

record ChargeableItem =
  it_id :: ident
  it_organizationId :: "ident option"
  it_userId :: "ident option"
  it_reference :: string
  it_amount :: int
  it_currency :: string
  it_description :: string
  it_status :: ChargeableStatus
  it_reservationKeyHash :: "string option"
  it_reservedAt :: "time option"
  it_expiresAt :: "time option"
  it_consumedAt :: "time option"
  it_paymentIntentId :: "string option"
  it_createdAt :: time
  it_deletedAt :: "time option"

record StripeRefundOperation =
  ro_id :: ident
  ro_organizationId :: "ident option"
  ro_userId :: ident
  ro_ownerKey :: string
  ro_idempotencyKeyHash :: string
  ro_requestHash :: string
  ro_paymentIntentId :: "string option"
  ro_chargeId :: "string option"
  ro_requestedAmount :: "int option"
  ro_stripeRefundId :: "string option"
  ro_status :: string
  ro_amount :: "int option"
  ro_currency :: "string option"
  ro_lastError :: "string option"
  ro_completedAt :: "time option"
  ro_createdAt :: time

text \<open>The database, and the writing requests sent to the payment provider, each with its idempotency key.\<close>

record billing =
  books :: store
  webhookEvents :: "StripeWebhookEvent table"
  payments :: "StripePayment table"
  subscriptions :: "StripeSubscription table"
  paymentMethods :: "PaymentMethod table"
  chargeableItems :: "ChargeableItem table"
  refundOperations :: "StripeRefundOperation table"
  requests :: "(string \<times> jsval) list"
  cancellations :: "string list"  \<comment> \<open>subscriptions asked to be terminated\<close>

definition inBooks :: "(store, 'a) tx \<Rightarrow> (billing, 'a) tx" where
  "inBooks m s = (case m (books s) of Inl e \<Rightarrow> Inl e | Inr (a, b) \<Rightarrow> Inr (a, s\<lparr>books := b\<rparr>))"

lemma inBooks_Inr [tx_simps]:
  "inBooks m s = Inr r \<longleftrightarrow> (\<exists>a b. m (books s) = Inr (a, b) \<and> r = (a, s\<lparr>books := b\<rparr>))"
  by (auto simp: inBooks_def split: sum.split)

type_synonym BillingAudit = "ident \<Rightarrow> time \<Rightarrow> AuditInput \<Rightarrow> (billing, unit) tx"

definition auditedBilling :: "app \<Rightarrow> (BillingAudit \<Rightarrow> (billing, 'a) tx) \<Rightarrow> (billing, 'a) io" where
  "auditedBilling A operation = transaction (operation (\<lambda>eid now input. inBooks (auditEventWriter A eid now input)))"

text \<open>A unique index on a nullable column: the statement fails when it leaves two rows with one value.\<close>

definition uniqueBy :: "('r \<Rightarrow> 'k option) \<Rightarrow> 'r table \<Rightarrow> bool" where
  "uniqueBy key rows \<longleftrightarrow> distinct (List.map_filter key rows)"

definition enforcing :: "('s \<Rightarrow> bool) \<Rightarrow> ('s, 'a) tx \<Rightarrow> ('s, 'a) tx" where
  "enforcing ok m s =
     (case m s of Inl e \<Rightarrow> Inl e | Inr (a, s') \<Rightarrow> if ok s' then Inr (a, s') else Inl (PrismaKnown ''P2002''))"

lemma enforcing_Inr [tx_simps]: "enforcing ok m s = Inr r \<longleftrightarrow> m s = Inr r \<and> ok (snd r)"
  by (auto simp: enforcing_def split: sum.split prod.split if_splits)

section \<open>The payment provider\<close>

record StripeEvent =
  se_id :: string
  se_created :: int
  se_type :: string
  se_apiVersion :: "string option"
  se_livemode :: bool

text \<open>An error of the provider may carry the payment intent it is about.\<close>

record StripeFailure =
  sf_error :: thrown
  sf_code :: "string option"
  sf_intent :: "jsval option"

record StripeClient =
  sc_constructEvent :: "string \<Rightarrow> string \<Rightarrow> string \<Rightarrow> StripeEvent option"
  sc_retrieve :: "string \<Rightarrow> string \<Rightarrow> thrown + jsval"  \<comment> \<open>kind of object and its identifier\<close>
  sc_create :: "string \<Rightarrow> jsval \<Rightarrow> string \<Rightarrow> thrown + jsval"  \<comment> \<open>kind, body, idempotency key\<close>
  sc_update :: "string \<Rightarrow> string \<Rightarrow> jsval \<Rightarrow> string \<Rightarrow> thrown + jsval"  \<comment> \<open>kind, identifier, body, idempotency key\<close>
  sc_list :: "string \<Rightarrow> jsval \<Rightarrow> thrown + jsval list \<times> bool"  \<comment> \<open>a page, and whether more follow\<close>
  sc_cancel :: "string \<Rightarrow> jsval \<Rightarrow> thrown + jsval"
  sc_createIntent :: "jsval \<Rightarrow> string \<Rightarrow> StripeFailure + jsval"

record billing_env =
  be_webhookSecret :: "string option"
  be_parse :: "string \<Rightarrow> thrown + jsval"  \<comment> \<open>\<open>JSON.parse\<close>\<close>
  be_organizationPays :: bool
  be_dynamicPricing :: bool
  be_allowedCurrencies :: "string list"
  be_maxAmount :: "string \<Rightarrow> int option"
  be_minAmount :: "string \<Rightarrow> int option"
  be_refundSelfService :: bool
  be_refundWindowDays :: int
  be_refundMaxAmount :: "string \<Rightarrow> int option"
  be_parseUrl :: "string \<Rightarrow> (string \<times> string) option"  \<comment> \<open>\<open>new URL\<close>: its origin and text\<close>
  be_appOrigin :: string
  be_resolvePath :: "string \<Rightarrow> string"  \<comment> \<open>a path of the application as an absolute URL\<close>
  be_priceCatalog :: "string \<Rightarrow> string option"
  be_defaultPriceKey :: "string option"

definition requireStripe :: "StripeClient option \<Rightarrow> thrown + StripeClient" where
  "requireStripe client =
     (case client of None \<Rightarrow> Inl (App (serviceUnavailable (Some ''Stripe is not configured''))) | Some c \<Rightarrow> Inr c)"

text \<open>A writing request is recorded before its answer is known.\<close>

definition sending :: "StripeClient \<Rightarrow> string \<Rightarrow> jsval \<Rightarrow> string \<Rightarrow> (billing, jsval) io" where
  "sending c what body key s = (sc_create c what body key, s\<lparr>requests := (key, body) # requests s\<rparr>)"

definition updating :: "StripeClient \<Rightarrow> string \<Rightarrow> string \<Rightarrow> jsval \<Rightarrow> string \<Rightarrow> (billing, jsval) io" where
  "updating c what i body key s = (sc_update c what i body key, s\<lparr>requests := (key, body) # requests s\<rparr>)"

section \<open>Storing an event\<close>

definition webhookClash :: "StripeWebhookEvent \<Rightarrow> StripeWebhookEvent \<Rightarrow> bool" where
  "webhookClash a b \<longleftrightarrow> sw_id a = sw_id b \<or> sw_stripeEventId a = sw_stripeEventId b"

definition newWebhookEvent :: "effects \<Rightarrow> StripeEvent \<Rightarrow> jsval \<Rightarrow> StripeWebhookEvent" where
  "newWebhookEvent ef event payload =
     \<lparr>sw_id = ef_id ef 0, sw_stripeEventId = se_id event, sw_stripeCreatedAt = se_created event * 1000,
      sw_type = se_type event, sw_apiVersion = se_apiVersion event, sw_livemode = se_livemode event,
      sw_payload = payload, sw_status = W_RECEIVED, sw_processedAt = None, sw_lastError = None,
      sw_createdAt = ef_now ef 0, sw_deletedAt = None\<rparr>"

definition storeEvent :: "billing_env \<Rightarrow> effects \<Rightarrow> string \<Rightarrow> StripeEvent \<Rightarrow> (billing, unit) tx" where
  "storeEvent B ef rawBody event =
     andThen (attempt (be_parse B rawBody)) (\<lambda>payload.
     andThen (createRow webhookEvents webhookEvents_update webhookClash (newWebhookEvent ef event payload)) (\<lambda>stored.
     inBooks (outboxInsert (ef_id ef 1) (ef_now ef 1)
       \<lparr>oi_aggregateType = ''stripe_webhook_event'', oi_aggregateId = sw_id stored, oi_eventType = ''stripe.event_received'',
        oi_channel = INTERNAL,
        oi_payload = JObj [(''stripeWebhookEventId'', JStr (sw_id stored)), (''type'', JStr (se_type event))],
        oi_dedupeKey = ''stripe:'' @ se_id event, oi_availableAt = None, oi_expiresAt = None\<rparr>)))"

definition verifyAndStoreStripeEvent ::
    "billing_env \<Rightarrow> effects \<Rightarrow> string \<Rightarrow> string \<Rightarrow> StripeClient option \<Rightarrow> (billing, bool) io" where
  "verifyAndStoreStripeEvent B ef rawBody signature client =
     (case client of
        None \<Rightarrow> failing (OtherError ''Stripe webhook configuration is unavailable'')
      | Some c \<Rightarrow>
        if \<not> truthy (be_webhookSecret B) then failing (OtherError ''Stripe webhook configuration is unavailable'')
        else case sc_constructEvent c rawBody signature (the (be_webhookSecret B)) of
          None \<Rightarrow> failing (App (badRequest (Some ''Invalid Stripe webhook signature'') None))
        | Some event \<Rightarrow>
          catching (andNext (transaction (storeEvent B ef rawBody event)) (\<lambda>_. answer False))
            (\<lambda>e. if e = PrismaKnown ''P2002'' then answer True else failing e))"

section \<open>Reading untyped objects\<close>

definition isObject :: "jsval \<Rightarrow> bool" where
  "isObject v = (case v of JObj _ \<Rightarrow> True | JArr _ \<Rightarrow> True | _ \<Rightarrow> False)"

definition asObject :: "jsval \<Rightarrow> jsval" where
  "asObject v = (if isObject v then v else JObj [])"

definition objectFromEvent :: "jsval \<Rightarrow> jsval option" where
  "objectFromEvent payload =
     (if \<not> isObject payload then None
      else if \<not> isObject (jprop ''data'' payload) then None
      else let object = jprop ''object'' (jprop ''data'' payload) in if isObject object then Some object else None)"

definition textValue :: "jsval \<Rightarrow> string option" where
  "textValue v = (case v of JStr t \<Rightarrow> if t = [] then None else Some t | _ \<Rightarrow> None)"

definition numberValue :: "jsval \<Rightarrow> int option" where
  "numberValue v = (case v of JNum n \<Rightarrow> Some n | _ \<Rightarrow> None)"

definition dateFromUnix :: "jsval \<Rightarrow> time option" where
  "dateFromUnix v = map_option (\<lambda>n. n * 1000) (numberValue v)"

definition nestedString :: "jsval \<Rightarrow> string \<Rightarrow> string option" where
  "nestedString v key = (if isObject v then textValue (jprop key v) else None)"

definition orNull :: "'a option \<Rightarrow> 'a option \<Rightarrow> 'a option" where
  "orNull a b = (case a of None \<Rightarrow> b | Some x \<Rightarrow> Some x)"

definition referenceId :: "jsval \<Rightarrow> string option" where
  "referenceId v = orNull (textValue v) (nestedString v ''id'')"

definition startsWith :: "string \<Rightarrow> string \<Rightarrow> bool" where
  "startsWith prefix t \<longleftrightarrow> take (length prefix) t = prefix"

section \<open>Projections of an event\<close>

record StripeAttribution =
  at_userId :: ident
  at_organizationId :: "ident option"

record StripeProjectionCursor =
  cu_eventId :: string
  cu_createdAt :: time
  cu_authoritative :: bool

text \<open>The earliest active member stands for an organization.\<close>

definition organizationActor :: "store \<Rightarrow> ident \<Rightarrow> ident option" where
  "organizationActor db organizationId =
     (case sort_key mem_createdAt (filter (\<lambda>m. mem_organizationId m = organizationId \<and> mem_status m = M_ACTIVE \<and>
             mem_deletedAt m = None) (rev (memberships db))) of
        [] \<Rightarrow> None | m # _ \<Rightarrow> Some (mem_userId m))"

definition customerAttribution :: "string \<Rightarrow> store \<Rightarrow> StripeAttribution option" where
  "customerAttribution customerId db =
     (case find_first (\<lambda>g. org_stripeCustomerId g = Some customerId \<and> org_deletedAt g = None) (organizations db) of
        Some g \<Rightarrow>
          (case organizationActor db (org_id g) of
             Some actor \<Rightarrow> Some \<lparr>at_userId = actor, at_organizationId = Some (org_id g)\<rparr>
           | None \<Rightarrow> map_option (\<lambda>u. \<lparr>at_userId = u_id u, at_organizationId = None\<rparr>)
               (find_first (\<lambda>u. u_stripeCustomerId u = Some customerId \<and> u_deletedAt u = None) (users db)))
      | None \<Rightarrow> map_option (\<lambda>u. \<lparr>at_userId = u_id u, at_organizationId = None\<rparr>)
          (find_first (\<lambda>u. u_stripeCustomerId u = Some customerId \<and> u_deletedAt u = None) (users db)))"

definition attributionForStripeObject :: "jsval \<Rightarrow> store \<Rightarrow> StripeAttribution option" where
  "attributionForStripeObject object db =
     (let values = asObject (jprop ''metadata'' object) in
      case orNull (textValue (jprop ''userId'' values)) (textValue (jprop ''actorUserId'' values)) of
        Some userId \<Rightarrow> Some \<lparr>at_userId = userId, at_organizationId = textValue (jprop ''organizationId'' values)\<rparr>
      | None \<Rightarrow>
          (case referenceId (jprop ''customer'' object) of
             None \<Rightarrow> None
           | Some customerId \<Rightarrow> customerAttribution customerId db))"

text \<open>A row takes an event that is newer than the last one it took, or that carries the current object.\<close>

definition supersedes :: "StripeProjectionCursor \<Rightarrow> string option \<Rightarrow> time option \<Rightarrow> bool" where
  "supersedes cursor lastId lastAt \<longleftrightarrow>
     cu_authoritative cursor \<or>
     (case lastAt of None \<Rightarrow> True
      | Some t \<Rightarrow> t < cu_createdAt cursor \<or>
          (t = cu_createdAt cursor \<and> (case lastId of None \<Rightarrow> False | Some i \<Rightarrow> i < cu_eventId cursor)))"

record PaymentInput =
  pi_paymentIntentId :: string
  pi_checkoutSessionId :: "string option"
  pi_chargeId :: "string option"
  pi_status :: string
  pi_amount :: "int option"
  pi_amountRefunded :: "int option"
  pi_currency :: "string option"

definition newPayment :: "effects \<Rightarrow> StripeAttribution \<Rightarrow> PaymentInput \<Rightarrow> StripeProjectionCursor \<Rightarrow> StripePayment" where
  "newPayment ef attribution input cursor =
     \<lparr>sp_id = ef_id ef 0, sp_organizationId = at_organizationId attribution, sp_userId = at_userId attribution,
      sp_stripePaymentIntentId = Some (pi_paymentIntentId input), sp_checkoutSessionId = pi_checkoutSessionId input,
      sp_chargeId = pi_chargeId input, sp_status = pi_status input, sp_amount = pi_amount input,
      sp_amountRefunded = orElse (pi_amountRefunded input) 0, sp_currency = pi_currency input,
      sp_lastStripeEventId = Some (cu_eventId cursor), sp_lastStripeEventCreatedAt = Some (cu_createdAt cursor),
      sp_createdAt = ef_now ef 0, sp_deletedAt = None\<rparr>"

definition assignPayment :: "StripeAttribution \<Rightarrow> PaymentInput \<Rightarrow> StripePayment \<Rightarrow> StripePayment" where
  "assignPayment attribution input p =
     p\<lparr>sp_checkoutSessionId := (if truthy (pi_checkoutSessionId input) then pi_checkoutSessionId input else sp_checkoutSessionId p),
       sp_userId := at_userId attribution, sp_organizationId := at_organizationId attribution\<rparr>"

definition refreshPayment :: "PaymentInput \<Rightarrow> StripeProjectionCursor \<Rightarrow> StripePayment \<Rightarrow> StripePayment" where
  "refreshPayment input cursor p =
     p\<lparr>sp_chargeId := (if truthy (pi_chargeId input) then pi_chargeId input else sp_chargeId p),
       sp_status := pi_status input,
       sp_amount := orNull (pi_amount input) (sp_amount p),
       sp_amountRefunded := orElse (pi_amountRefunded input) (sp_amountRefunded p),
       sp_currency := (if truthy (pi_currency input) then pi_currency input else sp_currency p),
       sp_lastStripeEventId := Some (cu_eventId cursor), sp_lastStripeEventCreatedAt := Some (cu_createdAt cursor)\<rparr>"

definition paymentsUnique :: "billing \<Rightarrow> bool" where
  "paymentsUnique s \<longleftrightarrow> uniqueBy sp_checkoutSessionId (payments s) \<and> uniqueBy sp_chargeId (payments s)"

definition upsertPayment ::
    "effects \<Rightarrow> StripeAttribution \<Rightarrow> PaymentInput \<Rightarrow> StripeProjectionCursor \<Rightarrow> (billing, nat) tx" where
  "upsertPayment ef attribution input cursor =
     andThen (enforcing paymentsUnique (upsertRow payments payments_update
        (\<lambda>p. sp_stripePaymentIntentId p = Some (pi_paymentIntentId input))
        (newPayment ef attribution input cursor) (assignPayment attribution input))) (\<lambda>payment.
     enforcing paymentsUnique (updateMany payments payments_update
        (\<lambda>p. sp_deletedAt p = None \<and> sp_id p = sp_id payment \<and>
             supersedes cursor (sp_lastStripeEventId p) (sp_lastStripeEventCreatedAt p))
        (refreshPayment input cursor)))"

definition boundTo :: "ident \<Rightarrow> string \<Rightarrow> string \<Rightarrow> ChargeableItem \<Rightarrow> bool" where
  "boundTo itemId keyHash intentId i \<longleftrightarrow>
     it_id i = itemId \<and> it_deletedAt i = None \<and> it_reservationKeyHash i = Some keyHash \<and>
     (it_paymentIntentId i = None \<or> it_paymentIntentId i = Some intentId)"

definition reopenItem :: "ChargeableItem \<Rightarrow> ChargeableItem" where
  "reopenItem i = i\<lparr>it_status := C_OPEN, it_reservationKeyHash := None, it_reservedAt := None, it_paymentIntentId := None\<rparr>"

definition itemsUnique :: "billing \<Rightarrow> bool" where
  "itemsUnique s \<longleftrightarrow> uniqueBy it_paymentIntentId (chargeableItems s)"

abbreviation updateItems :: "(ChargeableItem \<Rightarrow> bool) \<Rightarrow> (ChargeableItem \<Rightarrow> ChargeableItem) \<Rightarrow> (billing, nat) tx" where
  "updateItems P f \<equiv> enforcing itemsUnique (updateMany chargeableItems chargeableItems_update P f)"

definition projectChargeableItem :: "effects \<Rightarrow> jsval \<Rightarrow> (billing, nat) tx" where
  "projectChargeableItem ef object =
     (let metadata = asObject (jprop ''metadata'' object) in
      case (textValue (jprop ''id'' object), textValue (jprop ''chargeableItemId'' metadata),
            textValue (jprop ''chargeableReservationKeyHash'' metadata), textValue (jprop ''status'' object)) of
        (Some intentId, Some itemId, Some keyHash, Some st) \<Rightarrow>
          if st = ''succeeded''
          then updateItems (\<lambda>i. boundTo itemId keyHash intentId i \<and> it_status i \<in> {C_RESERVED, C_CONSUMED})
                 (\<lambda>i. i\<lparr>it_paymentIntentId := Some intentId, it_status := C_CONSUMED, it_consumedAt := Some (ef_now ef 1)\<rparr>)
          else if st = ''canceled''
          then updateItems (\<lambda>i. boundTo itemId keyHash intentId i \<and> it_status i = C_RESERVED) reopenItem
          else updateItems (\<lambda>i. boundTo itemId keyHash intentId i \<and> it_status i = C_RESERVED)
                 (\<lambda>i. i\<lparr>it_paymentIntentId := Some intentId\<rparr>)
      | _ \<Rightarrow> ret 0)"

definition subscriptionPrice :: "jsval \<Rightarrow> jsval" where
  "subscriptionPrice object =
     (let items = jprop ''items'' object;
          itemData = (if isObject items then jprop ''data'' items else Undefined);
          firstItem = (case itemData of JArr (v # _) \<Rightarrow> v | _ \<Rightarrow> Undefined)
      in if isObject firstItem then jprop ''price'' firstItem else Undefined)"

text \<open>
  The columns written by a subscription event. When the event lacks a date or a price the update leaves
  the column as it is; a new row has a null there.
\<close>

definition refreshSubscription :: "jsval \<Rightarrow> StripeProjectionCursor \<Rightarrow> StripeSubscription \<Rightarrow> StripeSubscription" where
  "refreshSubscription object cursor r =
     (let price = subscriptionPrice object in
      r\<lparr>ss_status := orElse (textValue (jprop ''status'' object)) ''unknown'',
        ss_priceId := orNull (nestedString price ''id'') (ss_priceId r),
        ss_currency := orNull (nestedString price ''currency'') (ss_currency r),
        ss_currentPeriodStart := orNull (dateFromUnix (jprop ''current_period_start'' object)) (ss_currentPeriodStart r),
        ss_currentPeriodEnd := orNull (dateFromUnix (jprop ''current_period_end'' object)) (ss_currentPeriodEnd r),
        ss_cancelAtPeriodEnd := (jprop ''cancel_at_period_end'' object = JBool True),
        ss_canceledAt := orNull (dateFromUnix (jprop ''canceled_at'' object)) (ss_canceledAt r),
        ss_deletedAt := (if jprop ''status'' object = JStr ''canceled'' then Some (cu_createdAt cursor) else None),
        ss_lastStripeEventId := Some (cu_eventId cursor), ss_lastStripeEventCreatedAt := Some (cu_createdAt cursor)\<rparr>)"

definition newSubscription ::
    "effects \<Rightarrow> StripeAttribution \<Rightarrow> string \<Rightarrow> jsval \<Rightarrow> StripeProjectionCursor \<Rightarrow> StripeSubscription" where
  "newSubscription ef attribution subscriptionId object cursor =
     refreshSubscription object cursor
       \<lparr>ss_id = ef_id ef 1, ss_organizationId = at_organizationId attribution, ss_userId = at_userId attribution,
        ss_stripeSubscriptionId = subscriptionId, ss_status = [], ss_priceId = None, ss_currency = None,
        ss_currentPeriodStart = None, ss_currentPeriodEnd = None, ss_cancelAtPeriodEnd = False, ss_canceledAt = None,
        ss_lastStripeEventId = None, ss_lastStripeEventCreatedAt = None, ss_createdAt = ef_now ef 0, ss_deletedAt = None\<rparr>"

definition projectSubscription ::
    "effects \<Rightarrow> StripeAttribution \<Rightarrow> jsval \<Rightarrow> StripeProjectionCursor \<Rightarrow> (billing, nat) tx" where
  "projectSubscription ef attribution object cursor =
     (case textValue (jprop ''id'' object) of
        None \<Rightarrow> ret 0
      | Some subscriptionId \<Rightarrow>
          andThen (upsertRow subscriptions subscriptions_update (\<lambda>r. ss_stripeSubscriptionId r = subscriptionId)
             (newSubscription ef attribution subscriptionId object cursor)
             (\<lambda>r. r\<lparr>ss_userId := at_userId attribution, ss_organizationId := at_organizationId attribution\<rparr>)) (\<lambda>subscription.
          updateMany subscriptions subscriptions_update
             (\<lambda>r. ss_deletedAt r = None \<and> ss_id r = ss_id subscription \<and>
                  supersedes cursor (ss_lastStripeEventId r) (ss_lastStripeEventCreatedAt r))
             (refreshSubscription object cursor)))"

definition cardDetails :: "jsval \<Rightarrow> PaymentMethod \<Rightarrow> PaymentMethod" where
  "cardDetails details m =
     m\<lparr>pm_brand := textValue (jprop ''brand'' details), pm_last4 := textValue (jprop ''last4'' details),
       pm_expMonth := numberValue (jprop ''exp_month'' details), pm_expYear := numberValue (jprop ''exp_year'' details)\<rparr>"

definition attachedCard :: "StripeAttribution \<Rightarrow> jsval \<Rightarrow> PaymentMethod \<Rightarrow> PaymentMethod" where
  "attachedCard attribution paymentMethod m =
     (let details = jprop ''card'' paymentMethod in
      (cardDetails details m)
        \<lparr>pm_userId := at_userId attribution, pm_organizationId := at_organizationId attribution,
         pm_type := orElse (textValue (jprop ''type'' paymentMethod)) ''card'',
         pm_fingerprint := textValue (jprop ''fingerprint'' details), pm_detachedAt := None, pm_deletedAt := None\<rparr>)"

definition newPaymentMethod :: "effects \<Rightarrow> string \<Rightarrow> PaymentMethod" where
  "newPaymentMethod ef stripeId =
     \<lparr>pm_id = ef_id ef 2, pm_organizationId = None, pm_userId = [], pm_stripePaymentMethodId = stripeId, pm_type = [],
      pm_brand = None, pm_last4 = None, pm_expMonth = None, pm_expYear = None, pm_fingerprint = None, pm_isDefault = False,
      pm_detachedAt = None, pm_createdAt = ef_now ef 0, pm_deletedAt = None\<rparr>"

definition projectAttachedPaymentMethod :: "effects \<Rightarrow> StripeAttribution \<Rightarrow> jsval \<Rightarrow> (billing, unit) tx" where
  "projectAttachedPaymentMethod ef attribution paymentMethod =
     (case textValue (jprop ''id'' paymentMethod) of
        None \<Rightarrow> ret ()
      | Some stripeId \<Rightarrow>
          andThen (upsertRow paymentMethods paymentMethods_update (\<lambda>m. pm_stripePaymentMethodId m = stripeId)
             (attachedCard attribution paymentMethod (newPaymentMethod ef stripeId)) (attachedCard attribution paymentMethod)) (\<lambda>_.
          ret ()))"

section \<open>Processing an event\<close>

text \<open>The current object at the provider, when the kind of event says where to find it.\<close>

definition retrieveCurrentStripeObject :: "string \<Rightarrow> jsval \<Rightarrow> StripeClient option \<Rightarrow> thrown + jsval \<times> bool" where
  "retrieveCurrentStripeObject eventType object client =
     (case (client, textValue (jprop ''id'' object)) of
        (Some c, Some oid) \<Rightarrow>
          (let fetched = (\<lambda>what. map_sum (\<lambda>e. e) (\<lambda>v. (v, True)) (sc_retrieve c what oid)) in
           if startsWith ''customer.subscription.'' eventType then fetched ''subscription''
           else if startsWith ''payment_intent.'' eventType then fetched ''payment_intent''
           else if eventType = ''charge.refunded'' then fetched ''charge''
           else if eventType = ''checkout.session.completed'' then fetched ''checkout.session''
           else if startsWith ''setup_intent.'' eventType then fetched ''setup_intent''
           else if startsWith ''payment_method.'' eventType then fetched ''payment_method''
           else if eventType = ''customer.updated'' then fetched ''customer''
           else Inr (object, False))
      | _ \<Rightarrow> Inr (object, False))"

definition optionally :: "bool \<Rightarrow> ('s, 'a) tx \<Rightarrow> ('s, unit) tx" where
  "optionally b m = (if b then andThen m (\<lambda>_. ret ()) else ret ())"

lemma optionally_Inr [tx_simps]:
  "optionally b m s = Inr r \<longleftrightarrow> (if b then \<exists>a s'. m s = Inr (a, s') \<and> r = ((), s') else r = ((), s))"
  by (auto simp: optionally_def tx_simps)

definition ownedBy :: "StripeAttribution \<Rightarrow> ident option \<Rightarrow> ident \<Rightarrow> bool" where
  "ownedBy attribution organizationId userId \<longleftrightarrow>
     (if truthy (at_organizationId attribution) then organizationId = at_organizationId attribution
      else userId = at_userId attribution \<and> organizationId = None)"

definition detachCard :: "time \<Rightarrow> PaymentMethod \<Rightarrow> PaymentMethod" where
  "detachCard now m = m\<lparr>pm_detachedAt := Some now, pm_deletedAt := Some now, pm_isDefault := False\<rparr>"

definition projectIntent ::
    "effects \<Rightarrow> string \<Rightarrow> StripeAttribution \<Rightarrow> jsval \<Rightarrow> StripeProjectionCursor \<Rightarrow> (billing, unit) tx" where
  "projectIntent ef eventType attribution object cursor =
     (case (if startsWith ''payment_intent.'' eventType then textValue (jprop ''id'' object)
            else referenceId (jprop ''payment_intent'' object)) of
        None \<Rightarrow> ret ()
      | Some paymentIntentId \<Rightarrow>
          andThen (upsertPayment ef attribution
            \<lparr>pi_paymentIntentId = paymentIntentId,
             pi_checkoutSessionId = (if startsWith ''checkout.session.'' eventType then textValue (jprop ''id'' object) else None),
             pi_chargeId = referenceId (jprop ''latest_charge'' object),
             pi_status = orElse (orNull (textValue (jprop ''payment_status'' object)) (textValue (jprop ''status'' object))) ''unknown'',
             pi_amount = orNull (orNull (numberValue (jprop ''amount_received'' object)) (numberValue (jprop ''amount_total'' object)))
                           (numberValue (jprop ''amount'' object)),
             pi_amountRefunded = None, pi_currency = textValue (jprop ''currency'' object)\<rparr> cursor) (\<lambda>_.
          ret ()))"

definition projectRefund :: "effects \<Rightarrow> StripeAttribution \<Rightarrow> jsval \<Rightarrow> StripeProjectionCursor \<Rightarrow> (billing, unit) tx" where
  "projectRefund ef attribution object cursor =
     (case referenceId (jprop ''payment_intent'' object) of
        None \<Rightarrow> ret ()
      | Some paymentIntentId \<Rightarrow>
          andThen (upsertPayment ef attribution
            \<lparr>pi_paymentIntentId = paymentIntentId, pi_checkoutSessionId = None, pi_chargeId = textValue (jprop ''id'' object),
             pi_status = ''refunded'', pi_amount = numberValue (jprop ''amount'' object),
             pi_amountRefunded = numberValue (jprop ''amount_refunded'' object),
             pi_currency = textValue (jprop ''currency'' object)\<rparr> cursor) (\<lambda>_.
          ret ()))"

abbreviation updateCards :: "(PaymentMethod \<Rightarrow> bool) \<Rightarrow> (PaymentMethod \<Rightarrow> PaymentMethod) \<Rightarrow> (billing, nat) tx" where
  "updateCards P f \<equiv> updateMany paymentMethods paymentMethods_update (\<lambda>m. pm_deletedAt m = None \<and> P m) f"

definition projectDefaultCard :: "StripeAttribution \<Rightarrow> jsval \<Rightarrow> (billing, unit) tx" where
  "projectDefaultCard attribution object =
     (let default = referenceId (jprop ''default_payment_method'' (asObject (jprop ''invoice_settings'' object)));
          mine = (\<lambda>m. ownedBy attribution (pm_organizationId m) (pm_userId m)) in
      andThen (updateCards (\<lambda>m. mine m \<and> pm_isDefault m) (\<lambda>m. m\<lparr>pm_isDefault := False\<rparr>)) (\<lambda>_.
      optionally (default \<noteq> None)
        (updateCards (\<lambda>m. mine m \<and> pm_stripePaymentMethodId m = the default \<and> pm_detachedAt m = None)
           (\<lambda>m. m\<lparr>pm_isDefault := True\<rparr>))))"

definition markProcessed :: "ident \<Rightarrow> time \<Rightarrow> (billing, unit) tx" where
  "markProcessed webhookEventId now =
     updateRow webhookEvents webhookEvents_update (\<lambda>e. sw_id e = webhookEventId \<and> sw_deletedAt e = None)
       (\<lambda>e. e\<lparr>sw_status := W_PROCESSED, sw_processedAt := Some now, sw_lastError := None\<rparr>)"

text \<open>The transaction of an event; the advisory lock makes transactions on one object exclude each other.\<close>

definition projectEvent ::
    "effects \<Rightarrow> StripeWebhookEvent \<Rightarrow> jsval \<Rightarrow> jsval option \<Rightarrow> StripeProjectionCursor \<Rightarrow> (billing, unit) tx" where
  "projectEvent ef stored object savedPaymentMethod cursor =
     (let eventType = sw_type stored; objectId = textValue (jprop ''id'' object) in
      andThen (reading (\<lambda>s. attributionForStripeObject object (books s))) (\<lambda>found.
      let attributed = (found \<noteq> None); attribution = the found in
      andThen (optionally (startsWith ''payment_intent.'' eventType) (projectChargeableItem ef object)) (\<lambda>_.
      andThen (optionally (attributed \<and> (startsWith ''payment_intent.'' eventType \<or> eventType = ''checkout.session.completed''))
                 (projectIntent ef eventType attribution object cursor)) (\<lambda>_.
      andThen (optionally (attributed \<and> savedPaymentMethod \<noteq> None)
                 (projectAttachedPaymentMethod ef attribution (the savedPaymentMethod))) (\<lambda>_.
      andThen (optionally (eventType = ''payment_method.detached'' \<and> objectId \<noteq> None)
                 (updateCards (\<lambda>m. pm_stripePaymentMethodId m = the objectId \<and> pm_detachedAt m = None) (detachCard (ef_now ef 2)))) (\<lambda>_.
      andThen (optionally ((eventType = ''payment_method.updated'' \<or> eventType = ''payment_method.automatically_updated'') \<and> objectId \<noteq> None)
                 (updateCards (\<lambda>m. pm_stripePaymentMethodId m = the objectId) (cardDetails (jprop ''card'' object)))) (\<lambda>_.
      andThen (optionally (attributed \<and> eventType = ''customer.updated'') (projectDefaultCard attribution object)) (\<lambda>_.
      andThen (optionally (attributed \<and> startsWith ''customer.subscription.'' eventType)
                 (projectSubscription ef attribution object cursor)) (\<lambda>_.
      andThen (optionally (attributed \<and> eventType = ''charge.refunded'') (projectRefund ef attribution object cursor)) (\<lambda>_.
      markProcessed (sw_id stored) (ef_now ef 3)))))))))))"

definition savedPaymentMethodId :: "string \<Rightarrow> jsval \<Rightarrow> string option" where
  "savedPaymentMethodId eventType object =
     (if eventType = ''setup_intent.succeeded'' \<or>
         (eventType = ''payment_intent.succeeded'' \<and> jprop ''setup_future_usage'' object = JStr ''off_session'')
      then referenceId (jprop ''payment_method'' object) else None)"

definition retrieveSaved :: "StripeClient option \<Rightarrow> string option \<Rightarrow> thrown + jsval option" where
  "retrieveSaved client saved =
     (case (client, saved) of
        (Some c, Some mid) \<Rightarrow> map_sum (\<lambda>e. e) Some (sc_retrieve c ''payment_method'' mid)
      | _ \<Rightarrow> Inr None)"

text \<open>Two attempts: the second one after another transaction took a unique key first.\<close>

definition processStoredStripeEvent ::
    "effects \<Rightarrow> (nat \<Rightarrow> billing \<Rightarrow> billing) \<Rightarrow> ident \<Rightarrow> StripeClient option \<Rightarrow> (billing, unit) io" where
  "processStoredStripeEvent ef other webhookEventId client =
     andNext (transaction (findFirst webhookEvents (\<lambda>e. sw_id e = webhookEventId \<and> sw_deletedAt e = None))) (\<lambda>found.
     case found of
       None \<Rightarrow> failing (OtherError ''Stripe webhook event not found'')
     | Some stored \<Rightarrow>
       case objectFromEvent (sw_payload stored) of
         None \<Rightarrow> failing (OtherError ''Stripe webhook payload is malformed'')
       | Some eventObject \<Rightarrow>
         andNext (calling (retrieveCurrentStripeObject (sw_type stored) eventObject client)) (\<lambda>(object, authoritative).
         andNext (calling (retrieveSaved client (savedPaymentMethodId (sw_type stored) object))) (\<lambda>savedPaymentMethod.
         let project = projectEvent ef stored object savedPaymentMethod
               \<lparr>cu_eventId = sw_stripeEventId stored, cu_createdAt = sw_stripeCreatedAt stored, cu_authoritative = authoritative\<rparr> in
         andNext (meanwhile (other 0)) (\<lambda>_.
         catching (transaction project) (\<lambda>e.
           if e = PrismaKnown ''P2002'' then andNext (meanwhile (other 1)) (\<lambda>_. transaction project) else failing e)))))"

section \<open>Redelivered events\<close>

lemma storeEvent_stores:
  assumes "storeEvent B ef rawBody event s = Inr (u, s')"
  shows "\<exists>e\<in>set (webhookEvents s'). sw_stripeEventId e = se_id event"
  using assms by (auto simp: storeEvent_def tx_simps newWebhookEvent_def)

lemma storeEvent_known:
  assumes "e \<in> set (webhookEvents s)" "sw_stripeEventId e = se_id event" "be_parse B rawBody = Inr payload"
  shows "storeEvent B ef rawBody event s = Inl (PrismaKnown ''P2002'')"
proof -
  have "webhookClash (newWebhookEvent ef event payload) e"
    using assms(2) by (simp add: webhookClash_def newWebhookEvent_def)
  then have "clashes webhookClash (newWebhookEvent ef event payload) (webhookEvents s)"
    using assms(1) unfolding clashes_def list_ex_iff by (rule bexI)
  then show ?thesis by (simp add: storeEvent_def andThen_def attempt_def createRow_def assms(3))
qed

section \<open>The newest event wins\<close>

text \<open>
  What a payment shows of the events it took: a register of the newest position and the status that came with it.
\<close>

type_synonym position = "time \<times> string"

definition newer :: "position \<Rightarrow> position \<Rightarrow> bool" where
  "newer a b \<longleftrightarrow> fst b < fst a \<or> (fst b = fst a \<and> snd b < snd a)"

definition register :: "string \<Rightarrow> billing \<Rightarrow> (position \<times> string) option" where
  "register intent s =
     map_option (\<lambda>p. ((the (sp_lastStripeEventCreatedAt p), the (sp_lastStripeEventId p)), sp_status p))
       (find_first (\<lambda>p. sp_stripePaymentIntentId p = Some intent) (payments s))"

definition take_newest :: "position \<times> string \<Rightarrow> (position \<times> string) option \<Rightarrow> (position \<times> string) option" where
  "take_newest e r = (case r of None \<Rightarrow> Some e | Some old \<Rightarrow> if newer (fst e) (fst old) then Some e else Some old)"

text \<open>Payments as the projections leave them: identifiers are unique, each row has taken an event, none is deleted.\<close>

definition payments_ok :: "billing \<Rightarrow> bool" where
  "payments_ok s \<longleftrightarrow> distinct (map sp_id (payments s)) \<and>
     (\<forall>p\<in>set (payments s). sp_deletedAt p = None \<and> sp_stripePaymentIntentId p \<noteq> None \<and> sp_lastStripeEventId p \<noteq> None \<and>
        sp_lastStripeEventCreatedAt p \<noteq> None) \<and>
     distinct (map sp_stripePaymentIntentId (payments s))"

lemma upsert_payments [tx_simps]:
  "upsertRow payments payments_update P x f s = Inr r \<longleftrightarrow>
     r = (case find_first P (payments s) of None \<Rightarrow> x | Some y \<Rightarrow> f y, payments_update (upserted P x f) s)"
  by (rule upsertRow_Inr) (simp add: billing.defs)

lemma upsert_subscriptions [tx_simps]:
  "upsertRow subscriptions subscriptions_update P x f s = Inr r \<longleftrightarrow>
     r = (case find_first P (subscriptions s) of None \<Rightarrow> x | Some y \<Rightarrow> f y, subscriptions_update (upserted P x f) s)"
  by (rule upsertRow_Inr) (simp add: billing.defs)

lemma upsert_cards [tx_simps]:
  "upsertRow paymentMethods paymentMethods_update P x f s = Inr r \<longleftrightarrow>
     r = (case find_first P (paymentMethods s) of None \<Rightarrow> x | Some y \<Rightarrow> f y, paymentMethods_update (upserted P x f) s)"
  by (rule upsertRow_Inr) (simp add: billing.defs)

lemma payments_ok_cong:
  assumes "payments t = payments s"
  shows "payments_ok t = payments_ok s" "register intent t = register intent s"
  by (simp_all add: payments_ok_def register_def assms)

definition positionOf :: "StripeProjectionCursor \<Rightarrow> position" where
  "positionOf c = (cu_createdAt c, cu_eventId c)"

lemma upsertPayment_effect:
  assumes "upsertPayment ef at input cursor s = Inr (n, s')"
  shows "case find_first (\<lambda>p. sp_stripePaymentIntentId p = Some (pi_paymentIntentId input)) (payments s) of
     None \<Rightarrow> payments s' = update_many (\<lambda>p. sp_deletedAt p = None \<and> sp_id p = ef_id ef 0 \<and>
               supersedes cursor (sp_lastStripeEventId p) (sp_lastStripeEventCreatedAt p)) (refreshPayment input cursor)
             (newPayment ef at input cursor # payments s)
   | Some p \<Rightarrow> payments s' = update_many (\<lambda>q. sp_deletedAt q = None \<and> sp_id q = sp_id p \<and>
               supersedes cursor (sp_lastStripeEventId q) (sp_lastStripeEventCreatedAt q)) (refreshPayment input cursor)
             (update_many (\<lambda>q. sp_stripePaymentIntentId q = Some (pi_paymentIntentId input)) (assignPayment at input) (payments s))"
  using assms
  by (auto simp: upsertPayment_def tx_simps upserted_def newPayment_def assignPayment_def split: option.splits)

lemma find_first_map: "(\<And>x. P (h x) = P x) \<Longrightarrow> find_first P (map h xs) = map_option h (find_first P xs)"
  by (induction xs) (simp_all add: find_first_def)

lemma upsertPayment_new:
  assumes "upsertPayment ef at input cursor s = Inr (n, s')" "\<not> cu_authoritative cursor" "ef_id ef 0 \<notin> sp_id ` set (payments s)"
    "find_first (\<lambda>p. sp_stripePaymentIntentId p = Some (pi_paymentIntentId input)) (payments s) = None"
  shows "payments s' = newPayment ef at input cursor # payments s"
proof -
  have "update_many (\<lambda>p. sp_deletedAt p = None \<and> sp_id p = ef_id ef 0 \<and>
      supersedes cursor (sp_lastStripeEventId p) (sp_lastStripeEventCreatedAt p)) (refreshPayment input cursor) (payments s) = payments s"
    by (rule update_many_none) (use assms(3) in \<open>simp add: matching_zero, metis imageI\<close>)
  moreover have "\<not> supersedes cursor (Some (cu_eventId cursor)) (Some (cu_createdAt cursor))"
    using assms(2) by (simp add: supersedes_def)
  ultimately show ?thesis
    using upsertPayment_effect [OF assms(1)] assms(4) by (simp add: newPayment_def update_many_def)
qed

definition taken :: "StripeAttribution \<Rightarrow> PaymentInput \<Rightarrow> StripeProjectionCursor \<Rightarrow> StripePayment \<Rightarrow> StripePayment" where
  "taken at input cursor p =
     (if sp_stripePaymentIntentId p \<noteq> Some (pi_paymentIntentId input) then p
      else if supersedes cursor (sp_lastStripeEventId p) (sp_lastStripeEventCreatedAt p)
      then refreshPayment input cursor (assignPayment at input p) else assignPayment at input p)"

lemma taken_keeps [simp]:
  "sp_stripePaymentIntentId (taken at input cursor p) = sp_stripePaymentIntentId p" "sp_id (taken at input cursor p) = sp_id p"
  "sp_deletedAt (taken at input cursor p) = sp_deletedAt p"
  by (simp_all add: taken_def refreshPayment_def assignPayment_def)

lemma upsertPayment_old:
  assumes "upsertPayment ef at input cursor s = Inr (n, s')" "payments_ok s"
    "find_first (\<lambda>p. sp_stripePaymentIntentId p = Some (pi_paymentIntentId input)) (payments s) = Some p"
  shows "payments s' = map (taken at input cursor) (payments s)"
proof -
  note p = find_first_SomeD [OF assms(3)]
  have key: "sp_id q = sp_id p \<longleftrightarrow> sp_stripePaymentIntentId q = Some (pi_paymentIntentId input)" "sp_deletedAt q = None"
    if "q \<in> set (payments s)" for q
  proof -
    have "sp_id q = sp_id p \<longleftrightarrow> q = p" "sp_stripePaymentIntentId q = sp_stripePaymentIntentId p \<longleftrightarrow> q = p" "sp_deletedAt q = None"
      using assms(2) p that by (auto simp: payments_ok_def distinct_map inj_on_def)
    then show "sp_id q = sp_id p \<longleftrightarrow> sp_stripePaymentIntentId q = Some (pi_paymentIntentId input)" "sp_deletedAt q = None"
      using p by simp_all
  qed
  have "payments s' = update_many (\<lambda>q. sp_deletedAt q = None \<and> sp_id q = sp_id p \<and>
        supersedes cursor (sp_lastStripeEventId q) (sp_lastStripeEventCreatedAt q)) (refreshPayment input cursor)
      (update_many (\<lambda>q. sp_stripePaymentIntentId q = Some (pi_paymentIntentId input)) (assignPayment at input) (payments s))"
    using upsertPayment_effect [OF assms(1)] assms(3) by simp
  also have "\<dots> = map (taken at input cursor) (payments s)"
    unfolding update_many_def map_map by (rule map_cong [OF refl]) (simp add: taken_def assignPayment_def key)
  finally show ?thesis .
qed

lemma upsertPayment_register:
  assumes "upsertPayment ef at input cursor s = Inr (n, s')" "payments_ok s" "\<not> cu_authoritative cursor"
    "ef_id ef 0 \<notin> sp_id ` set (payments s)"
  shows "payments_ok s' \<and>
    register (pi_paymentIntentId input) s' = take_newest (positionOf cursor, pi_status input) (register (pi_paymentIntentId input) s)"
proof (cases "find_first (\<lambda>p. sp_stripePaymentIntentId p = Some (pi_paymentIntentId input)) (payments s)")
  case None
  note s' = upsertPayment_new [OF assms(1,3,4) None]
  have "Some (pi_paymentIntentId input) \<notin> sp_stripePaymentIntentId ` set (payments s)"
    using None by (auto simp: find_first_def find_None_iff)
  then have "payments_ok s'"
    using assms(2,4) unfolding payments_ok_def s' by (simp add: newPayment_def)
  with None show ?thesis
    unfolding register_def s' by (simp add: take_newest_def newPayment_def positionOf_def find_first_def)
next
  case (Some p)
  note s' = upsertPayment_old [OF assms(1,2) Some] and p = find_first_SomeD [OF Some]
  have "sp_lastStripeEventId (taken at input cursor q) \<noteq> None \<and> sp_lastStripeEventCreatedAt (taken at input cursor q) \<noteq> None"
    if "q \<in> set (payments s)" for q
    using assms(2) that by (auto simp: payments_ok_def taken_def refreshPayment_def assignPayment_def)
  then have ok: "payments_ok s'"
    using assms(2) unfolding payments_ok_def s' by (auto simp: comp_def)
  have "find_first (\<lambda>p. sp_stripePaymentIntentId p = Some (pi_paymentIntentId input)) (payments s') = Some (taken at input cursor p)"
    unfolding s' by (simp add: find_first_map Some)
  moreover obtain i t where "sp_lastStripeEventId p = Some i" "sp_lastStripeEventCreatedAt p = Some t"
    using assms(2) p by (auto simp: payments_ok_def)
  ultimately show ?thesis
    using ok p assms(3) Some
    by (auto simp: register_def take_newest_def taken_def newer_def positionOf_def supersedes_def refreshPayment_def assignPayment_def)
qed

definition eventObject :: "StripeWebhookEvent \<Rightarrow> jsval" where
  "eventObject e = the (objectFromEvent (sw_payload e))"

definition eventEntry :: "StripeWebhookEvent \<Rightarrow> position \<times> string" where
  "eventEntry e = ((sw_stripeCreatedAt e, sw_stripeEventId e),
     orElse (orNull (textValue (jprop ''payment_status'' (eventObject e))) (textValue (jprop ''status'' (eventObject e)))) ''unknown'')"

definition about_payment :: "string \<Rightarrow> StripeWebhookEvent \<Rightarrow> billing \<Rightarrow> bool" where
  "about_payment intent e s \<longleftrightarrow> startsWith ''payment_intent.'' (sw_type e) \<and> objectFromEvent (sw_payload e) \<noteq> None \<and>
     textValue (jprop ''id'' (eventObject e)) = Some intent \<and> attributionForStripeObject (eventObject e) (books s) \<noteq> None"

lemma startsWith_take: "startsWith p t \<Longrightarrow> n \<le> length p \<Longrightarrow> take n t = take n p"
  unfolding startsWith_def by (metis min.absorb1 take_take)

lemma payment_intent_type:
  "startsWith ''payment_intent.'' t \<Longrightarrow> t \<noteq> ''payment_method.detached'' \<and> t \<noteq> ''payment_method.updated'' \<and>
     t \<noteq> ''payment_method.automatically_updated'' \<and> t \<noteq> ''customer.updated'' \<and> \<not> startsWith ''customer.subscription.'' t \<and>
     t \<noteq> ''charge.refunded''"
proof -
  assume "startsWith ''payment_intent.'' t"
  from startsWith_take [OF this, of 9] have t: "take 9 t = ''payment_i''" by simp
  then have lit: "t \<noteq> x" if "take 9 x \<noteq> ''payment_i''" for x using that by (cases "t = x") simp_all
  have "\<not> startsWith ''customer.subscription.'' t"
  proof
    assume "startsWith ''customer.subscription.'' t"
    from startsWith_take [OF this, of 9] t show False by simp
  qed
  then show ?thesis by (intro conjI lit) simp_all
qed

lemma projectChargeableItem_payments: "projectChargeableItem ef object s = Inr (n, s') \<Longrightarrow> payments s' = payments s \<and> books s' = books s"
  by (auto simp: projectChargeableItem_def Let_def tx_simps split: option.split_asm if_split_asm)

lemma projectEvent_payment:
  assumes "projectEvent ef e (eventObject e) None cursor s = Inr (u, s')" "about_payment intent e s"
  obtains att input t n t' where "payments t = payments s" "upsertPayment ef att input cursor t = Inr (n, t')"
    "payments s' = payments t'" "pi_paymentIntentId input = intent" "pi_status input = snd (eventEntry e)"
proof -
  note ty = payment_intent_type [of "sw_type e"]
  have st: "startsWith ''payment_intent.'' (sw_type e)" and oid: "textValue (jprop ''id'' (eventObject e)) = Some intent"
    using assms(2) by (simp_all add: about_payment_def)
  obtain at where at: "attributionForStripeObject (eventObject e) (books s) = Some at"
    using assms(2) by (auto simp: about_payment_def)
  obtain k t where t: "projectChargeableItem ef (eventObject e) s = Inr (k, t)"
    and rest: "\<exists>t'. projectIntent ef (sw_type e) at (eventObject e) cursor t = Inr ((), t') \<and> payments s' = payments t'"
    using assms(1) ty [OF st]
    by (auto simp: projectEvent_def tx_simps st oid at Let_def optionally_def markProcessed_def)
  then show ?thesis
    using that projectChargeableItem_payments [OF t]
    by (auto simp: projectIntent_def st oid tx_simps eventEntry_def)
qed

lemma process_payment_event:
  assumes "processStoredStripeEvent ef (\<lambda>_ x. x) wid None s = (Inr (), s')"
    "find_first (\<lambda>e. sw_id e = wid \<and> sw_deletedAt e = None) (webhookEvents s) = Some e" "about_payment intent e s"
    "payments_ok s" "ef_id ef 0 \<notin> sp_id ` set (payments s)"
  shows "payments_ok s' \<and> register intent s' = take_newest (eventEntry e) (register intent s)"
proof -
  let ?c = "\<lparr>cu_eventId = sw_stripeEventId e, cu_createdAt = sw_stripeCreatedAt e, cu_authoritative = False\<rparr>"
  obtain ob where ob: "objectFromEvent (sw_payload e) = Some ob" "eventObject e = ob"
    using assms(3) by (auto simp: about_payment_def eventObject_def)
  let ?project = "projectEvent ef e (eventObject e) None ?c"
  have run: "processStoredStripeEvent ef (\<lambda>_ x. x) wid None s =
      catching (transaction ?project) (\<lambda>x. if x = PrismaKnown ''P2002'' then andNext (meanwhile (\<lambda>y. y)) (\<lambda>_. transaction ?project) else failing x) s"
    unfolding ob(2) by (simp add: processStoredStripeEvent_def assms(2) ob(1) retrieveCurrentStripeObject_def retrieveSaved_def calling_def
        andNext_def [of "calling r" for r] Let_def)
  have "\<exists>u. ?project s = Inr (u, s')"
    using assms(1) unfolding run by (cases "?project s") (auto simp: catching_def transaction_def failing_def split: if_splits)
  then obtain u where "projectEvent ef e (eventObject e) None ?c s = Inr (u, s')" by blast
  then obtain att input t n t' where i: "payments t = payments s" "upsertPayment ef att input ?c t = Inr (n, t')"
    "payments s' = payments t'" "pi_paymentIntentId input = intent" "pi_status input = snd (eventEntry e)"
    by (rule projectEvent_payment [OF _ assms(3)])
  have "payments_ok t" "ef_id ef 0 \<notin> sp_id ` set (payments t)" using assms(4,5) i(1) by (simp_all add: payments_ok_cong [OF i(1)])
  then have "payments_ok t' \<and> register intent t' = take_newest (positionOf ?c, pi_status input) (register intent t)"
    using upsertPayment_register [OF i(2)] i(4) by simp
  moreover have "(positionOf ?c, pi_status input) = eventEntry e" by (simp add: i(5) positionOf_def eventEntry_def)
  ultimately show ?thesis using payments_ok_cong [OF i(1)] payments_ok_cong [OF i(3)] by simp
qed

text \<open>Events of one payment processed one after the other, with work on other things in between.\<close>

inductive history :: "string \<Rightarrow> StripeWebhookEvent list \<Rightarrow> billing \<Rightarrow> billing \<Rightarrow> bool" for intent where
  begin_here: "history intent [] s s"
| elsewhere: "history intent es s t \<Longrightarrow> payments u = payments t \<Longrightarrow> history intent es s u"
| processed: "history intent es s t \<Longrightarrow> processStoredStripeEvent ef (\<lambda>_ x. x) wid None t = (Inr (), u) \<Longrightarrow>
     find_first (\<lambda>e. sw_id e = wid \<and> sw_deletedAt e = None) (webhookEvents t) = Some e \<Longrightarrow> about_payment intent e t \<Longrightarrow>
     ef_id ef 0 \<notin> sp_id ` set (payments t) \<Longrightarrow> history intent (e # es) s u"

lemma newer_total: "newer a b \<or> newer b a \<or> a = b"
  unfolding newer_def by (cases a; cases b) auto

lemma newer_trans: "newer a b \<Longrightarrow> newer b c \<Longrightarrow> newer a c"
  unfolding newer_def by auto

lemma newer_irrefl: "\<not> newer a a"
  by (simp add: newer_def)

lemma history_register:
  assumes "history intent es s t" "payments_ok s" "register intent s = None"
  shows "payments_ok t \<and> (case register intent t of None \<Rightarrow> es = []
     | Some r \<Rightarrow> r \<in> eventEntry ` set es \<and> (\<forall>e\<in>set es. \<not> newer (fst (eventEntry e)) (fst r)))"
  using assms
proof (induction rule: history.induct)
  case (begin_here s)
  then show ?case by simp
next
  case (elsewhere es s t u)
  then show ?case by (simp add: payments_ok_cong [OF elsewhere.hyps(2)])
next
  case (processed es s t ef wid u e)
  then have ok: "payments_ok t" and IH: "case register intent t of None \<Rightarrow> es = []
     | Some r \<Rightarrow> r \<in> eventEntry ` set es \<and> (\<forall>e\<in>set es. \<not> newer (fst (eventEntry e)) (fst r))" by simp_all
  note step = process_payment_event [OF processed.hyps(2-4) ok processed.hyps(5)]
  show ?case
  proof (cases "register intent t")
    case None
    with IH step show ?thesis by (simp add: take_newest_def newer_irrefl)
  next
    case (Some r)
    with IH have r: "r \<in> eventEntry ` set es" "\<And>x. x \<in> set es \<Longrightarrow> \<not> newer (fst (eventEntry x)) (fst r)" by auto
    show ?thesis
    proof (cases "newer (fst (eventEntry e)) (fst r)")
      case True
      then have "\<not> newer (fst (eventEntry x)) (fst (eventEntry e))" if "x \<in> set es" for x
        using r(2) [OF that] newer_trans [of "fst (eventEntry x)" "fst (eventEntry e)" "fst r"] by blast
      then show ?thesis using step Some True by (simp add: take_newest_def newer_irrefl)
    next
      case False
      then show ?thesis using step Some r by (simp add: take_newest_def)
    qed
  qed
qed

section \<open>Concrete instances\<close>

definition demo_books :: store where
  "demo_books = demo_store\<lparr>users := [(demo_user ''ann'')\<lparr>u_stripeCustomerId := Some ''cus''\<rparr>]\<rparr>"

definition demo_billing :: billing where
  "demo_billing = \<lparr>books = demo_books, webhookEvents = [], payments = [], subscriptions = [], paymentMethods = [],
     chargeableItems = [], refundOperations = [], requests = [], cancellations = []\<rparr>"

definition demo_webhook :: "ident \<Rightarrow> time \<Rightarrow> string \<Rightarrow> jsval \<Rightarrow> StripeWebhookEvent" where
  "demo_webhook i created ty object =
     \<lparr>sw_id = i, sw_stripeEventId = ''evt'' @ i, sw_stripeCreatedAt = created, sw_type = ty, sw_apiVersion = None,
      sw_livemode = False, sw_payload = JObj [(''data'', JObj [(''object'', object)])], sw_status = W_RECEIVED,
      sw_processedAt = None, sw_lastError = None, sw_createdAt = 0, sw_deletedAt = None\<rparr>"

definition demo_intent :: "string \<Rightarrow> jsval" where
  "demo_intent st = JObj [(''id'', JStr ''pi''), (''customer'', JStr ''cus''), (''status'', JStr st)]"

abbreviation demo_older :: StripeWebhookEvent where
  "demo_older \<equiv> demo_webhook ''1'' 1 ''payment_intent.created'' (demo_intent ''processing'')"

abbreviation demo_newer :: StripeWebhookEvent where
  "demo_newer \<equiv> demo_webhook ''2'' 2 ''payment_intent.succeeded'' (demo_intent ''succeeded'')"

abbreviation demo_received :: billing where
  "demo_received \<equiv> demo_billing\<lparr>webhookEvents := [demo_older, demo_newer]\<rparr>"

lemmas demo_billing_run = processStoredStripeEvent_def projectEvent_def projectIntent_def projectChargeableItem_def upsertPayment_def
  optionally_def enforcing_def markProcessed_def objectFromEvent_def isObject_def asObject_def textValue_def nestedString_def
  referenceId_def numberValue_def orNull_def startsWith_def retrieveCurrentStripeObject_def retrieveSaved_def savedPaymentMethodId_def
  attributionForStripeObject_def customerAttribution_def calling_def catching_def failing_def meanwhile_def supersedes_def
  newPayment_def assignPayment_def refreshPayment_def paymentsUnique_def uniqueBy_def map_filter_def Let_def getProp_def

lemma demo_processed:
  "\<exists>s1 s2. processStoredStripeEvent demo_effects (\<lambda>_ x. x) ''2'' None demo_received = (Inr (), s1) \<and>
     processStoredStripeEvent (demo_effects\<lparr>ef_id := \<lambda>n. ''later''\<rparr>) (\<lambda>_ x. x) ''1'' None s1 = (Inr (), s2) \<and>
     map sp_status (payments s2) = [''succeeded''] \<and> map sp_id (payments s1) = [ef_id demo_effects 0] \<and>
     find_first (\<lambda>e. sw_id e = ''1'' \<and> sw_deletedAt e = None) (webhookEvents s1) = Some demo_older \<and> books s1 = books demo_received"
  by (simp add: demo_billing_run tx_run demo_webhook_def demo_intent_def demo_billing_def demo_books_def demo_store_def demo_user_def)

definition demo_stripe :: StripeClient where
  "demo_stripe =
     \<lparr>sc_constructEvent = (\<lambda>raw sig secret. if sig = ''ok'' then Some \<lparr>se_id = ''evt'', se_created = 1, se_type = ''x'',
        se_apiVersion = None, se_livemode = False\<rparr> else None),
      sc_retrieve = (\<lambda>what i. if what = ''charge'' then Inr (JObj [(''id'', JStr i), (''customer'', JStr ''cus''), (''payment_intent'', JStr ''pi'')])
        else Inr (demo_intent ''succeeded'')),
      sc_create = (\<lambda>what body key. Inl (OtherError ''unavailable'')),
      sc_update = (\<lambda>what i body key. Inr (JObj [(''id'', JStr i)])), sc_list = (\<lambda>what query. Inr ([], False)),
      sc_cancel = (\<lambda>i body. Inr (JObj [(''id'', JStr i)])),
      sc_createIntent = (\<lambda>body key. Inr (JObj [(''id'', JStr ''pi''), (''status'', JStr ''succeeded'')]))\<rparr>"

definition demo_benv :: billing_env where
  "demo_benv = \<lparr>be_webhookSecret = Some ''whsec'', be_parse = (\<lambda>t. Inr (JStr t)), be_organizationPays = False,
     be_dynamicPricing = True, be_allowedCurrencies = [''usd''], be_maxAmount = (\<lambda>c. Some 1000), be_minAmount = (\<lambda>c. Some 50),
     be_refundSelfService = True, be_refundWindowDays = 30, be_refundMaxAmount = (\<lambda>c. Some 500),
     be_parseUrl = (\<lambda>u. None), be_appOrigin = ''https://app'', be_resolvePath = (\<lambda>p. ''https://app'' @ p),
     be_priceCatalog = (\<lambda>k. None), be_defaultPriceKey = None\<rparr>"

section \<open>Properties\<close>





section \<open>Deviations\<close>

text \<open>
  With a client every event is projected from the current object and taken whatever its position. A refund is shown as the status
  refunded; a success event of the payment that is delivered late then puts the status back to succeeded,
  since the payment intent itself is still in that state.
\<close>

lemma late_success_hides_refund:
  "\<exists>s1 s2. processStoredStripeEvent demo_effects (\<lambda>_ x. x) ''3'' (Some demo_stripe)
       (demo_billing\<lparr>webhookEvents := [demo_newer, demo_webhook ''3'' 3 ''charge.refunded'' (JObj [(''id'', JStr ''ch'')])]\<rparr>) = (Inr (), s1) \<and>
     map sp_status (payments s1) = [''refunded''] \<and>
     processStoredStripeEvent demo_effects (\<lambda>_ x. x) ''2'' (Some demo_stripe) s1 = (Inr (), s2) \<and>
     map sp_status (payments s2) = [''succeeded''] \<and> map sp_lastStripeEventId (payments s2) = [Some ''evt2'']"
  by (simp add: demo_billing_run projectRefund_def tx_run demo_webhook_def demo_intent_def demo_billing_def demo_books_def demo_store_def
      demo_user_def demo_stripe_def)

end
