(* ===== verification/Charges.thy ===== *)
theory Charges
  imports Billing
begin

text \<open>
  Money leaving and returning: \<open>src/src/modules/stripe/stripe.shared.ts\<close>, \<open>stripe.chargeable.ts\<close>,
  \<open>stripe.charges.service.ts\<close> and \<open>stripe.refunds.service.ts\<close>. What is charged is looked up by a
  reference and reserved first; a refund is an operation with an idempotency key of its own.
\<close>

section \<open>The billing owner\<close>

datatype BillingOwner = UserOwner ident | OrganizationOwner ident ident  \<comment> \<open>organization, acting user\<close>

definition resolveBillingOwner :: "billing_env \<Rightarrow> app \<Rightarrow> ident \<Rightarrow> thrown + BillingOwner" where
  "resolveBillingOwner B A userId =
     (if \<not> be_organizationPays B then Inr (UserOwner userId)
      else case currentOrganization A of
        None \<Rightarrow> Inl (App (conflict (Some ''An active organization is required while BILLING_OWNER=organization'')))
      | Some g \<Rightarrow> Inr (OrganizationOwner g userId))"

fun billingOwnerKey :: "BillingOwner \<Rightarrow> string" where
  "billingOwnerKey (OrganizationOwner g u) = ''organization:'' @ g"
| "billingOwnerKey (UserOwner u) = ''user:'' @ u"

fun billingOwnerMetadata :: "BillingOwner \<Rightarrow> (string \<times> jsval) list" where
  "billingOwnerMetadata (OrganizationOwner g u) =
     [(''userId'', JStr u), (''actorUserId'', JStr u), (''organizationId'', JStr g)]"
| "billingOwnerMetadata (UserOwner u) = [(''userId'', JStr u), (''actorUserId'', JStr u)]"

fun billingOwnerData :: "BillingOwner \<Rightarrow> ident \<times> ident option" where
  "billingOwnerData (OrganizationOwner g u) = (u, Some g)"
| "billingOwnerData (UserOwner u) = (u, None)"

fun billingOwnerWhere :: "BillingOwner \<Rightarrow> ident \<Rightarrow> ident option \<Rightarrow> bool" where
  "billingOwnerWhere (OrganizationOwner g u) userId organizationId \<longleftrightarrow> organizationId = Some g"
| "billingOwnerWhere (UserOwner u) userId organizationId \<longleftrightarrow> userId = u \<and> organizationId = None"

text \<open>
  The tables with global owners are queried with an explicit owner; the tenant extension then only
  insists on a context.
\<close>

definition ownerScoped :: "app \<Rightarrow> string \<Rightarrow> ('s, unit) tx" where
  "ownerScoped A loc =
     require (ap_tenancyMode A = tenancy_disabled \<or> ap_ctx A \<noteq> None)
       (OtherError (loc @ '' ran outside a request context; wrap trusted background work in withoutTenantScope()''))"

definition getBillingUser :: "ident \<Rightarrow> (billing, User) tx" where
  "getBillingUser userId =
     andThen (reading (\<lambda>s. find_first (\<lambda>u. u_id u = userId \<and> u_status u = U_ACTIVE \<and> u_deletedAt u = None) (users (books s)))) (\<lambda>found.
     case found of None \<Rightarrow> throw (App (notFound (Some ''User not found''))) | Some u \<Rightarrow> ret u)"

definition getBillingOrganization :: "ident \<Rightarrow> (billing, Organization) tx" where
  "getBillingOrganization organizationId =
     andThen (reading (\<lambda>s. find_first (\<lambda>g. org_id g = organizationId \<and> org_status g = O_ACTIVE \<and> org_deletedAt g = None)
                             (organizations (books s)))) (\<lambda>found.
     case found of None \<Rightarrow> throw (App (notFound (Some ''Organization not found''))) | Some g \<Rightarrow> ret g)"

definition ownerCustomer :: "BillingOwner \<Rightarrow> (billing, string option) tx" where
  "ownerCustomer owner =
     (case owner of
        UserOwner u \<Rightarrow> andThen (getBillingUser u) (\<lambda>x. ret (u_stripeCustomerId x))
      | OrganizationOwner g _ \<Rightarrow> andThen (getBillingOrganization g) (\<lambda>x. ret (org_stripeCustomerId x)))"

definition getBillingCustomerId :: "billing_env \<Rightarrow> app \<Rightarrow> ident \<Rightarrow> (billing, string option) io" where
  "getBillingCustomerId B A userId =
     andNext (calling (resolveBillingOwner B A userId)) (\<lambda>owner. transaction (ownerCustomer owner))"

definition textOf :: "jsval \<Rightarrow> string" where
  "textOf v = (case v of JStr t \<Rightarrow> t | _ \<Rightarrow> [])"

text \<open>An expanded customer or its identifier.\<close>

definition customerOf :: "jsval \<Rightarrow> jsval" where
  "customerOf v = (case v of JStr _ \<Rightarrow> v | _ \<Rightarrow> jprop ''id'' v)"

definition customersUnique :: "store \<Rightarrow> bool" where
  "customersUnique db \<longleftrightarrow> uniqueBy u_stripeCustomerId (users db) \<and> uniqueBy org_stripeCustomerId (organizations db)"

definition saveCustomer :: "BillingOwner \<Rightarrow> string \<Rightarrow> (billing, unit) tx" where
  "saveCustomer owner customerId =
     inBooks (enforcing customersUnique
       (case owner of
          UserOwner u \<Rightarrow> updateRow users users_update (\<lambda>x. u_id x = u \<and> u_deletedAt x = None) (\<lambda>x. x\<lparr>u_stripeCustomerId := Some customerId\<rparr>)
        | OrganizationOwner g _ \<Rightarrow>
            updateRow organizations organizations_update (\<lambda>x. org_id x = g \<and> org_deletedAt x = None)
              (\<lambda>x. x\<lparr>org_stripeCustomerId := Some customerId\<rparr>)))"

text \<open>The customer the owner has, or the request that creates one.\<close>

definition customerRequest :: "BillingOwner \<Rightarrow> (billing, string + jsval \<times> string) tx" where
  "customerRequest owner =
     (case owner of
        UserOwner u \<Rightarrow>
          andThen (getBillingUser u) (\<lambda>x. ret (if truthy (u_stripeCustomerId x) then Inl (the (u_stripeCustomerId x)) else
            Inr (JObj ((if truthy (u_email x) then [(''email'', JStr (the (u_email x)))] else []) @
                       (if truthy (u_displayName x) then [(''name'', JStr (the (u_displayName x)))] else []) @
                       [(''metadata'', JObj (billingOwnerMetadata owner))]), ''customer:'' @ u)))
      | OrganizationOwner g _ \<Rightarrow>
          andThen (getBillingOrganization g) (\<lambda>x. ret (if truthy (org_stripeCustomerId x) then Inl (the (org_stripeCustomerId x)) else
            Inr (JObj [(''name'', JStr (org_name x)), (''metadata'', JObj (billingOwnerMetadata owner))], ''customer:org:'' @ org_id x))))"

definition createCustomer :: "(billing \<Rightarrow> billing) \<Rightarrow> StripeClient \<Rightarrow> BillingOwner \<Rightarrow> jsval \<Rightarrow> string \<Rightarrow> (billing, string) io" where
  "createCustomer other c owner body key =
     andNext (sending c ''customer'' body key) (\<lambda>customer.
     andNext (meanwhile other) (\<lambda>_.
     let customerId = textOf (jprop ''id'' customer) in
     catching (andNext (transaction (saveCustomer owner customerId)) (\<lambda>_. answer customerId))
       (\<lambda>e. if e \<noteq> PrismaKnown ''P2002'' then failing e
            else andNext (transaction (ownerCustomer owner)) (\<lambda>refreshed.
                 if truthy refreshed then answer (the refreshed) else failing e))))"

definition ensureCustomer ::
    "billing_env \<Rightarrow> app \<Rightarrow> (billing \<Rightarrow> billing) \<Rightarrow> ident \<Rightarrow> StripeClient option \<Rightarrow> (billing, string) io" where
  "ensureCustomer B A other userId client =
     andNext (calling (requireStripe client)) (\<lambda>c.
     andNext (calling (resolveBillingOwner B A userId)) (\<lambda>owner.
     andNext (transaction (customerRequest owner)) (\<lambda>found.
     case found of Inl existing \<Rightarrow> answer existing | Inr (body, key) \<Rightarrow> createCustomer other c owner body key)))"

section \<open>Chargeable items\<close>

record ChargeableAmount =
  ca_amount :: int
  ca_currency :: string
  ca_description :: string
  ca_metadata :: "(string \<times> jsval) list"

record ReservedChargeable = ChargeableAmount +
  rc_reservationId :: ident
  rc_reservationKeyHash :: string

definition assertChargeableWithinBounds :: "billing_env \<Rightarrow> 'a ChargeableAmount_scheme \<Rightarrow> thrown + unit" where
  "assertChargeableWithinBounds B chargeable =
     (let currency = toLowerCase (ca_currency chargeable); refuse = (\<lambda>m. Inl (App (badRequest (Some m) None))) in
      if ca_amount chargeable < 1 then refuse ''Chargeable amount must be a positive integer in minor units''
      else if currency \<notin> set (be_allowedCurrencies B) then refuse (''Currency '' @ currency @ '' is not enabled for charges'')
      else case be_maxAmount B currency of
        None \<Rightarrow> refuse (''No maximum charge amount is configured for '' @ currency)
      | Some maximum \<Rightarrow>
          if ca_amount chargeable > maximum then refuse (''Charge amount exceeds the configured maximum for '' @ currency)
          else case be_minAmount B currency of
            Some minimum \<Rightarrow>
              if ca_amount chargeable < minimum then refuse (''Charge amount is below the configured minimum for '' @ currency)
              else Inr ()
          | None \<Rightarrow> Inr ())"

definition assertItemOwnerAndExpiry :: "time \<Rightarrow> ChargeableItem \<Rightarrow> ident \<Rightarrow> thrown + unit" where
  "assertItemOwnerAndExpiry now item userId =
     (if (case it_expiresAt item of None \<Rightarrow> False | Some t \<Rightarrow> t \<le> now)
      then Inl (App (conflict (Some ''That chargeable item has expired'')))
      else if truthy (it_userId item) \<and> it_userId item \<noteq> Some userId
      then Inl (App (notFound (Some ''No chargeable item for that reference'')))
      else Inr ())"

definition itemAmount :: "ChargeableItem \<Rightarrow> ChargeableAmount" where
  "itemAmount item =
     \<lparr>ca_amount = it_amount item, ca_currency = toLowerCase (it_currency item), ca_description = it_description item,
      ca_metadata = (if it_id item = [] then [] else [(''chargeableItemId'', JStr (it_id item))])\<rparr>"

definition itemMetadata :: "string \<Rightarrow> ChargeableItem \<Rightarrow> (string \<times> jsval) list" where
  "itemMetadata reference item = [(''reference'', JStr reference), (''chargeableItemId'', JStr (it_id item))]"

definition reservedItem :: "ChargeableItem \<Rightarrow> string \<Rightarrow> string \<Rightarrow> ReservedChargeable" where
  "reservedItem item reference keyHash =
     \<lparr>ca_amount = ca_amount (itemAmount item), ca_currency = ca_currency (itemAmount item),
      ca_description = ca_description (itemAmount item), ca_metadata = itemMetadata reference item,
      rc_reservationId = it_id item, rc_reservationKeyHash = keyHash\<rparr>"

fun statusText :: "ChargeableStatus \<Rightarrow> string" where
  "statusText C_OPEN = ''open''"
| "statusText C_RESERVED = ''reserved''"
| "statusText C_CONSUMED = ''consumed''"
| "statusText C_EXPIRED = ''expired''"
| "statusText C_CANCELED = ''canceled''"

definition itemInSight :: "app \<Rightarrow> ChargeableItem \<Rightarrow> bool" where
  "itemInSight A i \<longleftrightarrow> within (scopedOrganization A) (it_organizationId i) \<and> it_deletedAt i = None"

definition findItem :: "app \<Rightarrow> (ChargeableItem \<Rightarrow> bool) \<Rightarrow> (billing, ChargeableItem option) tx" where
  "findItem A P =
     andThen (scoped A ''ChargeableItem.findFirst'') (\<lambda>_. findFirst chargeableItems (\<lambda>i. itemInSight A i \<and> P i))"

definition resolveItem :: "app \<Rightarrow> effects \<Rightarrow> string \<Rightarrow> ident \<Rightarrow> (billing, ChargeableAmount) tx" where
  "resolveItem A ef reference userId =
     andThen (findItem A (\<lambda>i. it_reference i = reference \<and> it_status i = C_OPEN)) (\<lambda>found.
     case found of
       None \<Rightarrow> throw (App (notFound (Some ''No open chargeable item for that reference'')))
     | Some item \<Rightarrow>
         andThen (attempt (assertItemOwnerAndExpiry (ef_now ef 0) item userId)) (\<lambda>_.
         ret ((itemAmount item)\<lparr>ca_metadata := itemMetadata reference item\<rparr>)))"

definition takeItem :: "time \<Rightarrow> string \<Rightarrow> ChargeableItem \<Rightarrow> ChargeableItem" where
  "takeItem now keyHash i = i\<lparr>it_status := C_RESERVED, it_reservationKeyHash := Some keyHash, it_reservedAt := Some now\<rparr>"

definition takeOpenItem :: "app \<Rightarrow> time \<Rightarrow> ident \<Rightarrow> string \<Rightarrow> (billing, nat) tx" where
  "takeOpenItem A now itemId keyHash =
     andThen (scoped A ''ChargeableItem.updateMany'') (\<lambda>_.
     updateItems (\<lambda>i. itemInSight A i \<and> it_id i = itemId \<and> it_status i = C_OPEN) (takeItem now keyHash))"

text \<open>Two attempts; the loop continues when another request took the item between the read and the update.\<close>

fun reserveItem ::
    "nat \<Rightarrow> app \<Rightarrow> effects \<Rightarrow> (nat \<Rightarrow> billing \<Rightarrow> billing) \<Rightarrow> string \<Rightarrow> ident \<Rightarrow> string \<Rightarrow> (billing, ReservedChargeable) io" where
  "reserveItem 0 A ef other reference userId keyHash =
     failing (App (conflict (Some ''That chargeable item changed while it was being reserved'')))"
| "reserveItem (Suc attempts) A ef other reference userId keyHash =
     andNext (transaction (findItem A (\<lambda>i. it_reference i = reference))) (\<lambda>found.
     case found of
       None \<Rightarrow> failing (App (notFound (Some ''No chargeable item for that reference'')))
     | Some item \<Rightarrow>
         andNext (calling (assertItemOwnerAndExpiry (ef_now ef attempts) item userId)) (\<lambda>_.
         if it_status item = C_RESERVED
         then if it_reservationKeyHash item \<noteq> Some keyHash
              then failing (App (conflict (Some ''That chargeable item is already reserved for another payment'')))
              else answer (reservedItem item reference keyHash)
         else if it_status item \<noteq> C_OPEN
         then failing (App (conflict (Some (''That chargeable item is '' @ statusText (it_status item)))))
         else
           andNext (meanwhile (other attempts)) (\<lambda>_.
           andNext (transaction (takeOpenItem A (ef_now ef (attempts + 2)) (it_id item) keyHash)) (\<lambda>n.
           if n \<noteq> 1 then reserveItem attempts A ef other reference userId keyHash
           else answer (reservedItem item reference keyHash)))))"

definition boundItem :: "time \<Rightarrow> string \<Rightarrow> bool \<Rightarrow> ChargeableItem \<Rightarrow> ChargeableItem" where
  "boundItem now intentId succeeded i =
     (if succeeded then i\<lparr>it_paymentIntentId := Some intentId, it_status := C_CONSUMED, it_consumedAt := Some now\<rparr>
      else i\<lparr>it_paymentIntentId := Some intentId\<rparr>)"

definition recordPaymentIntent :: "app \<Rightarrow> time \<Rightarrow> ReservedChargeable \<Rightarrow> string \<Rightarrow> bool \<Rightarrow> (billing, unit) io" where
  "recordPaymentIntent A now reservation intentId succeeded =
     andNext (transaction (andThen (scoped A ''ChargeableItem.updateMany'') (\<lambda>_.
        updateItems (\<lambda>i. itemInSight A i \<and> it_status i = C_RESERVED \<and>
                         boundTo (rc_reservationId reservation) (rc_reservationKeyHash reservation) intentId i)
          (boundItem now intentId succeeded)))) (\<lambda>n.
     if n \<noteq> 1 then failing (App (conflict (Some ''Chargeable item reservation no longer belongs to this payment'')))
     else answer ())"

definition requireDynamicPricing :: "billing_env \<Rightarrow> thrown + unit" where
  "requireDynamicPricing B =
     (if be_dynamicPricing B then Inr ()
      else Inl (App (conflict (Some ''Dynamic pricing is disabled; set DYNAMIC_PRICING_ENABLED=true''))))"

definition resolveChargeable :: "billing_env \<Rightarrow> app \<Rightarrow> effects \<Rightarrow> string \<Rightarrow> ident \<Rightarrow> (billing, ChargeableAmount) tx" where
  "resolveChargeable B A ef reference userId =
     andThen (attempt (requireDynamicPricing B)) (\<lambda>_.
     andThen (resolveItem A ef reference userId) (\<lambda>chargeable.
     let normalised = chargeable\<lparr>ca_currency := toLowerCase (ca_currency chargeable)\<rparr> in
     andThen (attempt (assertChargeableWithinBounds B normalised)) (\<lambda>_. ret normalised)))"

text \<open>A resolver, of which the table of items is the one that comes with the program.\<close>

record ChargeableResolver =
  cr_reserve :: "(string \<Rightarrow> ident \<Rightarrow> string \<Rightarrow> (billing, ReservedChargeable) io) option"
  cr_recordPaymentIntent :: "(ReservedChargeable \<Rightarrow> string \<Rightarrow> bool \<Rightarrow> (billing, unit) io) option"

definition chargeableItemResolver :: "app \<Rightarrow> effects \<Rightarrow> (nat \<Rightarrow> billing \<Rightarrow> billing) \<Rightarrow> ChargeableResolver" where
  "chargeableItemResolver A ef other =
     \<lparr>cr_reserve = Some (reserveItem 2 A ef other),
      cr_recordPaymentIntent = Some (recordPaymentIntent A (ef_now ef 5))\<rparr>"

definition reserveChargeable ::
    "billing_env \<Rightarrow> ChargeableResolver \<Rightarrow> string \<Rightarrow> ident \<Rightarrow> string \<Rightarrow> (billing, ReservedChargeable) io" where
  "reserveChargeable B resolver reference userId keyHash =
     andNext (calling (requireDynamicPricing B)) (\<lambda>_.
     case cr_reserve resolver of
       None \<Rightarrow> failing (App (serviceUnavailable (Some ''The configured chargeable resolver does not implement atomic reservation'')))
     | Some reserve \<Rightarrow>
         andNext (reserve reference userId keyHash) (\<lambda>chargeable.
         let normalised = chargeable\<lparr>ca_currency := toLowerCase (ca_currency chargeable)\<rparr> in
         andNext (calling (assertChargeableWithinBounds B normalised)) (\<lambda>_. answer normalised)))"

section \<open>Charges\<close>

definition safeRedirectUrl :: "billing_env \<Rightarrow> string option \<Rightarrow> string \<Rightarrow> thrown + string" where
  "safeRedirectUrl B input fallbackPath =
     (case be_parseUrl B (orElse input (be_resolvePath B fallbackPath)) of
        None \<Rightarrow> Inl (App (badRequest (Some ''Invalid redirect URL'') None))
      | Some (origin, url) \<Rightarrow>
          if origin \<noteq> be_appOrigin B then Inl (App (badRequest (Some ''Redirect URL must belong to APP_ORIGIN'') None))
          else Inr url)"

record CreateChargeInput =
  ch_reference :: string
  ch_savePaymentMethod :: bool
  ch_paymentMethodId :: "ident option"
  ch_returnUrl :: "string option"

record ChargeResult =
  cg_id :: string
  cg_status :: string
  cg_amount :: "int option"
  cg_currency :: string
  cg_requiresAction :: bool
  cg_clientSecret :: "string option"

definition toChargeResult :: "jsval \<Rightarrow> ChargeResult" where
  "toChargeResult intent =
     \<lparr>cg_id = textOf (jprop ''id'' intent), cg_status = textOf (jprop ''status'' intent),
      cg_amount = numberValue (jprop ''amount'' intent), cg_currency = textOf (jprop ''currency'' intent),
      cg_requiresAction = (jprop ''status'' intent = JStr ''requires_action'' \<or> jprop ''status'' intent = JStr ''requires_confirmation''),
      cg_clientSecret = textValue (jprop ''client_secret'' intent)\<rparr>"

definition findOwnedPaymentMethod :: "billing_env \<Rightarrow> app \<Rightarrow> ident \<Rightarrow> ident \<Rightarrow> (billing, PaymentMethod) tx" where
  "findOwnedPaymentMethod B A paymentMethodId userId =
     andThen (attempt (resolveBillingOwner B A userId)) (\<lambda>owner.
     andThen (ownerScoped A ''PaymentMethod.findFirst'') (\<lambda>_.
     andThen (findFirst paymentMethods (\<lambda>m. pm_id m = paymentMethodId \<and> billingOwnerWhere owner (pm_userId m) (pm_organizationId m) \<and>
                pm_detachedAt m = None \<and> pm_deletedAt m = None)) (\<lambda>found.
     case found of None \<Rightarrow> throw (App (notFound (Some ''Payment method not found''))) | Some m \<Rightarrow> ret m)))"

definition assertPaymentMethodOwned :: "billing_env \<Rightarrow> app \<Rightarrow> ident \<Rightarrow> ident \<Rightarrow> (billing, string) tx" where
  "assertPaymentMethodOwned B A userId paymentMethodId =
     andThen (findOwnedPaymentMethod B A paymentMethodId userId) (\<lambda>m. ret (pm_stripePaymentMethodId m))"

definition merged :: "(string \<times> jsval) list \<Rightarrow> (string \<times> jsval) list \<Rightarrow> (string \<times> jsval) list" where
  "merged base extra = foldl (\<lambda>ps (k, v). setProp k v ps) base extra"

definition chargeParams ::
    "ReservedChargeable \<Rightarrow> string \<Rightarrow> BillingOwner \<Rightarrow> CreateChargeInput \<Rightarrow> string option \<Rightarrow> string option \<Rightarrow> jsval" where
  "chargeParams chargeable customerId owner input savedPaymentMethod returnUrl =
     JObj ([(''amount'', JNum (ca_amount chargeable)), (''currency'', JStr (ca_currency chargeable)), (''customer'', JStr customerId),
            (''description'', JStr (ca_description chargeable)),
            (''metadata'', JObj (merged (ca_metadata chargeable) (billingOwnerMetadata owner @
               [(''reference'', JStr (ch_reference input)), (''chargeableReservationKeyHash'', JStr (rc_reservationKeyHash chargeable))])))] @
           (if truthy (ch_paymentMethodId input)
            then [(''payment_method'', JStr (orElse savedPaymentMethod [])), (''confirm'', JBool True), (''off_session'', JBool True)]
            else (''automatic_payment_methods'', JObj [(''enabled'', JBool True)]) #
                 (case returnUrl of None \<Rightarrow> [] | Some url \<Rightarrow> [(''return_url'', JStr url)])) @
           (if ch_savePaymentMethod input then [(''setup_future_usage'', JStr ''off_session'')] else []))"

definition paying :: "StripeClient \<Rightarrow> jsval \<Rightarrow> string \<Rightarrow> (billing, StripeFailure + jsval) io" where
  "paying c params key s = (Inr (sc_createIntent c params key), s\<lparr>requests := (key, params) # requests s\<rparr>)"

definition persistIntent :: "ChargeableResolver \<Rightarrow> ReservedChargeable \<Rightarrow> jsval \<Rightarrow> (billing, unit) io" where
  "persistIntent resolver chargeable intent =
     (case cr_recordPaymentIntent resolver of
        None \<Rightarrow> failing (App (serviceUnavailable (Some ''The configured chargeable resolver cannot record its provider payment'')))
      | Some record_intent \<Rightarrow>
          record_intent chargeable (textOf (jprop ''id'' intent)) (jprop ''status'' intent = JStr ''succeeded''))"

definition payReserved ::
    "StripeClient \<Rightarrow> (billing \<Rightarrow> billing) \<Rightarrow> ChargeableResolver \<Rightarrow> ReservedChargeable \<Rightarrow> jsval \<Rightarrow> string \<Rightarrow> (billing, ChargeResult) io" where
  "payReserved c other resolver chargeable params key =
     andNext (paying c params key) (\<lambda>result.
     andNext (meanwhile other) (\<lambda>_.
     case result of
       Inr intent \<Rightarrow> andNext (persistIntent resolver chargeable intent) (\<lambda>_. answer (toChargeResult intent))
     | Inl failure \<Rightarrow>
         (case sf_intent failure of
            Some intent \<Rightarrow>
              andNext (persistIntent resolver chargeable intent) (\<lambda>_.
              if sf_code failure = Some ''authentication_required''
              then answer ((toChargeResult intent)\<lparr>cg_requiresAction := True\<rparr>) else failing (sf_error failure))
          | None \<Rightarrow> failing (sf_error failure))))"

definition createCharge ::
    "billing_env \<Rightarrow> app \<Rightarrow> (nat \<Rightarrow> billing \<Rightarrow> billing) \<Rightarrow> ident \<Rightarrow> CreateChargeInput \<Rightarrow> string \<Rightarrow> StripeClient option \<Rightarrow>
     ChargeableResolver \<Rightarrow> (billing, ChargeResult) io" where
  "createCharge B A other userId input businessIdempotencyKey client resolver =
     andNext (calling (requireStripe client)) (\<lambda>c.
     andNext (calling (resolveBillingOwner B A userId)) (\<lambda>owner.
     andNext (ensureCustomer B A (other 0) userId client) (\<lambda>customerId.
     andNext (if truthy (ch_paymentMethodId input)
              then andNext (transaction (assertPaymentMethodOwned B A userId (the (ch_paymentMethodId input)))) (\<lambda>m. answer (Some m))
              else answer None) (\<lambda>savedPaymentMethod.
     andNext (calling (hashMetadata (cenv A) (prims A)
                (''chargeable-reservation:'' @ billingOwnerKey owner @ '':'' @ businessIdempotencyKey))) (\<lambda>reservationKeyHash.
     andNext (reserveChargeable B resolver (ch_reference input) userId reservationKeyHash) (\<lambda>chargeable.
     andNext (if truthy (ch_paymentMethodId input) \<or> \<not> truthy (ch_returnUrl input) then answer None
              else andNext (calling (safeRedirectUrl B (ch_returnUrl input) ''/billing'')) (\<lambda>url. answer (Some url))) (\<lambda>returnUrl.
     andNext (calling (hashMetadata (cenv A) (prims A) businessIdempotencyKey)) (\<lambda>keyHash.
     payReserved c (other 1) resolver chargeable (chargeParams chargeable customerId owner input savedPaymentMethod returnUrl)
       (''charge:'' @ billingOwnerKey owner @ '':'' @ keyHash)))))))))"

definition getCharge ::
    "billing_env \<Rightarrow> app \<Rightarrow> (billing \<Rightarrow> billing) \<Rightarrow> ident \<Rightarrow> string \<Rightarrow> StripeClient option \<Rightarrow> (billing, ChargeResult) io" where
  "getCharge B A other userId paymentIntentId client =
     andNext (calling (requireStripe client)) (\<lambda>c.
     andNext (calling (resolveBillingOwner B A userId)) (\<lambda>owner.
     andNext (ensureCustomer B A other userId client) (\<lambda>customerId.
     andNext (calling (sc_retrieve c ''payment_intent'' paymentIntentId)) (\<lambda>intent.
     let metadata = jprop ''metadata'' intent;
         matches = (case owner of
            OrganizationOwner g _ \<Rightarrow> jprop ''organizationId'' metadata = JStr g
          | UserOwner u \<Rightarrow> jprop ''userId'' metadata = JStr u \<and> textValue (jprop ''organizationId'' metadata) = None) in
     if \<not> matches \<and> customerOf (jprop ''customer'' intent) \<noteq> JStr customerId
     then failing (App (notFound (Some ''Payment not found'')))
     else answer (toChargeResult intent)))))"

section \<open>Refunds\<close>

record RefundInput =
  ri_paymentIntentId :: "string option"
  ri_chargeId :: "string option"
  ri_amount :: "int option"

record RefundTarget =
  tg_created :: int
  tg_currency :: string
  tg_refundableAmount :: int
  tg_refundable :: bool

definition numOf :: "jsval \<Rightarrow> int" where
  "numOf v = orElse (numberValue v) 0"

definition refundTargetDetails :: "jsval \<Rightarrow> RefundTarget" where
  "refundTargetDetails target =
     (if jprop ''object'' target = JStr ''payment_intent''
      then \<lparr>tg_created = numOf (jprop ''created'' target), tg_currency = toLowerCase (textOf (jprop ''currency'' target)),
            tg_refundableAmount = max 0 (numOf (jprop ''amount_received'' target) -
              numOf (jprop ''amount_refunded'' (asObject (jprop ''latest_charge'' target)))),
            tg_refundable = (jprop ''status'' target = JStr ''succeeded'')\<rparr>
      else \<lparr>tg_created = numOf (jprop ''created'' target), tg_currency = toLowerCase (textOf (jprop ''currency'' target)),
            tg_refundableAmount = max 0 (numOf (jprop ''amount'' target) - numOf (jprop ''amount_refunded'' target)),
            tg_refundable = (jprop ''paid'' target = JBool True \<and> jprop ''captured'' target = JBool True)\<rparr>)"

definition enforceSelfServiceRefundPolicy :: "billing_env \<Rightarrow> time \<Rightarrow> jsval \<Rightarrow> int option \<Rightarrow> thrown + int" where
  "enforceSelfServiceRefundPolicy B now target requestedAmount =
     (if \<not> be_refundSelfService B then Inl (App (forbidden (Some ''Self-service refunds are disabled'')))
      else let details = refundTargetDetails target in
        if \<not> tg_refundable details \<or> tg_refundableAmount details < 1
        then Inl (App (conflict (Some ''The payment has no refundable balance'')))
        else if now - tg_created details * 1000 > be_refundWindowDays B * 24 * 60 * 60 * 1000
        then Inl (App (forbidden (Some ''The self-service refund window has expired'')))
        else case be_refundMaxAmount B (tg_currency details) of
          None \<Rightarrow> Inl (App (forbidden (Some (''Self-service refunds are unavailable for '' @ tg_currency details))))
        | Some policyLimit \<Rightarrow>
            if policyLimit = 0 then Inl (App (forbidden (Some (''Self-service refunds are unavailable for '' @ tg_currency details))))
            else let amount = orElse requestedAmount (tg_refundableAmount details) in
              if amount > tg_refundableAmount details
              then Inl (App (badRequest (Some ''Refund amount exceeds the remaining refundable balance'') None))
              else if amount > policyLimit then Inl (App (forbidden (Some ''Refund amount requires administrative approval'')))
              else Inr amount)"

record RefundResult =
  rr_id :: string
  rr_status :: "string option"
  rr_amount :: "int option"
  rr_currency :: "string option"

definition storedRefund :: "StripeRefundOperation \<Rightarrow> RefundResult" where
  "storedRefund op = \<lparr>rr_id = the (ro_stripeRefundId op), rr_status = Some (ro_status op), rr_amount = ro_amount op, rr_currency = ro_currency op\<rparr>"

definition refundOf :: "jsval \<Rightarrow> RefundResult" where
  "refundOf refund = \<lparr>rr_id = textOf (jprop ''id'' refund), rr_status = textValue (jprop ''status'' refund),
     rr_amount = numberValue (jprop ''amount'' refund), rr_currency = textValue (jprop ''currency'' refund)\<rparr>"

definition ownOperation :: "BillingOwner \<Rightarrow> StripeRefundOperation \<Rightarrow> bool" where
  "ownOperation owner op \<longleftrightarrow> billingOwnerWhere owner (ro_userId op) (ro_organizationId op)"

definition refundClash :: "StripeRefundOperation \<Rightarrow> StripeRefundOperation \<Rightarrow> bool" where
  "refundClash a b \<longleftrightarrow> ro_id a = ro_id b \<or> (ro_ownerKey a = ro_ownerKey b \<and> ro_idempotencyKeyHash a = ro_idempotencyKeyHash b)"

definition newRefundOperation :: "effects \<Rightarrow> BillingOwner \<Rightarrow> string \<Rightarrow> string \<Rightarrow> RefundInput \<Rightarrow> int \<Rightarrow> StripeRefundOperation" where
  "newRefundOperation ef owner keyHash requestHash input amount =
     \<lparr>ro_id = ef_id ef 0, ro_organizationId = snd (billingOwnerData owner), ro_userId = fst (billingOwnerData owner),
      ro_ownerKey = billingOwnerKey owner, ro_idempotencyKeyHash = keyHash, ro_requestHash = requestHash,
      ro_paymentIntentId = ri_paymentIntentId input, ro_chargeId = ri_chargeId input, ro_requestedAmount = Some amount,
      ro_stripeRefundId = None, ro_status = ''PENDING'', ro_amount = None, ro_currency = None, ro_lastError = None,
      ro_completedAt = None, ro_createdAt = ef_now ef 1\<rparr>"

definition findOperation :: "app \<Rightarrow> BillingOwner \<Rightarrow> string list \<Rightarrow> (billing, StripeRefundOperation option) tx" where
  "findOperation A owner hashes =
     andThen (ownerScoped A ''StripeRefundOperation.findFirst'') (\<lambda>_.
     findFirst refundOperations (\<lambda>op. ro_ownerKey op = billingOwnerKey owner \<and> ownOperation owner op \<and>
                                      ro_idempotencyKeyHash op \<in> set hashes))"

definition createOperation :: "app \<Rightarrow> BillingOwner \<Rightarrow> StripeRefundOperation \<Rightarrow> (billing, StripeRefundOperation) tx" where
  "createOperation A owner row =
     andThen (ownerScoped A ''StripeRefundOperation.create'') (\<lambda>_.
     createRow refundOperations refundOperations_update refundClash row)"

text \<open>The row of a concurrent request with the same key.\<close>

definition currentOperation :: "app \<Rightarrow> BillingOwner \<Rightarrow> string \<Rightarrow> (billing, StripeRefundOperation) tx" where
  "currentOperation A owner keyHash =
     andThen (ownerScoped A ''StripeRefundOperation.findUniqueOrThrow'') (\<lambda>_.
     findFirstOrThrow refundOperations (\<lambda>op. ro_ownerKey op = billingOwnerKey owner \<and> ro_idempotencyKeyHash op = keyHash \<and>
                                             ownOperation owner op))"

definition refundParams :: "BillingOwner \<Rightarrow> RefundInput \<Rightarrow> int \<Rightarrow> StripeRefundOperation \<Rightarrow> jsval" where
  "refundParams owner input amount op =
     JObj [(if truthy (ri_paymentIntentId input) then (''payment_intent'', JStr (the (ri_paymentIntentId input)))
            else (''charge'', case ri_chargeId input of None \<Rightarrow> Undefined | Some t \<Rightarrow> JStr t)),
           (''amount'', JNum amount), (''reason'', JStr ''requested_by_customer''),
           (''metadata'', JObj (billingOwnerMetadata owner @ [(''refundOperationId'', JStr (ro_id op))]))]"

definition failOperation :: "app \<Rightarrow> BillingOwner \<Rightarrow> ident \<Rightarrow> thrown \<Rightarrow> (billing, unit) tx" where
  "failOperation A owner opId e =
     andThen (ownerScoped A ''StripeRefundOperation.update'') (\<lambda>_.
     updateRow refundOperations refundOperations_update (\<lambda>op. ro_id op = opId \<and> ownOperation owner op)
       (\<lambda>op. op\<lparr>ro_status := ''FAILED'', ro_lastError := Some (take 2000 (thrown_message e))\<rparr>))"

definition refundsUnique :: "billing \<Rightarrow> bool" where
  "refundsUnique s \<longleftrightarrow> uniqueBy ro_stripeRefundId (refundOperations s)"

definition completeOperation :: "time \<Rightarrow> jsval \<Rightarrow> StripeRefundOperation \<Rightarrow> StripeRefundOperation" where
  "completeOperation now refund op =
     op\<lparr>ro_stripeRefundId := Some (rr_id (refundOf refund)), ro_status := orElse (rr_status (refundOf refund)) ''pending'',
        ro_amount := rr_amount (refundOf refund), ro_currency := rr_currency (refundOf refund),
        ro_completedAt := Some now, ro_lastError := None\<rparr>"

definition optionalText :: "string \<Rightarrow> string option \<Rightarrow> (string \<times> jsval) list" where
  "optionalText k v = (case v of None \<Rightarrow> [] | Some t \<Rightarrow> [(k, JStr t)])"

definition recordRefund ::
    "app \<Rightarrow> effects \<Rightarrow> BillingOwner \<Rightarrow> ident \<Rightarrow> ident \<Rightarrow> RefundInput \<Rightarrow> RequestMetadata \<Rightarrow> jsval \<Rightarrow> (billing, unit) io" where
  "recordRefund A ef owner userId opId input metadata refund =
     auditedBilling A (\<lambda>audit.
       andThen (ownerScoped A ''StripeRefundOperation.updateMany'') (\<lambda>_.
       andThen (enforcing refundsUnique (updateMany refundOperations refundOperations_update
          (\<lambda>op. ro_id op = opId \<and> ownOperation owner op \<and> ro_stripeRefundId op = None) (completeOperation (ef_now ef 2) refund))) (\<lambda>n.
       if n = 1
       then audit (ef_id ef 1) (ef_now ef 3)
              (audit_of metadata (Some userId) ''billing.refund_created'' ''stripe_refund'' (Some (textOf (jprop ''id'' refund)))
                (Some (JObj ([(''refundOperationId'', JStr opId)] @ optionalText ''paymentIntentId'' (ri_paymentIntentId input) @
                        optionalText ''chargeId'' (ri_chargeId input) @
                        [(''amount'', jprop ''amount'' refund), (''currency'', jprop ''currency'' refund)]))))
       else ret ())))"

definition requestText :: "RefundInput \<Rightarrow> string" where
  "requestText input =
     ''refund-request:'' @ orElse (ri_paymentIntentId input) [] @ '':'' @ orElse (ri_chargeId input) [] @ '':'' @
     (case ri_amount input of None \<Rightarrow> ''full'' | Some a \<Rightarrow> jsonNumber a)"

definition keyReused :: thrown where
  "keyReused = App (conflict (Some ''Idempotency-Key was already used for a different refund request''))"

definition sendRefund ::
    "app \<Rightarrow> effects \<Rightarrow> (nat \<Rightarrow> billing \<Rightarrow> billing) \<Rightarrow> StripeClient \<Rightarrow> BillingOwner \<Rightarrow> ident \<Rightarrow> RefundInput \<Rightarrow> RequestMetadata \<Rightarrow>
     string \<Rightarrow> int \<Rightarrow> StripeRefundOperation \<Rightarrow> (billing, RefundResult) io" where
  "sendRefund A ef other c owner userId input metadata keyHash amount op =
     andNext (catching (sending c ''refund'' (refundParams owner input amount op)
                 (''refund:'' @ billingOwnerKey owner @ '':'' @ keyHash))
        (\<lambda>e. andNext (transaction (failOperation A owner (ro_id op) e)) (\<lambda>_. failing e))) (\<lambda>refund.
     andNext (meanwhile (other 3)) (\<lambda>_.
     andNext (recordRefund A ef owner userId (ro_id op) input metadata refund) (\<lambda>_.
     answer (refundOf refund))))"

definition checkTarget :: "ident \<Rightarrow> string \<Rightarrow> jsval \<Rightarrow> thrown + unit" where
  "checkTarget userId customerId target =
     (if jprop ''userId'' (jprop ''metadata'' target) \<noteq> JStr userId \<and> customerOf (jprop ''customer'' target) \<noteq> JStr customerId
      then Inl (App (notFound (Some ''Payment not found''))) else Inr ())"

definition createRefund ::
    "billing_env \<Rightarrow> app \<Rightarrow> effects \<Rightarrow> (nat \<Rightarrow> billing \<Rightarrow> billing) \<Rightarrow> ident \<Rightarrow> RefundInput \<Rightarrow> string \<Rightarrow> RequestMetadata \<Rightarrow>
     StripeClient option \<Rightarrow> (billing, RefundResult) io" where
  "createRefund B A ef other userId input businessIdempotencyKey metadata client =
     andNext (calling (requireStripe client)) (\<lambda>c.
     andNext (calling (resolveBillingOwner B A userId)) (\<lambda>owner.
     let idempotencyInput = ''refund-operation:'' @ businessIdempotencyKey in
     andNext (calling (hashMetadata (cenv A) (prims A) idempotencyInput)) (\<lambda>keyHash.
     andNext (calling (hashMetadata (cenv A) (prims A) (requestText input))) (\<lambda>requestHash.
     andNext (calling (candidateMetadataHashes (cenv A) (prims A) (requestText input))) (\<lambda>requestHashes.
     andNext (calling (candidateMetadataHashes (cenv A) (prims A) idempotencyInput)) (\<lambda>keyHashes.
     andNext (transaction (findOperation A owner keyHashes)) (\<lambda>found.
     if found \<noteq> None \<and> ro_requestHash (the found) \<notin> set requestHashes then failing keyReused
     else if found \<noteq> None \<and> truthy (ro_stripeRefundId (the found)) then answer (storedRefund (the found))
     else
       andNext (ensureCustomer B A (other 0) userId client) (\<lambda>customerId.
       andNext (calling (if truthy (ri_paymentIntentId input) then sc_retrieve c ''payment_intent'' (the (ri_paymentIntentId input))
                         else sc_retrieve c ''charge'' (orElse (ri_chargeId input) []))) (\<lambda>target.
       andNext (calling (checkTarget userId customerId target)) (\<lambda>_.
       andNext (calling (case Option.bind found ro_requestedAmount of
                           Some a \<Rightarrow> Inr a
                         | None \<Rightarrow> enforceSelfServiceRefundPolicy B (ef_now ef 0) target (ri_amount input))) (\<lambda>amount.
       andNext (meanwhile (other 1)) (\<lambda>_.
       andNext (case found of
                  Some op \<Rightarrow> answer op
                | None \<Rightarrow>
                    catching (transaction (createOperation A owner (newRefundOperation ef owner keyHash requestHash input amount)))
                      (\<lambda>e. if e \<noteq> PrismaKnown ''P2002'' then failing e else transaction (currentOperation A owner keyHash))) (\<lambda>op.
       if ro_requestHash op \<notin> set requestHashes then failing keyReused
       else if truthy (ro_stripeRefundId op) then answer (storedRefund op)
       else
         andNext (meanwhile (other 2)) (\<lambda>_.
         sendRefund A ef other c owner userId input metadata keyHash amount op))))))))))))))"

section \<open>What every operation keeps\<close>

text \<open>A condition on the chargeable items and the refund operations alone.\<close>

lemma commits_sum: "(\<And>x. v = Inl x \<Longrightarrow> commits Q (f x)) \<Longrightarrow> (\<And>y. v = Inr y \<Longrightarrow> commits Q (g y)) \<Longrightarrow>
   commits Q (case v of Inl x \<Rightarrow> f x | Inr y \<Rightarrow> g y)"
  by (simp split: sum.split)

lemma commits_prod: "(\<And>a b. v = (a, b) \<Longrightarrow> commits Q (f a b)) \<Longrightarrow> commits Q (case v of (a, b) \<Rightarrow> f a b)"
  by (simp split: prod.split)

lemmas commits_all = commits_rules commits_calling commits_sum commits_prod

text \<open>What the operations do to one item.\<close>

inductive item_move :: "ChargeableItem \<Rightarrow> ChargeableItem \<Rightarrow> bool" where
  taken: "it_status i = C_OPEN \<Longrightarrow> item_move i (takeItem now keyHash i)"
| bound: "it_status i = C_RESERVED \<Longrightarrow> it_reservationKeyHash i = Some keyHash \<Longrightarrow> it_paymentIntentId i \<in> {None, Some p} \<Longrightarrow>
     item_move i (i\<lparr>it_paymentIntentId := Some p\<rparr>)"
| paid: "it_status i \<in> {C_RESERVED, C_CONSUMED} \<Longrightarrow> it_reservationKeyHash i = Some keyHash \<Longrightarrow> it_paymentIntentId i \<in> {None, Some p} \<Longrightarrow>
     item_move i (i\<lparr>it_paymentIntentId := Some p, it_status := C_CONSUMED, it_consumedAt := Some now\<rparr>)"
| reopened: "it_status i = C_RESERVED \<Longrightarrow> item_move i (reopenItem i)"

definition moved :: "billing \<Rightarrow> billing \<Rightarrow> bool" where
  "moved s s' \<longleftrightarrow> (\<exists>P f. chargeableItems s' = update_many P f (chargeableItems s) \<and> (\<forall>i. P i \<longrightarrow> item_move i (f i)))"

lemma moved_same: "chargeableItems s' = chargeableItems s \<Longrightarrow> moved s s'"
  unfolding moved_def by (rule exI [of _ "\<lambda>_. False"]) (simp add: update_many_def)

lemma moved_update:
  assumes "updateItems P f s = Inr (n, s')" "\<And>i. P i \<Longrightarrow> item_move i (f i)"
  shows "moved s s'"
proof -
  have "chargeableItems s' = update_many P f (chargeableItems s)" using assms(1) by (auto simp: tx_simps)
  with assms(2) show ?thesis unfolding moved_def by blast
qed

lemma takeOpenItem_moves: "takeOpenItem A now itemId keyHash s = Inr (n, s') \<Longrightarrow> moved s s'"
  by (auto simp: takeOpenItem_def andThen_Inr scoped_Inr elim!: moved_update intro: taken)

lemma boundItem_move:
  "it_status i = C_RESERVED \<Longrightarrow> boundTo itemId keyHash p i \<Longrightarrow> item_move i (boundItem now p succeeded i)"
  by (cases succeeded) (auto simp: boundItem_def boundTo_def intro: bound paid)

lemma projectChargeableItem_moves:
  assumes "projectChargeableItem ef object s = Inr (n, s')"
  shows "moved s s'"
  using assms unfolding projectChargeableItem_def Let_def prod.case
  by (simp split: option.split_asm if_split_asm)
    (auto simp: ret_Inr boundTo_def intro: moved_same elim!: moved_update intro!: reopened intro: bound paid)

locale item_condition =
  fixes Q :: "billing \<Rightarrow> bool"
  assumes move: "moved s s' \<Longrightarrow> Q s \<Longrightarrow> Q s'"
begin

lemma items_only: "chargeableItems s' = chargeableItems s \<Longrightarrow> Q s \<Longrightarrow> Q s'"
  by (rule move [OF moved_same])

lemma tx_elsewhere: "(\<And>s a s'. m s = Inr (a, s') \<Longrightarrow> chargeableItems s' = chargeableItems s) \<Longrightarrow> commits Q (transaction m)"
  by (rule commits_transaction) (metis items_only)

lemma sending_keeps: "commits Q (sending c what body key)" "commits Q (paying c body key)"
  by (auto simp: commits_def sending_def paying_def elim!: items_only [rotated])

lemma ensureCustomer_keeps:
  assumes "\<And>x. Q x \<Longrightarrow> Q (other x)"
  shows "commits Q (ensureCustomer B A other userId client)"
  unfolding ensureCustomer_def createCustomer_def Let_def
  by (intro commits_all commits_meanwhile tx_elsewhere sending_keeps assms)
    (auto simp: customerRequest_def ownerCustomer_def getBillingUser_def getBillingOrganization_def saveCustomer_def tx_simps
      split: BillingOwner.split_asm option.split_asm)

lemma reserveItem_keeps:
  assumes "\<And>n x. Q x \<Longrightarrow> Q (other n x)"
  shows "commits Q (reserveItem attempts A ef other reference userId keyHash)"
proof (induction attempts)
  case 0
  then show ?case by (simp add: commits_pure)
next
  case (Suc attempts)
  have grab: "commits Q (transaction (takeOpenItem A now itemId keyHash))" for now itemId
    by (rule commits_transaction) (rule move [OF takeOpenItem_moves])
  have look: "commits Q (transaction (findItem A P))" for P
    by (rule tx_elsewhere) (auto simp: findItem_def tx_simps)
  show ?case
    unfolding reserveItem.simps by (intro commits_all commits_meanwhile look grab assms Suc)
qed

lemma recordPaymentIntent_keeps: "commits Q (recordPaymentIntent A now reservation intentId succeeded)"
proof -
  have "commits Q (transaction (andThen (scoped A ''ChargeableItem.updateMany'') (\<lambda>_.
        updateItems (\<lambda>i. itemInSight A i \<and> it_status i = C_RESERVED \<and> boundTo itemId keyHash intentId i)
          (boundItem now intentId succeeded))))" for itemId keyHash
    by (rule commits_transaction)
      (auto simp: andThen_Inr scoped_Inr intro: boundItem_move elim!: move [OF moved_update])
  then show ?thesis unfolding recordPaymentIntent_def by (intro commits_all)
qed

lemma createCharge_keeps:
  assumes "\<And>n x. Q x \<Longrightarrow> Q (other n x)"
  shows "commits Q (createCharge B A other userId input key client (chargeableItemResolver A' ef other))"
  unfolding createCharge_def reserveChargeable_def payReserved_def persistIntent_def chargeableItemResolver_def Let_def
  by (intro commits_all commits_meanwhile ensureCustomer_keeps sending_keeps)
    (auto intro!: commits_all tx_elsewhere reserveItem_keeps recordPaymentIntent_keeps assms
      simp: assertPaymentMethodOwned_def findOwnedPaymentMethod_def ownerScoped_def tx_simps split: option.split_asm)

end

lemma keeps_optionally: "(b \<Longrightarrow> keeps I m) \<Longrightarrow> keeps I (optionally b m)"
  by (auto simp: optionally_def intro!: keeps_andThen)

lemma keeps_option:
  "(v = None \<Longrightarrow> keeps I m) \<Longrightarrow> (\<And>x. v = Some x \<Longrightarrow> keeps I (f x)) \<Longrightarrow> keeps I (case v of None \<Rightarrow> m | Some x \<Rightarrow> f x)"
  by (simp split: option.split)

context item_condition
begin

lemma keeps_elsewhere: "(\<And>s a s'. m s = Inr (a, s') \<Longrightarrow> chargeableItems s' = chargeableItems s) \<Longrightarrow> keeps Q m"
  unfolding keeps_def by (metis items_only)

lemma projections_keep:
  "keeps Q (upsertPayment ef at input cursor)" "keeps Q (projectIntent ef eventType at object cursor)"
  "keeps Q (projectRefund ef at object cursor)" "keeps Q (projectAttachedPaymentMethod ef at object)"
  "keeps Q (projectSubscription ef at object cursor)" "keeps Q (projectDefaultCard at object)"
  "keeps Q (markProcessed wid now)" "keeps Q (updateCards P f)"
  by (rule keeps_elsewhere;
      auto simp: upsertPayment_def projectIntent_def projectRefund_def projectAttachedPaymentMethod_def projectSubscription_def
        projectDefaultCard_def markProcessed_def tx_simps Let_def split: option.split_asm if_split_asm)+

lemma projectEvent_keeps: "keeps Q (projectEvent ef stored object saved cursor)"
proof -
  have "keeps Q (projectChargeableItem ef object)" unfolding keeps_def by (metis move projectChargeableItem_moves)
  then show ?thesis
    unfolding projectEvent_def Let_def by (intro keeps_andThen keeps_optionally projections_keep keeps_pure)
qed

lemma processStoredStripeEvent_keeps:
  assumes "\<And>n x. Q x \<Longrightarrow> Q (other n x)"
  shows "commits Q (processStoredStripeEvent ef other wid client)"
proof -
  have tx: "commits Q (transaction (projectEvent ef stored object saved cursor))" for stored object saved cursor
    unfolding commits_def using keeps_transaction [OF projectEvent_keeps] by blast
  have look: "commits Q (transaction (findFirst webhookEvents P))" for P
    by (simp add: commits_def)
  show ?thesis
    unfolding processStoredStripeEvent_def Let_def by (intro commits_all commits_meanwhile tx look assms)
qed

end

section \<open>A consumed item is final\<close>

definition consumedBy :: "ident \<Rightarrow> string \<Rightarrow> billing \<Rightarrow> bool" where
  "consumedBy itemId intentId s \<longleftrightarrow>
     (\<exists>i\<in>set (chargeableItems s). it_id i = itemId \<and> it_status i = C_CONSUMED \<and> it_paymentIntentId i = Some intentId)"

interpretation consumed: item_condition "consumedBy itemId intentId" for itemId intentId
proof
  fix s s' assume "moved s s'" "consumedBy itemId intentId s"
  then obtain P f i where u: "chargeableItems s' = update_many P f (chargeableItems s)" "\<And>i. P i \<Longrightarrow> item_move i (f i)"
    and i: "i \<in> set (chargeableItems s)" "it_id i = itemId" "it_status i = C_CONSUMED" "it_paymentIntentId i = Some intentId"
    by (auto simp: moved_def consumedBy_def)
  have "it_id (f i) = itemId \<and> it_status (f i) = C_CONSUMED \<and> it_paymentIntentId (f i) = Some intentId" if "P i"
    using u(2) [OF that] i(2-4) by cases auto
  moreover have "(if P i then f i else i) \<in> set (chargeableItems s')" using i(1) by (simp add: u(1) set_update_many)
  ultimately show "consumedBy itemId intentId s'"
    unfolding consumedBy_def using i(2-4) by (intro bexI [of _ "if P i then f i else i"]) simp_all
qed

end
