(* ===== verification/Charge_Safety.thy ===== *)
theory Charge_Safety
  imports Charges
begin

text \<open>
  What leaves for the payment provider: the amounts of the payments and refunds it is asked for, and that an
  item taken by one request is not paid by another. The operations are those of \<open>Billing\<close> and \<open>Charges\<close>.
\<close>

section \<open>Outcomes\<close>

text \<open>
  \<open>outcome Q m R E\<close>: started where \<open>Q\<close> holds, the computation returns a value and a state related by
  \<open>R\<close>, or throws and leaves a state with \<open>E\<close>.
\<close>

definition outcome :: "('s \<Rightarrow> bool) \<Rightarrow> ('s, 'a) io \<Rightarrow> ('a \<Rightarrow> 's \<Rightarrow> bool) \<Rightarrow> ('s \<Rightarrow> bool) \<Rightarrow> bool" where
  "outcome Q m R E \<longleftrightarrow>
     (\<forall>s. Q s \<longrightarrow> (\<forall>a s'. m s = (Inr a, s') \<longrightarrow> R a s') \<and> (\<forall>e s'. m s = (Inl e, s') \<longrightarrow> E s'))"

lemma outcomeI:
  "(\<And>s a s'. Q s \<Longrightarrow> m s = (Inr a, s') \<Longrightarrow> R a s') \<Longrightarrow> (\<And>s e s'. Q s \<Longrightarrow> m s = (Inl e, s') \<Longrightarrow> E s') \<Longrightarrow> outcome Q m R E"
  by (simp add: outcome_def)

lemma outcomeD:
  assumes "outcome Q m R E" "Q s"
  shows "m s = (Inr a, s') \<Longrightarrow> R a s'" "m s = (Inl e, s') \<Longrightarrow> E s'"
  using assms by (simp_all add: outcome_def)

lemma outcome_commits: "commits Q m \<Longrightarrow> outcome Q m (\<lambda>_. Q) Q"
  by (rule outcomeI) (metis commitsD snd_conv)+

lemma commits_outcome: "outcome Q m (\<lambda>_. Q) Q \<Longrightarrow> commits Q m"
  unfolding commits_def by (intro allI impI io_state [where Q = Q]) (rule outcomeD; assumption)+

lemma outcome_mono:
  "outcome Q m R E \<Longrightarrow> (\<And>s. Q' s \<Longrightarrow> Q s) \<Longrightarrow> (\<And>a s. R a s \<Longrightarrow> R' a s) \<Longrightarrow> (\<And>s. E s \<Longrightarrow> E' s) \<Longrightarrow> outcome Q' m R' E'"
  unfolding outcome_def by blast

lemma outcome_andNext:
  assumes "outcome Q m R E" "\<And>a. outcome (R a) (f a) T E"
  shows "outcome Q (andNext m f) T E"
proof (rule outcomeI)
  fix s b s'' assume q: "Q s"
  show "T b s''" if "andNext m f s = (Inr b, s'')"
    using that outcomeD(1) [OF assms(1) q] outcomeD(1) [OF assms(2)] unfolding andNext_Inr by blast
  show "E s''" if "andNext m f s = (Inl e, s'')" for e
    using that outcomeD [OF assms(1) q] outcomeD(2) [OF assms(2)] unfolding andNext_Inl by blast
qed

lemma outcome_after: "commits Q m \<Longrightarrow> (\<And>s. Q s \<Longrightarrow> E s) \<Longrightarrow> (\<And>a. outcome Q (f a) T E) \<Longrightarrow> outcome Q (andNext m f) T E"
  by (rule outcome_andNext [of _ _ "\<lambda>_. Q"]) (auto intro: outcome_mono [OF outcome_commits])

lemma outcome_calling:
  assumes "\<And>s. Q s \<Longrightarrow> E s" "\<And>a. r = Inr a \<Longrightarrow> outcome Q (f a) T E"
  shows "outcome Q (andNext (calling r) f) T E"
proof (rule outcomeI)
  fix s b s'' assume q: "Q s"
  show "T b s''" if "andNext (calling r) f s = (Inr b, s'')"
    using that outcomeD(1) [OF assms(2) q] by (auto simp: andNext_Inr calling_def)
  show "E s''" if "andNext (calling r) f s = (Inl e, s'')" for e
    using that outcomeD(2) [OF assms(2) q] assms(1) [OF q] by (auto simp: andNext_Inl calling_def)
qed

lemma outcome_transaction:
  assumes "\<And>s. Q s \<Longrightarrow> E s" "\<And>s a s'. Q s \<Longrightarrow> m s = Inr (a, s') \<Longrightarrow> R a s'"
  shows "outcome Q (transaction m) R E"
  using assms by (auto simp: outcome_def transaction_cases)

lemma outcome_answer: "(\<And>s. Q s \<Longrightarrow> R a s) \<Longrightarrow> outcome Q (answer a) R E" "(\<And>s. Q s \<Longrightarrow> E s) \<Longrightarrow> outcome Q (failing e) R E"
  by (simp_all add: outcome_def answer_def failing_def)

lemma outcome_vacuous: "outcome (\<lambda>s. P s \<and> False) m R E"
  by (simp add: outcome_def)

section \<open>Conditions on what was sent\<close>

text \<open>A new customer is sent with these properties alone.\<close>

definition plainBody :: "jsval \<Rightarrow> bool" where
  "plainBody body \<longleftrightarrow> (\<forall>k. k \<notin> {''email'', ''name'', ''metadata''} \<longrightarrow> jprop k body = Undefined)"

locale sent_condition =
  fixes Q :: "billing \<Rightarrow> bool"
  assumes elsewhere: "chargeableItems s' = chargeableItems s \<Longrightarrow> requests s' = requests s \<Longrightarrow> Q s \<Longrightarrow> Q s'"
    and unpriced: "plainBody body \<Longrightarrow> Q s \<Longrightarrow> Q (s\<lparr>requests := (key, body) # requests s\<rparr>)"
begin

lemma other_tables:
  "(\<And>s a s'. m s = Inr (a, s') \<Longrightarrow> chargeableItems s' = chargeableItems s \<and> requests s' = requests s) \<Longrightarrow> commits Q (transaction m)"
  by (rule commits_transaction) (metis elsewhere)

lemma customers_keep:
  "commits Q (transaction (saveCustomer owner customerId))" "commits Q (transaction (ownerCustomer owner))"
  by (rule other_tables;
      auto simp: saveCustomer_def ownerCustomer_def getBillingUser_def getBillingOrganization_def tx_simps
        split: BillingOwner.split_asm option.split_asm)+

lemma createCustomer_keeps:
  assumes "\<And>x. Q x \<Longrightarrow> Q (other x)" "plainBody body"
  shows "commits Q (createCustomer other c owner body key)"
proof -
  have "commits Q (sending c what body key)" for what
    using assms(2) by (simp add: commits_def sending_def unpriced)
  then show ?thesis
    unfolding createCustomer_def Let_def by (intro commits_all commits_meanwhile customers_keep assms(1))
qed

lemma customerRequest_outcome:
  "outcome Q (transaction (customerRequest owner))
     (\<lambda>v s. Q s \<and> (case v of Inl _ \<Rightarrow> True | Inr (body, key) \<Rightarrow> plainBody body)) Q"
  by (rule outcome_transaction)
    (auto simp: customerRequest_def getBillingUser_def getBillingOrganization_def tx_simps plainBody_def getProp_def
       split: BillingOwner.split_asm option.split_asm if_split_asm)

lemma ensureCustomer_keeps:
  assumes "\<And>x. Q x \<Longrightarrow> Q (other x)"
  shows "commits Q (ensureCustomer B A other userId client)"
proof -
  have "outcome (\<lambda>s. Q s \<and> (case v of Inl _ \<Rightarrow> True | Inr (body, key) \<Rightarrow> plainBody body))
      (case v of Inl existing \<Rightarrow> answer existing | Inr (body, key) \<Rightarrow> createCustomer other c owner body key) (\<lambda>_. Q) Q" for v c owner
  proof (cases v)
    case (Inl x)
    then show ?thesis by (simp add: outcome_answer)
  next
    case (Inr y)
    obtain body key where y: "y = (body, key)" by (cases y)
    show ?thesis
    proof (cases "plainBody body")
      case True
      with Inr y show ?thesis by (simp add: outcome_commits createCustomer_keeps [OF assms])
    next
      case False
      with Inr y show ?thesis by (simp add: outcome_def)
    qed
  qed
  then have "commits Q (andNext (transaction (customerRequest owner))
      (\<lambda>v. case v of Inl existing \<Rightarrow> answer existing | Inr (body, key) \<Rightarrow> createCustomer other c owner body key))" for c owner
    by (intro commits_outcome outcome_andNext [OF customerRequest_outcome])
  then show ?thesis
    unfolding ensureCustomer_def by (intro commits_andNext [OF commits_calling])
qed

lemma methodOwned_keeps: "commits Q (transaction (assertPaymentMethodOwned B A userId m))"
  by (rule other_tables)
    (auto simp: assertPaymentMethodOwned_def findOwnedPaymentMethod_def ownerScoped_def tx_simps split: option.split_asm)

text \<open>A charge is a reservation, which decides what the payment may be, and the payment.\<close>

lemma createCharge_outcome:
  assumes others: "\<And>x. Q x \<Longrightarrow> Q (other 0 x)" and fails: "\<And>s. Q s \<Longrightarrow> E s" "\<And>a s. R a s \<Longrightarrow> E s"
    and reserve: "\<And>owner keyHash. resolveBillingOwner B A userId = Inr owner \<Longrightarrow>
       hashMetadata (cenv A) (prims A) (''chargeable-reservation:'' @ billingOwnerKey owner @ '':'' @ businessKey) = Inr keyHash \<Longrightarrow>
       outcome Q (reserveChargeable B resolver (ch_reference input) userId keyHash) R E"
    and pay: "\<And>c chargeable customerId owner saved url key.
       outcome (R chargeable) (payReserved c (other 1) resolver chargeable (chargeParams chargeable customerId owner input saved url) key) T E"
  shows "outcome Q (createCharge B A other userId input businessKey client resolver) T E"
proof -
  have url: "commits (R a) (if b then answer None else andNext (calling r) (\<lambda>url. answer (Some url)))" for a b r
    by (intro commits_all)
  have saved: "commits Q (if b then andNext (transaction (assertPaymentMethodOwned B A userId m)) (\<lambda>m. answer (Some m)) else answer None)" for b m
    by (intro commits_all methodOwned_keeps)
  show ?thesis
    unfolding createCharge_def
    by (intro outcome_calling outcome_after [OF ensureCustomer_keeps [OF others]] outcome_after [OF saved]
        outcome_andNext [OF reserve] outcome_after [OF url] pay fails; assumption)
qed

end


section \<open>Reservations\<close>

text \<open>The prices on record, which no operation changes.\<close>

definition prices :: "billing \<Rightarrow> (string \<times> int \<times> string) set" where
  "prices s = (\<lambda>i. (it_reference i, it_amount i, toLowerCase (it_currency i))) ` set (chargeableItems s)"

lemma moved_prices:
  assumes "moved s s'"
  shows "prices s' = prices s"
proof -
  from assms obtain P f where u: "chargeableItems s' = update_many P f (chargeableItems s)" "\<And>i. P i \<Longrightarrow> item_move i (f i)"
    by (auto simp: moved_def)
  have "it_reference (f i) = it_reference i \<and> it_amount (f i) = it_amount i \<and> it_currency (f i) = it_currency i" if "P i" for i
    using u(2) [OF that] by cases (simp_all add: takeItem_def reopenItem_def)
  then have "(\<lambda>i. (it_reference i, it_amount i, toLowerCase (it_currency i))) (if P i then f i else i) =
      (it_reference i, it_amount i, toLowerCase (it_currency i))" for i
    by simp
  then show ?thesis by (simp add: prices_def u(1) update_many_def image_image del: if_image_distrib)
qed

text \<open>The requests with an amount sent since a state satisfy a condition on their bodies.\<close>

definition sentSince :: "billing \<Rightarrow> (jsval \<Rightarrow> bool) \<Rightarrow> billing \<Rightarrow> bool" where
  "sentSince s0 ok s \<longleftrightarrow>
     (\<forall>r\<in>set (requests s). r \<in> set (requests s0) \<or> jprop ''amount'' (snd r) = Undefined \<or> ok (snd r))"

lemma sentSince_start: "sentSince s ok s"
  by (simp add: sentSince_def)

lemma sentSinceD:
  "sentSince s0 ok s \<Longrightarrow> r \<in> set (requests s) \<Longrightarrow> r \<notin> set (requests s0) \<Longrightarrow> jprop ''amount'' (snd r) \<noteq> Undefined \<Longrightarrow> ok (snd r)"
  unfolding sentSince_def by blast

lemma sentSince_pay: "sentSince s0 ok s \<Longrightarrow> ok body \<Longrightarrow> sentSince s0 ok (s\<lparr>requests := (key, body) # requests s\<rparr>)"
  by (simp add: sentSince_def)

interpretation priced: sent_condition "\<lambda>s. prices s = p \<and> sentSince s0 ok s" for p s0 ok
  by unfold_locales (auto simp: prices_def sentSince_def plainBody_def)

lemma findItem_Inr:
  assumes "findItem A P s = Inr (found, s')"
  shows "s' = s" "found = Some item \<Longrightarrow> item \<in> set (chargeableItems s) \<and> itemInSight A item \<and> P item"
  using assms find_first_SomeD [of "\<lambda>i. itemInSight A i \<and> P i" "chargeableItems s" item]
  by (auto simp: findItem_def tx_simps)

lemma takeOpenItem_requests: "takeOpenItem A now itemId keyHash s = Inr (n, s') \<Longrightarrow> requests s' = requests s"
  by (auto simp: takeOpenItem_def tx_simps)

lemma outcome_if: "(b \<Longrightarrow> outcome Q m R E) \<Longrightarrow> (\<not> b \<Longrightarrow> outcome Q n R E) \<Longrightarrow> outcome Q (if b then m else n) R E"
  by simp

lemma outcome_assuming: "(b \<Longrightarrow> outcome Q m R E) \<Longrightarrow> outcome (\<lambda>s. Q s \<and> b) m R E"
  by (cases b) (simp_all add: outcome_def)

text \<open>The loop returns an item it found reserved under its own key, or one it took.\<close>

lemma reserveItem_outcome:
  assumes others: "\<And>n x. Q x \<Longrightarrow> Q (other n x)"
    and seen: "\<And>s item. Q s \<Longrightarrow> item \<in> set (chargeableItems s) \<Longrightarrow> itemInSight A item \<Longrightarrow> it_reference item = reference \<Longrightarrow> K item"
    and held: "\<And>s item. Q s \<Longrightarrow> item \<in> set (chargeableItems s) \<Longrightarrow> itemInSight A item \<Longrightarrow> it_reference item = reference \<Longrightarrow>
       it_status item = C_RESERVED \<Longrightarrow> it_reservationKeyHash item = Some keyHash \<Longrightarrow> R (reservedItem item reference keyHash) s"
    and take: "\<And>s s' now item n. Q s \<Longrightarrow> K item \<Longrightarrow> it_status item = C_OPEN \<Longrightarrow> takeOpenItem A now (it_id item) keyHash s = Inr (n, s') \<Longrightarrow>
       (if n = 1 then R (reservedItem item reference keyHash) s' else Q s')"
  shows "outcome Q (reserveItem attempts A ef other reference userId keyHash) R Q"
proof (induction attempts)
  case 0
  then show ?case by (simp add: outcome_answer)
next
  case (Suc attempts)
  define sighted where "sighted v s \<longleftrightarrow> (\<forall>item. v = Some item \<longrightarrow> item \<in> set (chargeableItems s) \<and> itemInSight A item \<and> it_reference item = reference)"
    for v :: "ChargeableItem option" and s :: billing
  have look: "outcome Q (transaction (findItem A (\<lambda>i. it_reference i = reference))) (\<lambda>v s. Q s \<and> sighted v s) Q"
  proof (rule outcome_transaction)
    fix s v s' assume "Q s" "findItem A (\<lambda>i. it_reference i = reference) s = Inr (v, s')"
    with findItem_Inr [OF this(2)] show "Q s' \<and> sighted v s'" by (simp add: sighted_def)
  qed
  have idle: "commits Q (meanwhile (other attempts))"
    by (rule commits_meanwhile) (rule others)
  have open_item: "outcome (\<lambda>s. Q s \<and> (K item \<and> it_status item = C_OPEN)) (andNext (meanwhile (other attempts)) (\<lambda>_.
       andNext (transaction (takeOpenItem A now (it_id item) keyHash)) (\<lambda>n.
       if n \<noteq> 1 then reserveItem attempts A ef other reference userId keyHash else answer (reservedItem item reference keyHash)))) R Q"
    for item now
  proof (rule outcome_assuming)
    assume K: "K item \<and> it_status item = C_OPEN"
    have "outcome Q (transaction (takeOpenItem A now (it_id item) keyHash))
        (\<lambda>n s. if n = 1 then R (reservedItem item reference keyHash) s else Q s) Q"
      by (rule outcome_transaction) (use take K in auto)
    then show "outcome Q (andNext (meanwhile (other attempts)) (\<lambda>_.
       andNext (transaction (takeOpenItem A now (it_id item) keyHash)) (\<lambda>n.
       if n \<noteq> 1 then reserveItem attempts A ef other reference userId keyHash else answer (reservedItem item reference keyHash)))) R Q"
      by (intro outcome_after [OF idle] outcome_andNext [where R = "\<lambda>n s. if n = 1 then R (reservedItem item reference keyHash) s else Q s"]
          outcome_if outcome_mono [OF Suc] outcome_answer) simp_all
  qed
  have step: "outcome (\<lambda>s. Q s \<and> sighted v s)
      (case v of None \<Rightarrow> failing e | Some item \<Rightarrow>
        andNext (calling (assertItemOwnerAndExpiry (ef_now ef attempts) item userId)) (\<lambda>_.
        if it_status item = C_RESERVED
        then if it_reservationKeyHash item \<noteq> Some keyHash then failing e' else answer (reservedItem item reference keyHash)
        else if it_status item \<noteq> C_OPEN then failing (e'' item)
        else andNext (meanwhile (other attempts)) (\<lambda>_.
             andNext (transaction (takeOpenItem A (ef_now ef (attempts + 2)) (it_id item) keyHash)) (\<lambda>n.
             if n \<noteq> 1 then reserveItem attempts A ef other reference userId keyHash else answer (reservedItem item reference keyHash))))) R Q"
    for v e e' e''
  proof (cases v)
    case None
    then show ?thesis unfolding None option.case by (intro outcome_answer) simp
  next
    case (Some item)
    show ?thesis
      unfolding Some option.case
    proof (intro outcome_calling outcome_if outcome_answer, goal_cases)
      case (3 u s)
      then show ?case by (simp add: sighted_def held)
    next
      case (5 u)
      have "K item" if "Q s" "sighted (Some item) s" for s
        using that seen [of s item] by (simp add: sighted_def)
      with 5 show ?case by (intro outcome_mono [OF open_item]) blast+
    qed (erule conjunct1)+
  qed
  show ?case unfolding reserveItem.simps by (rule outcome_andNext [OF look step])
qed

lemma lower_char_idem: "lower_char (lower_char c) = lower_char c"
  by (simp add: lower_char_def)

lemma toLowerCase_idem [simp]: "toLowerCase (toLowerCase x) = toLowerCase x"
  by (simp add: toLowerCase_def lower_char_idem)

lemma reserveItem_priced:
  assumes "\<And>n x. prices (other n x) = prices x \<and> requests (other n x) = requests x"
  shows "outcome (\<lambda>s. prices s = p \<and> sentSince s0 ok s) (reserveItem attempts A ef other reference userId keyHash)
     (\<lambda>r s. (prices s = p \<and> sentSince s0 ok s) \<and> (reference, ca_amount r, ca_currency r) \<in> p)
     (\<lambda>s. prices s = p \<and> sentSince s0 ok s)"
proof (rule reserveItem_outcome [where K = "\<lambda>item. (reference, it_amount item, toLowerCase (it_currency item)) \<in> p"], goal_cases)
  case (1 n x)
  with assms [of n x] show ?case by (simp add: sentSince_def)
next
  case (4 s s' now item n)
  from moved_prices [OF takeOpenItem_moves [OF 4(4)]] takeOpenItem_requests [OF 4(4)] 4(1,2)
  show ?case by (simp add: reservedItem_def itemAmount_def sentSince_def)
qed (auto simp: prices_def reservedItem_def itemAmount_def)


section \<open>Payments\<close>

lemma payReserved_outcome:
  assumes pay: "\<And>s. Q s \<Longrightarrow> Q' (s\<lparr>requests := (key, params) # requests s\<rparr>)"
    and others: "\<And>x. Q' x \<Longrightarrow> Q' (other x)"
    and stored: "\<And>intentId succeeded. commits Q' (recordPaymentIntent A (ef_now ef 5) chargeable intentId succeeded)"
  shows "outcome Q (payReserved c other (chargeableItemResolver A ef other') chargeable params key) (\<lambda>_. Q') Q'"
proof -
  have "outcome Q (paying c params key) (\<lambda>_. Q') Q'"
    using pay by (simp add: outcome_def paying_def)
  moreover have "commits Q' (persistIntent (chargeableItemResolver A ef other') chargeable intent)" for intent
    unfolding persistIntent_def chargeableItemResolver_def by (simp add: stored)
  ultimately show ?thesis
    unfolding payReserved_def
    by (intro outcome_andNext [of Q _ "\<lambda>_. Q'"] outcome_commits commits_all commits_meanwhile others)
qed

lemma recordPaymentIntent_commits:
  assumes "\<And>s s' P now p b. Q s \<Longrightarrow> moved s s' \<Longrightarrow> requests s' = requests s \<Longrightarrow> Q s'"
  shows "commits Q (recordPaymentIntent A now reservation intentId succeeded)"
proof -
  have "commits Q (transaction (andThen (scoped A ''ChargeableItem.updateMany'') (\<lambda>_.
        updateItems (\<lambda>i. itemInSight A i \<and> it_status i = C_RESERVED \<and> boundTo itemId keyHash intentId i)
          (boundItem now intentId succeeded))))" (is "commits Q (transaction ?m)") for itemId keyHash
  proof (rule commits_transaction)
    fix s n s' assume m: "?m s = Inr (n, s')" and q: "Q s"
    then have "moved s s'" by (auto simp: andThen_Inr scoped_Inr intro: boundItem_move elim!: moved_update)
    moreover have "requests s' = requests s" using m by (auto simp: tx_simps)
    ultimately show "Q s'" by (rule assms [OF q])
  qed
  then show ?thesis unfolding recordPaymentIntent_def by (intro commits_all)
qed

text \<open>A payment for an amount on record for the reference and within the configured bounds.\<close>

definition lawfulPayment :: "billing_env \<Rightarrow> string \<Rightarrow> (string \<times> int \<times> string) set \<Rightarrow> jsval \<Rightarrow> bool" where
  "lawfulPayment B reference p body \<longleftrightarrow>
     (\<exists>amount currency maximum.
        jprop ''amount'' body = JNum amount \<and> jprop ''currency'' body = JStr currency \<and> (reference, amount, currency) \<in> p \<and>
        1 \<le> amount \<and> currency \<in> set (be_allowedCurrencies B) \<and> be_maxAmount B currency = Some maximum \<and> amount \<le> maximum \<and>
        (\<forall>minimum. be_minAmount B currency = Some minimum \<longrightarrow> minimum \<le> amount))"

lemma reserveChargeable_outcome:
  assumes "outcome Q (reserveItem 2 A ef other reference userId keyHash) R E" "\<And>s. Q s \<Longrightarrow> E s" "\<And>r s. R r s \<Longrightarrow> E s"
  shows "outcome Q (reserveChargeable B (chargeableItemResolver A ef other) reference userId keyHash)
     (\<lambda>r s. (\<exists>c. R (r\<lparr>ca_currency := c\<rparr>) s \<and> ca_currency r = toLowerCase c) \<and> assertChargeableWithinBounds B r = Inr ()) E"
proof -
  have "outcome (R r) (andNext (calling (assertChargeableWithinBounds B (r\<lparr>ca_currency := toLowerCase (ca_currency r)\<rparr>)))
      (\<lambda>_. answer (r\<lparr>ca_currency := toLowerCase (ca_currency r)\<rparr>)))
     (\<lambda>r s. (\<exists>c. R (r\<lparr>ca_currency := c\<rparr>) s \<and> ca_currency r = toLowerCase c) \<and> assertChargeableWithinBounds B r = Inr ()) E" for r
    by (intro outcome_calling outcome_answer) (auto intro: assms(3) exI [of _ "ca_currency r"])
  from outcome_andNext [OF assms(1) this] assms(2)
  show ?thesis
    unfolding reserveChargeable_def chargeableItemResolver_def Let_def by (intro outcome_calling) simp_all
qed

lemma lawful_chargeParams:
  assumes "assertChargeableWithinBounds B r = Inr ()" "ca_currency r = toLowerCase c" "(reference, ca_amount r, c) \<in> prices s"
  shows "lawfulPayment B reference (prices s) (chargeParams r customerId owner input saved url)"
proof -
  from assms(3) have "c = toLowerCase c" by (auto simp: prices_def)
  with assms(1,2) assms(3) show ?thesis
    by (auto simp: assertChargeableWithinBounds_def Let_def lawfulPayment_def chargeParams_def getProp_def
        split: if_split_asm option.split_asm)
qed

text \<open>
  C12: the amount charged is never the caller's: every payment request that a charge sends asks for the amount
  and currency on record for the reference it names, a positive amount in an enabled currency that is within
  the bounds configured for it, whatever other requests do as long as they leave the prices alone.
\<close>

theorem charge_amount_from_item:
  assumes "\<And>n x. prices (other n x) = prices x \<and> requests (other n x) = requests x"
    "r \<in> set (requests (snd (createCharge B A other userId input businessKey client (chargeableItemResolver A ef other) s)))"
    "r \<notin> set (requests s)" "jprop ''amount'' (snd r) \<noteq> Undefined"
  shows "lawfulPayment B (ch_reference input) (prices s) (snd r)"
proof -
  let ?p = "prices s" and ?lawful = "lawfulPayment B (ch_reference input) (prices s)"
  let ?Q = "\<lambda>x. prices x = ?p \<and> sentSince s ?lawful x"
  have others: "?Q (other n x)" if "?Q x" for n x
    using assms(1) [of n x] that by (simp add: sentSince_def)
  have "outcome ?Q (createCharge B A other userId input businessKey client (chargeableItemResolver A ef other)) (\<lambda>_. ?Q) ?Q"
  proof (rule priced.createCharge_outcome [where R = "\<lambda>r x. (\<exists>c. (?Q x \<and> (ch_reference input, ca_amount r, c) \<in> ?p) \<and>
        ca_currency r = toLowerCase c) \<and> assertChargeableWithinBounds B r = Inr ()"], goal_cases)
    case (4 owner keyHash)
    show ?case
      using reserveChargeable_outcome [OF reserveItem_priced [OF assms(1), where p = ?p and reference = "ch_reference input"], where B = B]
      by simp
  next
    case (5 c chargeable customerId owner saved url key)
    show ?case
    proof (rule payReserved_outcome, goal_cases)
      case (1 x)
      then obtain c where c: "(ch_reference input, ca_amount chargeable, c) \<in> ?p" "ca_currency chargeable = toLowerCase c"
        and x: "?Q x" "assertChargeableWithinBounds B chargeable = Inr ()"
        by (elim exE conjE) simp
      from sentSince_pay [OF conjunct2 [OF x(1)] lawful_chargeParams [OF x(2) c(2) c(1)]] x(1) show ?case by (simp add: prices_def)
    next
      case (2 x)
      then show ?case by (rule others)
    next
      case (3 intentId succeeded)
      show "commits ?Q (recordPaymentIntent A (ef_now ef 5) chargeable intentId succeeded)"
        by (rule recordPaymentIntent_commits) (simp add: moved_prices sentSince_def)
    qed
  qed (use others in auto)
  then have "?Q (snd (createCharge B A other userId input businessKey client (chargeableItemResolver A ef other) s))"
    by (rule commitsD [OF commits_outcome]) (simp add: sentSince_start)
  from sentSinceD [OF conjunct2 [OF this] assms(2-4)] show ?thesis .
qed


section \<open>One payment for an item\<close>

definition claimedBy :: "app \<Rightarrow> string \<Rightarrow> string \<Rightarrow> billing \<Rightarrow> bool" where
  "claimedBy A reference keyHash s \<longleftrightarrow>
     (\<forall>i\<in>set (chargeableItems s). itemInSight A i \<and> it_reference i = reference \<longrightarrow>
        (it_status i = C_RESERVED \<and> it_reservationKeyHash i = Some keyHash) \<or> it_status i = C_CONSUMED)"

lemma claimedByD:
  assumes "claimedBy A reference keyHash s" "i \<in> set (chargeableItems s)" "itemInSight A i" "it_reference i = reference"
  shows "(it_status i = C_RESERVED \<and> it_reservationKeyHash i = Some keyHash) \<or> it_status i = C_CONSUMED"
  using assms unfolding claimedBy_def by blast

interpretation claim: sent_condition "\<lambda>s. claimedBy A reference keyHash s \<and> sentSince s0 ok s" for A reference keyHash s0 ok
  by unfold_locales (simp_all add: claimedBy_def sentSince_def plainBody_def)

interpretation pinned: sent_condition "\<lambda>s. chargeableItems s = items" for items
  by unfold_locales simp_all

lemma reserveItem_refused:
  assumes "keyHash \<noteq> held" "\<And>n x. chargeableItems (other n x) = chargeableItems x \<and> requests (other n x) = requests x"
  shows "outcome (\<lambda>s. claimedBy A reference held s \<and> sentSince s0 ok s) (reserveItem attempts A ef other reference userId keyHash)
     (\<lambda>_ _. False) (\<lambda>s. claimedBy A reference held s \<and> sentSince s0 ok s)"
proof (rule reserveItem_outcome [where K = "\<lambda>item. it_status item \<noteq> C_OPEN"], goal_cases)
  case (1 n x)
  with assms(2) [of n x] show ?case by (simp add: claimedBy_def sentSince_def)
next
  case (2 s item)
  from claimedByD [OF conjunct1 [OF 2(1)] 2(2-4)] show ?case by auto
next
  case (3 s item)
  from claimedByD [OF conjunct1 [OF 3(1)] 3(2-4)] 3(5,6) assms(1) show ?case by simp
next
  case (4 s s' now item n)
  then show ?case by simp
qed

lemma createCharge_refused:
  assumes others: "\<And>n x. chargeableItems (other n x) = chargeableItems x \<and> requests (other n x) = requests x"
    and held: "\<And>owner keyHash. resolveBillingOwner B A userId = Inr owner \<Longrightarrow>
       hashMetadata (cenv A) (prims A) (''chargeable-reservation:'' @ billingOwnerKey owner @ '':'' @ businessKey) = Inr keyHash \<Longrightarrow> keyHash \<noteq> held"
  shows "outcome (\<lambda>s. claimedBy A (ch_reference input) held s \<and> sentSince s0 ok s)
     (createCharge B A other userId input businessKey client (chargeableItemResolver A ef other)) (\<lambda>_ _. False)
     (\<lambda>s. claimedBy A (ch_reference input) held s \<and> sentSince s0 ok s)" (is "outcome ?Q _ _ _")
proof (rule claim.createCharge_outcome [where R = "\<lambda>_ _. False"], goal_cases)
  case (1 x)
  with others [of 0 x] show ?case by (simp add: claimedBy_def sentSince_def)
next
  case (4 owner keyHash)
  from reserveChargeable_outcome [OF reserveItem_refused [OF held [OF 4] others], where B = B]
  show ?case by simp
qed (simp_all add: outcome_def)

text \<open>The reference names one item: the unique index on it, seen by one tenant.\<close>

definition soleItem :: "app \<Rightarrow> string \<Rightarrow> ChargeableItem table \<Rightarrow> bool" where
  "soleItem A reference items \<longleftrightarrow> distinct (map it_id items) \<and>
     (\<forall>i\<in>set items. \<forall>j\<in>set items. itemInSight A i \<and> it_reference i = reference \<and> itemInSight A j \<and> it_reference j = reference \<longrightarrow> i = j)"

lemma soleItemD:
  "soleItem A reference items \<Longrightarrow> i \<in> set items \<Longrightarrow> j \<in> set items \<Longrightarrow> itemInSight A i \<Longrightarrow> itemInSight A j \<Longrightarrow>
   it_reference i = reference \<Longrightarrow> it_reference j = reference \<Longrightarrow> i = j"
  unfolding soleItem_def by blast

lemma takeOpenItem_claims:
  assumes sole: "soleItem A reference (chargeableItems s)"
    and item: "item \<in> set (chargeableItems s)" "itemInSight A item" "it_reference item = reference" "it_status item = C_OPEN"
    and take: "takeOpenItem A now (it_id item) keyHash s = Inr (n, s')"
  shows "n = 1 \<and> claimedBy A reference keyHash s'"
proof -
  let ?P = "\<lambda>i. it_id i = it_id item \<and> (itemInSight A i \<and> it_status i = C_OPEN)"
  have P: "(\<lambda>i. itemInSight A i \<and> it_id i = it_id item \<and> it_status i = C_OPEN) = ?P" by (rule ext) blast
  have n: "n = matching ?P (chargeableItems s)" and s': "chargeableItems s' = update_many ?P (takeItem now keyHash) (chargeableItems s)"
    using take by (auto simp: takeOpenItem_def tx_simps P)
  have "n = 1" using sole item unfolding n by (subst matching_key_1) (auto simp: soleItem_def)
  moreover have "claimedBy A reference keyHash s'"
    unfolding claimedBy_def s' set_update_many ball_simps
  proof (intro ballI impI)
    fix i assume i: "i \<in> set (chargeableItems s)"
      and sight: "itemInSight A (if ?P i then takeItem now keyHash i else i) \<and> it_reference (if ?P i then takeItem now keyHash i else i) = reference"
    then have "itemInSight A i" "it_reference i = reference"
      by (simp_all add: itemInSight_def takeItem_def split: if_split_asm)
    with soleItemD [OF sole i item(1)] item have "i = item" by simp
    with item show "(it_status (if ?P i then takeItem now keyHash i else i) = C_RESERVED \<and>
        it_reservationKeyHash (if ?P i then takeItem now keyHash i else i) = Some keyHash) \<or>
        it_status (if ?P i then takeItem now keyHash i else i) = C_CONSUMED"
      by (simp add: takeItem_def)
  qed
  ultimately show ?thesis ..
qed


lemma recordPaymentIntent_claims: "commits (claimedBy A reference keyHash) (recordPaymentIntent A' now reservation intentId succeeded)"
  unfolding recordPaymentIntent_def
proof (intro commits_all commits_transaction)
  fix s n s' assume c: "claimedBy A reference keyHash s"
    and m: "andThen (scoped A' ''ChargeableItem.updateMany'') (\<lambda>_.
      updateItems (\<lambda>i. itemInSight A' i \<and> it_status i = C_RESERVED \<and>
          boundTo (rc_reservationId reservation) (rc_reservationKeyHash reservation) intentId i)
        (boundItem now intentId succeeded)) s = Inr (n, s')"
  obtain P where s': "chargeableItems s' = update_many P (boundItem now intentId succeeded) (chargeableItems s)"
    using m by (auto simp: tx_simps)
  show "claimedBy A reference keyHash s'"
    unfolding claimedBy_def s' set_update_many ball_simps
  proof (intro ballI impI)
    fix i assume i: "i \<in> set (chargeableItems s)"
      and sight: "itemInSight A (if P i then boundItem now intentId succeeded i else i) \<and>
        it_reference (if P i then boundItem now intentId succeeded i else i) = reference"
    then have "itemInSight A i" "it_reference i = reference"
      by (simp_all add: itemInSight_def boundItem_def split: if_split_asm)
    from claimedByD [OF c i this]
    show "(it_status (if P i then boundItem now intentId succeeded i else i) = C_RESERVED \<and>
        it_reservationKeyHash (if P i then boundItem now intentId succeeded i else i) = Some keyHash) \<or>
        it_status (if P i then boundItem now intentId succeeded i else i) = C_CONSUMED"
      by (auto simp: boundItem_def)
  qed
qed

lemma createCharge_claims:
  assumes others: "\<And>n x. chargeableItems (other n x) = chargeableItems x" and sole: "soleItem A (ch_reference input) items"
  shows "outcome (\<lambda>s. chargeableItems s = items) (createCharge B A other userId input businessKey client (chargeableItemResolver A ef other))
     (\<lambda>_ s. \<exists>owner keyHash. resolveBillingOwner B A userId = Inr owner \<and>
        hashMetadata (cenv A) (prims A) (''chargeable-reservation:'' @ billingOwnerKey owner @ '':'' @ businessKey) = Inr keyHash \<and>
        claimedBy A (ch_reference input) keyHash s) (\<lambda>_. True)"
    (is "outcome ?Q _ (\<lambda>_. ?claimed) _")
proof (rule pinned.createCharge_outcome [where R = "\<lambda>_. ?claimed"], goal_cases)
  case (4 owner keyHash)
  have "outcome ?Q (reserveItem 2 A ef other (ch_reference input) userId keyHash)
      (\<lambda>_. claimedBy A (ch_reference input) keyHash) ?Q"
  proof (rule reserveItem_outcome [where K = "\<lambda>item. item \<in> set items \<and> itemInSight A item \<and> it_reference item = ch_reference input"], goal_cases)
    case (3 s item)
    have "i = item" if "i \<in> set (chargeableItems s)" "itemInSight A i" "it_reference i = ch_reference input" for i
      using that 3 by (intro soleItemD [OF sole]) simp_all
    with 3 show ?case unfolding claimedBy_def by blast
  next
    case (4 s s' now item n)
    with takeOpenItem_claims [of A "ch_reference input" s item now keyHash n s'] sole show ?case by simp
  qed (simp_all add: others)
  then have "outcome ?Q (reserveItem 2 A ef other (ch_reference input) userId keyHash) (\<lambda>_. ?claimed) (\<lambda>_. True)"
    by (rule outcome_mono) (use 4 in auto)
  from reserveChargeable_outcome [OF this, where B = B] show ?case
    by (rule outcome_mono) auto
next
  case (5 c chargeable customerId owner saved url key)
  have "outcome ?claimed (payReserved c (other 1) (chargeableItemResolver A ef other) chargeable
     (chargeParams chargeable customerId owner input saved url) key) (\<lambda>_. ?claimed) ?claimed"
  proof (rule payReserved_outcome, goal_cases)
    case (3 intentId succeeded)
    show ?case
      unfolding commits_def using commitsD [OF recordPaymentIntent_claims] by blast
  qed (simp_all add: claimedBy_def others)
  then show ?case by (rule outcome_mono) simp_all
qed (simp_all add: others)


section \<open>A consumed item is final\<close>

text \<open>
  C14: once an item is consumed by a payment it stays so: neither a charge, by any user and for any reference, nor
  any event of the payment provider, late or repeated, reopens it or gives it to another payment, and this
  holds under any requests that run in between and keep it.
\<close>

theorem consumed_item_final:
  assumes "consumedBy itemId intentId s" "\<And>n x. consumedBy itemId intentId x \<Longrightarrow> consumedBy itemId intentId (other n x)"
  shows "consumedBy itemId intentId
           (snd (createCharge B A other userId input businessKey client (chargeableItemResolver A' ef other) s)) \<and>
         consumedBy itemId intentId (snd (processStoredStripeEvent ef' other eventId client' s))"
  using commitsD [OF consumed.createCharge_keeps [of _ _ other] assms(1)]
    commitsD [OF consumed.processStoredStripeEvent_keeps [of _ _ other] assms(1)] assms(2)
  by blast

section \<open>Refunds\<close>

interpretation sent: sent_condition "sentSince s0 ok" for s0 ok
  by unfold_locales (simp_all add: sentSince_def plainBody_def)

definition refundAllowed :: "billing_env \<Rightarrow> time \<Rightarrow> jsval \<Rightarrow> int \<Rightarrow> bool" where
  "refundAllowed B now target amount \<longleftrightarrow>
     be_refundSelfService B \<and> tg_refundable (refundTargetDetails target) \<and>
     now - tg_created (refundTargetDetails target) * 1000 \<le> be_refundWindowDays B * 24 * 60 * 60 * 1000 \<and>
     amount \<le> tg_refundableAmount (refundTargetDetails target) \<and>
     (\<exists>limit. be_refundMaxAmount B (tg_currency (refundTargetDetails target)) = Some limit \<and> amount \<le> limit)"

lemma policy_allows: "enforceSelfServiceRefundPolicy B now target requested = Inr amount \<Longrightarrow> refundAllowed B now target amount"
  by (simp add: enforceSelfServiceRefundPolicy_def refundAllowed_def Let_def split: if_split_asm option.split_asm)

text \<open>The payment a refund is about.\<close>

definition refundSubject :: "StripeClient \<Rightarrow> RefundInput \<Rightarrow> thrown + jsval" where
  "refundSubject c input =
     (if truthy (ri_paymentIntentId input) then sc_retrieve c ''payment_intent'' (the (ri_paymentIntentId input))
      else sc_retrieve c ''charge'' (orElse (ri_chargeId input) []))"

text \<open>A refund of an amount the policy allows now, or of the amount of an unfinished operation that is resumed.\<close>

definition lawfulRefund :: "billing_env \<Rightarrow> time \<Rightarrow> StripeClient option \<Rightarrow> RefundInput \<Rightarrow> billing \<Rightarrow> jsval \<Rightarrow> bool" where
  "lawfulRefund B now client input s body \<longleftrightarrow>
     (\<exists>amount. jprop ''amount'' body = JNum amount \<and>
        ((\<exists>op\<in>set (refundOperations s). ro_requestedAmount op = Some amount \<and> \<not> truthy (ro_stripeRefundId op)) \<or>
         (\<exists>c target. client = Some c \<and> refundSubject c input = Inr target \<and> refundAllowed B now target amount)))"

lemma refund_tables:
  "commits (sentSince s0 ok) (transaction (createOperation A owner row))"
  "commits (sentSince s0 ok) (transaction (currentOperation A owner keyHash))"
  "commits (sentSince s0 ok) (transaction (failOperation A owner opId e))"
  by (rule sent.other_tables;
      auto simp: createOperation_def currentOperation_def failOperation_def ownerScoped_def tx_simps)+

lemma recordRefund_sent: "commits (sentSince s0 ok) (recordRefund A ef owner userId opId input metadata refund)"
  unfolding recordRefund_def auditedBilling_def
  by (rule sent.other_tables) (auto simp: ownerScoped_def tx_simps split: if_split_asm)

lemma sendRefund_sent:
  assumes "ok (refundParams owner input amount op)" "\<And>x. requests (other 3 x) = requests x"
  shows "commits (sentSince s0 ok) (sendRefund A ef other c owner userId input metadata keyHash amount op)"
proof -
  have "commits (sentSince s0 ok) (sending c ''refund'' (refundParams owner input amount op) key)" for key
    using assms(1) by (simp add: commits_def sending_def sentSince_pay)
  moreover have "commits (sentSince s0 ok) (meanwhile (other 3))"
    using assms(2) by (simp add: commits_def meanwhile_def sentSince_def)
  ultimately show ?thesis
    unfolding sendRefund_def by (intro commits_all refund_tables recordRefund_sent)
qed

lemma findOperation_found:
  assumes "findOperation A owner hashes s = Inr (found, s')"
  shows "s' = s" "found = Some op \<Longrightarrow> op \<in> set (refundOperations s)"
  using assms find_first_SomeD [of _ "refundOperations s" op] by (auto simp: findOperation_def ownerScoped_def tx_simps)

lemma findOperation_outcome:
  "outcome (\<lambda>x. x = s) (transaction (findOperation A owner hashes))
     (\<lambda>found x. sentSince s ok x \<and> (\<forall>op. found = Some op \<longrightarrow> op \<in> set (refundOperations s))) (sentSince s ok)"
proof (rule outcome_transaction)
  fix x found x' assume "x = s" "findOperation A owner hashes x = Inr (found, x')"
  with findOperation_found [OF this(2)] show "sentSince s ok x' \<and> (\<forall>op. found = Some op \<longrightarrow> op \<in> set (refundOperations s))"
    by (simp add: sentSince_start)
qed (simp add: sentSince_start)



section \<open>Concrete instances of charges\<close>

definition demo_merchant :: app where
  "demo_merchant = demo_app\<lparr>ap_tenancyMode := tenancy_disabled\<rparr>"

definition demo_item :: ChargeableItem where
  "demo_item = \<lparr>it_id = ''i'', it_organizationId = None, it_userId = None, it_reference = ''order'', it_amount = 100, it_currency = ''usd'',
     it_description = ''An order'', it_status = C_OPEN, it_reservationKeyHash = None, it_reservedAt = None, it_expiresAt = None,
     it_consumedAt = None, it_paymentIntentId = None, it_createdAt = 0, it_deletedAt = None\<rparr>"

definition demo_shop :: billing where
  "demo_shop = demo_billing\<lparr>chargeableItems := [demo_item]\<rparr>"

definition demo_order :: CreateChargeInput where
  "demo_order = \<lparr>ch_reference = ''order'', ch_savePaymentMethod = False, ch_paymentMethodId = None, ch_returnUrl = None\<rparr>"

abbreviation demo_pay :: "string \<Rightarrow> (billing, ChargeResult) io" where
  "demo_pay key \<equiv> createCharge demo_benv demo_merchant (\<lambda>_ x. x) ''ann'' demo_order key (Some demo_stripe)
     (chargeableItemResolver demo_merchant demo_effects (\<lambda>_ x. x))"

lemma demo_hash: "hashMetadata (cenv demo_merchant) (prims demo_merchant) v = Inr (''v1.legacy.'' @ base64url (''hs0metadata'' @ v))"
  by (simp add: hashMetadata_def versionedHmac_def derivedKey_def cryptoKeyring_def demo_merchant_def demo_app_def demo_audit_def
      demo_env_def demo_prims_def Let_def)

lemma demo_hash_distinct:
  "hashMetadata (cenv demo_merchant) (prims demo_merchant) v = Inr h \<Longrightarrow> hashMetadata (cenv demo_merchant) (prims demo_merchant) v' = Inr h' \<Longrightarrow>
   v' \<noteq> v \<Longrightarrow> h' \<noteq> h"
  unfolding demo_hash by (auto simp: base64url_inject simp del: base64url.simps)

lemma demo_merchant_open: "ap_tenancyMode demo_merchant = tenancy_disabled" "toLowerCase ''usd'' = ''usd''"
  by (simp add: demo_merchant_def) code_simp

lemmas demo_charge_run = createCharge_def ensureCustomer_def customerRequest_def getBillingUser_def reserveChargeable_def
  chargeableItemResolver_def requireStripe_def resolveBillingOwner_def requireDynamicPricing_def numeral_2_eq_2 findItem_def itemInSight_def
  scoped_def scopeError_def scopedOrganization_def within_def assertItemOwnerAndExpiry_def takeOpenItem_def takeItem_def
  reservedItem_def itemAmount_def itemMetadata_def assertChargeableWithinBounds_def payReserved_def paying_def persistIntent_def recordPaymentIntent_def boundItem_def
  boundTo_def itemsUnique_def textOf_def toChargeResult_def chargeParams_def merged_def

lemma demo_paid:
  "\<exists>result s1. demo_pay ''k1'' demo_shop = (Inr result, s1) \<and> map it_status (chargeableItems s1) = [C_CONSUMED] \<and>
     map (\<lambda>r. jprop ''amount'' (snd r)) (requests s1) = [JNum 100] \<and>
     consumedBy ''i'' ''pi'' s1"
  by (simp add: demo_charge_run demo_hash demo_merchant_open demo_billing_run tx_run demo_shop_def demo_order_def demo_item_def demo_billing_def demo_books_def
      demo_store_def demo_user_def demo_stripe_def demo_benv_def consumedBy_def)


theorem charge_amount_from_item_witness:
  "\<exists>r. r \<in> set (requests (snd (demo_pay ''k1'' demo_shop))) \<and> lawfulPayment demo_benv ''order'' (prices demo_shop) (snd r)"
proof -
  obtain result s1 where r: "demo_pay ''k1'' demo_shop = (Inr result, s1)"
    and sent: "map (\<lambda>r. jprop ''amount'' (snd r)) (requests s1) = [JNum 100]"
    using demo_paid by (elim exE conjE)
  then obtain p where p: "requests s1 = [p]" "jprop ''amount'' (snd p) = JNum 100" by (cases "requests s1") auto
  have "lawfulPayment demo_benv (ch_reference demo_order) (prices demo_shop) (snd p)"
  proof (rule charge_amount_from_item [where other = "\<lambda>_ x. x"])
    show "p \<in> set (requests (snd (demo_pay ''k1'' demo_shop)))" using r p by simp
  qed (simp_all add: p demo_shop_def demo_billing_def)
  then show ?thesis using r p by (auto simp: demo_order_def)
qed


theorem consumed_item_final_witness:
  "\<exists>s1. consumedBy ''i'' ''pi'' s1 \<and> consumedBy ''i'' ''pi'' (snd (demo_pay ''k2'' s1)) \<and>
     consumedBy ''i'' ''pi'' (snd (processStoredStripeEvent demo_effects (\<lambda>_ x. x) ''w'' None s1))"
proof -
  obtain s1 where c: "consumedBy ''i'' ''pi'' s1" using demo_paid by (elim exE conjE)
  from c consumed_item_final [OF c, where other = "\<lambda>_ x. x"] show ?thesis by blast
qed

section \<open>Concrete instances of refunds\<close>

definition demo_refunding :: StripeClient where
  "demo_refunding = demo_stripe\<lparr>sc_retrieve := \<lambda>what i. Inr (JObj [(''object'', JStr ''payment_intent''), (''customer'', JStr ''cus''),
     (''status'', JStr ''succeeded''), (''created'', JNum 0), (''currency'', JStr ''usd''), (''amount_received'', JNum 100)])\<rparr>"

definition demo_return :: RefundInput where
  "demo_return = \<lparr>ri_paymentIntentId = Some ''pi'', ri_chargeId = None, ri_amount = Some 40\<rparr>"

text \<open>The same deployment after a rotation of its keys.\<close>

definition demo_rotated :: app where
  "demo_rotated = demo_merchant\<lparr>ap_audit := demo_audit\<lparr>ad_crypto := demo_env_rotated\<rparr>\<rparr>"

abbreviation demo_give_back :: "app \<Rightarrow> (billing, RefundResult) io" where
  "demo_give_back A \<equiv> createRefund demo_benv A demo_effects (\<lambda>_ x. x) ''ann'' demo_return ''k1'' demo_meta (Some demo_refunding)"

lemmas demo_refund_run = createRefund_def ensureCustomer_def customerRequest_def getBillingUser_def requireStripe_def resolveBillingOwner_def
  findOperation_def ownerScoped_def ownOperation_def checkTarget_def customerOf_def enforceSelfServiceRefundPolicy_def refundTargetDetails_def numOf_def
  textOf_def newRefundOperation_def createOperation_def refundClash_def sendRefund_def sending_def failOperation_def refundParams_def
  requestText_def candidateMetadataHashes_def legacyHash_def versionedHmac_def derivedKey_def cryptoKeyring_def hashMetadata_def

lemmas demo_refund_data = demo_merchant_open demo_return_def demo_billing_def demo_books_def demo_effects_def
  demo_store_def demo_user_def demo_stripe_def demo_refunding_def demo_benv_def demo_merchant_def demo_app_def demo_audit_def
  demo_env_def demo_env_rotated_def demo_prims_def demo_rotated_def

lemma demo_refund_sent:
  "\<exists>e s1. demo_give_back demo_merchant demo_billing = (Inl e, s1) \<and> map (\<lambda>r. jprop ''amount'' (snd r)) (requests s1) = [JNum 40]"
  by (simp add: demo_refund_run demo_billing_run tx_run demo_refund_data del: base64url.simps)


section \<open>A deviation\<close>

text \<open>
  A refund whose answer was lost is retried with the same idempotency key. The operation is found again under
  any key of the keyring, but the key passed on to the payment provider is the hash under the key that is
  active at that moment: after a rotation the provider sees the same refund under another key, and has no way
  to tell that it is a retry.
\<close>

lemma refund_key_changes_on_rotation:
  "\<exists>e s1 e' s2 k k' body. demo_give_back demo_merchant demo_billing = (Inl e, s1) \<and> demo_give_back demo_rotated s1 = (Inl e', s2) \<and>
     map ro_id (refundOperations s2) = map ro_id (refundOperations s1) \<and> requests s2 = [(k', body), (k, body)] \<and> k' \<noteq> k"
  by (simp add: demo_refund_run demo_billing_run tx_run demo_refund_data del: base64url.simps)

end
