(* ===== verification/Subscriptions.thy ===== *)
theory Subscriptions
  imports Charge_Safety
begin

text \<open>
  The rest of the payments module: saved cards (\<open>src/src/modules/stripe/stripe.payment-methods.service.ts\<close>),
  subscriptions and the billing portal (\<open>stripe.subscriptions.service.ts\<close>) and checkout sessions
  (\<open>stripe.checkout.service.ts\<close>). What the operations return is an object of the API.
\<close>

section \<open>Saved cards\<close>

definition providerKey :: "app \<Rightarrow> string \<Rightarrow> BillingOwner \<Rightarrow> string \<Rightarrow> thrown + string" where
  "providerKey A purpose owner businessIdempotencyKey =
     (case hashMetadata (cenv A) (prims A) businessIdempotencyKey of
        Inl e \<Rightarrow> Inl e
      | Inr h \<Rightarrow> Inr (purpose @ '':'' @ billingOwnerKey owner @ '':'' @ h))"

definition createSetupIntent ::
    "billing_env \<Rightarrow> app \<Rightarrow> (billing \<Rightarrow> billing) \<Rightarrow> ident \<Rightarrow> StripeClient option \<Rightarrow> string \<Rightarrow> (billing, jsval) io" where
  "createSetupIntent B A other userId client businessIdempotencyKey =
     andNext (calling (requireStripe client)) (\<lambda>c.
     andNext (calling (resolveBillingOwner B A userId)) (\<lambda>owner.
     andNext (ensureCustomer B A other userId client) (\<lambda>customerId.
     andNext (calling (providerKey A ''setup-intent'' owner businessIdempotencyKey)) (\<lambda>key.
     andNext (sending c ''setup_intent''
        (JObj [(''customer'', JStr customerId), (''usage'', JStr ''off_session''), (''metadata'', JObj (billingOwnerMetadata owner))]) key) (\<lambda>intent.
     answer (JObj [(''id'', jprop ''id'' intent), (''clientSecret'', jprop ''client_secret'' intent), (''status'', jprop ''status'' intent)]))))))"

definition liveCard :: "BillingOwner \<Rightarrow> PaymentMethod \<Rightarrow> bool" where
  "liveCard owner m \<longleftrightarrow> billingOwnerWhere owner (pm_userId m) (pm_organizationId m) \<and> pm_detachedAt m = None \<and> pm_deletedAt m = None"

text \<open>Default card first, then the newest.\<close>

definition listPaymentMethods :: "billing_env \<Rightarrow> app \<Rightarrow> ident \<Rightarrow> (billing, PaymentMethod list) tx" where
  "listPaymentMethods B A userId =
     andThen (attempt (resolveBillingOwner B A userId)) (\<lambda>owner.
     andThen (ownerScoped A ''PaymentMethod.findMany'') (\<lambda>_.
     reading (\<lambda>s. sort_key (\<lambda>m. \<not> pm_isDefault m) (sort_key (\<lambda>m. - pm_createdAt m) (filter (liveCard owner) (paymentMethods s))))))"

definition clearDefault :: "BillingOwner \<Rightarrow> (billing, nat) tx" where
  "clearDefault owner =
     updateCards (\<lambda>m. billingOwnerWhere owner (pm_userId m) (pm_organizationId m) \<and> pm_isDefault m \<and> pm_deletedAt m = None)
       (\<lambda>m. m\<lparr>pm_isDefault := False\<rparr>)"

definition cardOf :: "BillingOwner \<Rightarrow> ident \<Rightarrow> PaymentMethod \<Rightarrow> bool" where
  "cardOf owner i m \<longleftrightarrow> pm_id m = i \<and> billingOwnerWhere owner (pm_userId m) (pm_organizationId m) \<and> pm_deletedAt m = None"

definition updateCard :: "app \<Rightarrow> BillingOwner \<Rightarrow> ident \<Rightarrow> (PaymentMethod \<Rightarrow> PaymentMethod) \<Rightarrow> (billing, unit) tx" where
  "updateCard A owner i f =
     andThen (ownerScoped A ''PaymentMethod.update'') (\<lambda>_. updateRow paymentMethods paymentMethods_update (cardOf owner i) f)"

definition makeDefault ::
    "app \<Rightarrow> effects \<Rightarrow> ident \<Rightarrow> BillingOwner \<Rightarrow> ident \<Rightarrow> RequestMetadata \<Rightarrow> (billing, PaymentMethod) io" where
  "makeDefault A ef userId owner methodId metadata =
     auditedBilling A (\<lambda>audit.
       andThen (ownerScoped A ''PaymentMethod.updateMany'') (\<lambda>_.
       andThen (clearDefault owner) (\<lambda>_.
       andThen (updateCard A owner methodId (\<lambda>m. m\<lparr>pm_isDefault := True\<rparr>)) (\<lambda>_.
       andThen (audit (ef_id ef 0) (ef_now ef 0)
          (audit_of metadata (Some userId) ''billing.payment_method.default_changed'' ''payment_method'' (Some methodId) None)) (\<lambda>_.
       findFirstOrThrow paymentMethods (cardOf owner methodId))))))"

definition setDefaultPaymentMethod ::
    "billing_env \<Rightarrow> app \<Rightarrow> effects \<Rightarrow> (nat \<Rightarrow> billing \<Rightarrow> billing) \<Rightarrow> ident \<Rightarrow> ident \<Rightarrow> StripeClient option \<Rightarrow> RequestMetadata \<Rightarrow> string \<Rightarrow>
     (billing, PaymentMethod) io" where
  "setDefaultPaymentMethod B A ef other userId paymentMethodId client metadata businessIdempotencyKey =
     andNext (calling (requireStripe client)) (\<lambda>c.
     andNext (calling (resolveBillingOwner B A userId)) (\<lambda>owner.
     andNext (transaction (findOwnedPaymentMethod B A paymentMethodId userId)) (\<lambda>method.
     andNext (ensureCustomer B A (other 0) userId client) (\<lambda>customerId.
     andNext (calling (providerKey A ''payment-method-default'' owner businessIdempotencyKey)) (\<lambda>key.
     andNext (updating c ''customer'' customerId
        (JObj [(''invoice_settings'', JObj [(''default_payment_method'', JStr (pm_stripePaymentMethodId method))])]) key) (\<lambda>_.
     andNext (meanwhile (other 1)) (\<lambda>_.
     makeDefault A ef userId owner (pm_id method) metadata)))))))"

definition liveSubscription :: "BillingOwner \<Rightarrow> StripeSubscription \<Rightarrow> bool" where
  "liveSubscription owner x \<longleftrightarrow> billingOwnerWhere owner (ss_userId x) (ss_organizationId x) \<and> ss_deletedAt x = None \<and>
     ss_status x \<in> {''active'', ''trialing'', ''past_due''}"

definition assertCardRemovable :: "app \<Rightarrow> BillingOwner \<Rightarrow> (billing, unit) tx" where
  "assertCardRemovable A owner =
     andThen (ownerScoped A ''StripeSubscription.count'') (\<lambda>_.
     andThen (reading (\<lambda>s. matching (liveSubscription owner) (subscriptions s))) (\<lambda>activeSubscriptions.
     andThen (reading (\<lambda>s. matching (liveCard owner) (paymentMethods s))) (\<lambda>remaining.
     require (\<not> (activeSubscriptions > 0 \<and> remaining \<le> 1))
       (App (conflict (Some ''Add another payment method before removing the last one while a subscription is active''))))))"

definition detachPaymentMethod ::
    "billing_env \<Rightarrow> app \<Rightarrow> effects \<Rightarrow> (nat \<Rightarrow> billing \<Rightarrow> billing) \<Rightarrow> ident \<Rightarrow> ident \<Rightarrow> StripeClient option \<Rightarrow> RequestMetadata \<Rightarrow> string \<Rightarrow>
     (billing, unit) io" where
  "detachPaymentMethod B A ef other userId paymentMethodId client metadata businessIdempotencyKey =
     andNext (calling (requireStripe client)) (\<lambda>c.
     andNext (calling (resolveBillingOwner B A userId)) (\<lambda>owner.
     andNext (transaction (findOwnedPaymentMethod B A paymentMethodId userId)) (\<lambda>method.
     andNext (transaction (assertCardRemovable A owner)) (\<lambda>_.
     andNext (calling (providerKey A ''payment-method-detach'' owner businessIdempotencyKey)) (\<lambda>key.
     andNext (updating c ''payment_method.detach'' (pm_stripePaymentMethodId method) (JObj []) key) (\<lambda>_.
     andNext (meanwhile (other 0)) (\<lambda>_.
     auditedBilling A (\<lambda>audit.
       andThen (updateCard A owner (pm_id method) (detachCard (ef_now ef 0))) (\<lambda>_.
       audit (ef_id ef 0) (ef_now ef 1)
         (audit_of metadata (Some userId) ''billing.payment_method.detached'' ''payment_method'' (Some (pm_id method)) None))))))))))"

definition cardRecord :: "jsval \<Rightarrow> PaymentMethod \<Rightarrow> PaymentMethod" where
  "cardRecord paymentMethod m =
     (let card = jprop ''card'' paymentMethod in
      m\<lparr>pm_type := textOf (jprop ''type'' paymentMethod), pm_brand := textValue (jprop ''brand'' card), pm_last4 := textValue (jprop ''last4'' card),
        pm_expMonth := numberValue (jprop ''exp_month'' card), pm_expYear := numberValue (jprop ''exp_year'' card),
        pm_fingerprint := textValue (jprop ''fingerprint'' card)\<rparr>)"

definition recordAttachedPaymentMethod :: "effects \<Rightarrow> jsval \<Rightarrow> ident \<Rightarrow> ident option \<Rightarrow> (billing, PaymentMethod) tx" where
  "recordAttachedPaymentMethod ef paymentMethod ownerUserId organizationId =
     upsertRow paymentMethods paymentMethods_update (\<lambda>m. pm_stripePaymentMethodId m = textOf (jprop ''id'' paymentMethod))
       (cardRecord paymentMethod ((newPaymentMethod ef (textOf (jprop ''id'' paymentMethod)))
          \<lparr>pm_userId := ownerUserId, pm_organizationId := organizationId\<rparr>))
       (\<lambda>m. (cardRecord paymentMethod m)\<lparr>pm_detachedAt := None, pm_deletedAt := None\<rparr>)"

definition recordDetachedPaymentMethod :: "time \<Rightarrow> string \<Rightarrow> (billing, nat) tx" where
  "recordDetachedPaymentMethod now stripePaymentMethodId =
     updateCards (\<lambda>m. pm_stripePaymentMethodId m = stripePaymentMethodId \<and> pm_detachedAt m = None) (detachCard now)"


text \<open>The payments of an owner, newest first, one page after a cursor.\<close>

definition listPayments :: "billing_env \<Rightarrow> app \<Rightarrow> ident \<Rightarrow> string option \<Rightarrow> nat \<Rightarrow> (billing, StripePayment list \<times> string option) tx" where
  "listPayments B A userId cursor limit =
     andThen (getBillingUser userId) (\<lambda>_.
     andThen (attempt (resolveBillingOwner B A userId)) (\<lambda>owner.
     andThen (ownerScoped A ''StripePayment.findMany'') (\<lambda>_.
     andThen (reading (\<lambda>s. sort_key (\<lambda>p. - sp_createdAt p) (filter (\<lambda>p. billingOwnerWhere owner (sp_userId p) (sp_organizationId p) \<and>
                 sp_deletedAt p = None) (payments s)))) (\<lambda>rows.
     let after = (if truthy cursor then tl (dropWhile (\<lambda>p. Some (sp_id p) \<noteq> cursor) rows) else rows);
         page = take (limit + 1) after; hasMore = (length page > limit); page = (if hasMore then butlast page else page) in
     ret (page, if hasMore then (if page = [] then None else Some (sp_id (last page))) else None)))))"

section \<open>Prices\<close>

definition resolvePrice :: "billing_env \<Rightarrow> string option \<Rightarrow> thrown + string \<times> string" where
  "resolvePrice B input =
     (let priceKey = (case input of None \<Rightarrow> be_defaultPriceKey B | Some k \<Rightarrow> Some k) in
      if \<not> truthy priceKey then Inl (App (badRequest (Some ''A Stripe priceKey is required'') None))
      else if \<not> truthy (be_priceCatalog B (the priceKey))
      then Inl (App (badRequest (Some ''The requested Stripe price is not available'') None))
      else Inr (the (be_priceCatalog B (the priceKey)), the priceKey))"

section \<open>Subscriptions\<close>

definition firstItem :: "jsval \<Rightarrow> jsval" where
  "firstItem subscription = (case jprop ''data'' (jprop ''items'' subscription) of JArr (x # _) \<Rightarrow> x | _ \<Rightarrow> Undefined)"

definition orNullValue :: "jsval \<Rightarrow> jsval" where
  "orNullValue v = (if v = Undefined then Null else v)"

text \<open>A time in seconds as a date, and no date for none or zero.\<close>

definition unixDate :: "jsval \<Rightarrow> jsval" where
  "unixDate v = (case v of JNum n \<Rightarrow> if n = 0 then Null else JNum (n * 1000) | _ \<Rightarrow> Null)"

definition firstPrice :: "jsval \<Rightarrow> jsval" where
  "firstPrice subscription = orNullValue (jprop ''id'' (jprop ''price'' (firstItem subscription)))"

definition subscriptionView :: "jsval \<Rightarrow> jsval" where
  "subscriptionView x =
     JObj [(''id'', jprop ''id'' x), (''status'', jprop ''status'' x), (''cancelAtPeriodEnd'', jprop ''cancel_at_period_end'' x),
       (''currentPeriodStart'', unixDate (jprop ''current_period_start'' (firstItem x))),
       (''currentPeriodEnd'', unixDate (jprop ''current_period_end'' (firstItem x))), (''priceId'', firstPrice x)]"

definition lastId :: "jsval list \<Rightarrow> jsval" where
  "lastId xs = (if xs = [] then Undefined else jprop ''id'' (last xs))"

definition subscriptionQuery :: "string \<Rightarrow> int \<Rightarrow> string option \<Rightarrow> jsval" where
  "subscriptionQuery customerId limit startingAfter =
     JObj ([(''customer'', JStr customerId), (''status'', JStr ''all''), (''limit'', JNum limit)] @
           (if truthy startingAfter then [(''starting_after'', JStr (the startingAfter))] else []))"

definition listSubscriptions ::
    "billing_env \<Rightarrow> app \<Rightarrow> (billing \<Rightarrow> billing) \<Rightarrow> ident \<Rightarrow> string option \<Rightarrow> int \<Rightarrow> StripeClient option \<Rightarrow>
     (billing, jsval list \<times> jsval) io" where
  "listSubscriptions B A other userId cursor limit client =
     andNext (calling (requireStripe client)) (\<lambda>c.
     andNext (ensureCustomer B A other userId client) (\<lambda>customerId.
     andNext (calling (sc_list c ''subscription'' (subscriptionQuery customerId limit cursor))) (\<lambda>(page, hasMore).
     answer (map subscriptionView page, if hasMore then orNullValue (lastId page) else Null))))"

text \<open>The subscription, when it is the owner's.\<close>

definition ownSubscription :: "StripeClient \<Rightarrow> string \<Rightarrow> string \<Rightarrow> thrown + jsval" where
  "ownSubscription c customerId subscriptionId =
     (case sc_retrieve c ''subscription'' subscriptionId of
        Inl e \<Rightarrow> Inl e
      | Inr x \<Rightarrow> if customerOf (jprop ''customer'' x) \<noteq> JStr customerId then Inl (App (notFound (Some ''Subscription not found''))) else Inr x)"

definition cancelSubscription ::
    "billing_env \<Rightarrow> app \<Rightarrow> (billing \<Rightarrow> billing) \<Rightarrow> ident \<Rightarrow> string \<Rightarrow> StripeClient option \<Rightarrow> string \<Rightarrow> (billing, jsval) io" where
  "cancelSubscription B A other userId subscriptionId client businessIdempotencyKey =
     andNext (calling (requireStripe client)) (\<lambda>c.
     andNext (ensureCustomer B A other userId client) (\<lambda>customerId.
     andNext (calling (ownSubscription c customerId subscriptionId)) (\<lambda>_.
     andNext (calling (resolveBillingOwner B A userId)) (\<lambda>owner.
     andNext (calling (providerKey A ''subscription-cancel'' owner businessIdempotencyKey)) (\<lambda>key.
     andNext (updating c ''subscription'' subscriptionId (JObj [(''cancel_at_period_end'', JBool True)]) key) (\<lambda>updated.
     answer (JObj [(''id'', jprop ''id'' updated), (''status'', jprop ''status'' updated),
       (''cancelAtPeriodEnd'', jprop ''cancel_at_period_end'' updated), (''canceledAt'', unixDate (jprop ''canceled_at'' updated))])))))))"

definition resumeSubscription ::
    "billing_env \<Rightarrow> app \<Rightarrow> (billing \<Rightarrow> billing) \<Rightarrow> ident \<Rightarrow> string \<Rightarrow> StripeClient option \<Rightarrow> string \<Rightarrow> (billing, jsval) io" where
  "resumeSubscription B A other userId subscriptionId client businessIdempotencyKey =
     andNext (calling (requireStripe client)) (\<lambda>c.
     andNext (ensureCustomer B A other userId client) (\<lambda>customerId.
     andNext (calling (ownSubscription c customerId subscriptionId)) (\<lambda>_.
     andNext (calling (resolveBillingOwner B A userId)) (\<lambda>owner.
     andNext (calling (providerKey A ''subscription-resume'' owner businessIdempotencyKey)) (\<lambda>key.
     andNext (updating c ''subscription'' subscriptionId (JObj [(''cancel_at_period_end'', JBool False)]) key) (\<lambda>updated.
     answer (JObj [(''id'', jprop ''id'' updated), (''status'', jprop ''status'' updated),
       (''cancelAtPeriodEnd'', jprop ''cancel_at_period_end'' updated)])))))))"

definition metadataOf :: "jsval \<Rightarrow> (string \<times> jsval) list" where
  "metadataOf x = (case jprop ''metadata'' x of JObj ps \<Rightarrow> ps | _ \<Rightarrow> [])"

definition changeSubscriptionPrice ::
    "billing_env \<Rightarrow> app \<Rightarrow> (billing \<Rightarrow> billing) \<Rightarrow> ident \<Rightarrow> string \<Rightarrow> string \<Rightarrow> string \<Rightarrow> StripeClient option \<Rightarrow> string \<Rightarrow> (billing, jsval) io" where
  "changeSubscriptionPrice B A other userId subscriptionId priceKey prorationBehavior client businessIdempotencyKey =
     andNext (calling (requireStripe client)) (\<lambda>c.
     andNext (calling (resolveBillingOwner B A userId)) (\<lambda>billingOwner.
     andNext (ensureCustomer B A other userId client) (\<lambda>customerId.
     andNext (calling (ownSubscription c customerId subscriptionId)) (\<lambda>subscription.
     if firstItem subscription = Undefined then failing (App (conflict (Some ''Subscription has no changeable item'')))
     else
       andNext (calling (resolvePrice B (Some priceKey))) (\<lambda>(priceId, priceKey).
       andNext (calling (providerKey A ''subscription-change'' billingOwner businessIdempotencyKey)) (\<lambda>key.
       andNext (updating c ''subscription'' subscriptionId
         (JObj [(''items'', JArr [JObj [(''id'', jprop ''id'' (firstItem subscription)), (''price'', JStr priceId)]]),
           (''proration_behavior'', JStr prorationBehavior), (''cancel_at_period_end'', JBool False),
           (''metadata'', JObj (merged (metadataOf subscription) (billingOwnerMetadata billingOwner @ [(''priceKey'', JStr priceKey)])))]) key) (\<lambda>updated.
       answer (JObj [(''id'', jprop ''id'' updated), (''status'', jprop ''status'' updated), (''priceId'', firstPrice updated),
         (''cancelAtPeriodEnd'', jprop ''cancel_at_period_end'' updated)]))))))))"

definition createBillingPortalSession ::
    "billing_env \<Rightarrow> app \<Rightarrow> (billing \<Rightarrow> billing) \<Rightarrow> ident \<Rightarrow> string option \<Rightarrow> StripeClient option \<Rightarrow> string \<Rightarrow> (billing, jsval) io" where
  "createBillingPortalSession B A other userId returnUrl client businessIdempotencyKey =
     andNext (calling (requireStripe client)) (\<lambda>c.
     andNext (ensureCustomer B A other userId client) (\<lambda>customer.
     andNext (calling (resolveBillingOwner B A userId)) (\<lambda>owner.
     andNext (calling (safeRedirectUrl B returnUrl ''/billing'')) (\<lambda>url.
     andNext (calling (providerKey A ''billing-portal'' owner businessIdempotencyKey)) (\<lambda>key.
     andNext (sending c ''billing_portal_session'' (JObj [(''customer'', JStr customer), (''return_url'', JStr url)]) key) (\<lambda>session.
     answer (JObj [(''id'', jprop ''id'' session), (''url'', jprop ''url'' session)])))))))"

text \<open>Termination of every subscription that is not over, page by page.\<close>

definition subscriptionOver :: "jsval \<Rightarrow> bool" where
  "subscriptionOver x \<longleftrightarrow> jprop ''status'' x \<in> {JStr ''canceled'', JStr ''incomplete_expired''}"

definition cancelling :: "StripeClient \<Rightarrow> string \<Rightarrow> (billing, jsval) io" where
  "cancelling c i s =
     (sc_cancel c i (JObj [(''invoice_now'', JBool False), (''prorate'', JBool False)]), s\<lparr>cancellations := i # cancellations s\<rparr>)"

fun cancelPage :: "StripeClient \<Rightarrow> jsval list \<Rightarrow> nat \<Rightarrow> (billing, nat) io" where
  "cancelPage c [] canceled = answer canceled"
| "cancelPage c (x # xs) canceled =
     (if subscriptionOver x then cancelPage c xs canceled
      else andNext (cancelling c (textOf (jprop ''id'' x))) (\<lambda>_. cancelPage c xs (canceled + 1)))"

fun cancelPages :: "nat \<Rightarrow> StripeClient \<Rightarrow> string \<Rightarrow> string option \<Rightarrow> nat \<Rightarrow> (billing, nat option) io" where
  "cancelPages 0 c customerId startingAfter canceled = answer None"
| "cancelPages (Suc fuel) c customerId startingAfter canceled =
     andNext (calling (sc_list c ''subscription'' (subscriptionQuery customerId 100 startingAfter))) (\<lambda>(page, hasMore).
     andNext (cancelPage c page canceled) (\<lambda>canceled.
     let following = (if hasMore then textValue (lastId page) else None) in
     if truthy following then cancelPages fuel c customerId following canceled else answer (Some canceled)))"

definition cancelAllUserSubscriptions :: "nat \<Rightarrow> ident \<Rightarrow> StripeClient option \<Rightarrow> (billing, nat option) io" where
  "cancelAllUserSubscriptions fuel userId client =
     (case client of
        None \<Rightarrow> answer (Some 0)
      | Some c \<Rightarrow>
          andNext (transaction (reading (\<lambda>s. find_first (\<lambda>u. u_id u = userId \<and> u_deletedAt u = None) (users (books s))))) (\<lambda>user.
          case Option.bind user u_stripeCustomerId of
            Some customerId \<Rightarrow> if customerId = [] then answer (Some 0) else cancelPages fuel c customerId None 0
          | None \<Rightarrow> answer (Some 0)))"

section \<open>Checkout\<close>

definition findPromotionCode :: "StripeClient option \<Rightarrow> string \<Rightarrow> thrown + jsval" where
  "findPromotionCode client code =
     (case requireStripe client of Inl e \<Rightarrow> Inl e | Inr c \<Rightarrow>
      (case sc_list c ''promotion_code'' (JObj [(''code'', JStr code), (''active'', JBool True), (''limit'', JNum 1)]) of
         Inl e \<Rightarrow> Inl e
       | Inr ([], _) \<Rightarrow> Inl (App (badRequest (Some ''Invalid or inactive promotion code'') None))
       | Inr (promotion # _, _) \<Rightarrow> Inr promotion))"

record CheckoutInput =
  co_mode :: string
  co_priceKey :: "string option"
  co_quantity :: int
  co_successUrl :: "string option"
  co_cancelUrl :: "string option"
  co_promotionCode :: "string option"

definition checkoutParams ::
    "CheckoutInput \<Rightarrow> BillingOwner \<Rightarrow> string \<Rightarrow> string \<times> string \<Rightarrow> string \<Rightarrow> string \<Rightarrow> jsval option \<Rightarrow> jsval" where
  "checkoutParams input owner customerId price successUrl cancelUrl promotion =
     JObj ([(''mode'', JStr (co_mode input)), (''customer'', JStr customerId),
            (''line_items'', JArr [JObj [(''price'', JStr (fst price)), (''quantity'', JNum (co_quantity input))]]),
            (''success_url'', JStr successUrl), (''cancel_url'', JStr cancelUrl),
            (''metadata'', JObj (billingOwnerMetadata owner @ [(''priceKey'', JStr (snd price))]))] @
           (case promotion of
              Some p \<Rightarrow> [(''discounts'', JArr [JObj [(''promotion_code'', jprop ''id'' p)]])]
            | None \<Rightarrow> [(''allow_promotion_codes'', JBool True)]) @
           (if co_mode input = ''payment'' then [(''payment_intent_data'', JObj [(''metadata'', JObj (billingOwnerMetadata owner))])]
            else [(''subscription_data'', JObj [(''metadata'', JObj (billingOwnerMetadata owner))])]))"

definition createCheckoutSession ::
    "billing_env \<Rightarrow> app \<Rightarrow> (billing \<Rightarrow> billing) \<Rightarrow> ident \<Rightarrow> CheckoutInput \<Rightarrow> string \<Rightarrow> StripeClient option \<Rightarrow> (billing, jsval) io" where
  "createCheckoutSession B A other userId input businessIdempotencyKey client =
     andNext (calling (requireStripe client)) (\<lambda>c.
     andNext (calling (resolveBillingOwner B A userId)) (\<lambda>owner.
     andNext (ensureCustomer B A other userId client) (\<lambda>customerId.
     andNext (calling (resolvePrice B (co_priceKey input))) (\<lambda>price.
     andNext (calling (safeRedirectUrl B (co_successUrl input) ''/billing/success'')) (\<lambda>successUrl.
     andNext (calling (safeRedirectUrl B (co_cancelUrl input) ''/billing/cancel'')) (\<lambda>cancelUrl.
     andNext (if truthy (co_promotionCode input)
              then andNext (calling (findPromotionCode client (the (co_promotionCode input)))) (\<lambda>p. answer (Some p)) else answer None) (\<lambda>promotion.
     andNext (calling (providerKey A ''checkout'' owner businessIdempotencyKey)) (\<lambda>key.
     andNext (sending c ''checkout_session'' (checkoutParams input owner customerId price successUrl cancelUrl promotion) key) (\<lambda>session.
     answer (JObj [(''id'', jprop ''id'' session), (''url'', jprop ''url'' session), (''mode'', jprop ''mode'' session),
       (''paymentStatus'', jprop ''payment_status'' session)]))))))))))"

definition getCheckoutSession ::
    "billing_env \<Rightarrow> app \<Rightarrow> ident \<Rightarrow> string \<Rightarrow> StripeClient option \<Rightarrow> (billing, jsval) io" where
  "getCheckoutSession B A userId sessionId client =
     andNext (calling (requireStripe client)) (\<lambda>c.
     andNext (getBillingCustomerId B A userId) (\<lambda>ownerCustomerId.
     andNext (calling (sc_retrieve c ''checkout_session'' sessionId)) (\<lambda>session.
     if jprop ''userId'' (jprop ''metadata'' session) \<noteq> JStr userId \<and>
        (\<not> truthy ownerCustomerId \<or> customerOf (jprop ''customer'' session) \<noteq> JStr (the ownerCustomerId))
     then failing (App (notFound (Some ''Checkout session not found'')))
     else answer (JObj [(''id'', jprop ''id'' session), (''status'', jprop ''status'' session),
       (''paymentStatus'', jprop ''payment_status'' session), (''mode'', jprop ''mode'' session),
       (''amountTotal'', jprop ''amount_total'' session), (''currency'', jprop ''currency'' session), (''url'', jprop ''url'' session)]))))"

definition validatePromotionCode :: "ident \<Rightarrow> string \<Rightarrow> StripeClient option \<Rightarrow> (billing, jsval) io" where
  "validatePromotionCode userId code client =
     andNext (transaction (getBillingUser userId)) (\<lambda>_.
     andNext (calling (requireStripe client)) (\<lambda>c.
     andNext (calling (findPromotionCode client code)) (\<lambda>promotion.
     andNext (case jprop ''coupon'' (jprop ''promotion'' promotion) of
                JStr i \<Rightarrow> calling (sc_retrieve c ''coupon'' i) | v \<Rightarrow> answer v) (\<lambda>coupon.
     let couponData = (if jprop ''deleted'' coupon = JBool True then Null else coupon) in
     answer (JObj [(''id'', jprop ''id'' promotion), (''code'', jprop ''code'' promotion), (''active'', jprop ''active'' promotion),
       (''expiresAt'', unixDate (jprop ''expires_at'' promotion)),
       (''percentOff'', orNullValue (jprop ''percent_off'' couponData)), (''amountOff'', orNullValue (jprop ''amount_off'' couponData)),
       (''currency'', orNullValue (jprop ''currency'' couponData))])))))"


section \<open>Properties of saved cards\<close>

lemma ownerScoped_Inr [tx_simps]:
  "ownerScoped A loc s = Inr r \<longleftrightarrow> (ap_tenancyMode A = tenancy_disabled \<or> ap_ctx A \<noteq> None) \<and> r = ((), s)"
  by (simp add: ownerScoped_def tx_simps)

lemma required_Inr: "(case v of None \<Rightarrow> throw e | Some m \<Rightarrow> ret m) s = Inr r \<longleftrightarrow> (\<exists>m. v = Some m \<and> r = (m, s))"
  by (auto simp: tx_simps split: option.split)

lemma makeDefault_cards:
  assumes "makeDefault A ef userId owner methodId metadata s = (Inr m, s')"
  shows "m \<in> set (paymentMethods s')" "cardOf owner methodId m"
    "paymentMethods s' = update_many (cardOf owner methodId) (\<lambda>m. m\<lparr>pm_isDefault := True\<rparr>)
       (update_many (\<lambda>m. pm_deletedAt m = None \<and> billingOwnerWhere owner (pm_userId m) (pm_organizationId m) \<and> pm_isDefault m \<and> pm_deletedAt m = None)
         (\<lambda>m. m\<lparr>pm_isDefault := False\<rparr>) (paymentMethods s))"
  using assms
  by (auto simp: makeDefault_def auditedBilling_def transaction_cases clearDefault_def updateCard_def tx_simps dest!: find_first_SomeD)

lemma findOwned_Inr:
  assumes "findOwnedPaymentMethod B A i userId s = Inr (m, s')"
  shows "pm_id m = i" "s' = s"
  using assms by (auto simp: findOwnedPaymentMethod_def tx_simps required_Inr dest!: find_first_SomeD)

text \<open>
  choosing a default card leaves the owner with that one: the card that is returned is the card asked for
  and is the default, and no other card of the owner that is in use is.
\<close>

theorem setDefaultPaymentMethod_sole:
  assumes "setDefaultPaymentMethod B A ef other userId paymentMethodId client metadata businessKey s = (Inr m, s')"
    "resolveBillingOwner B A userId = Inr owner"
  shows "m \<in> set (paymentMethods s') \<and> pm_id m = paymentMethodId \<and> pm_isDefault m \<and>
     (\<forall>m'\<in>set (paymentMethods s'). billingOwnerWhere owner (pm_userId m') (pm_organizationId m') \<and> pm_deletedAt m' = None \<and> pm_isDefault m' \<longrightarrow>
        pm_id m' = paymentMethodId)"
proof -
  obtain m0 s1 s2 where found: "findOwnedPaymentMethod B A paymentMethodId userId s = Inr (m0, s1)"
    and run: "makeDefault A ef userId owner (pm_id m0) metadata s2 = (Inr m, s')"
    using assms by (auto simp: setDefaultPaymentMethod_def andNext_Inr calling_def transaction_cases)
  note m = makeDefault_cards(1,2) [OF run, unfolded findOwned_Inr(1) [OF found]]
  have cards: "pm_isDefault m' = cardOf owner paymentMethodId m'"
    if "m' \<in> set (paymentMethods s')" "billingOwnerWhere owner (pm_userId m') (pm_organizationId m')" "pm_deletedAt m' = None" for m'
    using that unfolding makeDefault_cards(3) [OF run, unfolded findOwned_Inr(1) [OF found]] set_update_many
    by (auto simp: cardOf_def)
  from m(2) have "pm_id m = paymentMethodId" "pm_isDefault m" using cards [OF m(1)] by (simp_all add: cardOf_def)
  moreover have "pm_id m' = paymentMethodId"
    if "m' \<in> set (paymentMethods s')" "billingOwnerWhere owner (pm_userId m') (pm_organizationId m') \<and> pm_deletedAt m' = None \<and> pm_isDefault m'" for m'
    using cards [OF that(1)] that(2) by (simp add: cardOf_def)
  ultimately show ?thesis using m(1) by (intro conjI ballI impI)
qed

text \<open>
  the last card of an owner is kept while a subscription of theirs is live: the attempt to remove it is
  refused, nothing is sent to the payment provider and nothing is changed.
\<close>

theorem last_card_kept:
  assumes "resolveBillingOwner B A userId = Inr owner" "x \<in> set (subscriptions s)" "liveSubscription owner x"
    "matching (liveCard owner) (paymentMethods s) \<le> 1"
  shows "\<exists>e. detachPaymentMethod B A ef other userId paymentMethodId client metadata businessKey s = (Inl e, s)"
proof -
  have "matching (liveSubscription owner) (subscriptions s) > 0" using assms(2,3) by (auto simp: matching_pos)
  then have guard: "\<exists>e. assertCardRemovable A owner s = Inl e"
    using assms(4) by (auto simp: assertCardRemovable_def andThen_def reading_def require_def ownerScoped_def split: if_split sum.split)
  show ?thesis
  proof (cases "requireStripe client")
    case (Inl e)
    then show ?thesis by (simp add: detachPaymentMethod_def andNext_def calling_def)
  next
    case (Inr c)
    show ?thesis
    proof (cases "findOwnedPaymentMethod B A paymentMethodId userId s")
      case (Inl e)
      with Inr assms(1) show ?thesis by (simp add: detachPaymentMethod_def andNext_def calling_def transaction_def)
    next
      case (Inr r)
      obtain m0 where r: "r = (m0, s)"
        using Inr findOwned_Inr(2) by (cases r) auto
      obtain e where "assertCardRemovable A owner s = Inl e" using guard by blast
      with Inr \<open>requireStripe client = Inr c\<close> assms(1) r show ?thesis
        by (simp add: detachPaymentMethod_def andNext_def calling_def transaction_def)
    qed
  qed
qed

section \<open>Properties of subscriptions\<close>

lemma ensureCustomer_existing:
  assumes "resolveBillingOwner B A userId = Inr owner" "ownerCustomer owner s = Inr (Some customerId, s)" "customerId \<noteq> []"
  shows "ensureCustomer B A other userId (Some c) s = (Inr customerId, s)"
  using assms
  by (cases owner)
    (auto simp: ensureCustomer_def requireStripe_def calling_def andNext_def transaction_def customerRequest_def ownerCustomer_def
      andThen_def ret_def answer_def getBillingUser_def getBillingOrganization_def reading_def throw_def split: option.split_asm)

text \<open>
  a subscription of somebody else is out of reach. When the subscription named in a request belongs to a
  customer other than the one of the caller's billing owner, cancelling it, resuming it and changing its price
  all answer that there is no such subscription, and nothing is sent to the payment provider or changed.
\<close>

theorem foreign_subscription_refused:
  assumes "resolveBillingOwner B A userId = Inr owner" "ownerCustomer owner s = Inr (Some customerId, s)" "customerId \<noteq> []"
    "sc_retrieve c ''subscription'' subscriptionId = Inr x" "customerOf (jprop ''customer'' x) \<noteq> JStr customerId"
  shows "cancelSubscription B A other userId subscriptionId (Some c) businessKey s = (Inl (App (notFound (Some ''Subscription not found''))), s) \<and>
     resumeSubscription B A other userId subscriptionId (Some c) businessKey s = (Inl (App (notFound (Some ''Subscription not found''))), s) \<and>
     changeSubscriptionPrice B A other userId subscriptionId priceKey proration (Some c) businessKey s =
       (Inl (App (notFound (Some ''Subscription not found''))), s)"
proof -
  have "ownSubscription c customerId subscriptionId = Inl (App (notFound (Some ''Subscription not found'')))"
    using assms(4,5) by (simp add: ownSubscription_def)
  with ensureCustomer_existing [OF assms(1-3), of other c] assms(1) show ?thesis
    by (simp add: cancelSubscription_def resumeSubscription_def changeSubscriptionPrice_def andNext_def calling_def requireStripe_def)
qed

text \<open>What the provider documents of its lists: a page of what follows the given object, and whether more follows.\<close>

definition listsAll :: "StripeClient \<Rightarrow> string \<Rightarrow> jsval list \<Rightarrow> bool" where
  "listsAll c customerId subs \<longleftrightarrow>
     sc_list c ''subscription'' (subscriptionQuery customerId 100 None) = Inr (take 100 subs, 100 < length subs) \<and>
     (\<forall>pre x rest i. subs = pre @ x # rest \<longrightarrow> jprop ''id'' x = JStr i \<longrightarrow>
        sc_list c ''subscription'' (subscriptionQuery customerId 100 (Some i)) = Inr (take 100 rest, 100 < length rest))"

lemma listsAll_after:
  "listsAll c customerId subs \<Longrightarrow> subs = pre @ x # rest \<Longrightarrow> jprop ''id'' x = JStr i \<Longrightarrow>
   sc_list c ''subscription'' (subscriptionQuery customerId 100 (Some i)) = Inr (take 100 rest, 100 < length rest)"
  unfolding listsAll_def by blast

definition openIds :: "jsval list \<Rightarrow> string list" where
  "openIds xs = map (\<lambda>x. textOf (jprop ''id'' x)) (filter (\<lambda>x. \<not> subscriptionOver x) xs)"

lemma cancelPage_run:
  assumes "\<And>i b. \<exists>v. sc_cancel c i b = Inr v"
  shows "cancelPage c xs n s = (Inr (n + length (openIds xs)), s\<lparr>cancellations := rev (openIds xs) @ cancellations s\<rparr>)"
proof (induction xs arbitrary: n s)
  case Nil
  then show ?case by (simp add: answer_def openIds_def)
next
  case (Cons x xs)
  obtain v where "sc_cancel c (textOf (jprop ''id'' x)) (JObj [(''invoice_now'', JBool False), (''prorate'', JBool False)]) = Inr v"
    using assms by blast
  then show ?case by (simp add: Cons cancelling_def andNext_def) (simp add: openIds_def)
qed

lemma openIds_append: "openIds (xs @ ys) = openIds xs @ openIds ys"
  by (simp add: openIds_def)

lemma cancelPages_run:
  assumes lists: "listsAll c customerId subs" and cancels: "\<And>i b. \<exists>v. sc_cancel c i b = Inr v"
    and ids: "\<And>x. x \<in> set subs \<Longrightarrow> \<exists>t. jprop ''id'' x = JStr t \<and> t \<noteq> []"
    and "subs = pre @ rest" "after = (if pre = [] then None else Some (textOf (jprop ''id'' (last pre))))" "length rest \<le> 100 * fuel" "0 < fuel"
  shows "cancelPages fuel c customerId after n s =
     (Inr (Some (n + length (openIds rest))), s\<lparr>cancellations := rev (openIds rest) @ cancellations s\<rparr>)"
  using assms(4-)
proof (induction fuel arbitrary: pre rest after n s)
  case 0
  then show ?case by simp
next
  case (Suc fuel)
  have page: "sc_list c ''subscription'' (subscriptionQuery customerId 100 after) = Inr (take 100 rest, 100 < length rest)"
  proof (cases "pre = []")
    case True
    with lists Suc.prems(1,2) show ?thesis by (simp add: listsAll_def)
  next
    case False
    then have "subs = butlast pre @ last pre # rest" using Suc.prems(1) by simp
    moreover obtain t where "jprop ''id'' (last pre) = JStr t" using ids [of "last pre"] False Suc.prems(1) by auto
    ultimately show ?thesis
      using listsAll_after [OF lists] False Suc.prems(2) by (simp add: textOf_def)
  qed
  show ?case
  proof (cases "100 < length rest")
    case False
    with page show ?thesis
      by (simp add: andNext_def calling_def cancelPage_run [OF cancels] answer_def)
  next
    case True
    let ?page = "take 100 rest" and ?rest = "drop 100 rest"
    have nonempty: "?page \<noteq> []" using True by auto
    obtain t where t: "jprop ''id'' (last ?page) = JStr t" "t \<noteq> []"
      using ids [of "last ?page"] nonempty Suc.prems(1) last_in_set [OF nonempty] in_set_takeD [of "last ?page" 100 rest] by auto
    have "fuel > 0" using True Suc.prems(3) by (cases fuel) auto
    have IH: "cancelPages fuel c customerId (Some t) n' s' =
       (Inr (Some (n' + length (openIds ?rest))), s'\<lparr>cancellations := rev (openIds ?rest) @ cancellations s'\<rparr>)" for n' s'
      using Suc.prems(1,3) nonempty t \<open>fuel > 0\<close>
      by (intro Suc.IH [of "pre @ ?page"]) (simp_all add: textOf_def)
    have "openIds rest = openIds ?page @ openIds ?rest" by (simp flip: openIds_append)
    with page True nonempty t show ?thesis
      by (simp add: andNext_def calling_def cancelPage_run [OF cancels] lastId_def textValue_def IH)
  qed
qed

text \<open>
  before an account is erased every subscription of its customer that is not over is terminated, exactly
  once, however many pages the provider needs to list them; the loop ends after one round per page.
\<close>

theorem cancelAllUserSubscriptions_complete:
  assumes "find_first (\<lambda>u. u_id u = userId \<and> u_deletedAt u = None) (users (books s)) = Some user"
    "u_stripeCustomerId user = Some customerId" "customerId \<noteq> []"
    "listsAll c customerId subs" "\<And>i b. \<exists>v. sc_cancel c i b = Inr v"
    "\<And>x. x \<in> set subs \<Longrightarrow> \<exists>t. jprop ''id'' x = JStr t \<and> t \<noteq> []" "length subs \<le> 100 * fuel" "0 < fuel"
  shows "cancelAllUserSubscriptions fuel userId (Some c) s =
     (Inr (Some (length (openIds subs))), s\<lparr>cancellations := rev (openIds subs) @ cancellations s\<rparr>)"
  using cancelPages_run [OF assms(4-6), of "[]" subs None fuel 0 s] assms(1-3,7,8)
  by (simp add: cancelAllUserSubscriptions_def andNext_def transaction_def reading_def)


section \<open>Where sessions return to\<close>

definition homeUrl :: "billing_env \<Rightarrow> jsval \<Rightarrow> bool" where
  "homeUrl B v \<longleftrightarrow> (\<exists>text url. be_parseUrl B text = Some (be_appOrigin B, url) \<and> v = JStr url)"

definition staysHome :: "billing_env \<Rightarrow> jsval \<Rightarrow> bool" where
  "staysHome B body \<longleftrightarrow>
     (\<forall>k\<in>{''success_url'', ''cancel_url'', ''return_url''}. jprop k body = Undefined \<or> homeUrl B (jprop k body))"

definition homeSince :: "billing_env \<Rightarrow> billing \<Rightarrow> billing \<Rightarrow> bool" where
  "homeSince B s0 s \<longleftrightarrow> (\<forall>r\<in>set (requests s). r \<in> set (requests s0) \<or> staysHome B (snd r))"

interpretation home: sent_condition "homeSince B s0" for B s0
  by unfold_locales (simp_all add: homeSince_def staysHome_def plainBody_def)

lemma safeRedirectUrl_home: "safeRedirectUrl B input path = Inr url \<Longrightarrow> homeUrl B (JStr url)"
  by (auto simp: safeRedirectUrl_def homeUrl_def split: option.split_asm if_split_asm)

lemma sending_home:
  assumes "staysHome B body"
  shows "commits (homeSince B s0) (sending c what body key)"
  using assms by (simp add: commits_def sending_def homeSince_def)

lemma checkout_home:
  assumes "homeUrl B (JStr successUrl)" "homeUrl B (JStr cancelUrl)"
  shows "staysHome B (checkoutParams input owner customerId price successUrl cancelUrl promotion)"
  using assms by (auto simp: staysHome_def checkoutParams_def getProp_def split: option.split)

lemma portal_home: "homeUrl B (JStr url) \<Longrightarrow> staysHome B (JObj [(''customer'', JStr customer), (''return_url'', JStr url)])"
  by (simp add: staysHome_def getProp_def)

lemma commits_calling_andNext:
  "(\<And>a. r = Inr a \<Longrightarrow> commits Q (f a)) \<Longrightarrow> commits Q (andNext (calling r) f)"
  by (cases r) (simp_all add: commits_def andNext_def calling_def)

text \<open>
  sessions of the payment provider send the customer back to this application only. Whatever redirect
  addresses a request names, every checkout and portal session that is created returns to addresses of the
  configured origin; other addresses are refused.
\<close>

theorem sessions_return_home:
  assumes others: "\<And>x. requests (other x) = requests x"
    and sent: "r \<in> set (requests (snd (createCheckoutSession B A other userId input businessKey client s))) \<union>
                set (requests (snd (createBillingPortalSession B A other userId returnUrl client businessKey s)))" "r \<notin> set (requests s)"
  shows "staysHome B (snd r)"
proof -
  have customer: "commits (homeSince B s) (ensureCustomer B A other userId client)"
    by (rule home.ensureCustomer_keeps) (simp add: homeSince_def others)
  have "commits (homeSince B s) (createCheckoutSession B A other userId input businessKey client)"
    unfolding createCheckoutSession_def
    by (intro commits_calling_andNext commits_andNext [OF customer] commits_andNext [OF sending_home] checkout_home safeRedirectUrl_home commits_all)
  moreover have "commits (homeSince B s) (createBillingPortalSession B A other userId returnUrl client businessKey)"
    unfolding createBillingPortalSession_def
    by (intro commits_calling_andNext commits_andNext [OF customer] commits_andNext [OF sending_home] portal_home safeRedirectUrl_home commits_all)
  ultimately show ?thesis using sent commitsD [of "homeSince B s" _ s] unfolding homeSince_def by fastforce
qed


section \<open>Concrete instances of subscriptions\<close>

definition demo_card :: "ident \<Rightarrow> bool \<Rightarrow> PaymentMethod" where
  "demo_card i d = \<lparr>pm_id = i, pm_organizationId = None, pm_userId = ''ann'', pm_stripePaymentMethodId = ''pm'' @ i, pm_type = ''card'', pm_brand = None,
     pm_last4 = None, pm_expMonth = None, pm_expYear = None, pm_fingerprint = None, pm_isDefault = d, pm_detachedAt = None,
     pm_createdAt = 0, pm_deletedAt = None\<rparr>"

definition demo_subscription :: StripeSubscription where
  "demo_subscription = \<lparr>ss_id = ''s'', ss_organizationId = None, ss_userId = ''ann'', ss_stripeSubscriptionId = ''sub'', ss_status = ''active'',
     ss_priceId = None, ss_currency = None, ss_currentPeriodStart = None, ss_currentPeriodEnd = None, ss_cancelAtPeriodEnd = False,
     ss_canceledAt = None, ss_lastStripeEventId = None, ss_lastStripeEventCreatedAt = None, ss_createdAt = 0, ss_deletedAt = None\<rparr>"

lemma demo_owner: "resolveBillingOwner demo_benv A u = Inr (UserOwner u)"
  by (simp add: resolveBillingOwner_def demo_benv_def)

lemma demo_merchant_audits:
  "auditEventWriter demo_merchant eid now input s = Inr ((), s\<lparr>auditEvents := audit_row demo_merchant eid now input # auditEvents s\<rparr>)"
  by (rule auditEventWriter_total) (simp add: demo_merchant_def demo_app_def demo_audit_def demo_crypto)

theorem setDefaultPaymentMethod_sole_witness:
  "\<exists>m s'. setDefaultPaymentMethod demo_benv demo_merchant demo_effects (\<lambda>_ x. x) ''ann'' ''b'' (Some demo_stripe) demo_meta ''k''
       (demo_billing\<lparr>paymentMethods := [demo_card ''a'' True, demo_card ''b'' False]\<rparr>) = (Inr m, s') \<and> pm_id m = ''b'' \<and> pm_isDefault m"
proof -
  obtain m s' where r: "setDefaultPaymentMethod demo_benv demo_merchant demo_effects (\<lambda>_ x. x) ''ann'' ''b'' (Some demo_stripe) demo_meta ''k''
       (demo_billing\<lparr>paymentMethods := [demo_card ''a'' True, demo_card ''b'' False]\<rparr>) = (Inr m, s')"
    by (simp add: setDefaultPaymentMethod_def findOwnedPaymentMethod_def demo_owner ensureCustomer_def customerRequest_def getBillingUser_def
        requireStripe_def providerKey_def demo_hash updating_def makeDefault_def auditedBilling_def clearDefault_def updateCard_def cardOf_def
        ownerScoped_def inBooks_def demo_merchant_open demo_billing_run tx_run demo_billing_def demo_books_def demo_store_def demo_user_def
        demo_stripe_def demo_card_def demo_merchant_audits)
  from setDefaultPaymentMethod_sole [OF r demo_owner] r show ?thesis by blast
qed

theorem last_card_kept_witness:
  "\<exists>e. detachPaymentMethod demo_benv demo_merchant demo_effects (\<lambda>_ x. x) ''ann'' ''a'' (Some demo_stripe) demo_meta ''k''
     (demo_billing\<lparr>paymentMethods := [demo_card ''a'' True], subscriptions := [demo_subscription]\<rparr>) =
     (Inl e, demo_billing\<lparr>paymentMethods := [demo_card ''a'' True], subscriptions := [demo_subscription]\<rparr>)"
  by (rule last_card_kept [OF demo_owner, of demo_subscription])
    (simp_all add: liveSubscription_def liveCard_def demo_subscription_def demo_card_def matching_def)

theorem foreign_subscription_refused_witness:
  "cancelSubscription demo_benv demo_merchant (\<lambda>x. x) ''ann'' ''sub'' (Some (demo_stripe\<lparr>sc_retrieve := \<lambda>what i. Inr (JObj [(''customer'', JStr ''other'')])\<rparr>))
     ''k'' demo_billing = (Inl (App (notFound (Some ''Subscription not found''))), demo_billing)"
proof -
  have "ownerCustomer (UserOwner ''ann'') demo_billing = Inr (Some ''cus'', demo_billing)"
    by (simp add: ownerCustomer_def getBillingUser_def tx_run demo_billing_def demo_books_def demo_store_def demo_user_def)
  from foreign_subscription_refused [OF demo_owner this, of "demo_stripe\<lparr>sc_retrieve := \<lambda>what i. Inr (JObj [(''customer'', JStr ''other'')])\<rparr>" "''sub''"]
  show ?thesis by (simp add: customerOf_def getProp_def)
qed

definition demo_sub :: "string \<Rightarrow> string \<Rightarrow> jsval" where
  "demo_sub i st = JObj [(''id'', JStr i), (''status'', JStr st)]"

theorem cancelAllUserSubscriptions_complete_witness:
  "cancellations (snd (cancelAllUserSubscriptions 1 ''ann''
     (Some (demo_stripe\<lparr>sc_list := \<lambda>what q. if jprop ''starting_after'' q = Undefined then Inr ([demo_sub ''x'' ''active''], False) else Inr ([], False)\<rparr>))
     demo_billing)) = [''x'']"
proof -
  let ?c = "demo_stripe\<lparr>sc_list := \<lambda>what q. if jprop ''starting_after'' q = Undefined then Inr ([demo_sub ''x'' ''active''], False) else Inr ([], False)\<rparr>"
  have "listsAll ?c ''cus'' [demo_sub ''x'' ''active'']"
    by (auto simp: listsAll_def subscriptionQuery_def getProp_def demo_sub_def Cons_eq_append_conv)
  then have "cancelAllUserSubscriptions 1 ''ann'' (Some ?c) demo_billing =
     (Inr (Some (length (openIds [demo_sub ''x'' ''active'']))), demo_billing\<lparr>cancellations := rev (openIds [demo_sub ''x'' ''active'']) @ cancellations demo_billing\<rparr>)"
    by (intro cancelAllUserSubscriptions_complete [where customerId = "''cus''" and user = "(demo_user ''ann'')\<lparr>u_stripeCustomerId := Some ''cus''\<rparr>"])
      (simp_all add: demo_billing_def demo_books_def demo_user_def find_first_def demo_stripe_def demo_sub_def getProp_def)
  then show ?thesis by (simp add: openIds_def subscriptionOver_def demo_sub_def getProp_def textOf_def demo_billing_def)
qed

definition demo_catalog :: billing_env where
  "demo_catalog = demo_benv\<lparr>be_parseUrl := \<lambda>u. Some (''https://app'', u), be_priceCatalog := \<lambda>k. Some ''price''\<rparr>"

definition demo_checkout :: CheckoutInput where
  "demo_checkout = \<lparr>co_mode = ''payment'', co_priceKey = Some ''basic'', co_quantity = 1, co_successUrl = None, co_cancelUrl = None, co_promotionCode = None\<rparr>"

theorem sessions_return_home_witness:
  "\<exists>r. r \<in> set (requests (snd (createCheckoutSession demo_catalog demo_merchant (\<lambda>x. x) ''ann'' demo_checkout ''k'' (Some demo_stripe) demo_billing))) \<and>
     staysHome demo_catalog (snd r)"
proof -
  obtain r where r: "set (requests (snd (createCheckoutSession demo_catalog demo_merchant (\<lambda>x. x) ''ann'' demo_checkout ''k'' (Some demo_stripe) demo_billing))) = {r}"
    by (simp add: createCheckoutSession_def ensureCustomer_def customerRequest_def getBillingUser_def resolveBillingOwner_def
        requireStripe_def providerKey_def demo_hash resolvePrice_def safeRedirectUrl_def sending_def demo_catalog_def demo_benv_def demo_checkout_def
        demo_billing_run tx_run demo_billing_def demo_books_def demo_store_def demo_user_def demo_stripe_def)
  moreover have "staysHome demo_catalog (snd r)"
    by (rule sessions_return_home [where other = "\<lambda>x. x"]) (use r in \<open>auto simp: demo_billing_def\<close>)
  ultimately show ?thesis by blast
qed

end
