(* ===== verification/Platform.thy ===== *)
theory Platform
  imports Billing Idempotency Auth_Accounts Uploads
begin

text \<open>
  The whole database, for the components that reach across modules: notifications, users with the deletion
  of accounts, and retention. The rows added here are those of devices, notification preferences
  and suppressed addresses; what the notification providers were handed is recorded.
\<close>

section \<open>Rows\<close>

record Device =
  dv_id :: ident
  dv_userId :: ident
  dv_fcmToken :: string
  dv_platform :: "string option"
  dv_lastSeenAt :: time
  dv_createdAt :: time
  dv_deletedAt :: "time option"

record NotificationPreference =
  np_id :: ident
  np_organizationId :: "ident option"
  np_userId :: ident
  np_scopeKey :: string
  np_channel :: NotificationChannel
  np_topic :: string
  np_enabled :: bool
  np_updatedAt :: time
  np_deletedAt :: "time option"

datatype EmailSuppressionReason = S_BOUNCE | S_COMPLAINT | S_MANUAL

record EmailSuppression =
  sup_id :: ident
  sup_destinationHash :: string
  sup_reason :: EmailSuppressionReason
  sup_provider :: "string option"
  sup_providerEventId :: "string option"
  sup_createdAt :: time
  sup_deletedAt :: "time option"

text \<open>A mail, and what push and text messages carry.\<close>

record EmailMessage =
  ms_to :: string
  ms_subject :: string
  ms_text :: string
  ms_html :: string
  ms_headers :: "(string \<times> string) list"
  ms_deliveryId :: "string option"

record PushMessage =
  ps_tokens :: "string list"
  ps_title :: string
  ps_body :: string
  ps_data :: "(string \<times> string) list"

record platform =
  pf_content :: content
  pf_devices :: "Device table"
  pf_preferences :: "NotificationPreference table"
  pf_suppressions :: "EmailSuppression table"
  pf_deliveries :: "NotificationDelivery table"
  pf_idempotency :: "IdempotencyRecord table"
  pf_subscriptions :: "StripeSubscription table"
  pf_webhooks :: "StripeWebhookEvent table"
  pf_mails :: "EmailMessage list"
  pf_texts :: "(string \<times> string) list"
  pf_pushes :: "PushMessage list"

abbreviation pf_store :: "platform \<Rightarrow> store" where
  "pf_store s \<equiv> accounts (pf_content s)"

section \<open>Statements\<close>

definition inContent :: "(content, 'a) tx \<Rightarrow> (platform, 'a) tx" where
  "inContent m s = (case m (pf_content s) of Inl e \<Rightarrow> Inl e | Inr (a, c) \<Rightarrow> Inr (a, s\<lparr>pf_content := c\<rparr>))"

lemma inContent_Inr [tx_simps]:
  "inContent m s = Inr r \<longleftrightarrow> (\<exists>a c. m (pf_content s) = Inr (a, c) \<and> r = (a, s\<lparr>pf_content := c\<rparr>))"
  by (auto simp: inContent_def split: sum.split)

abbreviation inStore :: "(store, 'a) tx \<Rightarrow> (platform, 'a) tx" where
  "inStore m \<equiv> inContent (inAccounts m)"

text \<open>A computation on the accounts alone, as one on the platform.\<close>

definition onStore :: "(store, 'a) io \<Rightarrow> (platform, 'a) io" where
  "onStore m s = (case m (pf_store s) of (r, db) \<Rightarrow> (r, s\<lparr>pf_content := (pf_content s)\<lparr>accounts := db\<rparr>\<rparr>))"

text \<open>Challenges are deleted with the reset tokens that refer to them.\<close>

definition withoutChallenges :: "(OtpChallenge \<Rightarrow> bool) \<Rightarrow> store \<Rightarrow> store" where
  "withoutChallenges P db = db\<lparr>
     passwordResetTokens := delete_many (\<lambda>t. \<exists>c\<in>set (otpChallenges db). P c \<and> prt_otpChallengeId t = otp_id c) (passwordResetTokens db),
     otpChallenges := delete_many P (otpChallenges db)\<rparr>"

definition deleteChallenges :: "(OtpChallenge \<Rightarrow> bool) \<Rightarrow> (store, nat) tx" where
  "deleteChallenges P db = Inr (matching P (otpChallenges db), withoutChallenges P db)"

type_synonym PlatformAudit = "ident \<Rightarrow> time \<Rightarrow> AuditInput \<Rightarrow> (platform, unit) tx"

definition auditedPlatform :: "app \<Rightarrow> (PlatformAudit \<Rightarrow> (platform, 'a) tx) \<Rightarrow> (platform, 'a) io" where
  "auditedPlatform A operation = transaction (operation (\<lambda>eid now input. inStore (auditEventWriter A eid now input)))"

definition demo_platform :: platform where
  "demo_platform = \<lparr>pf_content = demo_content, pf_devices = [], pf_preferences = [], pf_suppressions = [], pf_deliveries = [],
     pf_idempotency = [], pf_subscriptions = [], pf_webhooks = [], pf_mails = [], pf_texts = [], pf_pushes = []\<rparr>"

end
