(* ===== verification/Notifications.thy ===== *)
theory Notifications
  imports Platform Canonical_Json
begin

text \<open>
  Notifications: preferences and one-click unsubscribe links (\<open>src/src/modules/notifications/notification-preferences.service.ts\<close>,
  \<open>unsubscribe.ts\<close>), events of the mail provider (\<open>email-events.service.ts\<close>) and what queues notifications
  (\<open>notifications.service.ts\<close>).
\<close>

section \<open>Preferences\<close>

definition notificationTopics :: "string list" where
  "notificationTopics = [''product_updates'']"

definition preferenceScope :: "app \<Rightarrow> string \<times> ident option" where
  "preferenceScope A =
     (let organizationId = currentOrganization A in
      if truthy organizationId then (the organizationId, organizationId) else (''global'', None))"

text \<open>Without an organization the tenant scope is lifted; with one its filter is the organization of the scope.\<close>

definition inScope :: "ident \<Rightarrow> string \<times> ident option \<Rightarrow> NotificationPreference \<Rightarrow> bool" where
  "inScope userId scope p \<longleftrightarrow> np_userId p = userId \<and> np_scopeKey p = fst scope \<and> np_organizationId p = snd scope \<and> np_deletedAt p = None"

definition listNotificationPreferences :: "app \<Rightarrow> ident \<Rightarrow> platform \<Rightarrow> (string \<times> bool) list" where
  "listNotificationPreferences A userId s =
     map (\<lambda>topic.
        case find_first (\<lambda>p. np_channel p = EMAIL \<and> np_topic p = topic) (rev (filter (inScope userId (preferenceScope A)) (pf_preferences s))) of
          Some p \<Rightarrow> (topic, np_enabled p) | None \<Rightarrow> (topic, True)) notificationTopics"

definition preferenceKey :: "ident \<Rightarrow> string \<Rightarrow> NotificationChannel \<Rightarrow> string \<Rightarrow> NotificationPreference \<Rightarrow> bool" where
  "preferenceKey userId scopeKey channel topic p \<longleftrightarrow>
     np_userId p = userId \<and> np_scopeKey p = scopeKey \<and> np_channel p = channel \<and> np_topic p = topic"

definition setNotificationPreference ::
    "app \<Rightarrow> effects \<Rightarrow> ident \<Rightarrow> NotificationChannel \<Rightarrow> string \<Rightarrow> bool \<Rightarrow> (platform, NotificationPreference) tx" where
  "setNotificationPreference A ef userId channel topic enabled =
     (let scope = preferenceScope A in
      upsertRow pf_preferences pf_preferences_update
        (\<lambda>p. preferenceKey userId (fst scope) channel topic p \<and> np_organizationId p = snd scope)
        \<lparr>np_id = ef_id ef 0, np_organizationId = snd scope, np_userId = userId, np_scopeKey = fst scope, np_channel = channel,
         np_topic = topic, np_enabled = enabled, np_updatedAt = ef_now ef 0, np_deletedAt = None\<rparr>
        (\<lambda>p. p\<lparr>np_enabled := enabled, np_deletedAt := None, np_updatedAt := ef_now ef 0\<rparr>))"

definition notificationAllowed :: "platform \<Rightarrow> ident \<Rightarrow> NotificationChannel \<Rightarrow> string \<Rightarrow> string option \<Rightarrow> bool" where
  "notificationAllowed s userId channel topic organizationId =
     (let scopeKeys = (if truthy organizationId then [the organizationId, ''global''] else [''global'']);
          rows = filter (\<lambda>p. np_userId p = userId \<and> np_channel p = channel \<and> np_topic p = topic \<and>
                   np_scopeKey p \<in> set scopeKeys \<and> np_deletedAt p = None) (pf_preferences s);
          exact = (if truthy organizationId then find_first (\<lambda>p. np_scopeKey p = the organizationId) rows else None) in
      case exact of
        Some p \<Rightarrow> np_enabled p
      | None \<Rightarrow> (case find_first (\<lambda>p. np_scopeKey p = ''global'') rows of Some p \<Rightarrow> np_enabled p | None \<Rightarrow> True))"

section \<open>Unsubscribe links\<close>

record UnsubscribePayload =
  un_userId :: ident
  un_topic :: string
  un_exp :: int

text \<open>\<open>JSON.stringify\<close> of the payload; \<open>JSON.parse\<close> and the test for a UUID are arguments.\<close>

definition payloadText :: "UnsubscribePayload \<Rightarrow> string" where
  "payloadText p =
     ''{'' @ jsonString ''v'' @ '':1,'' @ jsonString ''userId'' @ '':'' @ jsonString (un_userId p) @ '','' @
     jsonString ''topic'' @ '':'' @ jsonString (un_topic p) @ '','' @ jsonString ''exp'' @ '':'' @ jsonNumber (un_exp p) @ ''}''"

definition payloadValue :: "UnsubscribePayload \<Rightarrow> jsval" where
  "payloadValue p = JObj [(''v'', JNum 1), (''userId'', JStr (un_userId p)), (''topic'', JStr (un_topic p)), (''exp'', JNum (un_exp p))]"

definition unsubscribeSignature :: "crypto_env \<Rightarrow> crypto_prims \<Rightarrow> string \<Rightarrow> string" where
  "unsubscribeSignature env P payload = hmac P (TOKEN_HASH_SECRET env) (''email-unsubscribe:v1:'' @ payload)"

definition createUnsubscribeToken :: "crypto_env \<Rightarrow> crypto_prims \<Rightarrow> time \<Rightarrow> ident \<Rightarrow> string \<Rightarrow> int \<Rightarrow> string" where
  "createUnsubscribeToken env P now userId topic expiresInDays =
     (let payload = base64url (payloadText \<lparr>un_userId = userId, un_topic = topic, un_exp = now div 1000 + expiresInDays * 24 * 60 * 60\<rparr>) in
      payload @ ''.'' @ base64url (unsubscribeSignature env P payload))"

definition parseUnsubscribePayload :: "(string \<Rightarrow> bool) \<Rightarrow> jsval \<Rightarrow> UnsubscribePayload option" where
  "parseUnsubscribePayload isUuid v =
     (case (jprop ''v'' v, jprop ''userId'' v, jprop ''topic'' v, jprop ''exp'' v) of
        (JNum n, JStr userId, JStr topic, JNum e) \<Rightarrow>
          if n = 1 \<and> isUuid userId \<and> topic \<in> set notificationTopics \<and> 0 < e
          then Some \<lparr>un_userId = userId, un_topic = topic, un_exp = e\<rparr> else None
      | _ \<Rightarrow> None)"

definition verifyUnsubscribeToken ::
    "crypto_env \<Rightarrow> crypto_prims \<Rightarrow> (string \<Rightarrow> jsval option) \<Rightarrow> (string \<Rightarrow> bool) \<Rightarrow> time \<Rightarrow> string \<Rightarrow> UnsubscribePayload option" where
  "verifyUnsubscribeToken env P parse isUuid now token =
     (case split_on CHR ''.'' token of
        payload # encodedSignature # more_parts \<Rightarrow>
          if payload = [] \<or> encodedSignature = [] \<or> (more_parts \<noteq> [] \<and> hd more_parts \<noteq> []) then None
          else if \<not> constantTimeEqual (unbase64url encodedSignature) (unsubscribeSignature env P payload) then None
          else (case Option.bind (parse (unbase64url payload)) (parseUnsubscribePayload isUuid) of
                  None \<Rightarrow> None
                | Some p \<Rightarrow> if un_exp p > now div 1000 then Some p else None)
      | _ \<Rightarrow> None)"

definition unsubscribeWithToken ::
    "app \<Rightarrow> effects \<Rightarrow> (string \<Rightarrow> jsval option) \<Rightarrow> (string \<Rightarrow> bool) \<Rightarrow> string \<Rightarrow> (platform, bool) io" where
  "unsubscribeWithToken A ef parse isUuid token =
     (case verifyUnsubscribeToken (cenv A) (prims A) parse isUuid (ef_now ef 1) token of
        None \<Rightarrow> answer False
      | Some p \<Rightarrow>
          andNext (transaction (setNotificationPreference A ef (un_userId p) EMAIL (un_topic p) False)) (\<lambda>_. answer True))"

section \<open>Events of the mail provider\<close>

datatype EmailEventType = E_delivered | E_bounce | E_complaint

record EmailEvent =
  ev_id :: string
  ev_type :: EmailEventType
  ev_destination :: string
  ev_provider :: string
  ev_messageId :: "string option"

text \<open>Decoding of hexadecimal text stops at the first pair that is none.\<close>

definition hexDigit :: "char \<Rightarrow> nat option" where
  "hexDigit c =
     (if 48 \<le> byte c \<and> byte c \<le> 57 then Some (byte c - 48)
      else if 97 \<le> byte c \<and> byte c \<le> 102 then Some (byte c - 87)
      else if 65 \<le> byte c \<and> byte c \<le> 70 then Some (byte c - 55) else None)"

fun fromHex :: "string \<Rightarrow> string" where
  "fromHex (a # b # cs) = (case (hexDigit a, hexDigit b) of (Some x, Some y) \<Rightarrow> unbyte (16 * x + y) # fromHex cs | _ \<Rightarrow> [])"
| "fromHex _ = []"

definition validSignature :: "crypto_prims \<Rightarrow> string option \<Rightarrow> string \<Rightarrow> string \<Rightarrow> bool" where
  "validSignature P secret rawBody value \<longleftrightarrow>
     truthy secret \<and>
     (let supplied = (if startsWith ''sha256='' value then drop 7 value else value) in
      constantTimeEqual (fromHex supplied) (hmac P (the secret) rawBody))"

definition eventStatus :: "EmailEventType \<Rightarrow> DeliveryStatus" where
  "eventStatus t = (case t of E_delivered \<Rightarrow> D_DELIVERED | E_bounce \<Rightarrow> D_BOUNCED | E_complaint \<Rightarrow> D_COMPLAINED)"

definition touchedBy :: "EmailEvent \<Rightarrow> string list \<Rightarrow> NotificationDelivery \<Rightarrow> bool" where
  "touchedBy event hashes d \<longleftrightarrow> nd_deletedAt d = None \<and>
     ((truthy (ev_messageId event) \<and> nd_providerMessageId d = ev_messageId event) \<or>
      (\<exists>h\<in>set hashes. nd_destinationHash d = Some h))"

definition suppression :: "effects \<Rightarrow> string \<Rightarrow> EmailEvent \<Rightarrow> EmailSuppression" where
  "suppression ef destinationHash event =
     \<lparr>sup_id = ef_id ef 0, sup_destinationHash = destinationHash,
      sup_reason = (if ev_type event = E_bounce then S_BOUNCE else S_COMPLAINT), sup_provider = Some (ev_provider event),
      sup_providerEventId = Some (ev_id event), sup_createdAt = ef_now ef 0, sup_deletedAt = None\<rparr>"

definition suppress :: "effects \<Rightarrow> string \<Rightarrow> EmailEvent \<Rightarrow> (platform, EmailSuppression) tx" where
  "suppress ef destinationHash event =
     upsertRow pf_suppressions pf_suppressions_update (\<lambda>x. sup_destinationHash x = destinationHash)
       (suppression ef destinationHash event)
       (\<lambda>x. x\<lparr>sup_reason := (if ev_type event = E_bounce then S_BOUNCE else S_COMPLAINT), sup_provider := Some (ev_provider event),
              sup_providerEventId := Some (ev_id event), sup_deletedAt := None\<rparr>)"

definition recordEmailEvent :: "effects \<Rightarrow> EmailEvent \<Rightarrow> string list \<Rightarrow> string \<Rightarrow> (platform, unit) tx" where
  "recordEmailEvent ef event hashes destinationHash =
     andThen (updateMany pf_deliveries pf_deliveries_update (touchedBy event hashes)
        (\<lambda>d. d\<lparr>nd_status := eventStatus (ev_type event), nd_provider := Some (ev_provider event),
               nd_deliveredAt := (if ev_type event = E_delivered then Some (ef_now ef 1) else None)\<rparr>)) (\<lambda>_.
     if ev_type event \<in> {E_bounce, E_complaint}
     then andThen (suppress ef destinationHash event) (\<lambda>_. ret ()) else ret ())"

text \<open>The parser of the body, with the schema of an event, is an argument.\<close>

definition processEmailProviderEvent ::
    "app \<Rightarrow> effects \<Rightarrow> string option \<Rightarrow> (string \<Rightarrow> thrown + EmailEvent) \<Rightarrow> string \<Rightarrow> string \<Rightarrow> (platform, unit) io" where
  "processEmailProviderEvent A ef secret parse rawBody value =
     (if \<not> validSignature (prims A) secret rawBody value then failing (App (badRequest (Some ''Invalid email event signature'') None))
      else
        andNext (calling (parse rawBody)) (\<lambda>event.
        let normalized = normalizeEmail (ev_destination event) in
        andNext (calling (candidateMetadataHashes (cenv A) (prims A) normalized)) (\<lambda>hashes.
        andNext (calling (hashMetadata (cenv A) (prims A) normalized)) (\<lambda>destinationHash.
        transaction (recordEmailEvent ef event hashes destinationHash)))))"

section \<open>Queueing\<close>

record ProductAnnouncementInput =
  pa_userId :: ident
  pa_destination :: string
  pa_organizationId :: "ident option"
  pa_headline :: string
  pa_message :: string
  pa_actionUrl :: string
  pa_dedupeKey :: string

definition queueProductAnnouncement :: "effects \<Rightarrow> ProductAnnouncementInput \<Rightarrow> (platform, unit) tx" where
  "queueProductAnnouncement ef input =
     inStore (outboxInsert (ef_id ef 0) (ef_now ef 0)
       \<lparr>oi_aggregateType = ''user'', oi_aggregateId = pa_userId input, oi_eventType = ''product.announcement'', oi_channel = EMAIL,
        oi_payload = JObj ([(''userId'', JStr (pa_userId input)), (''destination'', JStr (pa_destination input)),
            (''topic'', JStr ''product_updates''), (''headline'', JStr (pa_headline input)), (''message'', JStr (pa_message input)),
            (''actionUrl'', JStr (pa_actionUrl input))] @
          (if truthy (pa_organizationId input) then [(''organizationId'', JStr (the (pa_organizationId input)))] else [])),
        oi_dedupeKey = pa_dedupeKey input @ '':email'', oi_availableAt = None, oi_expiresAt = None\<rparr>)"

record UserNotificationInput =
  ui_userId :: ident
  ui_eventType :: string
  ui_channels :: "NotificationChannel list"
  ui_payload :: jsval
  ui_dedupeKey :: string

definition channelName :: "NotificationChannel \<Rightarrow> string" where
  "channelName c = (case c of EMAIL \<Rightarrow> ''email'' | SMS \<Rightarrow> ''sms'' | PUSH \<Rightarrow> ''push'' | INTERNAL \<Rightarrow> ''internal'')"

fun queueChannels :: "effects \<Rightarrow> nat \<Rightarrow> UserNotificationInput \<Rightarrow> NotificationChannel list \<Rightarrow> (platform, unit) tx" where
  "queueChannels ef n input [] = ret ()"
| "queueChannels ef n input (channel # channels) =
     andThen (inStore (outboxInsert (ef_id ef n) (ef_now ef n)
       \<lparr>oi_aggregateType = ''user'', oi_aggregateId = ui_userId input, oi_eventType = ui_eventType input, oi_channel = channel,
        oi_payload = ui_payload input, oi_dedupeKey = ui_dedupeKey input @ '':'' @ channelName channel,
        oi_availableAt = None, oi_expiresAt = None\<rparr>)) (\<lambda>_.
     queueChannels ef (n + 1) input channels)"

definition queueUserNotification :: "effects \<Rightarrow> UserNotificationInput \<Rightarrow> (platform, unit) tx" where
  "queueUserNotification ef input = queueChannels ef 0 input (ui_channels input)"

section \<open>Unsubscribe links: laws\<close>

lemma constantTimeEqual_refl [simp]: "constantTimeEqual x x"
  by (simp add: constantTimeEqual_def timingSafeEqual_def list_all2_refl)

lemma base64url_empty: "base64url s = [] \<longleftrightarrow> s = []"
  by (cases s rule: base64url.cases) simp_all

lemma parse_payloadValue:
  "isUuid (un_userId p) \<Longrightarrow> un_topic p \<in> set notificationTopics \<Longrightarrow> 0 < un_exp p \<Longrightarrow> parseUnsubscribePayload isUuid (payloadValue p) = Some p"
  by (simp add: parseUnsubscribePayload_def payloadValue_def getProp_def)

lemma unsubscribe_token_verifies:
  assumes law: "parse (payloadText \<lparr>un_userId = userId, un_topic = topic, un_exp = now div 1000 + 86400 * days\<rparr>) = Some (payloadValue \<lparr>un_userId = userId, un_topic = topic, un_exp = now div 1000 + 86400 * days\<rparr>)"
    and digest: "\<And>k m. hmac P k m \<noteq> []"
    and user: "isUuid userId" "topic \<in> set notificationTopics"
    and clock: "0 \<le> now" "0 < days" "now' div 1000 < now div 1000 + 86400 * days"
  shows "verifyUnsubscribeToken env P parse isUuid now' (createUnsubscribeToken env P now userId topic days) =
    Some \<lparr>un_userId = userId, un_topic = topic, un_exp = now div 1000 + 86400 * days\<rparr>"
proof -
  define p where "p = \<lparr>un_userId = userId, un_topic = topic, un_exp = now div 1000 + 86400 * days\<rparr>"
  have law': "parse (payloadText p) = Some (payloadValue p)" unfolding p_def by (rule law)
  define payload where "payload = base64url (payloadText p)"
  define sig where "sig = unsubscribeSignature env P payload"
  have token: "createUnsubscribeToken env P now userId topic days = payload @ CHR ''.'' # base64url sig"
    by (simp add: createUnsubscribeToken_def payload_def p_def sig_def Let_def)
  have ne: "payload \<noteq> []" "base64url sig \<noteq> []"
    by (simp_all add: payload_def payloadText_def sig_def base64url_empty unsubscribeSignature_def digest)
  have "0 < now div 1000 + 86400 * days"
    using clock(1,2) by (intro add_nonneg_pos) (simp_all add: pos_imp_zdiv_nonneg_iff)
  then have "parseUnsubscribePayload isUuid (payloadValue p) = Some p"
    using user by (intro parse_payloadValue) (simp_all add: p_def)
  then show ?thesis
    using ne clock(3) law' unfolding verifyUnsubscribeToken_def token
    by (simp add: split_on_append split_on_plain base64url_no_dot payload_def sig_def p_def del: base64url.simps unbase64url.simps)
qed

text \<open>C23: unsubscribe links work until they expire. A link made for a user and a topic, opened before the days it was given have
  passed, verifies as that user and topic, for any parser that reads back what \<open>JSON.stringify\<close> wrote.\<close>

theorem unsubscribe_token_roundtrip:
  assumes law: "parse (payloadText \<lparr>un_userId = userId, un_topic = topic, un_exp = now div 1000 + 86400 * days\<rparr>) = Some (payloadValue \<lparr>un_userId = userId, un_topic = topic, un_exp = now div 1000 + 86400 * days\<rparr>)"
    and digest: "\<And>k m. hmac P k m \<noteq> []"
    and user: "isUuid userId" "topic \<in> set notificationTopics"
    and clock: "0 \<le> now" "0 < days" "now' div 1000 < now div 1000 + 86400 * days"
  shows "verifyUnsubscribeToken env P parse isUuid now' (createUnsubscribeToken env P now userId topic days) =
    Some \<lparr>un_userId = userId, un_topic = topic, un_exp = now div 1000 + 86400 * days\<rparr>"
  using assms by (rule unsubscribe_token_verifies)

theorem unsubscribe_token_roundtrip_witness:
  "verifyUnsubscribeToken demo_env demo_prims
     (\<lambda>s. if s = payloadText \<lparr>un_userId = ''u'', un_topic = ''product_updates'', un_exp = 2592000\<rparr>
          then Some (payloadValue \<lparr>un_userId = ''u'', un_topic = ''product_updates'', un_exp = 2592000\<rparr>) else None)
     (\<lambda>_. True) 5000 (createUnsubscribeToken demo_env demo_prims 0 ''u'' ''product_updates'' 30) =
   Some \<lparr>un_userId = ''u'', un_topic = ''product_updates'', un_exp = 2592000\<rparr>"
  using unsubscribe_token_roundtrip [where userId = "''u''" and topic = "''product_updates''" and now = 0 and days = 30 and P = demo_prims
      and env = demo_env and now' = 5000 and isUuid = "\<lambda>_. True" and parse = "\<lambda>s. if s = payloadText \<lparr>un_userId = ''u'', un_topic = ''product_updates'', un_exp = 2592000\<rparr>
          then Some (payloadValue \<lparr>un_userId = ''u'', un_topic = ''product_updates'', un_exp = 2592000\<rparr>) else None"]
  by (simp add: demo_prims_def notificationTopics_def del: base64url.simps unbase64url.simps)

section \<open>Preferences and suppressions: laws\<close>

text \<open>A row of the global scope belongs to no organization.\<close>

definition scopes_ok :: "platform \<Rightarrow> bool" where
  "scopes_ok s \<longleftrightarrow> (\<forall>p\<in>set (pf_preferences s). np_scopeKey p = ''global'' \<longrightarrow> np_organizationId p = None)"

definition preferenceRow :: "app \<Rightarrow> effects \<Rightarrow> ident \<Rightarrow> NotificationChannel \<Rightarrow> string \<Rightarrow> bool \<Rightarrow> NotificationPreference" where
  "preferenceRow A ef userId channel topic enabled =
     \<lparr>np_id = ef_id ef 0, np_organizationId = snd (preferenceScope A), np_userId = userId, np_scopeKey = fst (preferenceScope A), np_channel = channel,
      np_topic = topic, np_enabled = enabled, np_updatedAt = ef_now ef 0, np_deletedAt = None\<rparr>"

lemma setNotificationPreference_runs:
  "setNotificationPreference A ef userId channel topic enabled s = Inr (p, s') \<Longrightarrow>
   s' = s\<lparr>pf_preferences := upserted (\<lambda>p. preferenceKey userId (fst (preferenceScope A)) channel topic p \<and> np_organizationId p = snd (preferenceScope A))
     (preferenceRow A ef userId channel topic enabled) (\<lambda>p. p\<lparr>np_enabled := enabled, np_deletedAt := None, np_updatedAt := ef_now ef 0\<rparr>) (pf_preferences s)\<rparr>"
  by (simp add: setNotificationPreference_def Let_def preferenceRow_def upsertRow_Inr [where upd = pf_preferences_update])

lemma global_scope: "\<not> truthy (currentOrganization A) \<Longrightarrow> preferenceScope A = (''global'', None)"
  by (simp add: preferenceScope_def)

text \<open>After a global preference was set every live row of its key says what was set, and there is one.\<close>

lemma global_preference_set:
  assumes set: "setNotificationPreference A ef userId channel topic enabled s = Inr (p, s')"
    and glob: "\<not> truthy (currentOrganization A)" and ok: "scopes_ok s"
  shows "\<exists>x\<in>set (pf_preferences s'). preferenceKey userId ''global'' channel topic x \<and> np_deletedAt x = None"
    "\<forall>x\<in>set (pf_preferences s'). preferenceKey userId ''global'' channel topic x \<longrightarrow> np_enabled x = enabled"
proof -
  let ?P = "\<lambda>p. preferenceKey userId ''global'' channel topic p \<and> np_organizationId p = None"
  let ?f = "\<lambda>p. p\<lparr>np_enabled := enabled, np_deletedAt := None, np_updatedAt := ef_now ef 0\<rparr>"
  let ?x = "preferenceRow A ef userId channel topic enabled"
  have s': "pf_preferences s' = upserted ?P ?x ?f (pf_preferences s)"
    using setNotificationPreference_runs [OF set] by (simp add: global_scope [OF glob])
  have x: "?P ?x" "np_deletedAt ?x = None" "np_enabled ?x = enabled"
    by (simp_all add: preferenceRow_def preferenceKey_def global_scope [OF glob])
  have "\<exists>r\<in>set (upserted ?P ?x ?f (pf_preferences s)). ?P r \<and> np_deletedAt r = None"
    using x by (intro upserted_has) (simp_all add: preferenceKey_def)
  then show "\<exists>x\<in>set (pf_preferences s'). preferenceKey userId ''global'' channel topic x \<and> np_deletedAt x = None"
    unfolding s' by blast
  have org: "preferenceKey userId ''global'' channel topic r \<longrightarrow> ?P r" if "r \<in> set (pf_preferences s)" for r
    using ok that by (auto simp: scopes_ok_def preferenceKey_def)
  show "\<forall>x\<in>set (pf_preferences s'). preferenceKey userId ''global'' channel topic x \<longrightarrow> np_enabled x = enabled"
  proof (cases "find_first ?P (pf_preferences s)")
    case None
    then have "\<forall>r\<in>set (pf_preferences s). \<not> ?P r" by (simp add: find_first_None)
    with org x(3) show ?thesis unfolding s' upserted_def None by (auto simp: None)
  next
    case (Some y)
    show ?thesis
    proof (intro ballI impI)
      fix x
      assume x': "x \<in> set (pf_preferences s')" and key: "preferenceKey userId ''global'' channel topic x"
      from x' obtain r where r: "r \<in> set (pf_preferences s)" "x = (if ?P r then ?f r else r)"
        unfolding s' upserted_def Some option.case set_update_many by (rule imageE)
      show "np_enabled x = enabled"
      proof (cases "?P r")
        case True
        then show ?thesis using r(2) by simp
      next
        case False
        with org [OF r(1)] r(2) key show ?thesis by simp
      qed
    qed
  qed
qed

lemma notificationAllowed_global:
  assumes "\<not> truthy organizationId \<or> (\<forall>x\<in>set (pf_preferences s). np_userId x = userId \<and> np_deletedAt x = None \<longrightarrow> np_scopeKey x \<noteq> the organizationId)"
    and "\<exists>x\<in>set (pf_preferences s). preferenceKey userId ''global'' channel topic x \<and> np_deletedAt x = None"
    and "\<forall>x\<in>set (pf_preferences s). preferenceKey userId ''global'' channel topic x \<longrightarrow> np_enabled x = enabled"
  shows "notificationAllowed s userId channel topic organizationId = enabled"
proof -
  let ?rows = "filter (\<lambda>p. np_userId p = userId \<and> np_channel p = channel \<and> np_topic p = topic \<and>
       np_scopeKey p \<in> set (if truthy organizationId then [the organizationId, ''global''] else [''global'']) \<and> np_deletedAt p = None) (pf_preferences s)"
  from assms(2) obtain g where g: "g \<in> set (pf_preferences s)" "preferenceKey userId ''global'' channel topic g" "np_deletedAt g = None"
    by blast
  then have "g \<in> set ?rows" "np_scopeKey g = ''global''" unfolding preferenceKey_def by simp_all
  then have "\<exists>x\<in>set ?rows. np_scopeKey x = ''global''" by (intro bexI [where x = g])
  from find_first_ex [OF this] obtain y where y: "find_first (\<lambda>p. np_scopeKey p = ''global'') ?rows = Some y" by (rule exE)
  then have "y \<in> set ?rows" "np_scopeKey y = ''global''" using find_first_SomeD by fast+
  then have "y \<in> set (pf_preferences s)" "preferenceKey userId ''global'' channel topic y"
    by (simp_all add: preferenceKey_def)
  with assms(3) have "np_enabled y = enabled" by blast
  moreover have "find_first (\<lambda>p. np_scopeKey p = the organizationId) ?rows = None" if "truthy organizationId"
    unfolding find_first_None
  proof
    fix r
    assume "r \<in> set ?rows"
    then have "r \<in> set (pf_preferences s)" "np_userId r = userId \<and> np_deletedAt r = None" by simp_all
    with assms(1) that show "np_scopeKey r \<noteq> the organizationId" by blast
  qed
  ultimately show ?thesis using y by (cases "truthy organizationId") (simp_all add: notificationAllowed_def Let_def)
qed

lemma suppress_runs:
  "suppress ef h event s = Inr (x, s') \<Longrightarrow> \<exists>r\<in>set (pf_suppressions s'). sup_destinationHash r = h \<and> sup_deletedAt r = None"
proof -
  assume run: "suppress ef h event s = Inr (x, s')"
  let ?f = "\<lambda>x. x\<lparr>sup_reason := (if ev_type event = E_bounce then S_BOUNCE else S_COMPLAINT), sup_provider := Some (ev_provider event),
              sup_providerEventId := Some (ev_id event), sup_deletedAt := None\<rparr>"
  have "pf_suppressions s' = upserted (\<lambda>x. sup_destinationHash x = h) (suppression ef h event) ?f (pf_suppressions s)"
    using run by (simp add: suppress_def upsertRow_Inr [where upd = pf_suppressions_update])
  moreover have "\<exists>r\<in>set (upserted (\<lambda>x. sup_destinationHash x = h) (suppression ef h event) ?f (pf_suppressions s)).
      sup_destinationHash r = h \<and> sup_deletedAt r = None"
    by (rule upserted_has) (simp_all add: suppression_def)
  ultimately show ?thesis by simp
qed

lemma calling_eq: "calling r s = (r, s)"
  by (simp add: calling_def)

text \<open>A bounce or complaint that was accepted leaves the address's hash on the list.\<close>

lemma processed_event_suppresses:
  assumes run: "processEmailProviderEvent A ef secret parse rawBody sig s = (Inr (), s')"
    and event: "parse rawBody = Inr event" "ev_type event \<in> {E_bounce, E_complaint}"
  obtains h r where "hashMetadata (cenv A) (prims A) (normalizeEmail (ev_destination event)) = Inr h"
    "r \<in> set (pf_suppressions s')" "sup_destinationHash r = h" "sup_deletedAt r = None"
proof -
  obtain hs where hs: "candidateMetadataHashes (cenv A) (prims A) (normalizeEmail (ev_destination event)) = Inr hs"
    using run by (cases "candidateMetadataHashes (cenv A) (prims A) (normalizeEmail (ev_destination event))")
      (simp_all add: processEmailProviderEvent_def failing_def andNext_def calling_eq event(1) Let_def split: if_splits)
  obtain h where h: "hashMetadata (cenv A) (prims A) (normalizeEmail (ev_destination event)) = Inr h"
    using run by (cases "hashMetadata (cenv A) (prims A) (normalizeEmail (ev_destination event))")
      (simp_all add: processEmailProviderEvent_def failing_def andNext_def calling_eq event(1) hs Let_def split: if_splits)
  have tx: "recordEmailEvent ef event hs h s = Inr ((), s')"
    using run by (simp add: processEmailProviderEvent_def failing_def andNext_def calling_eq event(1) hs h Let_def transaction_cases split: if_splits)
  from tx event(2) obtain s1 x where "suppress ef h event s1 = Inr (x, s')"
    by (auto simp: recordEmailEvent_def tx_simps)
  from suppress_runs [OF this] h that show thesis by blast
qed

text \<open>A signed event that the schema admits is accepted.\<close>

lemma valid_event_accepted:
  assumes "crypto_env_ok (cenv A)" "validSignature (prims A) secret rawBody sig" "parse rawBody = Inr event"
  shows "\<exists>s'. processEmailProviderEvent A ef secret parse rawBody sig s = (Inr (), s')"
proof -
  have keep: "keeps_active_key (cenv A) (cenv A)" by (simp add: keeps_active_key_def)
  obtain h hs where h: "hashMetadata (cenv A) (prims A) (normalizeEmail (ev_destination event)) = Inr h"
      "candidateMetadataHashes (cenv A) (prims A) (normalizeEmail (ev_destination event)) = Inr hs"
    using candidates_contain [OF assms(1,1) keep, of "prims A" metadata_hash "normalizeEmail (ev_destination event)"]
    by (auto simp: hashMetadata_def candidateMetadataHashes_def)
  obtain u where "recordEmailEvent ef event hs h s = Inr ((), u)"
    by (cases "ev_type event \<in> {E_bounce, E_complaint}"; cases "find_first (\<lambda>x. sup_destinationHash x = h) (pf_suppressions s)")
      (auto simp: recordEmailEvent_def suppress_def andThen_def updateMany_def upsertRow_def ret_def)
  then show ?thesis
    by (simp add: processEmailProviderEvent_def assms(2,3) h andNext_def calling_eq Let_def transaction_def)
qed

text \<open>
  An event is about one message, but it settles every live delivery to its address: a delivery of another message that
  failed and waits for its retry counts as recorded from then on, and the worker does not send it.
\<close>

lemma event_settles_other_deliveries:
  assumes run: "recordEmailEvent ef event hashes destinationHash s = Inr ((), s')"
    and d: "d \<in> set (pf_deliveries s)" "nd_deletedAt d = None" "nd_destinationHash d = Some h" "h \<in> set hashes" "nd_outboxEventId d = ob_id e"
  shows "recordDeliveryStarted hash e (pf_deliveries s') = Inr (ALREADY_RECORDED, pf_deliveries s')"
proof -
  let ?f = "\<lambda>d. d\<lparr>nd_status := eventStatus (ev_type event), nd_provider := Some (ev_provider event),
               nd_deliveredAt := (if ev_type event = E_delivered then Some (ef_now ef 1) else None)\<rparr>"
  have rows: "pf_deliveries s' = update_many (touchedBy event hashes) ?f (pf_deliveries s)"
    using run by (auto simp: recordEmailEvent_def tx_simps suppress_def upsertRow_def split: if_splits option.splits)
  have "touchedBy event hashes d" using d(2-4) by (auto simp: touchedBy_def)
  then have mem: "?f d \<in> set (pf_deliveries s')" unfolding rows set_update_many using d(1) by (intro image_eqI [of _ _ d]) simp_all
  have "nd_outboxEventId (?f d) = ob_id e \<and> nd_deletedAt (?f d) = None \<and> List.member recordedStatuses (nd_status (?f d))"
    using d(2,5) by (cases "ev_type event") (simp_all add: recordedStatuses_def eventStatus_def)
  with mem have "\<exists>x\<in>set (pf_deliveries s'). nd_outboxEventId x = ob_id e \<and> nd_deletedAt x = None \<and> List.member recordedStatuses (nd_status x)"
    by blast
  from find_first_ex [OF this] show ?thesis by (auto simp: recordDeliveryStarted_def)
qed

end
