(* ===== verification/Templates.thy ===== *)
theory Templates
  imports Transactions Crypto
begin

text \<open>
  The mail templates of \<open>src/src/modules/notifications/templates\<close>: the interpolator, the choice of a
  locale, the registry, and rendering. The file system is an argument; the files the repository ships are a value of it.
\<close>

section \<open>The interpolator\<close>

definition replaceAll :: "char \<Rightarrow> string \<Rightarrow> string \<Rightarrow> string" where
  "replaceAll c by_text s = concat (map (\<lambda>x. if x = c then by_text else [x]) s)"

definition escapeHtml :: "string \<Rightarrow> string" where
  \<open>escapeHtml v =
     replaceAll (CHR 0x27) ''&#39;''
       (replaceAll (CHR 0x22) ''&quot;''
         (replaceAll (CHR ''>'') ''&gt;'' (replaceAll (CHR ''<'') ''&lt;'' (replaceAll (CHR ''&'') ''&amp;'' v))))\<close>

definition tokenChar :: "char \<Rightarrow> bool" where
  "tokenChar c \<longleftrightarrow> (97 \<le> byte c \<and> byte c \<le> 122) \<or> (65 \<le> byte c \<and> byte c \<le> 90) \<or> (48 \<le> byte c \<and> byte c \<le> 57) \<or> c = CHR ''_''"

text \<open>
  A match of the token pattern at the front of the text: the name and what follows the token. The
  three repeated classes exclude one another, so the greedy match is the only one.
\<close>

definition matchToken :: "string \<Rightarrow> (string \<times> string) option" where
  "matchToken s =
     (if take 2 s = ''{{'' then
        (let inner = dropWhile white (drop 2 s);
             key = takeWhile tokenChar inner;
             after = dropWhile white (dropWhile tokenChar inner) in
         if key \<noteq> [] \<and> take 2 after = ''}}'' then Some (key, drop 2 after) else None)
      else None)"

lemma length_dropWhile: "length (dropWhile P xs) \<le> length xs"
  by (induction xs) auto

lemma matchToken_shorter: "matchToken s = Some (k, r) \<Longrightarrow> length r < length s"
proof -
  assume m: "matchToken s = Some (k, r)"
  then have two: "take 2 s = ''{{''" by (simp add: matchToken_def split: if_splits)
  then have "s \<noteq> []" by auto
  have "r = drop 2 (dropWhile white (dropWhile tokenChar (dropWhile white (drop 2 s))))"
    using m by (simp add: matchToken_def Let_def split: if_splits)
  then have "length r \<le> length s - 2"
    using length_dropWhile [of white "dropWhile tokenChar (dropWhile white (drop 2 s))"]
      length_dropWhile [of tokenChar "dropWhile white (drop 2 s)"] length_dropWhile [of white "drop 2 s"] by simp
  moreover have "0 < length s" using \<open>s \<noteq> []\<close> by simp
  ultimately show ?thesis by linarith
qed

function interpolate :: "(string \<times> string) list \<Rightarrow> bool \<Rightarrow> string \<Rightarrow> thrown + string" where
  "interpolate vars esc template =
     (case template of
        [] \<Rightarrow> Inr []
      | c # cs \<Rightarrow>
          (case matchToken template of
             Some (key, rest) \<Rightarrow>
               (case map_of vars key of
                  None \<Rightarrow> Inl (OtherError (''Template references undefined variable '' @ [CHR 0x22] @ key @ [CHR 0x22]))
                | Some v \<Rightarrow> map_sum (\<lambda>e. e) (\<lambda>t. (if esc then escapeHtml v else v) @ t) (interpolate vars esc rest))
           | None \<Rightarrow> map_sum (\<lambda>e. e) (\<lambda>t. c # t) (interpolate vars esc cs)))"
  by pat_completeness auto
termination
  by (relation "measure (\<lambda>(_, _, template). length template)") (auto dest: matchToken_shorter)

declare interpolate.simps [simp del]

lemma interpolate_step [simp]:
  "interpolate vars esc [] = Inr []"
  "matchToken (c # cs) = None \<Longrightarrow> interpolate vars esc (c # cs) = map_sum (\<lambda>e. e) (\<lambda>t. c # t) (interpolate vars esc cs)"
  "matchToken s = Some (key, rest) \<Longrightarrow> interpolate vars esc s =
     (case map_of vars key of
        None \<Rightarrow> Inl (OtherError (''Template references undefined variable '' @ [CHR 0x22] @ key @ [CHR 0x22]))
      | Some v \<Rightarrow> map_sum (\<lambda>e. e) (\<lambda>t. (if esc then escapeHtml v else v) @ t) (interpolate vars esc rest))"
  by (simp_all add: interpolate.simps [of vars esc "[]"] interpolate.simps [of vars esc "c # cs"] interpolate.simps [of vars esc s]
        split: list.split) (auto simp: matchToken_def)

text \<open>\<open>split(/\n{2,}/)\<close>.\<close>

abbreviation newline :: char where
  "newline \<equiv> CHR 0x0A"

function paragraphs :: "string \<Rightarrow> string list" where
  "paragraphs s =
     (case s of
        [] \<Rightarrow> [[]]
      | c # cs \<Rightarrow>
          if c = newline \<and> take 1 cs = [newline] then [] # paragraphs (dropWhile (\<lambda>x. x = newline) cs)
          else (case paragraphs cs of [] \<Rightarrow> [[c]] | p # ps \<Rightarrow> (c # p) # ps))"
  by pat_completeness auto
termination
  by (relation "measure length") (auto simp: le_imp_less_Suc length_dropWhile)

definition textToHtml :: "string \<Rightarrow> string" where
  "textToHtml s =
     join_with [newline] (map (\<lambda>p. ''<p>'' @ replaceAll newline ''<br>'' (escapeHtml p) @ ''</p>'') (paragraphs (trim s)))"

section \<open>Locales\<close>

definition DEFAULT_LOCALE :: string where
  "DEFAULT_LOCALE = ''en''"

definition resolveLocale :: "string option \<Rightarrow> string list \<Rightarrow> string" where
  "resolveLocale requested available =
     (let candidates = map the (filter truthy
            [requested, map_option (\<lambda>r. hd (split_on CHR ''-'' r)) requested, Some DEFAULT_LOCALE]) in
      case List.find (\<lambda>c. c \<in> set available) candidates of Some c \<Rightarrow> c | None \<Rightarrow> DEFAULT_LOCALE)"

section \<open>Files\<close>

record RawTemplateFiles =
  rt_subject :: string
  rt_text :: string
  rt_html :: "string option"

text \<open>
  The directories below a template's own directory, if that exists, and the contents of a file. The
  cache in front of the files holds what was read and has no entry here.
\<close>

record template_dir =
  td_directories :: "string \<Rightarrow> string list option"
  td_file :: "string \<Rightarrow> string option"

definition availableLocales :: "template_dir \<Rightarrow> string \<Rightarrow> string list" where
  "availableLocales fs key = orElse (td_directories fs key) []"

definition readFileSync :: "template_dir \<Rightarrow> string \<Rightarrow> thrown + string" where
  "readFileSync fs path =
     (case td_file fs path of None \<Rightarrow> Inl (OtherError (''ENOENT: no such file or directory, open '' @ path)) | Some t \<Rightarrow> Inr t)"

definition loadTemplateFiles :: "template_dir \<Rightarrow> string \<Rightarrow> string \<Rightarrow> thrown + RawTemplateFiles" where
  "loadTemplateFiles fs key lang =
     (let dir = key @ ''/'' @ lang @ ''/'' in
      case readFileSync fs (dir @ ''subject.txt'') of
        Inl e \<Rightarrow> Inl e
      | Inr subject \<Rightarrow>
          (case readFileSync fs (dir @ ''body.txt'') of
             Inl e \<Rightarrow> Inl e
           | Inr body \<Rightarrow> Inr \<lparr>rt_subject = trim subject, rt_text = body, rt_html = td_file fs (dir @ ''body.html'')\<rparr>))"

section \<open>The registry\<close>

text \<open>
  A schema lists the variables of its template; each is a non-empty string or a URL. The test for a
  URL, which the validation library makes, is an argument.
\<close>

datatype VariableType = NonEmptyString | UrlString

record EmailTemplateDefinition =
  et_schema :: "(string \<times> VariableType) list"
  et_transactional :: bool
  et_example :: "(string \<times> string) list"

definition otpVariables :: "(string \<times> VariableType) list" where
  "otpVariables = [(''code'', NonEmptyString), (''expiresInMinutes'', NonEmptyString)]"

definition invitationVariables :: "(string \<times> VariableType) list" where
  "invitationVariables = [(''organizationName'', NonEmptyString), (''actionUrl'', UrlString), (''expiresInDays'', NonEmptyString)]"

definition announcementVariables :: "(string \<times> VariableType) list" where
  "announcementVariables = [(''headline'', NonEmptyString), (''message'', NonEmptyString), (''actionUrl'', UrlString)]"

definition emailTemplates :: "(string \<times> EmailTemplateDefinition) list" where
  "emailTemplates =
     [(''auth-verification-otp'', \<lparr>et_schema = otpVariables, et_transactional = True,
         et_example = [(''code'', ''482913''), (''expiresInMinutes'', ''5'')]\<rparr>),
      (''auth-password-reset-otp'', \<lparr>et_schema = otpVariables, et_transactional = True,
         et_example = [(''code'', ''719204''), (''expiresInMinutes'', ''5'')]\<rparr>),
      (''auth-signup-existing'', \<lparr>et_schema = [], et_transactional = True, et_example = []\<rparr>),
      (''organization-invitation'', \<lparr>et_schema = invitationVariables, et_transactional = True,
         et_example = [(''organizationName'', ''Acme, Inc.''),
           (''actionUrl'', ''https://app.example.com/invitations/accept?token=example''), (''expiresInDays'', ''7'')]\<rparr>),
      (''product-announcement'', \<lparr>et_schema = announcementVariables, et_transactional = False,
         et_example = [(''headline'', ''A faster workspace is here''),
           (''message'', ''We improved search and made large projects load more quickly.''),
           (''actionUrl'', ''https://app.example.com/updates'')]\<rparr>)]"

definition admits :: "(string \<Rightarrow> bool) \<Rightarrow> VariableType \<Rightarrow> string \<Rightarrow> bool" where
  "admits isUrl t v \<longleftrightarrow> (case t of NonEmptyString \<Rightarrow> v \<noteq> [] | UrlString \<Rightarrow> isUrl v)"

definition parseVariables :: "(string \<Rightarrow> bool) \<Rightarrow> (string \<times> VariableType) list \<Rightarrow> (string \<times> string) list \<Rightarrow> thrown + (string \<times> string) list" where
  "parseVariables isUrl schema vars =
     (if \<forall>(k, t) \<in> set schema. case map_of vars k of None \<Rightarrow> False | Some v \<Rightarrow> admits isUrl t v
      then Inr (map (\<lambda>(k, t). (k, the (map_of vars k))) schema) else Inl (OtherError ''ZodError''))"

section \<open>Rendering\<close>

record RenderedEmail =
  re_subject :: string
  re_text :: string
  re_html :: string
  re_transactional :: bool

definition renderFiles :: "RawTemplateFiles \<Rightarrow> (string \<times> string) list \<Rightarrow> bool \<Rightarrow> thrown + RenderedEmail" where
  "renderFiles files vars transactional =
     (case interpolate vars False (rt_subject files) of
        Inl e \<Rightarrow> Inl e
      | Inr subject \<Rightarrow>
          (case interpolate vars False (rt_text files) of
             Inl e \<Rightarrow> Inl e
           | Inr body \<Rightarrow>
               (case interpolate vars True (orElse (rt_html files) (textToHtml (rt_text files))) of
                  Inl e \<Rightarrow> Inl e
                | Inr html \<Rightarrow>
                    Inr \<lparr>re_subject = subject, re_text = body, re_html = html, re_transactional = transactional\<rparr>)))"

definition renderEmailTemplate ::
    "template_dir \<Rightarrow> (string \<Rightarrow> bool) \<Rightarrow> string \<Rightarrow> (string \<times> string) list \<Rightarrow> string option \<Rightarrow> thrown + RenderedEmail" where
  "renderEmailTemplate fs isUrl key vars lang =
     (case map_of emailTemplates key of
        None \<Rightarrow> Inl (OtherError ''Cannot read properties of undefined'')
      | Some d \<Rightarrow>
          (case parseVariables isUrl (et_schema d) vars of
             Inl e \<Rightarrow> Inl e
           | Inr parsed \<Rightarrow>
               (case loadTemplateFiles fs key (resolveLocale lang (availableLocales fs key)) of
                  Inl e \<Rightarrow> Inl e
                | Inr files \<Rightarrow> renderFiles files parsed (et_transactional d))))"

definition listEmailTemplateKeys :: "string list" where
  "listEmailTemplateKeys = map fst emailTemplates"

section \<open>The files of the repository\<close>

abbreviation nl :: string where
  "nl \<equiv> [newline]"

definition shippedTemplates :: "(string \<times> string) list" where
  \<open>shippedTemplates =
     [(''auth-verification-otp/en/subject.txt'',
       ''Your verification code'' @ nl),
      (''auth-verification-otp/en/body.txt'',
       ''Your verification code is {{code}}. It expires in {{expiresInMinutes}} minutes.'' @ nl),
      (''auth-verification-otp/en/body.html'',
       ''<p>'' @ nl @ ''  Your verification code is <strong>{{code}}</strong>. It expires in {{expiresInMinutes}} minutes.'' @ nl @ ''</p>'' @ nl),
      (''auth-password-reset-otp/en/subject.txt'',
       ''Your password reset code'' @ nl),
      (''auth-password-reset-otp/en/body.txt'',
       ''Your password reset code is {{code}}. It expires in {{expiresInMinutes}} minutes.'' @ nl),
      (''auth-password-reset-otp/en/body.html'',
       ''<p>'' @ nl @ ''  Your password reset code is <strong>{{code}}</strong>. It expires in {{expiresInMinutes}} minutes.'' @ nl @ ''</p>'' @ nl),
      (''auth-signup-existing/en/subject.txt'',
       ''A signup was requested for your account'' @ nl),
      (''auth-signup-existing/en/body.txt'',
       ''Someone attempted to sign up using this email. Your existing account was not changed.'' @ nl),
      (''auth-signup-existing/en/body.html'',
       ''<p>Someone attempted to sign up using this email. Your existing account was not changed.</p>'' @ nl),
      (''organization-invitation/en/subject.txt'',
       ''You have been invited to {{organizationName}}'' @ nl),
      (''organization-invitation/en/body.txt'',
       ''You have been invited to join {{organizationName}}.'' @ nl @ nl @ ''Accept the invitation: {{actionUrl}}'' @ nl @ nl @ ''This invitation expires in {{expiresInDays}} days. If you were not expecting it, you can ignore this email.'' @ nl),
      (''organization-invitation/en/body.html'',
       ''<!doctype html>'' @ nl @ ''<html lang="en">'' @ nl @ ''  <body>'' @ nl @ ''    <p>You have been invited to join <strong>{{organizationName}}</strong>.</p>'' @ nl @ ''    <p><a href="{{actionUrl}}">Accept invitation</a></p>'' @ nl @ ''    <p>'' @ nl @ ''      This invitation expires in {{expiresInDays}} days. If you were not expecting it, you can'' @ nl @ ''      ignore this email.'' @ nl @ ''    </p>'' @ nl @ ''  </body>'' @ nl @ ''</html>'' @ nl),
      (''product-announcement/en/subject.txt'',
       ''{{headline}}'' @ nl),
      (''product-announcement/en/body.txt'',
       ''{{headline}}'' @ nl @ nl @ ''{{message}}'' @ nl @ nl @ ''Learn more: {{actionUrl}}'' @ nl),
      (''product-announcement/en/body.html'',
       ''<!doctype html>'' @ nl @ ''<html lang="en">'' @ nl @ ''  <body>'' @ nl @ ''    <h1>{{headline}}</h1>'' @ nl @ ''    <p>{{message}}</p>'' @ nl @ ''    <p><a href="{{actionUrl}}">Learn more</a></p>'' @ nl @ ''  </body>'' @ nl @ ''</html>'' @ nl)]\<close>

definition shippedDirectory :: template_dir where
  "shippedDirectory = \<lparr>td_directories = (\<lambda>key. if key \<in> set listEmailTemplateKeys then Some [''en''] else None),
     td_file = map_of shippedTemplates\<rparr>"


section \<open>Escaping\<close>

text \<open>What each character becomes when the five replacements are made at once.\<close>

definition entity :: "char \<Rightarrow> string" where
  \<open>entity c =
     (if c = CHR ''&'' then ''&amp;'' else if c = CHR ''<'' then ''&lt;'' else if c = CHR ''>'' then ''&gt;''
      else if c = CHR 0x22 then ''&quot;'' else if c = CHR 0x27 then ''&#39;'' else [c])\<close>

definition markup :: "char \<Rightarrow> bool" where
  "markup c \<longleftrightarrow> c \<in> {CHR ''<'', CHR ''>'', CHR 0x22, CHR 0x27}"

lemma replaceAll_append [simp]: "replaceAll c r (s @ t) = replaceAll c r s @ replaceAll c r t"
  by (simp add: replaceAll_def)

lemma replaceAll_Nil [simp]: "replaceAll c r [] = []"
  by (simp add: replaceAll_def)

lemma replaceAll_Cons [simp]: "replaceAll c r (x # s) = (if x = c then r else [x]) @ replaceAll c r s"
  by (simp add: replaceAll_def)

text \<open>The five passes, the ampersand first, act as one pass over the characters.\<close>

lemma escapeHtml_one_pass: "escapeHtml s = concat (map entity s)"
  by (induction s) (simp_all add: escapeHtml_def entity_def)

lemma entity_plain: "x \<in> set (entity c) \<Longrightarrow> \<not> markup x"
  by (auto simp: entity_def markup_def split: if_splits)

lemma escapeHtml_plain: "filter markup (escapeHtml v) = []"
  by (auto simp: escapeHtml_one_pass filter_empty_conv dest: entity_plain)

section \<open>Tokens\<close>

lemma take_2_eq: "take 2 s = [a, b] \<Longrightarrow> s = [a, b] @ drop 2 s"
  by (metis append_take_drop_id)

lemma matchToken_form:
  assumes "matchToken s = Some (k, r)"
  obtains w w' where "s = ''{{'' @ w @ k @ w' @ ''}}'' @ r" "\<forall>c\<in>set w. white c" "\<forall>c\<in>set w'. white c" "\<forall>c\<in>set k. tokenChar c"
proof -
  define inner where "inner = dropWhile white (drop 2 s)"
  define after where "after = dropWhile white (dropWhile tokenChar inner)"
  have m: "take 2 s = ''{{''" "k = takeWhile tokenChar inner" "take 2 after = ''}}''" "r = drop 2 after"
    using assms by (simp_all add: matchToken_def Let_def inner_def after_def split: if_splits)
  have "s = ''{{'' @ takeWhile white (drop 2 s) @ inner"
    using take_2_eq [OF m(1)] by (simp add: inner_def)
  also have "inner = k @ takeWhile white (dropWhile tokenChar inner) @ after"
    by (simp add: m(2) after_def)
  also have "after = ''}}'' @ r" using take_2_eq [OF m(3)] by (simp add: m(4))
  finally have "s = ''{{'' @ takeWhile white (drop 2 s) @ k @ takeWhile white (dropWhile tokenChar inner) @ ''}}'' @ r" by simp
  then show thesis by (rule that) (auto simp: m(2) dest: set_takeWhileD)
qed

lemma token_text_plain: "white c \<or> tokenChar c \<or> c \<in> {CHR ''{'', CHR ''}''} \<Longrightarrow> \<not> markup c"
  by (auto simp: white_def tokenChar_def markup_def)

lemma matchToken_markup:
  assumes "matchToken s = Some (k, r)"
  shows "filter markup s = filter markup r"
proof -
  obtain w w' where s: "s = ''{{'' @ w @ k @ w' @ ''}}'' @ r" and cs: "\<forall>c\<in>set w. white c" "\<forall>c\<in>set w'. white c" "\<forall>c\<in>set k. tokenChar c"
    using assms by (rule matchToken_form)
  have "filter markup w = []" "filter markup w' = []" "filter markup k = []"
    using cs token_text_plain by (simp_all add: filter_empty_conv)
  then show ?thesis unfolding s by (simp add: markup_def)
qed

text \<open>The names a template refers to, in order.\<close>

function tokens :: "string \<Rightarrow> string list" where
  "tokens s =
     (case s of [] \<Rightarrow> []
      | c # cs \<Rightarrow> (case matchToken s of Some (key, rest) \<Rightarrow> key # tokens rest | None \<Rightarrow> tokens cs))"
  by pat_completeness auto
termination
  by (relation "measure length") (auto dest: matchToken_shorter)

declare tokens.simps [simp del]

lemma tokens_step [simp]:
  "tokens [] = []"
  "matchToken (c # cs) = None \<Longrightarrow> tokens (c # cs) = tokens cs"
  "matchToken s = Some (key, rest) \<Longrightarrow> tokens s = key # tokens rest"
  by (simp_all add: tokens.simps [of "[]"] tokens.simps [of "c # cs"] tokens.simps [of s] split: list.split)
    (auto simp: matchToken_def)

text \<open>Induction along the scan of a template.\<close>

lemma scan_induct [case_names Nil Skip Token]:
  assumes "P []"
    and "\<And>c cs. matchToken (c # cs) = None \<Longrightarrow> P cs \<Longrightarrow> P (c # cs)"
    and "\<And>s key rest. matchToken s = Some (key, rest) \<Longrightarrow> P rest \<Longrightarrow> P s"
  shows "P s"
proof (induction s rule: length_induct)
  case (1 s)
  show ?case
  proof (cases "matchToken s")
    case None
    with 1 assms(1,2) show ?thesis by (cases s) simp_all
  next
    case (Some x)
    obtain key rest where x: "x = (key, rest)" by (cases x)
    from Some 1 have "P rest" by (simp add: x matchToken_shorter)
    with Some assms(3) show ?thesis by (simp add: x)
  qed
qed

lemma interpolate_returns: "(\<exists>out. interpolate vars esc s = Inr out) \<longleftrightarrow> (\<forall>k\<in>set (tokens s). map_of vars k \<noteq> None)"
  by (induction s rule: scan_induct) (auto split: option.split)

lemma interpolate_markup: "interpolate vars True s = Inr out \<Longrightarrow> filter markup out = filter markup s"
proof (induction s arbitrary: out rule: scan_induct)
  case Nil
  then show ?case by simp
next
  case (Skip c cs)
  then show ?case by auto
next
  case (Token s key rest)
  then show ?case by (auto simp: escapeHtml_plain matchToken_markup [OF Token.hyps] split: option.splits)
qed

section \<open>Rendering is total on the shipped templates\<close>

lemma parseVariables_keys:
  "parseVariables isUrl schema vars = Inr parsed \<Longrightarrow> map fst parsed = map fst schema"
  by (auto simp: parseVariables_def split: if_splits prod.splits)

lemma parseVariables_has:
  assumes "parseVariables isUrl schema vars = Inr parsed" "k \<in> set (map fst schema)"
  shows "map_of parsed k \<noteq> None"
  using parseVariables_keys [OF assms(1)] assms(2) by (simp add: map_of_eq_None_iff flip: set_map)

text \<open>The files of a template refer to declared variables only.\<close>

definition inStep :: "template_dir \<Rightarrow> string \<Rightarrow> EmailTemplateDefinition \<Rightarrow> string \<Rightarrow> bool" where
  "inStep fs key d lang \<longleftrightarrow>
     (case loadTemplateFiles fs key lang of
        Inl e \<Rightarrow> False
      | Inr files \<Rightarrow>
          list_all (\<lambda>k. k \<in> set (map fst (et_schema d)))
            (tokens (rt_subject files) @ tokens (rt_text files) @ tokens (orElse (rt_html files) (textToHtml (rt_text files)))))"

lemma inStep_renders:
  assumes "inStep fs key d lang" "parseVariables isUrl (et_schema d) vars = Inr parsed"
  shows "\<exists>files r. loadTemplateFiles fs key lang = Inr files \<and> renderFiles files parsed (et_transactional d) = Inr r"
proof -
  obtain files where f: "loadTemplateFiles fs key lang = Inr files"
    and t: "\<forall>k \<in> set (tokens (rt_subject files)) \<union> set (tokens (rt_text files)) \<union>
       set (tokens (orElse (rt_html files) (textToHtml (rt_text files)))). k \<in> set (map fst (et_schema d))"
    using assms(1) by (auto simp: inStep_def list_all_iff split: sum.splits)
  have "\<exists>x. interpolate parsed False (rt_subject files) = Inr x" "\<exists>x. interpolate parsed False (rt_text files) = Inr x"
    "\<exists>x. interpolate parsed True (orElse (rt_html files) (textToHtml (rt_text files))) = Inr x"
    unfolding interpolate_returns using t parseVariables_has [OF assms(2)] by blast+
  then have "\<exists>r. renderFiles files parsed (et_transactional d) = Inr r" by (auto simp: renderFiles_def)
  with f show ?thesis by blast
qed

lemma renderFiles_parts:
  assumes "renderFiles files vars t = Inr r"
  shows "re_transactional r = t"
    "interpolate vars True (orElse (rt_html files) (textToHtml (rt_text files))) = Inr (re_html r)"
  using assms by (auto simp: renderFiles_def split: sum.splits)

lemma resolveLocale_en: "resolveLocale lang [''en''] = ''en''"
  by (auto simp: resolveLocale_def DEFAULT_LOCALE_def Let_def)

lemma registry_inStep: "list_all (\<lambda>(key, d). inStep shippedDirectory key d ''en'') emailTemplates"
  by code_simp

text \<open>C24: every template the repository ships renders in every locale for every set of variables its schema admits.\<close>

theorem shipped_templates_render:
  assumes "(key, d) \<in> set emailTemplates" "parseVariables isUrl (et_schema d) vars = Inr parsed"
  shows "\<exists>r. renderEmailTemplate shippedDirectory isUrl key vars lang = Inr r \<and> re_transactional r = et_transactional d"
proof -
  have key: "map_of emailTemplates key = Some d" "td_directories shippedDirectory key = Some [''en'']"
    using assms(1) by (auto simp: emailTemplates_def shippedDirectory_def listEmailTemplateKeys_def)
  have "inStep shippedDirectory key d ''en''" using registry_inStep assms(1) by (auto simp: list_all_iff)
  then obtain files r where "loadTemplateFiles shippedDirectory key ''en'' = Inr files"
    and r: "renderFiles files parsed (et_transactional d) = Inr r"
    using inStep_renders [OF _ assms(2)] by blast
  then have "renderEmailTemplate shippedDirectory isUrl key vars lang = Inr r"
    by (simp add: renderEmailTemplate_def key assms(2) availableLocales_def resolveLocale_en)
  with renderFiles_parts [OF r] show ?thesis by simp
qed

theorem shipped_templates_render_witness:
  "\<exists>r. renderEmailTemplate shippedDirectory (\<lambda>_. True) ''auth-verification-otp'' [(''code'', ''482913''), (''expiresInMinutes'', ''5'')] (Some ''es-MX'') = Inr r
     \<and> re_transactional r"
  using shipped_templates_render [of "''auth-verification-otp''" "snd (emailTemplates ! 0)" "\<lambda>_. True"
      "[(''code'', ''482913''), (''expiresInMinutes'', ''5'')]" _ "Some ''es-MX''"]
  by (simp add: emailTemplates_def otpVariables_def parseVariables_def admits_def)

text \<open>C25: nothing a value carries becomes markup. Whatever the variables of a rendered mail hold, the angle brackets and quotes of its
  HTML are those of the template file (or of the fallback made from the text file), in the same order.\<close>

theorem rendered_html_markup:
  assumes "renderEmailTemplate fs isUrl key vars lang = Inr r"
  shows "\<exists>files. loadTemplateFiles fs key (resolveLocale lang (availableLocales fs key)) = Inr files \<and>
     filter markup (re_html r) = filter markup (orElse (rt_html files) (textToHtml (rt_text files)))"
  using assms by (auto simp: renderEmailTemplate_def split: option.splits sum.splits dest: renderFiles_parts(2) interpolate_markup)

definition demo_directory :: template_dir where
  \<open>demo_directory = \<lparr>td_directories = (\<lambda>_. Some [''en'']),
     td_file = map_of [(''product-announcement/en/subject.txt'', ''{{headline}}''), (''product-announcement/en/body.txt'', ''{{message}}''),
       (''product-announcement/en/body.html'', ''<p title="a">{{ headline }}</p>'')]\<rparr>\<close>

theorem rendered_html_markup_witness:
  \<open>renderEmailTemplate demo_directory (\<lambda>_. True) ''product-announcement''
     [(''headline'', ''<script>''), (''message'', ''m''), (''actionUrl'', ''u'')] None =
       Inr \<lparr>re_subject = ''<script>'', re_text = ''m'', re_html = ''<p title="a">&lt;script&gt;</p>'', re_transactional = False\<rparr> \<and>
   (\<exists>files. loadTemplateFiles demo_directory ''product-announcement'' ''en'' = Inr files \<and>
      filter markup ''<p title="a">&lt;script&gt;</p>'' = filter markup (orElse (rt_html files) (textToHtml (rt_text files))))\<close>
proof -
  have run: \<open>renderEmailTemplate demo_directory (\<lambda>_. True) ''product-announcement''
     [(''headline'', ''<script>''), (''message'', ''m''), (''actionUrl'', ''u'')] None =
       Inr \<lparr>re_subject = ''<script>'', re_text = ''m'', re_html = ''<p title="a">&lt;script&gt;</p>'', re_transactional = False\<rparr>\<close>
    by code_simp
  have "resolveLocale None (availableLocales demo_directory ''product-announcement'') = ''en''" by code_simp
  with rendered_html_markup [OF run] run show ?thesis by simp
qed

end
