(* ===== verification/Providers.thy ===== *)
theory Providers
  imports Notifications Templates
begin

text \<open>
  The notification providers (\<open>src/src/modules/notifications/providers.ts\<close>, \<open>email-transport.ts\<close>). The
  mail library, the text message service and the push service are arguments, as are the tests the
  validation library makes of identifiers and addresses and the class that edits URLs.
\<close>

section \<open>Payloads\<close>

definition zodError :: thrown where
  "zodError = OtherError ''ZodError''"

definition requiredString :: "(string \<Rightarrow> bool) \<Rightarrow> string \<Rightarrow> jsval \<Rightarrow> thrown + string" where
  "requiredString ok key payload =
     (case jprop key payload of JStr s \<Rightarrow> if ok s then Inr s else Inl zodError | _ \<Rightarrow> Inl zodError)"

definition optionalString :: "(string \<Rightarrow> bool) \<Rightarrow> string \<Rightarrow> jsval \<Rightarrow> thrown + string option" where
  "optionalString ok key payload =
     (case jprop key payload of
        Undefined \<Rightarrow> Inr None
      | JStr s \<Rightarrow> if ok s then Inr (Some s) else Inl zodError
      | _ \<Rightarrow> Inl zodError)"

abbreviation nonEmptyString :: "string \<Rightarrow> bool" where
  "nonEmptyString s \<equiv> s \<noteq> []"

record Destination =
  de_destination :: string
  de_userId :: "ident option"
  de_organizationId :: "ident option"
  de_locale :: "string option"

record Otp = Destination +
  de_challengeId :: ident
  de_encryptedCode :: string
  de_purpose :: "string option"

record InvitationMail = Destination +
  de_invitationId :: ident
  de_encryptedToken :: string
  de_organizationName :: string
  de_expiresInDays :: string

record Announcement = Destination +
  de_recipient :: ident
  de_topic :: string
  de_headline :: string
  de_message :: string
  de_actionUrl :: string

record Push =
  pu_userId :: ident
  pu_title :: string
  pu_body :: string
  pu_data :: "(string \<times> string) list option"

text \<open>What the providers are given.\<close>

record provider_deps =
  pd_emailFrom :: string
  pd_unsubscribeUrl :: "string option"
  pd_appOrigin :: string
  pd_smtp :: bool
  pd_twilioFrom :: "string option"
  pd_firebase :: bool
  pd_isUuid :: "string \<Rightarrow> bool"
  pd_isUrl :: "string \<Rightarrow> bool"
  pd_withToken :: "string \<Rightarrow> string \<Rightarrow> string \<Rightarrow> thrown + string"
  pd_templates :: template_dir
  pd_sendMail :: "string \<Rightarrow> EmailMessage \<Rightarrow> string option \<Rightarrow> thrown + jsval"
  pd_sendText :: "string \<Rightarrow> string \<Rightarrow> thrown + string"
  pd_sendMulticast :: "PushMessage \<Rightarrow> thrown + string option list"

definition otpPurposes :: "string list" where
  "otpPurposes = [''SIGNUP'', ''LOGIN'', ''VERIFY_EMAIL'', ''VERIFY_PHONE'', ''PASSWORD_RESET'', ''EMAIL_CHANGE'']"

definition parseDestination :: "provider_deps \<Rightarrow> jsval \<Rightarrow> thrown + Destination" where
  "parseDestination D v =
     (case (requiredString nonEmptyString ''destination'' v, optionalString (pd_isUuid D) ''userId'' v,
            optionalString (pd_isUuid D) ''organizationId'' v, optionalString (\<lambda>_. True) ''locale'' v) of
        (Inr d, Inr u, Inr org, Inr l) \<Rightarrow> Inr \<lparr>de_destination = d, de_userId = u, de_organizationId = org, de_locale = l\<rparr>
      | _ \<Rightarrow> Inl zodError)"

definition parseOtp :: "provider_deps \<Rightarrow> jsval \<Rightarrow> thrown + Otp" where
  "parseOtp D v =
     (case (parseDestination D v, requiredString (pd_isUuid D) ''challengeId'' v, requiredString nonEmptyString ''encryptedCode'' v,
            optionalString (\<lambda>p. p \<in> set otpPurposes) ''purpose'' v) of
        (Inr d, Inr c, Inr e, Inr p) \<Rightarrow>
          Inr \<lparr>de_destination = de_destination d, de_userId = de_userId d, de_organizationId = de_organizationId d, de_locale = de_locale d,
               de_challengeId = c, de_encryptedCode = e, de_purpose = p\<rparr>
      | _ \<Rightarrow> Inl zodError)"

definition parseInvitation :: "provider_deps \<Rightarrow> jsval \<Rightarrow> thrown + InvitationMail" where
  "parseInvitation D v =
     (case (parseDestination D v, requiredString (pd_isUuid D) ''invitationId'' v, requiredString nonEmptyString ''encryptedToken'' v,
            requiredString nonEmptyString ''organizationName'' v, optionalString (\<lambda>_. True) ''expiresInDays'' v) of
        (Inr d, Inr i, Inr t, Inr n, Inr x) \<Rightarrow>
          Inr \<lparr>de_destination = de_destination d, de_userId = de_userId d, de_organizationId = de_organizationId d, de_locale = de_locale d,
               de_invitationId = i, de_encryptedToken = t, de_organizationName = n, de_expiresInDays = orElse x ''7''\<rparr>
      | _ \<Rightarrow> Inl zodError)"

definition parseAnnouncement :: "provider_deps \<Rightarrow> jsval \<Rightarrow> thrown + Announcement" where
  "parseAnnouncement D v =
     (case (parseDestination D v, requiredString (pd_isUuid D) ''userId'' v, requiredString (\<lambda>t. t = ''product_updates'') ''topic'' v,
            requiredString nonEmptyString ''headline'' v, requiredString nonEmptyString ''message'' v, requiredString (pd_isUrl D) ''actionUrl'' v) of
        (Inr d, Inr u, Inr t, Inr h, Inr m, Inr a) \<Rightarrow>
          Inr \<lparr>de_destination = de_destination d, de_userId = de_userId d, de_organizationId = de_organizationId d, de_locale = de_locale d,
               de_recipient = u, de_topic = t, de_headline = h, de_message = m, de_actionUrl = a\<rparr>
      | _ \<Rightarrow> Inl zodError)"

fun stringValues :: "(string \<times> jsval) list \<Rightarrow> (string \<times> string) list option" where
  "stringValues [] = Some []"
| "stringValues ((k, JStr s) # ps) = map_option (\<lambda>xs. (k, s) # xs) (stringValues ps)"
| "stringValues (_ # ps) = None"

definition parsePush :: "provider_deps \<Rightarrow> jsval \<Rightarrow> thrown + Push" where
  "parsePush D v =
     (case (requiredString (pd_isUuid D) ''userId'' v, requiredString (\<lambda>s. 1 \<le> length s \<and> length s \<le> 100) ''title'' v,
            requiredString (\<lambda>s. 1 \<le> length s \<and> length s \<le> 500) ''body'' v) of
        (Inr u, Inr t, Inr b) \<Rightarrow>
          (case jprop ''data'' v of
             Undefined \<Rightarrow> Inr \<lparr>pu_userId = u, pu_title = t, pu_body = b, pu_data = None\<rparr>
           | JObj ps \<Rightarrow>
               (case stringValues ps of
                  None \<Rightarrow> Inl zodError
                | Some xs \<Rightarrow> Inr \<lparr>pu_userId = u, pu_title = t, pu_body = b, pu_data = Some xs\<rparr>)
           | _ \<Rightarrow> Inl zodError)
      | _ \<Rightarrow> Inl zodError)"

section \<open>Transports\<close>

definition mailId :: "string \<Rightarrow> string" where
  "mailId deliveryId = ''<'' @ deliveryId @ ''@backend-notifications.local>''"

definition createSmtpEmailTransport :: "provider_deps \<Rightarrow> EmailMessage \<Rightarrow> (platform, string option) io" where
  "createSmtpEmailTransport D message s =
     (case pd_sendMail D (pd_emailFrom D) message (if truthy (ms_deliveryId message) then map_option mailId (ms_deliveryId message) else None) of
        Inl e \<Rightarrow> (Inl e, s\<lparr>pf_mails := message # pf_mails s\<rparr>)
      | Inr result \<Rightarrow>
          (Inr (case jprop ''messageId'' result of JStr i \<Rightarrow> Some i | _ \<Rightarrow> None), s\<lparr>pf_mails := message # pf_mails s\<rparr>))"

definition createLogEmailTransport :: "EmailMessage \<Rightarrow> (platform, string option) io" where
  "createLogEmailTransport message s =
     (Inr (if truthy (ms_deliveryId message) then map_option (\<lambda>d. ''log:'' @ d) (ms_deliveryId message) else None),
      s\<lparr>pf_mails := message # pf_mails s\<rparr>)"

definition sendMail :: "provider_deps \<Rightarrow> EmailMessage \<Rightarrow> (platform, string option) io" where
  "sendMail D message = (if pd_smtp D then createSmtpEmailTransport D message else createLogEmailTransport message)"

definition emailProvider :: "provider_deps \<Rightarrow> string" where
  "emailProvider D = (if pd_smtp D then ''smtp'' else ''log'')"

section \<open>Mail\<close>

definition unsubscribeHeaders ::
    "app \<Rightarrow> provider_deps \<Rightarrow> time \<Rightarrow> bool \<Rightarrow> ident option \<Rightarrow> string option \<Rightarrow> thrown + (string \<times> string) list" where
  "unsubscribeHeaders A D now transactional userId topic =
     (if transactional then Inr []
      else
        let mailto = ''mailto:'' @ pd_emailFrom D @ ''?subject=unsubscribe'' in
        if \<not> truthy (pd_unsubscribeUrl D) \<or> \<not> truthy userId \<or> \<not> truthy topic then Inr [(''List-Unsubscribe'', ''<'' @ mailto @ ''>'')]
        else
          (case pd_withToken D (the (pd_unsubscribeUrl D)) [] (createUnsubscribeToken (cenv A) (prims A) now (the userId) (the topic) 30) of
             Inl e \<Rightarrow> Inl e
           | Inr url \<Rightarrow> Inr [(''List-Unsubscribe'', ''<'' @ url @ ''>, <'' @ mailto @ ''>''),
                             (''List-Unsubscribe-Post'', ''List-Unsubscribe=One-Click'')]))"

definition isSuppressed :: "app \<Rightarrow> string \<Rightarrow> (platform, bool) io" where
  "isSuppressed A destination =
     andNext (calling (candidateMetadataHashes (cenv A) (prims A) (normalizeEmail destination))) (\<lambda>hashes.
     andNext (transaction (findFirst pf_suppressions (\<lambda>x. sup_destinationHash x \<in> set hashes \<and> sup_deletedAt x = None))) (\<lambda>row.
     answer (row \<noteq> None)))"

definition resolvedLocale :: "platform \<Rightarrow> ident option \<Rightarrow> string option \<Rightarrow> string option" where
  "resolvedLocale s userId requested =
     (if truthy requested \<or> \<not> truthy userId then requested
      else map_option u_locale (find_first (\<lambda>u. Some (u_id u) = userId \<and> u_deletedAt u = None) (users (pf_store s))))"

definition openChallenge :: "time \<Rightarrow> ident \<Rightarrow> OtpChallenge \<Rightarrow> bool" where
  "openChallenge now challengeId c \<longleftrightarrow>
     otp_id c = challengeId \<and> otp_consumedAt c = None \<and> otp_lockedAt c = None \<and> otp_deletedAt c = None \<and> now < otp_expiresAt c"

definition suppressedResult :: "string \<Rightarrow> ProviderDeliveryResult" where
  "suppressedResult provider = \<lparr>pr_suppressed = True, pr_provider = provider, pr_messageId = None, pr_templateKey = None\<rparr>"

text \<open>The end of each branch: render, send, and report.\<close>

definition sendRendered ::
    "app \<Rightarrow> provider_deps \<Rightarrow> effects \<Rightarrow> string \<Rightarrow> (string \<times> string) list \<Rightarrow> string option \<Rightarrow> string \<Rightarrow> bool \<Rightarrow> ident option \<Rightarrow> string option \<Rightarrow>
     string option \<Rightarrow> (platform, ProviderDeliveryResult) io" where
  "sendRendered A D ef key vars lang destination withHeaders userId topic deliveryId =
     andNext (calling (renderEmailTemplate (pd_templates D) (pd_isUrl D) key vars lang)) (\<lambda>r.
     andNext (calling (if withHeaders then unsubscribeHeaders A D (ef_now ef 1) (re_transactional r) userId topic else Inr [])) (\<lambda>headers.
     andNext (sendMail D \<lparr>ms_to = destination, ms_subject = re_subject r, ms_text = re_text r, ms_html = re_html r,
        ms_headers = headers, ms_deliveryId = deliveryId\<rparr>) (\<lambda>messageId.
     answer \<lparr>pr_suppressed = False, pr_provider = emailProvider D, pr_messageId = messageId, pr_templateKey = Some key\<rparr>)))"

definition OTP_EXPIRY_MINUTES :: string where
  "OTP_EXPIRY_MINUTES = ''5''"

definition challengeLocale :: "platform \<Rightarrow> OtpChallenge \<Rightarrow> string option" where
  "challengeLocale s c = map_option u_locale (find_first (\<lambda>u. Some (u_id u) = otp_userId c) (users (pf_store s)))"

definition sendOtpEmail :: "app \<Rightarrow> provider_deps \<Rightarrow> effects \<Rightarrow> jsval \<Rightarrow> string option \<Rightarrow> (platform, ProviderDeliveryResult) io" where
  "sendOtpEmail A D ef payload deliveryId =
     andNext (calling (parseOtp D payload)) (\<lambda>v.
     andNext (transaction (reading (\<lambda>s. map_option (\<lambda>c. (c, challengeLocale s c))
        (find_first (openChallenge (ef_now ef 0) (de_challengeId v)) (otpChallenges (pf_store s)))))) (\<lambda>found.
     case found of
       None \<Rightarrow> answer (suppressedResult ''policy'')
     | Some (c, userLocale) \<Rightarrow>
         andNext (isSuppressed A (de_destination v)) (\<lambda>stopped.
         if stopped then answer (suppressedResult ''suppression-list'')
         else
           let templateKey = (if de_purpose v = Some ''PASSWORD_RESET'' then ''auth-password-reset-otp'' else ''auth-verification-otp'') in
           andNext (calling (decryptSecret (cenv A) (prims A) (de_encryptedCode v))) (\<lambda>code.
           sendRendered A D ef templateKey [(''code'', code), (''expiresInMinutes'', OTP_EXPIRY_MINUTES)]
             (case de_locale v of Some l \<Rightarrow> Some l | None \<Rightarrow> userLocale) (de_destination v) True None None deliveryId))))"

definition sendSignupExistingEmail :: "app \<Rightarrow> provider_deps \<Rightarrow> effects \<Rightarrow> jsval \<Rightarrow> string option \<Rightarrow> (platform, ProviderDeliveryResult) io" where
  "sendSignupExistingEmail A D ef payload deliveryId =
     andNext (calling (parseDestination D payload)) (\<lambda>v.
     andNext (isSuppressed A (de_destination v)) (\<lambda>stopped.
     if stopped then answer (suppressedResult ''suppression-list'')
     else
       andNext (transaction (reading (\<lambda>s. resolvedLocale s (de_userId v) (de_locale v)))) (\<lambda>lang.
       sendRendered A D ef ''auth-signup-existing'' [] lang (de_destination v) True None None deliveryId)))"

definition sendInvitationEmail :: "app \<Rightarrow> provider_deps \<Rightarrow> effects \<Rightarrow> jsval \<Rightarrow> string option \<Rightarrow> (platform, ProviderDeliveryResult) io" where
  "sendInvitationEmail A D ef payload deliveryId =
     andNext (calling (parseInvitation D payload)) (\<lambda>v.
     andNext (isSuppressed A (de_destination v)) (\<lambda>stopped.
     if stopped then answer (suppressedResult ''suppression-list'')
     else
       andNext (calling (decryptSecret (cenv A) (prims A) (de_encryptedToken v))) (\<lambda>token.
       andNext (calling (pd_withToken D (pd_appOrigin D) ''/invitations/accept'' token)) (\<lambda>actionUrl.
       andNext (transaction (reading (\<lambda>s. resolvedLocale s (de_userId v) (de_locale v)))) (\<lambda>lang.
       sendRendered A D ef ''organization-invitation''
         [(''organizationName'', de_organizationName v), (''actionUrl'', actionUrl), (''expiresInDays'', de_expiresInDays v)]
         lang (de_destination v) False None None deliveryId)))))"

definition sendAnnouncementEmail :: "app \<Rightarrow> provider_deps \<Rightarrow> effects \<Rightarrow> jsval \<Rightarrow> string option \<Rightarrow> (platform, ProviderDeliveryResult) io" where
  "sendAnnouncementEmail A D ef payload deliveryId =
     andNext (calling (parseAnnouncement D payload)) (\<lambda>v.
     andNext (isSuppressed A (de_destination v)) (\<lambda>stopped.
     andNext (if stopped then answer False
              else transaction (reading (\<lambda>s. notificationAllowed s (de_recipient v) EMAIL (de_topic v) (de_organizationId v)))) (\<lambda>allowed.
     if \<not> allowed then answer (suppressedResult ''preference-policy'')
     else
       andNext (transaction (reading (\<lambda>s. resolvedLocale s (de_userId v) (de_locale v)))) (\<lambda>lang.
       sendRendered A D ef ''product-announcement''
         [(''headline'', de_headline v), (''message'', de_message v), (''actionUrl'', de_actionUrl v)]
         lang (de_destination v) True (Some (de_recipient v)) (Some (de_topic v)) deliveryId))))"

definition sendEmail :: "app \<Rightarrow> provider_deps \<Rightarrow> effects \<Rightarrow> string \<Rightarrow> jsval \<Rightarrow> string option \<Rightarrow> (platform, ProviderDeliveryResult) io" where
  "sendEmail A D ef eventType payload deliveryId =
     (if eventType = ''auth.otp'' then sendOtpEmail A D ef payload deliveryId
      else if eventType = ''auth.signup_existing'' then sendSignupExistingEmail A D ef payload deliveryId
      else if eventType = ''organization.invitation'' then sendInvitationEmail A D ef payload deliveryId
      else if eventType = ''product.announcement'' then sendAnnouncementEmail A D ef payload deliveryId
      else failing (OtherError (''Unsupported email event: '' @ eventType)))"

section \<open>Text messages\<close>

definition sendText :: "provider_deps \<Rightarrow> string \<Rightarrow> string \<Rightarrow> (platform, string) io" where
  "sendText D destination body s = (pd_sendText D destination body, s\<lparr>pf_texts := (destination, body) # pf_texts s\<rparr>)"

definition otpText :: "string option \<Rightarrow> string \<Rightarrow> string" where
  "otpText purpose code =
     (if purpose = Some ''PASSWORD_RESET'' then ''Your password reset code'' else ''Your verification code'') @
     '' is '' @ code @ ''. It expires in 5 minutes.''"

definition sendSms :: "app \<Rightarrow> provider_deps \<Rightarrow> effects \<Rightarrow> string \<Rightarrow> jsval \<Rightarrow> (platform, ProviderDeliveryResult) io" where
  "sendSms A D ef eventType payload =
     (if eventType \<noteq> ''auth.otp'' then failing (OtherError (''Unsupported SMS event: '' @ eventType))
      else
        andNext (calling (parseOtp D payload)) (\<lambda>v.
        andNext (transaction (findFirst (\<lambda>s. otpChallenges (pf_store s)) (openChallenge (ef_now ef 0) (de_challengeId v)))) (\<lambda>challenge.
        if challenge = None then answer (suppressedResult ''policy'')
        else
          andNext (calling (decryptSecret (cenv A) (prims A) (de_encryptedCode v))) (\<lambda>code.
          if pd_twilioFrom D = None
          then answer \<lparr>pr_suppressed = False, pr_provider = ''log'', pr_messageId = None, pr_templateKey = None\<rparr>
          else
            andNext (sendText D (de_destination v) (otpText (de_purpose v) code)) (\<lambda>sid.
            answer \<lparr>pr_suppressed = False, pr_provider = ''twilio'', pr_messageId = Some sid, pr_templateKey = None\<rparr>)))))"

section \<open>Push messages\<close>

function chunks :: "nat \<Rightarrow> 'a list \<Rightarrow> 'a list list" where
  "chunks n xs = (if xs = [] \<or> n = 0 then [] else take n xs # chunks n (drop n xs))"
  by pat_completeness auto
termination
  by (relation "measure (\<lambda>(n, xs). length xs)") auto

definition staleCode :: "string option \<Rightarrow> bool" where
  "staleCode code \<longleftrightarrow> code = Some ''messaging/registration-token-not-registered'' \<or> code = Some ''messaging/invalid-argument''"

definition staleTokens :: "string list \<Rightarrow> string option list \<Rightarrow> string list" where
  "staleTokens batch codes = map fst (filter (\<lambda>(t, code). staleCode code) (zip batch codes))"

definition pushMessage :: "Push \<Rightarrow> string option \<Rightarrow> string list \<Rightarrow> PushMessage" where
  "pushMessage v deliveryId batch =
     \<lparr>ps_tokens = batch, ps_title = pu_title v, ps_body = pu_body v,
      ps_data = filter (\<lambda>(k, _). deliveryId = None \<or> k \<noteq> ''notificationDeliveryId'') (orElse (pu_data v) []) @
        (case deliveryId of Some d \<Rightarrow> [(''notificationDeliveryId'', d)] | None \<Rightarrow> [])\<rparr>"

definition sendMulticast :: "provider_deps \<Rightarrow> PushMessage \<Rightarrow> (platform, string option list) io" where
  "sendMulticast D message s = (pd_sendMulticast D message, s\<lparr>pf_pushes := message # pf_pushes s\<rparr>)"

fun sendBatches :: "provider_deps \<Rightarrow> Push \<Rightarrow> string option \<Rightarrow> string list list \<Rightarrow> (platform, unit) io" where
  "sendBatches D v deliveryId [] = answer ()"
| "sendBatches D v deliveryId (batch # batches) =
     andNext (sendMulticast D (pushMessage v deliveryId batch)) (\<lambda>codes.
     let stale = staleTokens batch codes in
     andNext (if stale = [] then answer 0
              else transaction (deleteMany pf_devices pf_devices_update (\<lambda>d. dv_fcmToken d \<in> set stale \<and> dv_deletedAt d = None))) (\<lambda>_.
     sendBatches D v deliveryId batches))"

definition sendPush :: "provider_deps \<Rightarrow> jsval \<Rightarrow> string option \<Rightarrow> (platform, ProviderDeliveryResult) io" where
  "sendPush D payload deliveryId =
     andNext (calling (parsePush D payload)) (\<lambda>v.
     andNext (transaction (reading (\<lambda>s. map dv_fcmToken (filter (\<lambda>d. dv_userId d = pu_userId v \<and> dv_deletedAt d = None) (pf_devices s))))) (\<lambda>tokens.
     if tokens = [] then answer (suppressedResult ''policy'')
     else if \<not> pd_firebase D then answer \<lparr>pr_suppressed = False, pr_provider = ''log'', pr_messageId = None, pr_templateKey = None\<rparr>
     else
       andNext (sendBatches D v deliveryId (chunks 500 tokens)) (\<lambda>_.
       answer \<lparr>pr_suppressed = False, pr_provider = ''firebase'', pr_messageId = None, pr_templateKey = None\<rparr>)))"

section \<open>Suppressed addresses\<close>

lemma requiredString_is: "requiredString ok key v = Inr x \<Longrightarrow> jprop key v = JStr x"
  by (auto simp: requiredString_def split: jsval.splits if_splits)

text \<open>Every schema keeps the destination of the payload.\<close>

lemma parseDestination_is: "parseDestination D v = Inr x \<Longrightarrow> jprop ''destination'' v = JStr (de_destination x)"
  by (auto simp: parseDestination_def split: sum.splits dest: requiredString_is)

lemma parseOtp_is: "parseOtp D v = Inr x \<Longrightarrow> jprop ''destination'' v = JStr (de_destination x)"
  by (auto simp: parseOtp_def split: sum.splits dest: parseDestination_is)

lemma parseInvitation_is: "parseInvitation D v = Inr x \<Longrightarrow> jprop ''destination'' v = JStr (de_destination x)"
  by (auto simp: parseInvitation_def split: sum.splits dest: parseDestination_is)

lemma parseAnnouncement_is: "parseAnnouncement D v = Inr x \<Longrightarrow> jprop ''destination'' v = JStr (de_destination x)"
  by (auto simp: parseAnnouncement_def split: sum.splits dest: parseDestination_is)

lemma andNext_calling:
  "r = Inl e \<Longrightarrow> andNext (calling r) f s = (Inl e, s)"
  "r = Inr a \<Longrightarrow> andNext (calling r) f s = f a s"
  by (simp_all add: andNext_def calling_eq)

lemma andNext_suppressed: "isSuppressed A d s = (Inr True, s) \<Longrightarrow> andNext (isSuppressed A d) f s = f True s"
  by (simp add: andNext_def)

lemma answer_state: "snd (answer a s) = s"
  by (simp add: answer_def)

text \<open>On a state in which the list holds the payload's destination, every branch of the mailer stops before its transport.\<close>

lemma listed_is_silent:
  assumes listed: "\<And>d. jprop ''destination'' payload = JStr d \<Longrightarrow> isSuppressed A d s = (Inr True, s)"
  shows "snd (sendEmail A D ef eventType payload deliveryId s) = s"
proof -
  have otp: "snd (sendOtpEmail A D ef payload deliveryId s) = s"
  proof (cases "parseOtp D payload")
    case (Inr v)
    note stop = andNext_suppressed [OF listed [OF parseOtp_is [OF Inr]]]
    show ?thesis unfolding sendOtpEmail_def andNext_calling(2) [OF Inr] andNext_reading
      by (cases "find_first (openChallenge (ef_now ef 0) (de_challengeId v)) (otpChallenges (pf_store s))") (simp_all add: stop answer_state)
  qed (simp add: sendOtpEmail_def andNext_calling)
  have signup: "snd (sendSignupExistingEmail A D ef payload deliveryId s) = s"
  proof (cases "parseDestination D payload")
    case (Inr v)
    show ?thesis unfolding sendSignupExistingEmail_def andNext_calling(2) [OF Inr] andNext_suppressed [OF listed [OF parseDestination_is [OF Inr]]]
      by (simp add: answer_state)
  qed (simp add: sendSignupExistingEmail_def andNext_calling)
  have inv: "snd (sendInvitationEmail A D ef payload deliveryId s) = s"
  proof (cases "parseInvitation D payload")
    case (Inr v)
    show ?thesis unfolding sendInvitationEmail_def andNext_calling(2) [OF Inr] andNext_suppressed [OF listed [OF parseInvitation_is [OF Inr]]]
      by (simp add: answer_state)
  qed (simp add: sendInvitationEmail_def andNext_calling)
  have ann: "snd (sendAnnouncementEmail A D ef payload deliveryId s) = s"
  proof (cases "parseAnnouncement D payload")
    case (Inr v)
    show ?thesis unfolding sendAnnouncementEmail_def andNext_calling(2) [OF Inr] andNext_suppressed [OF listed [OF parseAnnouncement_is [OF Inr]]]
      by (simp add: answer_state)
  qed (simp add: sendAnnouncementEmail_def andNext_calling)
  show ?thesis unfolding sendEmail_def using otp signup inv ann by (simp add: failing_def)
qed

lemma isSuppressed_listed:
  assumes "candidateMetadataHashes (cenv A) (prims A) (normalizeEmail d) = Inr hs"
    "r \<in> set (pf_suppressions s)" "sup_destinationHash r \<in> set hs" "sup_deletedAt r = None"
  shows "isSuppressed A d s = (Inr True, s)"
proof -
  have "\<exists>x\<in>set (pf_suppressions s). sup_destinationHash x \<in> set hs \<and> sup_deletedAt x = None" using assms(2-4) by blast
  then have "find_first (\<lambda>x. sup_destinationHash x \<in> set hs \<and> sup_deletedAt x = None) (pf_suppressions s) \<noteq> None"
    unfolding find_first_None by simp
  then show ?thesis by (simp add: isSuppressed_def andNext_calling(2) [OF assms(1)] answer_def)
qed

text \<open>C21: an address that bounced or complained gets no more mail. After a signed bounce or complaint was accepted, no event of any
  kind for that address, in any spelling that normalizes to it, hands a mail to the transport: also after the
  key that hashed the address was rotated out of use, as long as the keyring keeps it and the row stays on the list.\<close>

theorem suppressed_address_silent:
  assumes event: "processEmailProviderEvent A ef secret parse rawBody sig s = (Inr (), s')"
    "parse rawBody = Inr e" "ev_type e \<in> {E_bounce, E_complaint}"
    and keys: "crypto_env_ok (cenv A)" "crypto_env_ok (cenv B)" "keeps_active_key (cenv A) (cenv B)" "prims B = prims A"
    and later: "set (pf_suppressions s') \<subseteq> set (pf_suppressions t)"
    and mail: "jprop ''destination'' payload = JStr d" "normalizeEmail d = normalizeEmail (ev_destination e)"
  shows "pf_mails (snd (sendEmail B D ef' eventType payload deliveryId t)) = pf_mails t"
proof -
  obtain h r where h: "hashMetadata (cenv A) (prims A) (normalizeEmail (ev_destination e)) = Inr h"
    and r: "r \<in> set (pf_suppressions s')" "sup_destinationHash r = h" "sup_deletedAt r = None"
    by (rule processed_event_suppresses [OF event])
  obtain hs where hs: "candidateMetadataHashes (cenv B) (prims B) (normalizeEmail d) = Inr hs" "h \<in> set hs"
    using candidates_contain [OF keys(1-3), of "prims A" metadata_hash "normalizeEmail d"] h
    by (auto simp: hashMetadata_def candidateMetadataHashes_def keys(4) mail(2))
  have "isSuppressed B d t = (Inr True, t)"
    using r later hs(2) by (intro isSuppressed_listed [OF hs(1)]) (auto simp: subset_iff)
  then have "snd (sendEmail B D ef' eventType payload deliveryId t) = t"
    by (intro listed_is_silent) (simp add: mail(1))
  then show ?thesis by simp
qed

text \<open>Values for the concrete instances.\<close>

definition demo_providers :: provider_deps where
  "demo_providers = \<lparr>pd_emailFrom = ''from@x'', pd_unsubscribeUrl = None, pd_appOrigin = ''https://app'', pd_smtp = False, pd_twilioFrom = None,
     pd_firebase = False, pd_isUuid = (\<lambda>_. True), pd_isUrl = (\<lambda>_. True), pd_withToken = (\<lambda>base path token. Inr (base @ path @ token)),
     pd_templates = demo_directory, pd_sendMail = (\<lambda>_ _ _. Inr Undefined), pd_sendText = (\<lambda>_ _. Inr ''sid''), pd_sendMulticast = (\<lambda>m. Inr [])\<rparr>"

definition demo_bounce :: EmailEvent where
  "demo_bounce = \<lparr>ev_id = ''e'', ev_type = E_bounce, ev_destination = ''A@x'', ev_provider = ''p'', ev_messageId = None\<rparr>"

definition demo_rotated_app :: app where
  "demo_rotated_app = demo_app\<lparr>ap_audit := demo_audit\<lparr>ad_crypto := demo_env_rotated\<rparr>\<rparr>"

definition demo_announcement :: "ident option \<Rightarrow> jsval" where
  "demo_announcement org = JObj ([(''destination'', JStr ''a@x''), (''userId'', JStr ''u''), (''topic'', JStr ''product_updates''),
     (''headline'', JStr ''h''), (''message'', JStr ''m''), (''actionUrl'', JStr ''l'')] @
     (case org of None \<Rightarrow> [] | Some x \<Rightarrow> [(''organizationId'', JStr x)]))"

definition after_bounce :: platform where
  "after_bounce = snd (processEmailProviderEvent demo_app demo_effects (Some ''k'') (\<lambda>_. Inr demo_bounce) [] ''sha256=686b'' demo_platform)"

lemma demo_bytes: "unbyte 104 = CHR ''h''" "unbyte 107 = CHR ''k''" "unbyte 97 = CHR ''a''"
  by code_simp+

lemma bounce_accepted:
  "processEmailProviderEvent demo_app demo_effects (Some ''k'') (\<lambda>_. Inr demo_bounce) [] ''sha256=686b'' demo_platform = (Inr (), after_bounce)"
proof -
  have "validSignature (prims demo_app) (Some ''k'') [] ''sha256=686b''"
    by (simp add: validSignature_def hexDigit_def demo_app_def demo_audit_def demo_prims_def startsWith_def constantTimeEqual_def timingSafeEqual_def demo_bytes)
  moreover have "crypto_env_ok (cenv demo_app)" using demo_crypto by (simp add: demo_app_def demo_audit_def)
  ultimately obtain s' where "processEmailProviderEvent demo_app demo_effects (Some ''k'') (\<lambda>_. Inr demo_bounce) [] ''sha256=686b'' demo_platform = (Inr (), s')"
    using valid_event_accepted [of demo_app "Some ''k''" "[]" "''sha256=686b''" "\<lambda>_. Inr demo_bounce" demo_bounce] by blast
  then show ?thesis by (simp add: after_bounce_def)
qed

theorem suppressed_address_silent_witness:
  "pf_mails (snd (sendEmail demo_rotated_app demo_providers demo_effects ''product.announcement'' (demo_announcement None) None after_bounce)) =
     pf_mails after_bounce"
proof -
  have keys: "crypto_env_ok (cenv demo_app)" "crypto_env_ok (cenv demo_rotated_app)" "keeps_active_key (cenv demo_app) (cenv demo_rotated_app)"
    "prims demo_rotated_app = prims demo_app"
    using demo_crypto by (simp_all add: demo_rotated_app_def demo_app_def demo_audit_def)
  have mail: "jprop ''destination'' (demo_announcement None) = JStr ''a@x''" "normalizeEmail ''a@x'' = normalizeEmail (ev_destination demo_bounce)"
    by (simp_all add: demo_announcement_def getProp_def demo_bounce_def normalizeEmail_def trim_def white_def toLowerCase_def lower_char_def demo_bytes)
  show ?thesis
    by (rule suppressed_address_silent [OF bounce_accepted refl _ keys subset_refl mail]) (simp add: demo_bounce_def)
qed

section \<open>One-click unsubscribe\<close>

lemma parseAnnouncement_recipient:
  assumes "parseAnnouncement D v = Inr x"
  shows "jprop ''userId'' v = JStr (de_recipient x)" "de_topic x = ''product_updates''"
proof -
  obtain u t where "requiredString (pd_isUuid D) ''userId'' v = Inr u" "u = de_recipient x"
    "requiredString (\<lambda>t. t = ''product_updates'') ''topic'' v = Inr t" "t = de_topic x"
    using assms by (auto simp: parseAnnouncement_def split: sum.splits)
  then show "jprop ''userId'' v = JStr (de_recipient x)" "de_topic x = ''product_updates''"
    by (auto dest: requiredString_is simp: requiredString_def split: jsval.splits if_splits)
qed

lemma parseDestination_org:
  "parseDestination D v = Inr x \<Longrightarrow> jprop ''organizationId'' v = Undefined \<Longrightarrow> de_organizationId x = None"
  by (auto simp: parseDestination_def optionalString_def split: sum.splits)

lemma parseAnnouncement_org:
  "parseAnnouncement D v = Inr x \<Longrightarrow> jprop ''organizationId'' v = Undefined \<Longrightarrow> de_organizationId x = None"
  by (auto simp: parseAnnouncement_def split: sum.splits dest: parseDestination_org)

lemma isSuppressed_state: "isSuppressed A d s = (r, s') \<Longrightarrow> s' = s"
  by (auto simp: isSuppressed_def andNext_def calling_eq answer_def split: sum.splits)

lemma disallowed_is_silent:
  assumes "\<And>v. parseAnnouncement D payload = Inr v \<Longrightarrow> \<not> notificationAllowed s (de_recipient v) EMAIL (de_topic v) (de_organizationId v)"
  shows "snd (sendAnnouncementEmail A D ef payload deliveryId s) = s"
proof (cases "parseAnnouncement D payload")
  case (Inr v)
  obtain r s1 where r: "isSuppressed A (de_destination v) s = (r, s1)" by (cases "isSuppressed A (de_destination v) s")
  have r': "isSuppressed A (de_destination v) s = (r, s)" using r isSuppressed_state [OF r] by simp
  show ?thesis
  proof (cases r)
    case (Inl e)
    then show ?thesis unfolding sendAnnouncementEmail_def andNext_calling(2) [OF Inr] by (simp add: andNext_def [of "isSuppressed A (de_destination v)"] r')
  next
    case r2: (Inr b)
    have "andNext (isSuppressed A (de_destination v)) f s = f b s" for f :: "bool \<Rightarrow> (platform, ProviderDeliveryResult) io"
      by (simp add: andNext_def r' r2)
    then show ?thesis unfolding sendAnnouncementEmail_def andNext_calling(2) [OF Inr]
      using assms [OF Inr] by (cases b) (simp_all add: answer_state andNext_reading)
  qed
qed (simp add: sendAnnouncementEmail_def andNext_calling)

text \<open>C22: one-click unsubscribe stops announcements. Once a link was accepted outside an organization, no announcement that names no
  organization mails its user.\<close>

theorem unsubscribe_stops_announcements:
  assumes unsub: "unsubscribeWithToken A ef parse isUuid token s = (Inr True, s')"
    and p: "verifyUnsubscribeToken (cenv A) (prims A) parse isUuid (ef_now ef 1) token = Some p"
    and scope: "\<not> truthy (currentOrganization A)" "scopes_ok s"
    and payload: "jprop ''userId'' payload = JStr (un_userId p)" "jprop ''organizationId'' payload = Undefined"
  shows "pf_mails (snd (sendEmail B D ef' ''product.announcement'' payload deliveryId s')) = pf_mails s'"
proof -
  have topic: "un_topic p = ''product_updates''"
    using p by (auto simp: verifyUnsubscribeToken_def parseUnsubscribePayload_def notificationTopics_def Option.bind_eq_Some_conv
        split: list.splits if_splits option.splits jsval.splits)
  obtain x where "setNotificationPreference A ef (un_userId p) EMAIL (un_topic p) False s = Inr (x, s')"
    using unsub unfolding unsubscribeWithToken_def p option.case by (auto simp: tx_simps transaction_cases)
  note row = global_preference_set [OF this scope]
  have "snd (sendAnnouncementEmail B D ef' payload deliveryId s') = s'"
  proof (rule disallowed_is_silent)
    fix v
    assume v: "parseAnnouncement D payload = Inr v"
    have "de_recipient v = un_userId p" "de_topic v = un_topic p" "de_organizationId v = None"
      using parseAnnouncement_recipient [OF v] parseAnnouncement_org [OF v payload(2)] payload(1) topic by simp_all
    with notificationAllowed_global [OF _ row] show "\<not> notificationAllowed s' (de_recipient v) EMAIL (de_topic v) (de_organizationId v)"
      by simp
  qed
  then show ?thesis by (simp add: sendEmail_def)
qed

definition demo_unsubscribe_parse :: "string \<Rightarrow> jsval option" where
  "demo_unsubscribe_parse s = Some (payloadValue \<lparr>un_userId = ''u'', un_topic = ''product_updates'', un_exp = 2592000\<rparr>)"

definition after_unsubscribe :: platform where
  "after_unsubscribe = snd (unsubscribeWithToken demo_app demo_effects demo_unsubscribe_parse (\<lambda>_. True)
     (createUnsubscribeToken demo_env demo_prims 0 ''u'' ''product_updates'' 30) demo_platform)"

theorem unsubscribe_stops_announcements_witness:
  "pf_mails (snd (sendEmail demo_app demo_providers demo_effects ''product.announcement'' (demo_announcement None) None after_unsubscribe)) =
     pf_mails after_unsubscribe"
proof -
  let ?p = "\<lparr>un_userId = ''u'', un_topic = ''product_updates'', un_exp = 2592000\<rparr>"
  let ?t = "createUnsubscribeToken demo_env demo_prims 0 ''u'' ''product_updates'' 30"
  have env: "cenv demo_app = demo_env" "prims demo_app = demo_prims" by (simp_all add: demo_app_def demo_audit_def)
  have p: "verifyUnsubscribeToken (cenv demo_app) (prims demo_app) demo_unsubscribe_parse (\<lambda>_. True) (ef_now demo_effects 1) ?t = Some ?p"
    unfolding env
    using unsubscribe_token_verifies [where userId = "''u''" and topic = "''product_updates''" and now = 0 and days = 30 and P = demo_prims
      and env = demo_env and now' = "ef_now demo_effects 1" and isUuid = "\<lambda>_. True" and parse = demo_unsubscribe_parse]
    by (simp add: demo_prims_def notificationTopics_def demo_unsubscribe_parse_def demo_effects_def del: base64url.simps unbase64url.simps)
  have run: "unsubscribeWithToken demo_app demo_effects demo_unsubscribe_parse (\<lambda>_. True) ?t demo_platform = (Inr True, after_unsubscribe)"
    unfolding after_unsubscribe_def unsubscribeWithToken_def p option.case
    by (simp add: andNext_def transaction_def setNotificationPreference_def upsertRow_def demo_platform_def Let_def answer_def find_first_def)
  show ?thesis
    by (rule unsubscribe_stops_announcements [OF run p])
      (simp_all add: demo_app_def currentOrganization_def activeOrganization_def scopes_ok_def demo_platform_def demo_announcement_def getProp_def)
qed

text \<open>An organization's own row decides before the global one: the same user still gets the announcements of
  an organization for which the preference was once switched on.\<close>

definition demo_preference :: "string \<Rightarrow> ident option \<Rightarrow> bool \<Rightarrow> NotificationPreference" where
  "demo_preference scopeKey org enabled = \<lparr>np_id = scopeKey, np_organizationId = org, np_userId = ''u'', np_scopeKey = scopeKey, np_channel = EMAIL,
     np_topic = ''product_updates'', np_enabled = enabled, np_updatedAt = 0, np_deletedAt = None\<rparr>"

lemma organization_row_overrides_unsubscribe:
  "notificationAllowed (demo_platform\<lparr>pf_preferences := [demo_preference ''global'' None False, demo_preference ''o1'' (Some ''o1'') True]\<rparr>)
     ''u'' EMAIL ''product_updates'' (Some ''o1'')"
  by (simp add: notificationAllowed_def demo_preference_def demo_platform_def find_first_def)

end
