(* ===== verification/Users.thy ===== *)
theory Users
  imports Platform Access_Control
begin

text \<open>
  The services of \<open>src/src/modules/users/users.service.ts\<close>: the profile, devices, sessions, and the
  administration of users. Rows are returned whole where the sources select columns.
\<close>

section \<open>Devices\<close>

definition getCurrentUser :: "store \<Rightarrow> ident \<Rightarrow> (User \<times> string list) option" where
  "getCurrentUser s userId =
     map_option (\<lambda>u. (u, concat (map (\<lambda>x. map role_name (filter (\<lambda>r. role_id r = ur_roleId x) (roles s)))
         (filter (\<lambda>x. ur_userId x = userId \<and> ur_deletedAt x = None) (userRoles s)))))
       (find_first (\<lambda>u. u_id u = userId \<and> u_deletedAt u = None) (users s))"

definition newDevice :: "effects \<Rightarrow> ident \<Rightarrow> string \<Rightarrow> string option \<Rightarrow> Device" where
  "newDevice ef userId token pform =
     \<lparr>dv_id = ef_id ef 0, dv_userId = userId, dv_fcmToken = token, dv_platform = pform, dv_lastSeenAt = ef_now ef 0,
      dv_createdAt = ef_now ef 0, dv_deletedAt = None\<rparr>"

text \<open>A platform that is left out leaves the column as it is. Both lookups see live rows only.\<close>

definition registerDevice :: "effects \<Rightarrow> ident \<Rightarrow> string \<Rightarrow> string option \<Rightarrow> (platform, unit) io" where
  "registerDevice ef userId token pform =
     andNext (transaction (findFirst pf_devices (\<lambda>d. dv_fcmToken d = token \<and> dv_deletedAt d = None))) (\<lambda>existing.
     case existing of
       Some d \<Rightarrow>
         andNext (calling (assertResourceOwner (dv_userId d) userId)) (\<lambda>_.
         transaction (updateRow pf_devices pf_devices_update (\<lambda>x. dv_id x = dv_id d \<and> dv_userId x = userId \<and> dv_deletedAt x = None)
           (\<lambda>x. x\<lparr>dv_platform := (case pform of None \<Rightarrow> dv_platform x | Some p \<Rightarrow> Some p), dv_lastSeenAt := ef_now ef 0, dv_deletedAt := None\<rparr>)))
     | None \<Rightarrow>
         transaction (andThen (createRow pf_devices pf_devices_update (\<lambda>a b. dv_fcmToken a = dv_fcmToken b)
           (newDevice ef userId token pform)) (\<lambda>_. ret ())))"

definition listDevices :: "ident \<Rightarrow> platform \<Rightarrow> Device list" where
  "listDevices userId s =
     rev (sort_key dv_lastSeenAt (sort_key dv_createdAt (filter (\<lambda>d. dv_userId d = userId \<and> dv_deletedAt d = None) (pf_devices s))))"

definition unregisterDevice :: "app \<Rightarrow> effects \<Rightarrow> ident \<Rightarrow> ident \<Rightarrow> RequestMetadata \<Rightarrow> (platform, bool) io" where
  "unregisterDevice A ef userId deviceId metadata =
     auditedPlatform A (\<lambda>audit.
       andThen (updateMany pf_devices pf_devices_update (\<lambda>d. dv_id d = deviceId \<and> dv_userId d = userId \<and> dv_deletedAt d = None)
                  (\<lambda>d. d\<lparr>dv_deletedAt := Some (ef_now ef 0)\<rparr>)) (\<lambda>removed.
       if removed \<noteq> 1 then ret False
       else andThen (audit (ef_id ef 0) (ef_now ef 1)
                       (audit_of metadata (Some userId) ''device.unregistered'' ''device'' (Some deviceId) None)) (\<lambda>_. ret True)))"

section \<open>The profile\<close>

text \<open>A field that is left out is \<open>None\<close>, one that is cleared \<open>Some None\<close>.\<close>

record ProfileInput =
  pi_displayName :: "string option option"
  pi_locale :: "string option"
  pi_phone :: "string option option"

definition profileFields :: "ProfileInput \<Rightarrow> jsval" where
  "profileFields input = JObj [(''fields'', JArr (map JStr
     ((if pi_displayName input \<noteq> None then [''displayName''] else []) @ (if pi_locale input \<noteq> None then [''locale''] else []) @
      (if pi_phone input \<noteq> None then [''phone''] else []))))]"

definition applyProfile :: "ProfileInput \<Rightarrow> string option \<Rightarrow> User \<Rightarrow> User" where
  "applyProfile input currentPhone u =
     u\<lparr>u_displayName := orElse (pi_displayName input) (u_displayName u), u_locale := orElse (pi_locale input) (u_locale u),
       u_phone := orElse (pi_phone input) (u_phone u),
       u_phoneVerifiedAt := (case pi_phone input of
          Some p \<Rightarrow> if p \<noteq> currentPhone then None else u_phoneVerifiedAt u | None \<Rightarrow> u_phoneVerifiedAt u)\<rparr>"

text \<open>The unique index on telephone numbers covers deleted accounts too.\<close>

definition phoneTaken :: "ident \<Rightarrow> ProfileInput \<Rightarrow> store \<Rightarrow> bool" where
  "phoneTaken userId input s =
     (case pi_phone input of
        Some (Some p) \<Rightarrow> list_ex (\<lambda>u. u_id u \<noteq> userId \<and> u_phone u = Some p) (users s) | _ \<Rightarrow> False)"

definition updateOwnProfile :: "app \<Rightarrow> effects \<Rightarrow> ident \<Rightarrow> ProfileInput \<Rightarrow> RequestMetadata \<Rightarrow> (store, User option) io" where
  "updateOwnProfile A ef userId input metadata =
     auditedTransaction A (\<lambda>audit.
       andThen (findFirst users (\<lambda>u. u_id u = userId \<and> u_deletedAt u = None)) (\<lambda>current.
       case current of
         None \<Rightarrow> ret None
       | Some c \<Rightarrow>
           andThen (reading (phoneTaken userId input)) (\<lambda>taken.
           andThen (require (\<not> taken) (PrismaKnown ''P2002'')) (\<lambda>_.
           andThen (updateRow users users_update (\<lambda>u. u_id u = userId \<and> u_deletedAt u = None) (applyProfile input (u_phone c))) (\<lambda>_.
           andThen (audit (ef_id ef 0) (ef_now ef 0)
                      (audit_of metadata (Some userId) ''user.profile_updated'' ''user'' (Some userId) (Some (profileFields input)))) (\<lambda>_.
           ret (Some (applyProfile input (u_phone c) c))))))))"

section \<open>Sessions and administration\<close>

definition listSessions :: "ident \<Rightarrow> ident \<Rightarrow> store \<Rightarrow> (Session \<times> bool) list" where
  "listSessions userId currentSessionId s =
     map (\<lambda>x. (x, ses_id x = currentSessionId))
       (rev (sort_key ses_lastSeenAt (sort_key ses_createdAt
         (filter (\<lambda>x. ses_userId x = userId \<and> ses_revokedAt x = None \<and> ses_deletedAt x = None) (sessions s)))))"

definition searched :: "string option \<Rightarrow> User \<Rightarrow> bool" where
  "searched search u =
     (case textSearch search [''email'', ''displayName''] of
        None \<Rightarrow> True
      | Some clauses \<Rightarrow>
          list_ex (\<lambda>(field, needle).
            case (if field = ''email'' then u_email u else u_displayName u) of
              None \<Rightarrow> False | Some v \<Rightarrow> containsText (toLowerCase needle) (toLowerCase v)) clauses)"

definition listUsers :: "CursorPaginationInput \<Rightarrow> string option \<Rightarrow> UserStatus option \<Rightarrow> User list \<Rightarrow> User CursorPage" where
  "listUsers input search status ordered =
     paginateCursor u_id input (fetch_rows u_id
       (filter (\<lambda>u. u_deletedAt u = None \<and> (case status of None \<Rightarrow> True | Some x \<Rightarrow> u_status u = x) \<and> searched search u) ordered))"

record UserUpdate =
  uu_displayName :: "string option option"
  uu_status :: "UserStatus option"

definition blocking :: "UserStatus option \<Rightarrow> bool" where
  "blocking status \<longleftrightarrow> status = Some U_SUSPENDED \<or> status = Some U_DISABLED"

definition updateFields :: "UserUpdate \<Rightarrow> jsval" where
  "updateFields input = JObj [(''fields'', JArr (map JStr
     ((if uu_displayName input \<noteq> None then [''displayName''] else []) @ (if uu_status input \<noteq> None then [''status''] else []))))]"

definition applyUpdate :: "UserUpdate \<Rightarrow> User \<Rightarrow> User" where
  "applyUpdate input u = u\<lparr>u_displayName := orElse (uu_displayName input) (u_displayName u), u_status := orElse (uu_status input) (u_status u)\<rparr>"

definition updateUser :: "app \<Rightarrow> effects \<Rightarrow> ident \<Rightarrow> UserUpdate \<Rightarrow> ident \<Rightarrow> RequestMetadata \<Rightarrow> (store, unit) io" where
  "updateUser A ef userId input actorUserId metadata =
     andNext (auditedTransaction A (\<lambda>audit.
       andThen (updateRow users users_update (\<lambda>u. u_id u = userId \<and> u_deletedAt u = None) (applyUpdate input)) (\<lambda>_.
       andThen (if blocking (uu_status input)
                then andThen (revokeSessions (\<lambda>x. ses_userId x = userId) (ef_now ef 0)
                                (''account_'' @ toLowerCase (statusText (the (uu_status input))))) (\<lambda>_.
                     andThen (revokeTokens (\<lambda>t. rt_userId t = userId) (ef_now ef 0)) (\<lambda>_. ret ()))
                else ret ()) (\<lambda>_.
       audit (ef_id ef 0) (ef_now ef 1)
         (audit_of metadata (Some actorUserId) ''user.updated'' ''user'' (Some userId) (Some (updateFields input))))))) (\<lambda>_.
     if blocking (uu_status input) then publishChatRevocation A userId else answer ())"

section \<open>Laws\<close>

lemma filter_update_many: "(\<And>r. P r \<Longrightarrow> \<not> Q r) \<Longrightarrow> (\<And>r. P r \<Longrightarrow> \<not> Q (f r)) \<Longrightarrow> filter Q (update_many P f rs) = filter Q rs"
  by (induction rs) (auto simp: update_many_def)

text \<open>A row after an update is a changed row that matched, or an old row that did not.\<close>

lemma changed_row_cases:
  assumes "x \<in> set (update_many P f rs)"
  obtains (changed) r where "r \<in> set rs" "P r" "x = f r" | (kept) "x \<in> set rs" "\<not> P x"
  using assms by (auto simp: set_update_many split: if_splits)

text \<open>A token that a removed device holds cannot be registered again, by its owner or by anyone else.\<close>

lemma removed_token_refused:
  assumes "d \<in> set (pf_devices s)" "dv_fcmToken d = token" "\<forall>x\<in>set (pf_devices s). dv_fcmToken x = token \<longrightarrow> dv_deletedAt x \<noteq> None"
  shows "registerDevice ef userId token pform s = (Inl (PrismaKnown ''P2002''), s)"
proof -
  have none: "find_first (\<lambda>d. dv_fcmToken d = token \<and> dv_deletedAt d = None) (pf_devices s) = None"
    using assms(3) by (auto simp: find_first_None)
  have "clashes (\<lambda>a b. dv_fcmToken a = dv_fcmToken b) (newDevice ef userId token pform) (pf_devices s)"
    using assms(1,2) by (auto simp: clashes_iff newDevice_def intro: bexI [of _ d])
  then show ?thesis
    by (simp add: registerDevice_def none transaction_def andThen_def createRow_def)
qed

text \<open>Tokens stay with one device: registration keeps them distinct and takes none over from another user.\<close>

lemma updateMany_tokens: "(\<And>x. dv_fcmToken (f x) = dv_fcmToken x) \<Longrightarrow> map dv_fcmToken (update_many P f rs) = map dv_fcmToken rs"
  by (rule map_update_many)

lemma registerDevice_keeps_owner:
  assumes "distinct (map dv_fcmToken (pf_devices s))" "d \<in> set (pf_devices s)" "dv_userId d \<noteq> userId"
  shows "distinct (map dv_fcmToken (pf_devices (snd (registerDevice ef userId token pform s)))) \<and>
    d \<in> set (pf_devices (snd (registerDevice ef userId token pform s)))"
proof (cases "find_first (\<lambda>d. dv_fcmToken d = token \<and> dv_deletedAt d = None) (pf_devices s)")
  case None
  then show ?thesis using assms
    by (auto simp: registerDevice_def transaction_def andThen_def createRow_def ret_def clashes_iff newDevice_def split: if_splits)
next
  case (Some x)
  let ?P = "\<lambda>y. dv_id y = dv_id x \<and> dv_userId y = userId \<and> dv_deletedAt y = None"
  let ?f = "\<lambda>y. y\<lparr>dv_platform := (case pform of None \<Rightarrow> dv_platform y | Some p \<Rightarrow> Some p), dv_lastSeenAt := ef_now ef 0, dv_deletedAt := None\<rparr>"
  have "pf_devices (snd (registerDevice ef userId token pform s)) \<in> {pf_devices s, update_many ?P ?f (pf_devices s)}"
    by (auto simp: registerDevice_def Some andNext_def [of "calling r" for r] calling_def transaction_def updateRow_def split: sum.split)
  moreover have "d \<in> set (update_many ?P ?f (pf_devices s))"
    using assms(2,3) by (auto simp: set_update_many image_iff intro!: bexI [of _ d])
  moreover have "distinct (map dv_fcmToken (update_many ?P ?f (pf_devices s)))"
    using assms(1) by (subst updateMany_tokens) simp_all
  ultimately show ?thesis using assms(1,2) by fastforce
qed

text \<open>A new telephone number is unverified. Whoever changes the number of the profile to another one has no verified
  number afterwards, and nobody else's row changes.\<close>

theorem phone_change_unverifies:
  assumes run: "updateOwnProfile A ef userId input metadata s = (Inr (Some u), s')"
    and old: "find_first (\<lambda>u. u_id u = userId \<and> u_deletedAt u = None) (users s) = Some c"
    and phone: "pi_phone input = Some p" "p \<noteq> u_phone c"
  shows "(\<forall>x\<in>set (users s'). u_id x = userId \<and> u_deletedAt x = None \<longrightarrow> u_phone x = p \<and> u_phoneVerifiedAt x = None) \<and>
    filter (\<lambda>x. u_id x \<noteq> userId) (users s') = filter (\<lambda>x. u_id x \<noteq> userId) (users s)"
proof -
  let ?P = "\<lambda>u. u_id u = userId \<and> u_deletedAt u = None"
  have "users s' = update_many ?P (applyProfile input (u_phone c)) (users s)"
    using run by (auto simp: updateOwnProfile_def auditedTransaction_def transaction_cases tx_simps old)
  note users = this
  show ?thesis
  proof (intro conjI ballI impI)
    fix x
    assume "x \<in> set (users s')" and x: "u_id x = userId \<and> u_deletedAt x = None"
    then obtain r where r: "x = (if ?P r then applyProfile input (u_phone c) r else r)"
      unfolding users set_update_many by (elim imageE)
    with x have "?P r" by (cases "?P r") (simp_all add: applyProfile_def)
    with r show "u_phone x = p" "u_phoneVerifiedAt x = None" by (simp_all add: applyProfile_def phone)
  next
    show "filter (\<lambda>x. u_id x \<noteq> userId) (users s') = filter (\<lambda>x. u_id x \<noteq> userId) (users s)"
      unfolding users by (rule filter_update_many) (simp_all add: applyProfile_def)
  qed
qed

theorem phone_change_unverifies_witness:
  "\<exists>u s'. updateOwnProfile demo_app demo_effects ''u1'' \<lparr>pi_displayName = None, pi_locale = None, pi_phone = Some (Some ''+1'')\<rparr> demo_meta
       (demo_store\<lparr>users := [demo_user ''u1'', demo_user ''u2'']\<rparr>) = (Inr (Some u), s') \<and>
     (\<forall>x\<in>set (users s'). u_id x = ''u1'' \<and> u_deletedAt x = None \<longrightarrow> u_phone x = Some ''+1'' \<and> u_phoneVerifiedAt x = None) \<and>
     filter (\<lambda>x. u_id x \<noteq> ''u1'') (users s') = [demo_user ''u2'']"
proof -
  let ?i = "\<lparr>pi_displayName = None, pi_locale = None, pi_phone = Some (Some ''+1'')\<rparr>"
  let ?s = "demo_store\<lparr>users := [demo_user ''u1'', demo_user ''u2'']\<rparr>"
  obtain u s' where run: "updateOwnProfile demo_app demo_effects ''u1'' ?i demo_meta ?s = (Inr (Some u), s')"
    by (simp add: updateOwnProfile_def auditedTransaction_def phoneTaken_def tx_run demo_user_def demo_store_def)
  have old: "find_first (\<lambda>u. u_id u = ''u1'' \<and> u_deletedAt u = None) (users ?s) = Some (demo_user ''u1'')"
    by (simp add: find_first_def demo_user_def)
  have "filter (\<lambda>x. u_id x \<noteq> ''u1'') (users ?s) = [demo_user ''u2'']" by (simp add: demo_user_def)
  with phone_change_unverifies [OF run old, of "Some ''+1''"] run show ?thesis
    by (intro exI [of _ u] exI [of _ s']) (simp add: demo_user_def)
qed

lemma updateUser_rows:
  assumes run: "updateUser A ef userId input actor metadata s = (Inr (), s')" and b: "blocking (uu_status input)"
  shows "users s' = update_many (\<lambda>u. u_id u = userId \<and> u_deletedAt u = None) (applyUpdate input) (users s)"
    "sessions s' = update_many (\<lambda>x. ses_userId x = userId \<and> ses_revokedAt x = None \<and> ses_deletedAt x = None)
       (\<lambda>x. x\<lparr>ses_revokedAt := Some (ef_now ef 0), ses_revokeReason := Some (''account_'' @ toLowerCase (statusText (the (uu_status input))))\<rparr>) (sessions s)"
    "refreshTokens s' = update_many (\<lambda>t. rt_userId t = userId \<and> rt_revokedAt t = None \<and> rt_deletedAt t = None)
       (\<lambda>t. t\<lparr>rt_revokedAt := Some (ef_now ef 0)\<rparr>) (refreshTokens s)"
    "ap_chatEnabled A \<Longrightarrow> userId \<in> set (revocations s')"
  using run by (auto simp: updateUser_def auditedTransaction_def transaction_cases tx_simps b publishChatRevocation_def
        revokeSessions_def revokeTokens_def)

text \<open>A blocked user is cut off. When an administrator suspends or disables a user, every live session and refresh token of the
  user is revoked in the same transaction, the status is what was asked for, and the chat servers are told.\<close>

theorem blocked_user_cut_off:
  assumes run: "updateUser A ef userId input actor metadata s = (Inr (), s')"
    and status: "uu_status input = Some status" "status = U_SUSPENDED \<or> status = U_DISABLED"
  shows "(\<forall>u\<in>set (users s'). u_id u = userId \<and> u_deletedAt u = None \<longrightarrow> u_status u = status) \<and>
    (\<forall>x\<in>set (sessions s'). ses_userId x = userId \<and> ses_deletedAt x = None \<longrightarrow> ses_revokedAt x \<noteq> None) \<and>
    (\<forall>t\<in>set (refreshTokens s'). rt_userId t = userId \<and> rt_deletedAt t = None \<longrightarrow> rt_revokedAt t \<noteq> None) \<and>
    (ap_chatEnabled A \<longrightarrow> userId \<in> set (revocations s'))"
proof -
  have b: "blocking (uu_status input)" using status by (auto simp: blocking_def)
  note rows = updateUser_rows [OF run b]
  show ?thesis unfolding rows(1-3)
  proof ((intro conjI ballI impI; (elim conjE)?), goal_cases)
    case (1 u)
    show ?case by (rule changed_row_cases [OF 1(1)]) (use 1(2,3) in \<open>simp_all add: applyUpdate_def status(1)\<close>)
  next
    case (2 x)
    show ?case by (rule changed_row_cases [OF 2(1)]) (use 2(2,3) in simp_all)
  next
    case (3 t)
    show ?case by (rule changed_row_cases [OF 3(1)]) (use 3(2,3) in simp_all)
  next
    case 4
    then show ?case by (rule rows(4))
  qed
qed

theorem blocked_user_cut_off_witness:
  "\<exists>s'. updateUser demo_app demo_effects ''u1'' \<lparr>uu_displayName = None, uu_status = Some U_SUSPENDED\<rparr> ''admin'' demo_meta
       (demo_store\<lparr>users := [demo_user ''u1'']\<rparr>) = (Inr (), s') \<and>
     (\<forall>u\<in>set (users s'). u_id u = ''u1'' \<and> u_deletedAt u = None \<longrightarrow> u_status u = U_SUSPENDED) \<and> ''u1'' \<in> set (revocations s')"
proof -
  let ?i = "\<lparr>uu_displayName = None, uu_status = Some U_SUSPENDED\<rparr>"
  obtain s' where run: "updateUser demo_app demo_effects ''u1'' ?i ''admin'' demo_meta (demo_store\<lparr>users := [demo_user ''u1'']\<rparr>) = (Inr (), s')"
    by (simp add: updateUser_def auditedTransaction_def tx_run blocking_def revokeSessions_def revokeTokens_def publishChatRevocation_def demo_user_def)
  from blocked_user_cut_off [OF run, of U_SUSPENDED] run show ?thesis by (intro exI [of _ s']) (simp add: demo_app_def)
qed

end
