(* ===== verification/Account_Erasure.thy ===== *)
theory Account_Erasure
  imports Users Subscriptions
begin

text \<open>
  The deletion of an account: \<open>deleteAccount\<close> of \<open>src/src/modules/auth/auth.account.service.ts\<close>, which
  anonymizes the database in one transaction and queues the rest, and the worker of
  \<open>account-erasure.service.ts\<close>, which cancels the customer's subscriptions and deletes the stored objects.
\<close>

section \<open>Confirmation\<close>

definition credentialConfirmed :: "app \<Rightarrow> social_deps \<Rightarrow> User \<Rightarrow> Confirmation \<Rightarrow> (platform, bool) io" where
  "credentialConfirmed A D u confirmation =
     (if truthy (u_passwordHash u)
      then answer (truthy (cf_password confirmation) \<and> verifySecret (prims A) (the (u_passwordHash u)) (the (cf_password confirmation)))
      else case cf_socialReauth confirmation of
        None \<Rightarrow> answer False
      | Some (provider, idToken) \<Rightarrow>
          andNext (calling (verifySocialIdentity D provider idToken)) (\<lambda>identity.
          andNext (transaction (findFirst (\<lambda>s. socialAccounts (pf_store s)) (\<lambda>a. sa_userId a = u_id u \<and> sa_provider a = si_provider identity \<and>
             sa_providerAccountId a = si_providerAccountId identity \<and> sa_deletedAt a = None))) (\<lambda>linked.
          answer (linked \<noteq> None))))"

section \<open>The transaction\<close>

definition ownedBy :: "ident \<Rightarrow> store \<Rightarrow> ident list" where
  "ownedBy userId s = map mem_organizationId (filter (\<lambda>m. mem_userId m = userId \<and> activeOwner (mem_organizationId m) s m) (memberships s))"

fun assertOtherOwners :: "ident list \<Rightarrow> (platform, unit) tx" where
  "assertOtherOwners [] = ret ()"
| "assertOtherOwners (organizationId # rest) =
     andThen (reading (\<lambda>s. countActiveOwners organizationId (pf_store s))) (\<lambda>owners.
     andThen (require (\<not> owners \<le> 1) (App (conflict (Some ''Transfer ownership or add another owner before deleting this account'')))) (\<lambda>_.
     assertOtherOwners rest))"

definition anonymized :: "time \<Rightarrow> User \<Rightarrow> User" where
  "anonymized deletedAt u =
     u\<lparr>u_email := None, u_phone := None, u_passwordHash := None, u_displayName := None, u_locale := ''en'', u_pendingEmail := None,
       u_stripeCustomerId := None, u_emailVerifiedAt := None, u_phoneVerifiedAt := None, u_lastLoginAt := None, u_status := U_DISABLED,
       u_deletedAt := Some deletedAt\<rparr>"

definition eraseIdentity :: "time \<Rightarrow> ident \<Rightarrow> (platform, unit) tx" where
  "eraseIdentity deletedAt userId =
     andThen (inStore (updateRow users users_update (\<lambda>u. u_id u = userId \<and> u_deletedAt u = None) (anonymized deletedAt))) (\<lambda>_.
     andThen (inStore (revokeSessions (\<lambda>x. ses_userId x = userId) deletedAt ''account_deleted'')) (\<lambda>_.
     andThen (inStore (revokeTokens (\<lambda>t. rt_userId t = userId) deletedAt)) (\<lambda>_.
     andThen (inStore (updateMany sessions sessions_update (\<lambda>x. ses_userId x = userId \<and> ses_deletedAt x = None)
        (\<lambda>x. x\<lparr>ses_ipHash := None, ses_userAgent := None\<rparr>))) (\<lambda>_.
     andThen (deleteMany pf_devices pf_devices_update (\<lambda>d. dv_userId d = userId \<and> dv_deletedAt d = None)) (\<lambda>_.
     andThen (inStore (deleteMany socialAccounts socialAccounts_update (\<lambda>a. sa_userId a = userId \<and> sa_deletedAt a = None))) (\<lambda>_.
     ret ()))))))"

definition eraseTraces :: "ident \<Rightarrow> (platform, unit) tx" where
  "eraseTraces userId =
     andThen (inStore (deleteMany passwordResetTokens passwordResetTokens_update (\<lambda>t. prt_userId t = userId \<and> prt_deletedAt t = None))) (\<lambda>_.
     andThen (inStore (deleteChallenges (\<lambda>c. otp_userId c = Some userId \<and> otp_deletedAt c = None))) (\<lambda>_.
     andThen (inStore (deleteMany userRoles userRoles_update (\<lambda>r. ur_userId r = userId \<and> ur_deletedAt r = None))) (\<lambda>_.
     andThen (deleteMany pf_preferences pf_preferences_update (\<lambda>p. np_userId p = userId \<and> np_deletedAt p = None)) (\<lambda>_.
     andThen (updateMany pf_deliveries pf_deliveries_update (\<lambda>d. nd_userId d = Some userId \<and> nd_deletedAt d = None)
        (\<lambda>d. d\<lparr>nd_userId := None\<rparr>)) (\<lambda>_.
     ret ())))))"

definition leaveOrganizations :: "time \<Rightarrow> ident \<Rightarrow> (platform, nat) tx" where
  "leaveOrganizations deletedAt userId =
     inStore (updateMany memberships memberships_update (\<lambda>m. mem_userId m = userId \<and> mem_deletedAt m = None)
       (\<lambda>m. m\<lparr>mem_status := M_SUSPENDED, mem_deletedAt := Some deletedAt\<rparr>))"

definition erasedUpload :: "time \<Rightarrow> Upload \<Rightarrow> Upload" where
  "erasedUpload deletedAt u =
     u\<lparr>up_status := UP_DELETED, up_originalName := ''erased'', up_checksum := None, up_scanReference := None, up_url := None,
       up_deletedAt := Some deletedAt\<rparr>"

fun eraseUploads :: "time \<Rightarrow> ident list \<Rightarrow> (platform, unit) tx" where
  "eraseUploads deletedAt [] = ret ()"
| "eraseUploads deletedAt (i # rest) =
     andThen (inContent (updateRow uploads uploads_update (\<lambda>u. up_id u = i \<and> up_deletedAt u = None) (erasedUpload deletedAt))) (\<lambda>_.
     eraseUploads deletedAt rest)"

definition erasedOutbox :: "ident \<Rightarrow> ident list \<Rightarrow> OutboxEvent \<Rightarrow> bool" where
  "erasedOutbox userId challengeIds e \<longleftrightarrow> ob_deletedAt e = None \<and>
     ((challengeIds \<noteq> [] \<and> ob_aggregateType e = ''otp_challenge'' \<and> ob_aggregateId e \<in> set challengeIds) \<or>
      (ob_aggregateType e = ''user'' \<and> ob_aggregateId e = userId))"

definition undelivered :: "OutboxStatus \<Rightarrow> bool" where
  "undelivered st \<longleftrightarrow> st \<in> {PENDING, CLAIMED, ENQUEUED, PROCESSING, OutboxStatus.FAILED}"

definition endsWith :: "string \<Rightarrow> string \<Rightarrow> bool" where
  "endsWith suffix s \<longleftrightarrow> length suffix \<le> length s \<and> drop (length s - length suffix) s = suffix"

definition eraseBelongings :: "time \<Rightarrow> ident \<Rightarrow> ident list \<Rightarrow> ident list \<Rightarrow> (platform, unit) tx" where
  "eraseBelongings deletedAt userId uploadIds challengeIds =
     andThen (inContent (deleteMany bandwidthUsage bandwidthUsage_update (\<lambda>b. bw_userId b = userId))) (\<lambda>_.
     andThen (eraseUploads deletedAt uploadIds) (\<lambda>_.
     andThen (inStore (updateMany outboxEvents outboxEvents_update (erasedOutbox userId challengeIds)
        (\<lambda>e. e\<lparr>ob_payload := JObj [(''erased'', JBool True)], ob_expiresAt := Some deletedAt\<rparr>))) (\<lambda>_.
     andThen (inStore (updateMany outboxEvents outboxEvents_update (\<lambda>e. erasedOutbox userId challengeIds e \<and> undelivered (ob_status e))
        (\<lambda>e. e\<lparr>ob_status := DEAD_LETTER, ob_lastError := Some ''Account deleted before delivery'', ob_claimToken := None,
              ob_claimedAt := None, ob_claimExpiresAt := None\<rparr>))) (\<lambda>_.
     andThen (deleteMany pf_idempotency pf_idempotency_update (\<lambda>r. endsWith (''user:'' @ userId) (ir_actorKey r) \<and> ir_deletedAt r = None)) (\<lambda>_.
     andThen (updateMany pf_subscriptions pf_subscriptions_update
        (\<lambda>x. ss_userId x = userId \<and> ss_organizationId x = None \<and> ss_deletedAt x = None)
        (\<lambda>x. x\<lparr>ss_status := ''canceled'', ss_canceledAt := Some deletedAt, ss_deletedAt := Some deletedAt\<rparr>)) (\<lambda>_.
     ret ()))))))"

definition queueErasure :: "effects \<Rightarrow> ident \<Rightarrow> string option \<Rightarrow> (platform, unit) tx" where
  "queueErasure ef userId stripeCustomerId =
     inStore (outboxInsert (ef_id ef 0) (ef_now ef 1)
       \<lparr>oi_aggregateType = ''account_erasure'', oi_aggregateId = userId, oi_eventType = ''account.erasure.requested'', oi_channel = INTERNAL,
        oi_payload = JObj ((''userId'', JStr userId) #
          (if truthy stripeCustomerId then [(''stripeCustomerId'', JStr (the stripeCustomerId))] else [])),
        oi_dedupeKey = ''account-erasure:'' @ userId, oi_availableAt = None, oi_expiresAt = None\<rparr>)"

definition eraseAccount ::
    "effects \<Rightarrow> ident \<Rightarrow> string option \<Rightarrow> ident list \<Rightarrow> ident list \<Rightarrow> RequestMetadata \<Rightarrow> PlatformAudit \<Rightarrow> (platform, unit) tx" where
  "eraseAccount ef userId stripeCustomerId uploadIds challengeIds metadata audit =
     (let deletedAt = ef_now ef 0 in
      andThen (reading (\<lambda>s. ownedBy userId (pf_store s))) (\<lambda>owned.
      andThen (assertOtherOwners (sort owned)) (\<lambda>_.
      andThen (eraseIdentity deletedAt userId) (\<lambda>_.
      andThen (eraseTraces userId) (\<lambda>_.
      andThen (leaveOrganizations deletedAt userId) (\<lambda>_.
      andThen (eraseBelongings deletedAt userId uploadIds challengeIds) (\<lambda>_.
      andThen (queueErasure ef userId stripeCustomerId) (\<lambda>_.
      audit (ef_id ef 1) (ef_now ef 2)
        (audit_of metadata (Some userId) ''user.account_deleted'' ''user'' (Some userId)
          (Some (JObj [(''queuedUploadObjects'', JNum (int (length uploadIds))), (''externalCleanupQueued'', JBool True)]))))))))))) "

definition erasable :: "UploadStatus \<Rightarrow> bool" where
  "erasable st \<longleftrightarrow> st \<in> {UP_PENDING, UP_QUARANTINED, UP_SCANNING, UP_READY}"

text \<open>The tenant scope is lifted, so no filter of an organization applies.\<close>

definition deleteAccount ::
    "app \<Rightarrow> social_deps \<Rightarrow> effects \<Rightarrow> (platform \<Rightarrow> platform) \<Rightarrow> ident \<Rightarrow> Confirmation \<Rightarrow> RequestMetadata \<Rightarrow> (platform, bool) io" where
  "deleteAccount A D ef other userId confirmation metadata =
     andNext (transaction (findFirst (\<lambda>s. users (pf_store s)) (\<lambda>u. u_id u = userId \<and> u_status u = U_ACTIVE \<and> u_deletedAt u = None))) (\<lambda>user.
     case user of
       None \<Rightarrow> answer False
     | Some u \<Rightarrow>
         andNext (credentialConfirmed A D u confirmation) (\<lambda>confirmed.
         if \<not> confirmed then answer False
         else
           andNext (transaction (reading (\<lambda>s. map up_id (filter (\<lambda>x. up_userId x = userId \<and> erasable (up_status x) \<and> up_deletedAt x = None)
              (uploads (pf_content s)))))) (\<lambda>uploadIds.
           andNext (transaction (reading (\<lambda>s. map otp_id (filter (\<lambda>c. otp_userId c = Some userId \<and> otp_deletedAt c = None)
              (otpChallenges (pf_store s)))))) (\<lambda>challengeIds.
           andNext (meanwhile other) (\<lambda>_.
           andNext (auditedPlatform A (eraseAccount ef userId (u_stripeCustomerId u) uploadIds challengeIds metadata)) (\<lambda>_.
           andNext (onStore (publishChatRevocation A userId)) (\<lambda>_.
           answer True)))))))"

section \<open>The worker\<close>

text \<open>The subscriptions are cancelled through the payment provider, the objects through the storage provider.\<close>

record erasure =
  es_billing :: billing
  es_content :: content

definition onBilling :: "(billing, 'a) io \<Rightarrow> (erasure, 'a) io" where
  "onBilling m s = (case m (es_billing s) of (r, b) \<Rightarrow> (r, s\<lparr>es_billing := b\<rparr>))"

definition onContent :: "(content, 'a) io \<Rightarrow> (erasure, 'a) io" where
  "onContent m s = (case m (es_content s) of (r, c) \<Rightarrow> (r, s\<lparr>es_content := c\<rparr>))"

definition awaitingErasure :: "ident \<Rightarrow> Upload \<Rightarrow> bool" where
  "awaitingErasure userId u \<longleftrightarrow>
     up_userId u = userId \<and> up_status u = UP_DELETED \<and> up_storageDeletedAt u = None \<and> up_deletedAt u \<noteq> None"

definition objectErased :: "time \<Rightarrow> Upload \<Rightarrow> Upload" where
  "objectErased now u = u\<lparr>up_objectKey := ''erased/'' @ up_id u, up_storageDeletedAt := Some now\<rparr>"

fun eraseObjects :: "UploadProviderAdapter \<Rightarrow> time \<Rightarrow> Upload list \<Rightarrow> (content, unit) io" where
  "eraseObjects P now [] = answer ()"
| "eraseObjects P now (u # us) =
     (if pv_kind P \<noteq> up_provider u
      then failing (OtherError (''Upload provider '' @ providerName (up_provider u) @ '' is required for account erasure''))
      else
        andNext (deletingObject P (refOf u)) (\<lambda>_.
        andNext (transaction (updateRow uploads uploads_update (\<lambda>x. up_id x = up_id u \<and> up_deletedAt x \<noteq> None) (objectErased now))) (\<lambda>_.
        eraseObjects P now us)))"

text \<open>The fuel bounds the number of batches; \<open>None\<close> is a loop that has not ended.\<close>

fun eraseStorage :: "nat \<Rightarrow> UploadProviderAdapter option \<Rightarrow> time \<Rightarrow> ident \<Rightarrow> (content, unit option) io" where
  "eraseStorage 0 provider now userId = answer None"
| "eraseStorage (Suc fuel) provider now userId =
     andNext (transaction (reading (\<lambda>s. take 100 (sort_key up_id (filter (awaitingErasure userId) (uploads s)))))) (\<lambda>batch.
     if batch = [] then answer (Some ())
     else case provider of
       None \<Rightarrow> failing (OtherError ''Upload storage must be configured to finish account erasure'')
     | Some P \<Rightarrow> andNext (eraseObjects P now batch) (\<lambda>_. eraseStorage fuel provider now userId))"

definition parseErasurePayload :: "(string \<Rightarrow> bool) \<Rightarrow> jsval \<Rightarrow> thrown + ident \<times> string option" where
  "parseErasurePayload isUuid v =
     (case (jprop ''userId'' v, jprop ''stripeCustomerId'' v) of
        (JStr u, Undefined) \<Rightarrow> if isUuid u then Inr (u, None) else Inl (OtherError ''ZodError'')
      | (JStr u, JStr c) \<Rightarrow> if isUuid u \<and> take 4 c = ''cus_'' then Inr (u, Some c) else Inl (OtherError ''ZodError'')
      | _ \<Rightarrow> Inl (OtherError ''ZodError''))"

definition processAccountErasure ::
    "nat \<Rightarrow> nat \<Rightarrow> (string \<Rightarrow> bool) \<Rightarrow> StripeClient option \<Rightarrow> UploadProviderAdapter option \<Rightarrow> time \<Rightarrow> jsval \<Rightarrow> (erasure, unit option) io" where
  "processAccountErasure pages batches isUuid client provider now payload =
     andNext (calling (parseErasurePayload isUuid payload)) (\<lambda>(userId, customer).
     andNext (case customer of
         None \<Rightarrow> answer (Some 0)
       | Some customerId \<Rightarrow>
           (case client of
              None \<Rightarrow> failing (OtherError ''Stripe must be configured to finish account erasure'')
            | Some c \<Rightarrow> onBilling (cancelPages pages c customerId None 0))) (\<lambda>cancelled.
     case cancelled of
       None \<Rightarrow> answer None
     | Some _ \<Rightarrow> onContent (eraseStorage batches provider now userId)))"

section \<open>What statements leave alone\<close>

text \<open>A body leaves a part of the state alone when every run that returns has the same part before and after.\<close>

definition leaves :: "('s \<Rightarrow> 'p) \<Rightarrow> ('s, 'a) tx \<Rightarrow> bool" where
  "leaves part m \<longleftrightarrow> (\<forall>s a s'. m s = Inr (a, s') \<longrightarrow> part s' = part s)"

lemma leavesD: "leaves part m \<Longrightarrow> m s = Inr (a, s') \<Longrightarrow> part s' = part s"
  by (auto simp: leaves_def)

lemma leaves_andThen: "leaves part m \<Longrightarrow> (\<And>a. leaves part (f a)) \<Longrightarrow> leaves part (andThen m f)"
  by (fastforce simp: leaves_def andThen_Inr)

lemma leaves_ret: "leaves part (ret a)"
  by (simp add: leaves_def ret_Inr)

lemma leaves_reading: "leaves part (reading q)"
  by (simp add: leaves_def reading_Inr)

lemma leaves_require: "leaves part (require b e)"
  by (simp add: leaves_def require_Inr)

lemma leaves_updateMany: "(\<And>g s. part (upd g s) = part s) \<Longrightarrow> leaves part (updateMany tab upd P f)"
  by (simp add: leaves_def updateMany_Inr)

lemma leaves_updateRow: "(\<And>g s. part (upd g s) = part s) \<Longrightarrow> leaves part (updateRow tab upd P f)"
  by (simp add: leaves_def updateRow_Inr)

lemma leaves_deleteMany: "(\<And>g s. part (upd g s) = part s) \<Longrightarrow> leaves part (deleteMany tab upd P)"
  by (simp add: leaves_def deleteMany_Inr)

lemma leaves_inContent:
  assumes "\<And>s c. inner c = inner (pf_content s) \<Longrightarrow> part (s\<lparr>pf_content := c\<rparr>) = part s" "leaves inner m"
  shows "leaves part (inContent m)"
  unfolding leaves_def inContent_Inr using assms(1) leavesD [OF assms(2)] by auto

lemma leaves_inAccounts:
  assumes "\<And>s c. inner c = inner (accounts s) \<Longrightarrow> part (s\<lparr>accounts := c\<rparr>) = part s" "leaves inner m"
  shows "leaves part (inAccounts m)"
  unfolding leaves_def inAccounts_Inr using assms(1) leavesD [OF assms(2)] by auto

lemma leaves_challenges:
  "(\<And>g s. part (otpChallenges_update g s) = part s) \<Longrightarrow> (\<And>g s. part (passwordResetTokens_update g s) = part s) \<Longrightarrow>
   leaves part (deleteChallenges P)"
  by (simp add: leaves_def deleteChallenges_def withoutChallenges_def)

lemma leaves_audit: "(\<And>g s. part (auditEvents_update g s) = part s) \<Longrightarrow> leaves part (auditEventWriter A eid now input)"
  by (auto simp: leaves_def auditEventWriter_def split: sum.splits)

lemma leaves_outboxInsert: "(\<And>g s. part (outboxEvents_update g s) = part s) \<Longrightarrow> leaves part (outboxInsert oid now input)"
  by (auto simp: leaves_def outboxInsert_def split: sum.splits)

lemmas leaves_rules = leaves_andThen leaves_ret leaves_reading leaves_require leaves_updateMany leaves_updateRow leaves_deleteMany
  leaves_audit leaves_outboxInsert leaves_challenges

text \<open>Who owns what depends on two tables.\<close>

definition ownership :: "store \<Rightarrow> Membership list \<times> Role list" where
  "ownership s = (memberships s, roles s)"

lemma countActiveOwners_ownership: "ownership s' = ownership s \<Longrightarrow> countActiveOwners g s' = countActiveOwners g s"
proof -
  assume "ownership s' = ownership s"
  then have "memberships s' = memberships s" "roles s' = roles s" by (simp_all add: ownership_def)
  moreover from activeOwner_roles [OF this(2)] have "activeOwner g s' = activeOwner g s" by (intro ext)
  ultimately show ?thesis by (simp add: countActiveOwners_def)
qed

lemma leaves_ownership: "leaves ownership m \<Longrightarrow> leaves (\<lambda>s. ownership (pf_store s)) (inStore m)"
  by (rule leaves_inContent [where inner = "\<lambda>c. ownership (accounts c)"])
    (simp, rule leaves_inAccounts [where inner = ownership], simp_all)

lemma eraseUploads_leaves: "leaves (\<lambda>s. ownership (pf_store s)) (eraseUploads deletedAt ids)"
  by (induction ids) (auto intro!: leaves_rules leaves_inContent [where inner = accounts])

lemma erasing_leaves_ownership:
  "leaves (\<lambda>s. ownership (pf_store s)) (eraseIdentity deletedAt userId)"
  "leaves (\<lambda>s. ownership (pf_store s)) (eraseTraces userId)"
  "leaves (\<lambda>s. ownership (pf_store s)) (eraseBelongings deletedAt userId uploadIds challengeIds)"
  "leaves (\<lambda>s. ownership (pf_store s)) (queueErasure ef userId customer)"
  "leaves (\<lambda>s. ownership (pf_store s)) (inStore (auditEventWriter A eid now input))"
  unfolding eraseIdentity_def eraseTraces_def eraseBelongings_def queueErasure_def revokeSessions_def revokeTokens_def
  by (intro leaves_rules leaves_ownership eraseUploads_leaves leaves_inContent [where inner = accounts]; simp add: ownership_def)+

section \<open>Owners\<close>

lemma assertOtherOwners_Inr:
  "assertOtherOwners gs s = Inr (u, s') \<Longrightarrow> s' = s \<and> (\<forall>g\<in>set gs. 1 < countActiveOwners g (pf_store s))"
  by (induction gs arbitrary: u s') (auto simp: tx_simps)

text \<open>An organization that has another owner whenever the user owns it keeps one when the user leaves.\<close>

lemma leaving_keeps_owners:
  assumes keys: "distinct (map (\<lambda>m. (mem_organizationId m, mem_userId m)) (memberships s))"
    and others: "\<forall>g\<in>set (ownedBy userId s). 1 < countActiveOwners g s"
    and owned: "0 < countActiveOwners g s"
    and s': "roles s' = roles s" "memberships s' = update_many (\<lambda>m. mem_userId m = userId \<and> mem_deletedAt m = None) f (memberships s)"
  shows "0 < countActiveOwners g s'"
proof -
  have "\<exists>m\<in>set (memberships s). activeOwner g s m \<and> mem_userId m \<noteq> userId"
  proof (cases "g \<in> set (ownedBy userId s)")
    case True
    with others have "2 \<le> matching (activeOwner g s) (memberships s)" by (auto simp: countActiveOwners_def)
    from matching_two [OF keys this, of "(g, userId)"] show ?thesis by (auto simp: activeOwner_def)
  next
    case False
    obtain m where m: "m \<in> set (memberships s)" "activeOwner g s m" using owned by (auto simp: owners_pos)
    then have "mem_organizationId m = g" by (simp add: activeOwner_def)
    with False m have "mem_userId m \<noteq> userId" by (auto simp: ownedBy_def)
    with m show ?thesis by blast
  qed
  then obtain m where m: "m \<in> set (memberships s)" "activeOwner g s m" "mem_userId m \<noteq> userId" by blast
  then have "m \<in> set (memberships s')" unfolding s'(2) set_update_many by (intro image_eqI [of _ _ m]) simp_all
  moreover have "activeOwner g s' m" using m(2) activeOwner_roles [OF s'(1)] by simp
  ultimately show ?thesis unfolding owners_pos by blast
qed

lemma leaveOrganizations_Inr:
  "leaveOrganizations deletedAt userId s = Inr (n, s') \<Longrightarrow>
   roles (pf_store s') = roles (pf_store s) \<and>
   memberships (pf_store s') = update_many (\<lambda>m. mem_userId m = userId \<and> mem_deletedAt m = None)
       (\<lambda>m. m\<lparr>mem_status := M_SUSPENDED, mem_deletedAt := Some deletedAt\<rparr>) (memberships (pf_store s))"
  by (auto simp: leaveOrganizations_def tx_simps)

lemma eraseAccount_keeps_owners:
  assumes run: "eraseAccount ef userId customer uploadIds challengeIds metadata (\<lambda>eid now input. inStore (auditEventWriter A eid now input)) s = Inr (u, s')"
    and keys: "distinct (map (\<lambda>m. (mem_organizationId m, mem_userId m)) (memberships (pf_store s)))"
    and owned: "0 < countActiveOwners g (pf_store s)"
  shows "0 < countActiveOwners g (pf_store s')"
proof -
  obtain s1 s2 s3 n s4 s5 u1 u2 u3 u4 where
    owners: "assertOtherOwners (sort (ownedBy userId (pf_store s))) s = Inr (u1, s1)"
    and st: "eraseIdentity (ef_now ef 0) userId s1 = Inr (u2, s2)" "eraseTraces userId s2 = Inr (u3, s3)"
      "leaveOrganizations (ef_now ef 0) userId s3 = Inr (n, s4)" "eraseBelongings (ef_now ef 0) userId uploadIds challengeIds s4 = Inr (u4, s5)"
    and fin: "ownership (pf_store s') = ownership (pf_store s5)"
    using run by (auto simp: eraseAccount_def Let_def andThen_Inr reading_Inr dest!: leavesD [OF erasing_leaves_ownership(4)] leavesD [OF erasing_leaves_ownership(5)])
  have s1: "s1 = s" and two: "\<forall>g\<in>set (ownedBy userId (pf_store s)). 1 < countActiveOwners g (pf_store s)"
    using assertOtherOwners_Inr [OF owners] by simp_all
  have s3: "memberships (pf_store s3) = memberships (pf_store s)" "roles (pf_store s3) = roles (pf_store s)"
    using leavesD [OF erasing_leaves_ownership(1) st(1)] leavesD [OF erasing_leaves_ownership(2) st(2)] s1 by (simp_all add: ownership_def)
  have "0 < countActiveOwners g (pf_store s4)"
    using leaveOrganizations_Inr [OF st(3)] by (intro leaving_keeps_owners [OF keys two owned]) (simp_all add: s3)
  moreover have "ownership (pf_store s') = ownership (pf_store s4)"
    using fin leavesD [OF erasing_leaves_ownership(3) st(4)] by simp
  ultimately show ?thesis using countActiveOwners_ownership by metis
qed

section \<open>Runs of the deletion\<close>

lemma credentialConfirmed_state: "credentialConfirmed A D u confirmation s = (r, s') \<Longrightarrow> s' = s"
  by (auto simp: credentialConfirmed_def answer_def andNext_def calling_def split: if_splits option.splits prod.splits sum.splits)

abbreviation platformAudit :: "app \<Rightarrow> PlatformAudit" where
  "platformAudit A \<equiv> (\<lambda>eid now input. inStore (auditEventWriter A eid now input))"

lemma publish_on_store: "onStore (publishChatRevocation A userId) t =
    (Inr (), t\<lparr>pf_content := (pf_content t)\<lparr>accounts := (if ap_chatEnabled A then (pf_store t)\<lparr>revocations := userId # revocations (pf_store t)\<rparr> else pf_store t)\<rparr>\<rparr>)"
  by (simp add: onStore_def publishChatRevocation_def)

text \<open>A deletion changes nothing, or fails in its transaction, or commits it and tells the chat servers.\<close>

lemma deleteAccount_cases:
  obtains (unchanged) "snd (deleteAccount A D ef other userId confirmation metadata s) = s" "fst (deleteAccount A D ef other userId confirmation metadata s) \<noteq> Inr True"
  | (refused) "snd (deleteAccount A D ef other userId confirmation metadata s) = other s" "fst (deleteAccount A D ef other userId confirmation metadata s) \<noteq> Inr True"
  | (deleted) customer uploadIds challengeIds t where
      "eraseAccount ef userId customer uploadIds challengeIds metadata (platformAudit A) (other s) = Inr ((), t)"
      "deleteAccount A D ef other userId confirmation metadata s = (Inr True, snd (onStore (publishChatRevocation A userId) t))"
proof (cases "find_first (\<lambda>u. u_id u = userId \<and> u_status u = U_ACTIVE \<and> u_deletedAt u = None) (users (pf_store s))")
  case None
  then show thesis by (intro unchanged) (simp_all add: deleteAccount_def answer_def)
next
  case (Some u)
  obtain r where r: "credentialConfirmed A D u confirmation s = (r, s)"
    using credentialConfirmed_state by (cases "credentialConfirmed A D u confirmation s") fast
  show thesis
  proof (cases "r = Inr True")
    case False
    then show thesis using r
      by (intro unchanged) (cases r; simp add: deleteAccount_def Some andNext_def [of "credentialConfirmed A D u confirmation"] answer_def)+
  next
    case True
    let ?ups = "map up_id (filter (\<lambda>x. up_userId x = userId \<and> erasable (up_status x) \<and> up_deletedAt x = None) (uploads (pf_content s)))"
    let ?chs = "map otp_id (filter (\<lambda>c. otp_userId c = Some userId \<and> otp_deletedAt c = None) (otpChallenges (pf_store s)))"
    let ?tx = "auditedPlatform A (eraseAccount ef userId (u_stripeCustomerId u) ?ups ?chs metadata)"
    have run: "deleteAccount A D ef other userId confirmation metadata s =
        andNext ?tx (\<lambda>_. andNext (onStore (publishChatRevocation A userId)) (\<lambda>_. answer True)) (other s)"
      by (simp add: deleteAccount_def Some andNext_def [of "credentialConfirmed A D u confirmation"] r True
          andNext_def [of "transaction (reading q)" for q] transaction_def reading_def)
    show thesis
    proof (cases "eraseAccount ef userId (u_stripeCustomerId u) ?ups ?chs metadata (platformAudit A) (other s)")
      case (Inl e)
      then show thesis by (intro refused) (simp_all add: run andNext_def auditedPlatform_def transaction_def)
    next
      case (Inr x)
      obtain t where x: "x = ((), t)" by (cases x) simp
      show thesis using Inr by (intro deleted [of "u_stripeCustomerId u" ?ups ?chs t])
        (simp_all add: x run andNext_def auditedPlatform_def transaction_def publish_on_store answer_def)
    qed
  qed
qed


section \<open>What remains of an account\<close>

definition identity :: "platform \<Rightarrow> User list \<times> Session list \<times> RefreshToken list \<times> SocialAccount list \<times> Device list" where
  "identity s = (users (pf_store s), sessions (pf_store s), refreshTokens (pf_store s), socialAccounts (pf_store s), pf_devices s)"

definition storeIdentity :: "store \<Rightarrow> User list \<times> Session list \<times> RefreshToken list \<times> SocialAccount list" where
  "storeIdentity s = (users s, sessions s, refreshTokens s, socialAccounts s)"

lemma leaves_identity: "leaves storeIdentity m \<Longrightarrow> leaves identity (inStore m)"
  by (rule leaves_inContent [where inner = "\<lambda>c. storeIdentity (accounts c)"])
    (simp add: identity_def storeIdentity_def, rule leaves_inAccounts [where inner = storeIdentity], simp_all)

lemma eraseUploads_identity: "leaves identity (eraseUploads deletedAt ids)"
  by (induction ids) (auto simp: identity_def intro!: leaves_rules leaves_inContent [where inner = accounts])

lemma erasing_leaves_identity:
  "leaves identity (eraseTraces userId)"
  "leaves identity (leaveOrganizations deletedAt userId)"
  "leaves identity (eraseBelongings deletedAt userId uploadIds challengeIds)"
  "leaves identity (queueErasure ef userId customer)"
  "leaves identity (inStore (auditEventWriter A eid now input))"
  unfolding eraseTraces_def eraseBelongings_def queueErasure_def leaveOrganizations_def
  by (intro leaves_rules leaves_identity eraseUploads_identity leaves_inContent [where inner = accounts]; simp add: identity_def storeIdentity_def)+

definition faceless :: "ident \<Rightarrow> platform \<Rightarrow> bool" where
  "faceless userId s \<longleftrightarrow>
     (\<forall>u\<in>set (users (pf_store s)). u_id u = userId \<longrightarrow> u_deletedAt u \<noteq> None) \<and>
     (\<exists>u\<in>set (users (pf_store s)). u_id u = userId \<and> u_status u = U_DISABLED \<and> u_email u = None \<and> u_phone u = None \<and> u_passwordHash u = None \<and>
        u_displayName u = None \<and> u_pendingEmail u = None \<and> u_stripeCustomerId u = None) \<and>
     (\<forall>x\<in>set (sessions (pf_store s)). ses_userId x = userId \<and> ses_deletedAt x = None \<longrightarrow>
        ses_revokedAt x \<noteq> None \<and> ses_ipHash x = None \<and> ses_userAgent x = None) \<and>
     (\<forall>t\<in>set (refreshTokens (pf_store s)). rt_userId t = userId \<and> rt_deletedAt t = None \<longrightarrow> rt_revokedAt t \<noteq> None) \<and>
     (\<forall>a\<in>set (socialAccounts (pf_store s)). sa_userId a = userId \<longrightarrow> sa_deletedAt a \<noteq> None) \<and>
     (\<forall>d\<in>set (pf_devices s). dv_userId d = userId \<longrightarrow> dv_deletedAt d \<noteq> None)"

lemma faceless_identity: "identity s' = identity s \<Longrightarrow> faceless userId s' = faceless userId s"
  by (simp add: identity_def faceless_def)

lemma eraseIdentity_Inr:
  assumes "eraseIdentity deletedAt userId s = Inr (u, s')"
  shows "matching (\<lambda>u. u_id u = userId \<and> u_deletedAt u = None) (users (pf_store s)) \<noteq> 0"
    "users (pf_store s') = update_many (\<lambda>u. u_id u = userId \<and> u_deletedAt u = None) (anonymized deletedAt) (users (pf_store s))"
    "sessions (pf_store s') = update_many (\<lambda>x. ses_userId x = userId \<and> ses_deletedAt x = None) (\<lambda>x. x\<lparr>ses_ipHash := None, ses_userAgent := None\<rparr>)
       (update_many (\<lambda>x. ses_userId x = userId \<and> ses_revokedAt x = None \<and> ses_deletedAt x = None)
         (\<lambda>x. x\<lparr>ses_revokedAt := Some deletedAt, ses_revokeReason := Some ''account_deleted''\<rparr>) (sessions (pf_store s)))"
    "refreshTokens (pf_store s') = update_many (\<lambda>t. rt_userId t = userId \<and> rt_revokedAt t = None \<and> rt_deletedAt t = None)
       (\<lambda>t. t\<lparr>rt_revokedAt := Some deletedAt\<rparr>) (refreshTokens (pf_store s))"
    "socialAccounts (pf_store s') = delete_many (\<lambda>a. sa_userId a = userId \<and> sa_deletedAt a = None) (socialAccounts (pf_store s))"
    "pf_devices s' = delete_many (\<lambda>d. dv_userId d = userId \<and> dv_deletedAt d = None) (pf_devices s)"
  using assms by (auto simp: eraseIdentity_def revokeSessions_def revokeTokens_def tx_simps)

lemma eraseIdentity_faceless:
  assumes "eraseIdentity deletedAt userId s = Inr (u, s')"
  shows "faceless userId s'"
proof -
  note e = eraseIdentity_Inr [OF assms]
  show ?thesis unfolding faceless_def e(2-6)
  proof ((intro conjI ballI impI; (elim conjE)?), goal_cases)
    case (1 x)
    show ?case by (rule changed_row_cases [OF 1(1)]) (use 1(2) in \<open>simp_all add: anonymized_def\<close>)
  next
    case 2
    obtain x where x: "x \<in> set (users (pf_store s))" "u_id x = userId \<and> u_deletedAt x = None"
      using e(1) by (auto simp: matching_zero)
    show ?case
      by (rule bexI [of _ "anonymized deletedAt x"], use x(2) in \<open>simp add: anonymized_def\<close>)
        (unfold set_update_many, rule image_eqI [of _ _ x], use x in simp_all)
  next
    case (3 x)
    then show ?case by (elim changed_row_cases) auto
  next
    case (4 x)
    then show ?case by (elim changed_row_cases) auto
  next
    case (5 x)
    then show ?case by (elim changed_row_cases) auto
  next
    case (6 t)
    then show ?case by (elim changed_row_cases) auto
  next
    case (7 a)
    then show ?case by (simp add: set_delete_many)
  next
    case (8 d)
    then show ?case by (simp add: set_delete_many)
  qed
qed

text \<open>C18: a deleted account is unrecognizable. When a deletion reports success, the user's row is disabled, deleted and holds no address,
  number, name, password or customer; every live session is revoked and anonymous, every live refresh token revoked; and no live
  social login or device is left.\<close>

theorem deleted_account_faceless:
  assumes "deleteAccount A D ef other userId confirmation metadata s = (Inr True, s')"
  shows "faceless userId s'"
proof (cases rule: deleteAccount_cases [of A D ef other userId confirmation metadata s])
  case (deleted customer uploadIds challengeIds t)
  obtain s1 s2 u where e: "eraseIdentity (ef_now ef 0) userId s1 = Inr (u, s2)" and i: "identity t = identity s2"
    using deleted(1) by (auto simp: eraseAccount_def Let_def andThen_Inr reading_Inr
        dest!: leavesD [OF erasing_leaves_identity(1)] leavesD [OF erasing_leaves_identity(2)] leavesD [OF erasing_leaves_identity(3)]
          leavesD [OF erasing_leaves_identity(4)] leavesD [OF erasing_leaves_identity(5)])
  have "faceless userId t" using eraseIdentity_faceless [OF e] faceless_identity [OF i] by simp
  moreover have "s' = snd (onStore (publishChatRevocation A userId) t)" using deleted(2) assms by simp
  then have "identity s' = identity t" by (simp add: publish_on_store identity_def)
  ultimately show ?thesis using faceless_identity by metis
qed (use assms in simp_all)

section \<open>The worker converges\<close>

definition pendingErasure :: "ident \<Rightarrow> content \<Rightarrow> Upload list" where
  "pendingErasure userId s = filter (awaitingErasure userId) (uploads s)"

lemma filter_erased: "(\<And>x. P x \<Longrightarrow> \<not> A (f x)) \<Longrightarrow> filter A (update_many P f rs) = filter (\<lambda>x. \<not> P x) (filter A rs)"
  by (induction rs) (auto simp: update_many_def)

lemma erase_one:
  assumes "u \<in> set (pendingErasure userId s)" "pv_deleteObject P (refOf u) = Inr ()" "pv_kind P = up_provider u"
  obtains s1 where "eraseObjects P now (u # us) s = eraseObjects P now us s1"
    "pendingErasure userId s1 = filter (\<lambda>x. up_id x \<noteq> up_id u) (pendingErasure userId s)"
    "removed s1 = up_objectKey u # removed s"
proof -
  let ?P = "\<lambda>x. up_id x = up_id u \<and> up_deletedAt x \<noteq> None"
  let ?s1 = "uploads_update (update_many ?P (objectErased now)) (s\<lparr>removed := up_objectKey u # removed s\<rparr>)"
  have "u \<in> set (uploads s)" "?P u" using assms(1) by (auto simp: pendingErasure_def awaitingErasure_def)
  then have "matching ?P (uploads s) \<noteq> 0" unfolding matching_zero by blast
  moreover have key: "fst (refOf u) = up_objectKey u" by (simp add: refOf_def)
  ultimately have run: "eraseObjects P now (u # us) s = eraseObjects P now us ?s1"
    by (simp add: assms(2,3) andNext_def deletingObject_def transaction_def updateRow_def key)
  have "pendingErasure userId ?s1 = filter (\<lambda>x. \<not> ?P x) (pendingErasure userId s)"
  proof -
    have "filter (awaitingErasure userId) (update_many ?P (objectErased now) (uploads s)) = filter (\<lambda>x. \<not> ?P x) (filter (awaitingErasure userId) (uploads s))"
      by (rule filter_erased) (simp add: awaitingErasure_def objectErased_def)
    then show ?thesis by (simp add: pendingErasure_def)
  qed
  also have "\<dots> = filter (\<lambda>x. up_id x \<noteq> up_id u) (pendingErasure userId s)"
    by (rule filter_cong) (auto simp: pendingErasure_def awaitingErasure_def)
  finally show thesis using run by (intro that [of ?s1]) simp_all
qed

lemma erase_batch:
  assumes "set us \<subseteq> set (pendingErasure userId s)" "distinct (map up_id us)"
    and "\<And>u. u \<in> set us \<Longrightarrow> pv_deleteObject P (refOf u) = Inr () \<and> pv_kind P = up_provider u"
  shows "\<exists>s'. eraseObjects P now us s = (Inr (), s') \<and>
    pendingErasure userId s' = filter (\<lambda>x. up_id x \<notin> up_id ` set us) (pendingErasure userId s) \<and>
    set (removed s') = up_objectKey ` set us \<union> set (removed s)"
  using assms
proof (induction us arbitrary: s)
  case Nil
  then show ?case by (simp add: answer_def)
next
  case (Cons u us)
  obtain s1 where s1: "eraseObjects P now (u # us) s = eraseObjects P now us s1"
      "pendingErasure userId s1 = filter (\<lambda>x. up_id x \<noteq> up_id u) (pendingErasure userId s)" "removed s1 = up_objectKey u # removed s"
    by (rule erase_one [of u userId s P now us]) (use Cons.prems in auto)
  have "\<exists>s'. eraseObjects P now us s1 = (Inr (), s') \<and>
      pendingErasure userId s' = filter (\<lambda>x. up_id x \<notin> up_id ` set us) (pendingErasure userId s1) \<and>
      set (removed s') = up_objectKey ` set us \<union> set (removed s1)"
  proof (rule Cons.IH)
    have "up_id x \<noteq> up_id u" if "x \<in> set us" for x using Cons.prems(2) imageI [OF that, of up_id] by auto
    then show "set us \<subseteq> set (pendingErasure userId s1)" using Cons.prems(1) by (auto simp: s1(2))
  qed (use Cons.prems in auto)
  then obtain s' where "eraseObjects P now us s1 = (Inr (), s')"
      "pendingErasure userId s' = filter (\<lambda>x. up_id x \<notin> up_id ` set us) (filter (\<lambda>x. up_id x \<noteq> up_id u) (pendingErasure userId s))"
      "set (removed s') = up_objectKey ` set us \<union> insert (up_objectKey u) (set (removed s))"
    by (auto simp: s1)
  then show ?case unfolding s1(1) by (auto intro: filter_cong)
qed

lemma filter_shorter: "x \<in> set xs \<Longrightarrow> \<not> Q x \<Longrightarrow> length (filter Q xs) < length xs"
  by (induction xs) (auto simp: le_imp_less_Suc)

lemma eraseStorage_converges:
  assumes "length (pendingErasure userId s) < fuel" "distinct (map up_id (pendingErasure userId s))"
    and "\<And>u. u \<in> set (pendingErasure userId s) \<Longrightarrow> pv_deleteObject P (refOf u) = Inr () \<and> pv_kind P = up_provider u"
  shows "\<exists>s'. eraseStorage fuel (Some P) now userId s = (Inr (Some ()), s') \<and> pendingErasure userId s' = [] \<and>
    up_objectKey ` set (pendingErasure userId s) \<union> set (removed s) \<subseteq> set (removed s')"
  using assms
proof (induction fuel arbitrary: s)
  case 0
  then show ?case by simp
next
  case (Suc fuel)
  define batch where "batch = take 100 (sort_key up_id (pendingErasure userId s))"
  have step: "eraseStorage (Suc fuel) (Some P) now userId s =
      (if batch = [] then (Inr (Some ()), s) else andNext (eraseObjects P now batch) (\<lambda>_. eraseStorage fuel (Some P) now userId) s)"
    by (simp add: andNext_def [of "transaction (reading q)" for q] transaction_def reading_def answer_def batch_def pendingErasure_def)
  show ?case
  proof (cases "batch = []")
    case True
    then have "pendingErasure userId s = []" by (simp add: batch_def) (metis length_0_conv length_sort)
    with True show ?thesis unfolding step by simp
  next
    case False
    have sub: "set batch \<subseteq> set (pendingErasure userId s)" unfolding batch_def by (rule order_trans [OF set_take_subset]) simp
    have "distinct (map up_id (sort_key up_id (pendingErasure userId s)))"
      using Suc.prems(2) by (simp add: distinct_map)
    then have dist: "distinct (map up_id batch)" by (simp add: batch_def flip: take_map)
    obtain s1 where s1: "eraseObjects P now batch s = (Inr (), s1)"
        "pendingErasure userId s1 = filter (\<lambda>x. up_id x \<notin> up_id ` set batch) (pendingErasure userId s)"
        "set (removed s1) = up_objectKey ` set batch \<union> set (removed s)"
      using erase_batch [OF sub dist, of P now] Suc.prems(3) sub by blast
    obtain u where u: "u \<in> set batch" using False by (cases batch) auto
    then have "length (pendingErasure userId s1) < length (pendingErasure userId s)"
      unfolding s1(2) using sub by (intro filter_shorter [of u]) auto
    with Suc.prems obtain s' where s': "eraseStorage fuel (Some P) now userId s1 = (Inr (Some ()), s')" "pendingErasure userId s' = []"
        "up_objectKey ` set (pendingErasure userId s1) \<union> set (removed s1) \<subseteq> set (removed s')"
      using Suc.IH [of s1] by (auto simp: s1(2) distinct_map_filter)
    have "up_objectKey x \<in> set (removed s')" if "x \<in> set (pendingErasure userId s)" for x
    proof (cases "up_id x \<in> up_id ` set batch")
      case True
      then obtain y where "y \<in> set batch" "up_id x = up_id y" by auto
      with that sub Suc.prems(2) have "x = y" by (auto dest: distinct_map_eq)
      with \<open>y \<in> set batch\<close> s1(3) s'(3) show ?thesis by auto
    next
      case False
      with that s'(3) show ?thesis by (auto simp: s1(2))
    qed
    with s' s1(3) False show ?thesis unfolding step by (auto simp: andNext_def s1(1))
  qed
qed


section \<open>Concrete instances\<close>

definition demo_owned :: platform where
  "demo_owned = demo_platform\<lparr>pf_content := demo_content\<lparr>accounts := demo_tenant\<lparr>memberships :=
     [activeMembership ''m1'' 0 ''o1'' ''ann'' ''r1'', activeMembership ''m2'' 0 ''o1'' ''bob'' ''r1'']\<rparr>\<rparr>\<rparr>"

definition demo_confirmation :: Confirmation where
  "demo_confirmation = \<lparr>cf_password = Some ''pw'', cf_socialReauth = None\<rparr>"

lemma demo_deletes: "\<exists>s'. deleteAccount demo_app demo_social demo_effects (\<lambda>t. t) ''ann'' demo_confirmation demo_meta demo_owned = (Inr True, s')"
proof -
  have user: "find_first (\<lambda>u. u_id u = ''ann'' \<and> u_status u = U_ACTIVE \<and> u_deletedAt u = None) (users (pf_store demo_owned)) = Some (demo_user ''ann'')"
    by (simp add: find_first_def demo_owned_def demo_tenant_def demo_user_def)
  have ok: "credentialConfirmed demo_app demo_social (demo_user ''ann'') demo_confirmation demo_owned = (Inr True, demo_owned)"
    by (simp add: credentialConfirmed_def demo_confirmation_def demo_user_def verifySecret_def demo_app_def demo_audit_def demo_prims_def answer_def)
  have "\<exists>t. eraseAccount demo_effects ''ann'' None [] [] demo_meta (platformAudit demo_app) demo_owned = Inr ((), t)"
    by (simp add: eraseAccount_def eraseIdentity_def eraseTraces_def leaveOrganizations_def eraseBelongings_def queueErasure_def Let_def
        revokeSessions_def revokeTokens_def deleteChallenges_def withoutChallenges_def outboxInsert_def addOutboxEvent_def ownedBy_def activeOwner_def roleOf_def countActiveOwners_def
        tx_run inContent_def inAccounts_def demo_owned_def demo_tenant_simps demo_platform_def demo_content_def)
  then obtain t where t: "eraseAccount demo_effects ''ann'' None [] [] demo_meta (platformAudit demo_app) demo_owned = Inr ((), t)" ..
  have none: "filter (\<lambda>x. up_userId x = ''ann'' \<and> erasable (up_status x) \<and> up_deletedAt x = None) (uploads (pf_content demo_owned)) = []"
    "filter (\<lambda>c. otp_userId c = Some ''ann'' \<and> otp_deletedAt c = None) (otpChallenges (pf_store demo_owned)) = []"
    "u_stripeCustomerId (demo_user ''ann'') = None"
    by (simp_all add: demo_owned_def demo_content_def demo_tenant_def demo_store_def demo_user_def)
  show ?thesis
    by (simp add: deleteAccount_def findFirst_def user andNext_def ok transaction_def reading_def none meanwhile_def auditedPlatform_def t publish_on_store answer_def)
qed


theorem deleted_account_faceless_witness:
  "\<exists>s'. deleteAccount demo_app demo_social demo_effects (\<lambda>t. t) ''ann'' demo_confirmation demo_meta demo_owned = (Inr True, s') \<and> faceless ''ann'' s'"
  using demo_deletes deleted_account_faceless [of demo_app demo_social demo_effects "\<lambda>t. t" "''ann''" demo_confirmation demo_meta demo_owned] by blast

definition demo_doomed :: Upload where
  "demo_doomed =
     \<lparr>up_id = ''f'', up_organizationId = None, up_userId = ''ann'', up_provider = S3, up_status = UP_DELETED,
      up_visibility = UP_PRIVATE, up_objectKey = ''k'', up_originalName = ''erased'', up_contentType = ''image/png'',
      up_expectedSize = 8, up_actualSize = None, up_checksum = None, up_detectedContentType = None, up_scanProvider = None,
      up_scanReference = None, up_scanVerdict = None, up_scannedAt = None, up_url = None, up_uploadExpiresAt = 0,
      up_readyAt = None, up_storageDeletedAt = None, up_createdAt = 0, up_deletedAt = Some 0\<rparr>"

definition demo_storage :: UploadProviderAdapter where
  "demo_storage = \<lparr>pv_kind = S3, pv_createUpload = (\<lambda>_ _ _ _. Inl noProvider), pv_inspectObject = (\<lambda>_. Inl noProvider),
     pv_createDownloadUrl = (\<lambda>_. Inl noProvider), pv_createDirectDownload = None, pv_openDownload = (\<lambda>_. Inl noProvider),
     pv_readObjectPrefix = (\<lambda>_ _. Inl noProvider), pv_deleteObject = (\<lambda>_. Inr ())\<rparr>"


end
