(* ===== verification/Retention.thy ===== *)
theory Retention
  imports Platform Canonical_Json
begin

text \<open>
  The retention job of \<open>src/src/maintenance/retention.ts\<close>: nine tables are purged in batches of rows
  that are past their time. The job runs outside every tenant, so only the soft-delete filter is
  added to its queries; rows that refer to a deleted row go with it, as the data model declares.
\<close>

section \<open>Batches\<close>

text \<open>
  The signal is asked twice per round; its answers are numbered. The fuel bounds the rounds, and \<open>None\<close>
  is a loop that has not ended.
\<close>

definition throwIfAborted :: "bool \<Rightarrow> thrown + unit" where
  "throwIfAborted aborted = (if aborted then Inl (OtherError ''AbortError'') else Inr ())"

fun batchLoop ::
    "nat \<Rightarrow> nat \<Rightarrow> (nat \<Rightarrow> bool) \<Rightarrow> nat \<Rightarrow> (nat \<Rightarrow> 's \<Rightarrow> ident list) \<Rightarrow> (ident list \<Rightarrow> ('s, nat) tx) \<Rightarrow> nat \<Rightarrow> ('s, nat option) io" where
  "batchLoop 0 n aborted batchSize selectBatch deleteBatch deleted = answer None"
| "batchLoop (Suc fuel) n aborted batchSize selectBatch deleteBatch deleted =
     andNext (calling (throwIfAborted (aborted n))) (\<lambda>_.
     andNext (transaction (reading (selectBatch batchSize))) (\<lambda>rows.
     if rows = [] then answer (Some deleted)
     else
       andNext (calling (throwIfAborted (aborted (n + 1)))) (\<lambda>_.
       andNext (transaction (deleteBatch rows)) (\<lambda>count.
       if length rows < batchSize then answer (Some (deleted + count))
       else batchLoop fuel (n + 2) aborted batchSize selectBatch deleteBatch (deleted + count)))))"

definition positiveBatch :: "int \<Rightarrow> bool" where
  "positiveBatch batchSize \<longleftrightarrow> 1 \<le> batchSize"

definition deleteInBatches ::
    "nat \<Rightarrow> (nat \<Rightarrow> bool) \<Rightarrow> int \<Rightarrow> (nat \<Rightarrow> 's \<Rightarrow> ident list) \<Rightarrow> (ident list \<Rightarrow> ('s, nat) tx) \<Rightarrow> ('s, nat option) io" where
  "deleteInBatches fuel aborted batchSize selectBatch deleteBatch =
     (if \<not> positiveBatch batchSize then failing (OtherError ''batchSize must be a positive integer'')
      else batchLoop fuel 0 aborted (nat batchSize) selectBatch deleteBatch 0)"

text \<open>The pair of queries that each table has: the rows past their time in an order, and their deletion by identifier.\<close>

definition selecting :: "('s \<Rightarrow> 'r table) \<Rightarrow> ('r \<Rightarrow> ident) \<Rightarrow> ('r \<Rightarrow> 'k::linorder) \<Rightarrow> ('r \<Rightarrow> bool) \<Rightarrow> nat \<Rightarrow> 's \<Rightarrow> ident list" where
  "selecting tab rid key due n s = map rid (take n (sort_key key (filter due (tab s))))"

definition deleting :: "('s \<Rightarrow> 'r table) \<Rightarrow> (('r \<Rightarrow> bool) \<Rightarrow> 's \<Rightarrow> 's) \<Rightarrow> ('r \<Rightarrow> ident) \<Rightarrow> ('r \<Rightarrow> bool) \<Rightarrow> ident list \<Rightarrow> ('s, nat) tx" where
  "deleting tab del rid due ids s =
     Inr (matching (\<lambda>r. rid r \<in> set ids \<and> due r) (tab s), del (\<lambda>r. rid r \<in> set ids \<and> due r) s)"

section \<open>Deletions\<close>

definition atStore :: "(store \<Rightarrow> store) \<Rightarrow> platform \<Rightarrow> platform" where
  "atStore f s = s\<lparr>pf_content := (pf_content s)\<lparr>accounts := f (pf_store s)\<rparr>\<rparr>"

definition dropIdempotency :: "(IdempotencyRecord \<Rightarrow> bool) \<Rightarrow> platform \<Rightarrow> platform" where
  "dropIdempotency P s = s\<lparr>pf_idempotency := delete_many P (pf_idempotency s)\<rparr>"

definition dropInvitations :: "(Invitation \<Rightarrow> bool) \<Rightarrow> platform \<Rightarrow> platform" where
  "dropInvitations P = atStore (\<lambda>db. db\<lparr>invitations := delete_many P (invitations db)\<rparr>)"

definition dropBandwidth :: "(UploadBandwidthUsage \<Rightarrow> bool) \<Rightarrow> platform \<Rightarrow> platform" where
  "dropBandwidth P s = s\<lparr>pf_content := (pf_content s)\<lparr>bandwidthUsage := delete_many P (bandwidthUsage (pf_content s))\<rparr>\<rparr>"

text \<open>Reset tokens refer to their challenge, refresh tokens to their session, deliveries to their event.\<close>

definition dropChallenges :: "(OtpChallenge \<Rightarrow> bool) \<Rightarrow> platform \<Rightarrow> platform" where
  "dropChallenges P = atStore (withoutChallenges P)"

definition dropSessions :: "(Session \<Rightarrow> bool) \<Rightarrow> platform \<Rightarrow> platform" where
  "dropSessions P = atStore (\<lambda>db. db\<lparr>
     refreshTokens := delete_many (\<lambda>t. \<exists>x\<in>set (sessions db). P x \<and> rt_sessionId t = ses_id x) (refreshTokens db),
     sessions := delete_many P (sessions db)\<rparr>)"

definition dropEvents :: "(OutboxEvent \<Rightarrow> bool) \<Rightarrow> platform \<Rightarrow> platform" where
  "dropEvents P s = atStore (\<lambda>db. db\<lparr>outboxEvents := delete_many P (outboxEvents db)\<rparr>)
     (s\<lparr>pf_deliveries := delete_many (\<lambda>d. \<exists>e\<in>set (outboxEvents (pf_store s)). P e \<and> nd_outboxEventId d = ob_id e) (pf_deliveries s)\<rparr>)"

definition dropWebhooks :: "(StripeWebhookEvent \<Rightarrow> bool) \<Rightarrow> platform \<Rightarrow> platform" where
  "dropWebhooks P s = s\<lparr>pf_webhooks := delete_many P (pf_webhooks s)\<rparr>"

definition dropUploads :: "(Upload \<Rightarrow> bool) \<Rightarrow> platform \<Rightarrow> platform" where
  "dropUploads P s = s\<lparr>pf_content := (pf_content s)\<lparr>uploads := delete_many P (uploads (pf_content s))\<rparr>\<rparr>"

definition dropAudit :: "(AuditEvent \<Rightarrow> bool) \<Rightarrow> platform \<Rightarrow> platform" where
  "dropAudit P = atStore (\<lambda>db. db\<lparr>auditEvents := delete_many P (auditEvents db)\<rparr>)"

section \<open>Rows past their time\<close>

definition before :: "time \<Rightarrow> time option \<Rightarrow> bool" where
  "before cutoff t = (case t of None \<Rightarrow> False | Some x \<Rightarrow> x < cutoff)"

definition dueIdempotency :: "time \<Rightarrow> IdempotencyRecord \<Rightarrow> bool" where
  "dueIdempotency now r \<longleftrightarrow> ir_expiresAt r < now \<and> ir_statusCode r \<noteq> None \<and> ir_response r \<noteq> None \<and> ir_deletedAt r = None"

definition dueInvitation :: "time \<Rightarrow> Invitation \<Rightarrow> bool" where
  "dueInvitation cutoff i \<longleftrightarrow>
     (inv_expiresAt i < cutoff \<or> before cutoff (inv_acceptedAt i) \<or> before cutoff (inv_revokedAt i)) \<and> inv_deletedAt i = None"

definition dueBandwidth :: "time \<Rightarrow> UploadBandwidthUsage \<Rightarrow> bool" where
  "dueBandwidth cutoff b \<longleftrightarrow> bw_periodStart b < cutoff"

definition dueChallenge :: "time \<Rightarrow> OtpChallenge \<Rightarrow> bool" where
  "dueChallenge cutoff c \<longleftrightarrow> otp_expiresAt c < cutoff \<and> otp_deletedAt c = None"

definition dueSession :: "time \<Rightarrow> Session \<Rightarrow> bool" where
  "dueSession cutoff x \<longleftrightarrow> (ses_expiresAt x < cutoff \<or> before cutoff (ses_revokedAt x)) \<and> ses_deletedAt x = None"

definition dueEvent :: "(ident \<Rightarrow> time) \<Rightarrow> time \<Rightarrow> OutboxEvent \<Rightarrow> bool" where
  "dueEvent updatedAt cutoff e \<longleftrightarrow> ob_status e \<in> {DELIVERED, DEAD_LETTER} \<and> updatedAt (ob_id e) < cutoff \<and> ob_deletedAt e = None"

definition dueWebhook :: "time \<Rightarrow> StripeWebhookEvent \<Rightarrow> bool" where
  "dueWebhook cutoff e \<longleftrightarrow> sw_status e = W_PROCESSED \<and> sw_createdAt e < cutoff \<and> sw_deletedAt e = None"

definition dueUpload :: "(ident \<Rightarrow> time) \<Rightarrow> time \<Rightarrow> Upload \<Rightarrow> bool" where
  "dueUpload updatedAt cutoff u \<longleftrightarrow> up_status u \<in> {UP_FAILED, UP_DELETED} \<and> updatedAt (up_id u) < cutoff \<and> up_deletedAt u = None"

definition dueAudit :: "time \<Rightarrow> AuditEvent \<Rightarrow> bool" where
  "dueAudit cutoff e \<longleftrightarrow> au_createdAt e < cutoff \<and> au_deletedAt e = None"

section \<open>The job\<close>

definition validateRetentionDays :: "string \<Rightarrow> int \<Rightarrow> bool \<Rightarrow> thrown + unit" where
  "validateRetentionDays name days allowZero =
     (if days < (if allowZero then 0 else 1)
      then Inl (OtherError (name @ '' must be '' @ (if allowZero then ''a non-negative'' else ''a positive'') @ '' integer''))
      else Inr ())"

record RetentionCleanupResult =
  rr_auditDeletionEnabled :: bool
  rr_dataCutoff :: time
  rr_auditCutoff :: "time option"
  rr_idempotencyRecords :: nat
  rr_invitations :: nat
  rr_uploadBandwidthRows :: nat
  rr_otpChallenges :: nat
  rr_sessions :: nat
  rr_outboxEvents :: nat
  rr_stripeWebhookEvents :: nat
  rr_uploads :: nat
  rr_auditEvents :: nat

text \<open>A purge followed by the rest of the job, which an unfinished loop never reaches.\<close>

definition purging :: "('s, nat option) io \<Rightarrow> (nat \<Rightarrow> ('s, 'b option) io) \<Rightarrow> ('s, 'b option) io" where
  "purging m f = andNext m (\<lambda>r. case r of None \<Rightarrow> answer None | Some n \<Rightarrow> f n)"

definition purgeAudit :: "nat \<Rightarrow> (nat \<Rightarrow> bool) \<Rightarrow> int \<Rightarrow> time option \<Rightarrow> (platform, nat option) io" where
  "purgeAudit fuel aborted batchSize auditCutoff =
     (case auditCutoff of
        None \<Rightarrow> answer (Some 0)
      | Some cutoff \<Rightarrow> deleteInBatches fuel aborted batchSize (selecting (\<lambda>s. auditEvents (pf_store s)) au_id au_createdAt (dueAudit cutoff))
          (deleting (\<lambda>s. auditEvents (pf_store s)) dropAudit au_id (dueAudit cutoff)))"

text \<open>The column \<open>updatedAt\<close>, which the rows of the model do not have, is looked up by table and identifier.\<close>

definition runRetentionCleanup ::
    "nat \<Rightarrow> (nat \<Rightarrow> nat \<Rightarrow> bool) \<Rightarrow> (string \<Rightarrow> ident \<Rightarrow> time) \<Rightarrow> int \<Rightarrow> int \<Rightarrow> int \<Rightarrow> time \<Rightarrow> (platform, RetentionCleanupResult option) io" where
  "runRetentionCleanup fuel aborted updatedAt dataRetentionDays auditRetentionDays batchSize now =
     andNext (calling (validateRetentionDays ''dataRetentionDays'' dataRetentionDays False)) (\<lambda>_.
     andNext (calling (validateRetentionDays ''auditRetentionDays'' auditRetentionDays True)) (\<lambda>_.
     andNext (calling (if positiveBatch batchSize then Inr () else Inl (OtherError ''batchSize must be a positive integer''))) (\<lambda>_.
     let dataCutoff = now - dataRetentionDays * DAY_MS;
         auditCutoff = (if auditRetentionDays = 0 then None else Some (now - auditRetentionDays * DAY_MS));
         bandwidthCutoff = monthStart dataCutoff in
     purging (deleteInBatches fuel (aborted 0) batchSize (selecting pf_idempotency ir_id ir_expiresAt (dueIdempotency now))
        (deleting pf_idempotency dropIdempotency ir_id (dueIdempotency now))) (\<lambda>n0.
     purging (deleteInBatches fuel (aborted 1) batchSize (selecting (\<lambda>s. invitations (pf_store s)) inv_id inv_id (dueInvitation dataCutoff))
        (deleting (\<lambda>s. invitations (pf_store s)) dropInvitations inv_id (dueInvitation dataCutoff))) (\<lambda>n1.
     purging (deleteInBatches fuel (aborted 2) batchSize (selecting (\<lambda>s. bandwidthUsage (pf_content s)) bw_id bw_periodStart (dueBandwidth bandwidthCutoff))
        (deleting (\<lambda>s. bandwidthUsage (pf_content s)) dropBandwidth bw_id (dueBandwidth bandwidthCutoff))) (\<lambda>n2.
     purging (deleteInBatches fuel (aborted 3) batchSize (selecting (\<lambda>s. otpChallenges (pf_store s)) otp_id otp_expiresAt (dueChallenge dataCutoff))
        (deleting (\<lambda>s. otpChallenges (pf_store s)) dropChallenges otp_id (dueChallenge dataCutoff))) (\<lambda>n3.
     purging (deleteInBatches fuel (aborted 4) batchSize (selecting (\<lambda>s. sessions (pf_store s)) ses_id ses_id (dueSession dataCutoff))
        (deleting (\<lambda>s. sessions (pf_store s)) dropSessions ses_id (dueSession dataCutoff))) (\<lambda>n4.
     purging (deleteInBatches fuel (aborted 5) batchSize (selecting (\<lambda>s. outboxEvents (pf_store s)) ob_id ob_id (dueEvent (updatedAt ''OutboxEvent'') dataCutoff))
        (deleting (\<lambda>s. outboxEvents (pf_store s)) dropEvents ob_id (dueEvent (updatedAt ''OutboxEvent'') dataCutoff))) (\<lambda>n5.
     purging (deleteInBatches fuel (aborted 6) batchSize (selecting pf_webhooks sw_id sw_createdAt (dueWebhook dataCutoff))
        (deleting pf_webhooks dropWebhooks sw_id (dueWebhook dataCutoff))) (\<lambda>n6.
     purging (deleteInBatches fuel (aborted 7) batchSize (selecting (\<lambda>s. uploads (pf_content s)) up_id up_id (dueUpload (updatedAt ''Upload'') dataCutoff))
        (deleting (\<lambda>s. uploads (pf_content s)) dropUploads up_id (dueUpload (updatedAt ''Upload'') dataCutoff))) (\<lambda>n7.
     purging (purgeAudit fuel (aborted 8) batchSize auditCutoff) (\<lambda>n8.
     answer (Some \<lparr>rr_auditDeletionEnabled = (auditCutoff \<noteq> None), rr_dataCutoff = dataCutoff, rr_auditCutoff = auditCutoff,
       rr_idempotencyRecords = n0, rr_invitations = n1, rr_uploadBandwidthRows = n2, rr_otpChallenges = n3, rr_sessions = n4,
       rr_outboxEvents = n5, rr_stripeWebhookEvents = n6, rr_uploads = n7, rr_auditEvents = n8\<rparr>)))))))))))))"

section \<open>The purge interface\<close>

text \<open>
  What the batches rely on: deleting takes exactly the matching rows out of the table, and deleting what matches
  in two portions is deleting it at once, whatever goes with the rows included.
\<close>

locale purgeable =
  fixes tab :: "'s \<Rightarrow> 'r list" and del :: "('r \<Rightarrow> bool) \<Rightarrow> 's \<Rightarrow> 's"
  assumes tab_del: "tab (del P s) = delete_many P (tab s)"
    and del_portions: "del P (del (\<lambda>r. Q r \<and> P r) s) = del P s"
    and del_none: "\<forall>r\<in>set (tab s). \<not> P r \<Longrightarrow> del P s = s"
begin

lemma portions: "matching (\<lambda>r. Q r \<and> P r) rs + matching P (delete_many (\<lambda>r. Q r \<and> P r) rs) = matching P rs"
  by (induction rs) (auto simp: matching_def delete_many_def)

lemma purge_batches:
  assumes "matching due (tab s) < fuel" "0 < n" "\<And>i. \<not> aborted i"
  shows "batchLoop fuel k aborted n (selecting tab rid key due) (deleting tab del rid due) deleted s =
    (Inr (Some (deleted + matching due (tab s))), del due s)"
  using assms(1)
proof (induction fuel arbitrary: k deleted s)
  case 0
  then show ?case by simp
next
  case (Suc fuel)
  let ?ids = "selecting tab rid key due n s"
  let ?Q = "\<lambda>r. rid r \<in> set ?ids \<and> due r"
  have step: "batchLoop (Suc fuel) k aborted n (selecting tab rid key due) (deleting tab del rid due) deleted s =
      (if ?ids = [] then (Inr (Some deleted), s)
       else if length ?ids < n then (Inr (Some (deleted + matching ?Q (tab s))), del ?Q s)
       else batchLoop fuel (k + 2) aborted n (selecting tab rid key due) (deleting tab del rid due) (deleted + matching ?Q (tab s)) (del ?Q s))"
    by (simp add: andNext_def calling_def throwIfAborted_def assms(3) transaction_def reading_def answer_def deleting_def)
  have len: "length ?ids = min n (matching due (tab s))" by (simp add: selecting_def matching_def)
  consider (none) "?ids = []" | (last) "?ids \<noteq> []" "length ?ids < n" | (more) "?ids \<noteq> []" "\<not> length ?ids < n" by blast
  then show ?case
  proof cases
    case none
    with len assms(2) have "matching due (tab s) = 0" by simp
    with none show ?thesis unfolding step by (simp add: matching_zero del_none)
  next
    case last
    then have "set ?ids = rid ` {r \<in> set (tab s). due r}" using len by (simp add: selecting_def matching_def)
    then have same: "?Q r = due r" if "r \<in> set (tab s)" for r using that by auto
    then have "matching ?Q (tab s) = matching due (tab s)" unfolding matching_def by (metis (mono_tags, lifting) filter_cong)
    moreover have "del due (del ?Q s) = del ?Q s" by (rule del_none) (use same in \<open>auto simp: tab_del set_delete_many\<close>)
    then have "del ?Q s = del due s" using del_portions by metis
    ultimately show ?thesis unfolding step using last by simp
  next
    case more
    obtain i where "i \<in> set ?ids" using more(1) by (cases ?ids) auto
    then obtain r where r: "r \<in> set (tab s)" "due r" "rid r = i"
      by (auto simp: selecting_def dest!: in_set_takeD)
    then have "0 < matching ?Q (tab s)" using \<open>i \<in> set ?ids\<close> unfolding matching_pos by blast
    moreover have sum: "matching ?Q (tab s) + matching due (tab (del ?Q s)) = matching due (tab s)"
      unfolding tab_del by (rule portions)
    ultimately have "matching due (tab (del ?Q s)) < fuel" using Suc.prems by linarith
    from Suc.IH [OF this] show ?thesis unfolding step using more sum del_portions by simp
  qed
qed

lemma purge_exact:
  assumes "matching due (tab s) < fuel" "positiveBatch batchSize" "\<And>i. \<not> aborted i"
  shows "deleteInBatches fuel aborted batchSize (selecting tab rid key due) (deleting tab del rid due) s =
    (Inr (Some (matching due (tab s))), del due s)"
proof -
  have "batchLoop fuel 0 aborted (nat batchSize) (selecting tab rid key due) (deleting tab del rid due) 0 s = (Inr (Some (0 + matching due (tab s))), del due s)"
    by (rule purge_batches [OF assms(1) _ assms(3)]) (use assms(2) in \<open>simp add: positiveBatch_def\<close>)
  with assms(2) show ?thesis by (simp add: deleteInBatches_def)
qed

end

lemma delete_many_none: "\<forall>r\<in>set rs. \<not> P r \<Longrightarrow> delete_many P rs = rs"
  by (simp add: delete_many_def filter_id_conv)

lemma delete_many_portions: "delete_many P (delete_many (\<lambda>r. Q r \<and> P r) rs) = delete_many P rs"
  by (auto simp: delete_many_def intro: filter_cong)

text \<open>Rows that go with a deleted row: the two portions take the same dependants as the whole.\<close>

lemma dependants_portions:
  "delete_many (\<lambda>d. \<exists>r\<in>set (delete_many (\<lambda>r. Q r \<and> P r) rs). P r \<and> link d r) (delete_many (\<lambda>d. \<exists>r\<in>set rs. Q r \<and> P r \<and> link d r) ds) =
   delete_many (\<lambda>d. \<exists>r\<in>set rs. P r \<and> link d r) ds"
  by (auto simp: delete_many_def intro!: filter_cong)

lemma dependants_none: "\<forall>r\<in>set rs. \<not> P r \<Longrightarrow> delete_many (\<lambda>d. \<exists>r\<in>set rs. P r \<and> link d r) ds = ds"
  by (rule delete_many_none) blast

lemmas purge_laws = atStore_def withoutChallenges_def delete_many_none delete_many_portions dependants_none dependants_portions

interpretation idempotency: purgeable pf_idempotency dropIdempotency
  by unfold_locales (simp_all add: dropIdempotency_def purge_laws)

interpretation invitation: purgeable "\<lambda>s. invitations (pf_store s)" dropInvitations
  by unfold_locales (simp_all add: dropInvitations_def purge_laws)

interpretation bandwidth: purgeable "\<lambda>s. bandwidthUsage (pf_content s)" dropBandwidth
  by unfold_locales (simp_all add: dropBandwidth_def purge_laws)

interpretation challenge: purgeable "\<lambda>s. otpChallenges (pf_store s)" dropChallenges
  by unfold_locales (simp_all add: dropChallenges_def purge_laws)

interpretation session: purgeable "\<lambda>s. sessions (pf_store s)" dropSessions
  by unfold_locales (simp_all add: dropSessions_def purge_laws)

interpretation event: purgeable "\<lambda>s. outboxEvents (pf_store s)" dropEvents
  by unfold_locales (simp_all add: dropEvents_def purge_laws)

interpretation webhook: purgeable pf_webhooks dropWebhooks
  by unfold_locales (simp_all add: dropWebhooks_def purge_laws)

interpretation upload: purgeable "\<lambda>s. uploads (pf_content s)" dropUploads
  by unfold_locales (simp_all add: dropUploads_def purge_laws)

interpretation trail: purgeable "\<lambda>s. auditEvents (pf_store s)" dropAudit
  by unfold_locales (simp_all add: dropAudit_def purge_laws)

section \<open>The job as a whole\<close>

definition purged :: "(string \<Rightarrow> ident \<Rightarrow> time) \<Rightarrow> time \<Rightarrow> time \<Rightarrow> time option \<Rightarrow> platform \<Rightarrow> platform" where
  "purged updatedAt now cutoff auditCutoff s =
     (case auditCutoff of None \<Rightarrow> (\<lambda>t. t) | Some c \<Rightarrow> dropAudit (dueAudit c))
     (dropUploads (dueUpload (updatedAt ''Upload'') cutoff)
     (dropWebhooks (dueWebhook cutoff)
     (dropEvents (dueEvent (updatedAt ''OutboxEvent'') cutoff)
     (dropSessions (dueSession cutoff)
     (dropChallenges (dueChallenge cutoff)
     (dropBandwidth (dueBandwidth (monthStart cutoff))
     (dropInvitations (dueInvitation cutoff)
     (dropIdempotency (dueIdempotency now) s))))))))"

lemmas drop_defs = dropIdempotency_def dropInvitations_def dropBandwidth_def dropChallenges_def withoutChallenges_def dropSessions_def dropEvents_def
  dropWebhooks_def dropUploads_def dropAudit_def atStore_def

text \<open>The rows there are bound the rounds of every purge.\<close>

definition roundsBound :: "platform \<Rightarrow> nat" where
  "roundsBound s = length (pf_idempotency s) + length (invitations (pf_store s)) + length (bandwidthUsage (pf_content s)) +
     length (otpChallenges (pf_store s)) + length (sessions (pf_store s)) + length (outboxEvents (pf_store s)) + length (pf_webhooks s) +
     length (uploads (pf_content s)) + length (auditEvents (pf_store s))"

lemma matching_le: "matching P rs \<le> length rs"
  by (simp add: matching_def)

lemma purging_exact: "m s = (Inr (Some n), s') \<Longrightarrow> purging m f s = f n s'"
  by (simp add: purging_def andNext_def)

lemma purging_batches:
  "deleteInBatches fuel aborted n sel dl s = (Inr (Some k), s') \<Longrightarrow> purging (deleteInBatches fuel aborted n sel dl) f s = f k s'"
  by (rule purging_exact)

lemma runRetentionCleanup_exact:
  assumes fuel: "roundsBound s < fuel" and go: "\<And>i j. \<not> aborted i j" and args: "1 \<le> days" "0 \<le> auditDays" "1 \<le> batchSize"
  shows "\<exists>r. runRetentionCleanup fuel aborted updatedAt days auditDays batchSize now s =
    (Inr (Some r), purged updatedAt now (now - days * DAY_MS) (if auditDays = 0 then None else Some (now - auditDays * DAY_MS)) s)"
proof -
  have bound: "length (pf_idempotency s) < fuel" "length (invitations (pf_store s)) < fuel" "length (bandwidthUsage (pf_content s)) < fuel"
      "length (otpChallenges (pf_store s)) < fuel" "length (sessions (pf_store s)) < fuel" "length (outboxEvents (pf_store s)) < fuel"
      "length (pf_webhooks s) < fuel" "length (uploads (pf_content s)) < fuel" "length (auditEvents (pf_store s)) < fuel"
    using fuel by (simp_all add: roundsBound_def)
  have b: "positiveBatch batchSize" using args(3) by (simp add: positiveBatch_def)
  let ?c = "now - days * DAY_MS"
  let ?a = "if auditDays = 0 then None else Some (now - auditDays * DAY_MS)"
  define s1 where "s1 = dropIdempotency (dueIdempotency now) s"
  define s2 where "s2 = dropInvitations (dueInvitation ?c) s1"
  define s3 where "s3 = dropBandwidth (dueBandwidth (monthStart ?c)) s2"
  define s4 where "s4 = dropChallenges (dueChallenge ?c) s3"
  define s5 where "s5 = dropSessions (dueSession ?c) s4"
  define s6 where "s6 = dropEvents (dueEvent (updatedAt ''OutboxEvent'') ?c) s5"
  define s7 where "s7 = dropWebhooks (dueWebhook ?c) s6"
  define s8 where "s8 = dropUploads (dueUpload (updatedAt ''Upload'') ?c) s7"
  define s9 where "s9 = (case ?a of None \<Rightarrow> s8 | Some c \<Rightarrow> dropAudit (dueAudit c) s8)"
  have tabs: "invitations (pf_store s1) = invitations (pf_store s)" "bandwidthUsage (pf_content s2) = bandwidthUsage (pf_content s)"
      "otpChallenges (pf_store s3) = otpChallenges (pf_store s)" "sessions (pf_store s4) = sessions (pf_store s)"
      "outboxEvents (pf_store s5) = outboxEvents (pf_store s)" "pf_webhooks s6 = pf_webhooks s"
      "uploads (pf_content s7) = uploads (pf_content s)" "auditEvents (pf_store s8) = auditEvents (pf_store s)"
    by (simp_all add: s1_def s2_def s3_def s4_def s5_def s6_def s7_def s8_def drop_defs)
  have few: "length (invitations (pf_store s1)) < fuel" "length (bandwidthUsage (pf_content s2)) < fuel" "length (otpChallenges (pf_store s3)) < fuel"
      "length (sessions (pf_store s4)) < fuel" "length (outboxEvents (pf_store s5)) < fuel" "length (pf_webhooks s6) < fuel"
      "length (uploads (pf_content s7)) < fuel" "length (auditEvents (pf_store s8)) < fuel"
    unfolding tabs by (rule bound)+
  note le = le_less_trans [OF matching_le]
  note p0 = purging_batches [OF idempotency.purge_exact [where aborted = "aborted 0" and due = "dueIdempotency now", OF le [OF bound(1)] b go, folded s1_def]]
  note p1 = purging_batches [OF invitation.purge_exact [where aborted = "aborted 1" and due = "dueInvitation ?c", OF le [OF few(1)] b go, folded s2_def]]
  note p2 = purging_batches [OF bandwidth.purge_exact [where aborted = "aborted 2" and due = "dueBandwidth (monthStart ?c)", OF le [OF few(2)] b go, folded s3_def]]
  note p3 = purging_batches [OF challenge.purge_exact [where aborted = "aborted 3" and due = "dueChallenge ?c", OF le [OF few(3)] b go, folded s4_def]]
  note p4 = purging_batches [OF session.purge_exact [where aborted = "aborted 4" and due = "dueSession ?c", OF le [OF few(4)] b go, folded s5_def]]
  note p5 = purging_batches [OF event.purge_exact [where aborted = "aborted 5" and due = "dueEvent (updatedAt ''OutboxEvent'') ?c", OF le [OF few(5)] b go, folded s6_def]]
  note p6 = purging_batches [OF webhook.purge_exact [where aborted = "aborted 6" and due = "dueWebhook ?c", OF le [OF few(6)] b go, folded s7_def]]
  note p7 = purging_batches [OF upload.purge_exact [where aborted = "aborted 7" and due = "dueUpload (updatedAt ''Upload'') ?c", OF le [OF few(7)] b go, folded s8_def]]
  have "\<exists>n. purgeAudit fuel (aborted 8) batchSize ?a s8 = (Inr (Some n), s9)"
    using trail.purge_exact [where aborted = "aborted 8", OF le [OF few(8)] b go] by (auto simp: purgeAudit_def s9_def answer_def)
  then obtain n where n: "purgeAudit fuel (aborted 8) batchSize ?a s8 = (Inr (Some n), s9)" ..
  have days: "validateRetentionDays ''dataRetentionDays'' days False = Inr ()" "validateRetentionDays ''auditRetentionDays'' auditDays True = Inr ()"
    using args by (simp_all add: validateRetentionDays_def)
  have final: "purged updatedAt now ?c ?a s = s9"
    by (simp add: purged_def s9_def s8_def s7_def s6_def s5_def s4_def s3_def s2_def s1_def)
  have ok: "andNext (calling (Inr x)) f t = f x t" for x f t by (simp add: andNext_def calling_def)
  show ?thesis unfolding final runRetentionCleanup_def days if_P [OF b] ok Let_def p0 p1 p2 p3 p4 p5 p6 p7 purging_exact [where m = "purgeAudit fuel (aborted 8) batchSize ?a", OF n] answer_def by blast
qed


definition demo_usage :: "ident \<Rightarrow> time \<Rightarrow> UploadBandwidthUsage" where
  "demo_usage i period = \<lparr>bw_id = i, bw_organizationId = None, bw_userId = ''u'', bw_scopeKey = ''u'', bw_periodStart = period, bw_bytes = 1\<rparr>"

definition demo_lease :: IdempotencyRecord where
  "demo_lease = \<lparr>ir_id = ''i'', ir_actorKey = ''user:u'', ir_scope = ''s'', ir_keyHash = ''k'', ir_requestHash = ''r'', ir_statusCode = None,
     ir_response = None, ir_lockToken = None, ir_lockedUntil = None, ir_attempts = 1, ir_expiresAt = 0, ir_deletedAt = None\<rparr>"

definition demo_aged :: platform where
  "demo_aged = demo_platform\<lparr>pf_idempotency := [demo_lease],
     pf_content := demo_content\<lparr>bandwidthUsage := [demo_usage ''old'' 0, demo_usage ''new'' 1700000000000]\<rparr>\<rparr>"


text \<open>A deleted upload is marked by both its status and the soft-delete column, and the filter the client adds hides it from the job:
  only failed uploads are ever purged.\<close>

lemma deleted_uploads_never_due: "up_deletedAt u \<noteq> None \<Longrightarrow> \<not> dueUpload updatedAt cutoff u"
  by (simp add: dueUpload_def)

text \<open>An abort stops the job at the next check and keeps what was committed; a batch size below one is refused.\<close>

lemma deleteInBatches_refuses: "batchSize < 1 \<Longrightarrow> deleteInBatches fuel aborted batchSize sel dl s = (Inl (OtherError ''batchSize must be a positive integer''), s)"
  by (simp add: deleteInBatches_def positiveBatch_def failing_def)

lemma aborted_before_start: "1 \<le> batchSize \<Longrightarrow> aborted 0 \<Longrightarrow> 0 < fuel \<Longrightarrow> deleteInBatches fuel aborted batchSize sel dl s = (Inl (OtherError ''AbortError''), s)"
  by (cases fuel) (simp_all add: deleteInBatches_def positiveBatch_def andNext_def calling_def throwIfAborted_def)

end
