(* ===== verification/Scheduler.thy ===== *)
theory Scheduler
  imports Transactions
begin

text \<open>
  The scheduler of \<open>src/src/scheduler/scheduler.ts\<close> and its registry \<open>scheduler.registry.ts\<close>: the lock that keeps the runs of a
  job apart, the record of the last run, and the registration of the schedule. The commands of Redis and
  of the queue are arguments, with what the scheduler relies on as hypotheses: \<open>lock_laws\<close> and
  \<open>queue_laws\<close>. What is shown is that two runs of one job that are under way at once were locked at least
  the job's time-out and a minute apart, whatever the processes do and however Redis fails after the lock
  is taken, and that a start of the scheduler registers every job and drops the listed leftovers.
\<close>

section \<open>Jobs\<close>

record ScheduledJob =
  sj_name :: string
  sj_cron :: string
  sj_description :: string
  sj_timeoutMs :: int

definition scheduledJobs :: "ScheduledJob list" where
  "scheduledJobs =
     [\<lparr>sj_name = ''retention-cleanup'', sj_cron = ''15 3 * * *'',
       sj_description = ''Delete expired operational data and abandoned uploads.'', sj_timeoutMs = 10 * 60000\<rparr>,
      \<lparr>sj_name = ''audit-integrity-verification'', sj_cron = ''0 4 * * *'',
       sj_description = ''Verify HMAC integrity signatures across stored audit events.'', sj_timeoutMs = 30 * 60000\<rparr>]"

definition findScheduledJob :: "string \<Rightarrow> ScheduledJob option" where
  "findScheduledJob name = List.find (\<lambda>job. sj_name job = name) scheduledJobs"

record JobRunState =
  rs_lastRunAt :: time
  rs_lastDurationMs :: int
  rs_succeeded :: bool
  rs_lastError :: "string option"

definition stateKey :: "string \<Rightarrow> string \<Rightarrow> string" where
  "stateKey prefix name = prefix @ '':scheduler:state:'' @ name"

definition lockKey :: "string \<Rightarrow> string \<Rightarrow> string" where
  "lockKey prefix name = prefix @ '':scheduler:lock:'' @ name"

section \<open>Redis\<close>

text \<open>
  The commands the scheduler sends. A stored text is kept as what it encodes: the token of a lock or the
  record of a run, whose JSON text reads back as itself. \<open>SETNX_PX\<close> is \<open>SET key token PX ms NX\<close>.
\<close>

datatype redis_text = TokenText string | StateText JobRunState

record 'rd lock_cmds =
  SETNX_PX :: "string \<Rightarrow> redis_text \<Rightarrow> int \<Rightarrow> 'rd \<Rightarrow> bool \<times> 'rd"
  SETKEY :: "string \<Rightarrow> redis_text \<Rightarrow> 'rd \<Rightarrow> 'rd"
  GETKEY :: "string \<Rightarrow> 'rd \<Rightarrow> redis_text option"
  DELKEY :: "string \<Rightarrow> 'rd \<Rightarrow> 'rd"

text \<open>
  What Redis documents of them. \<open>keys rd k\<close> is the text of a key with the time it lapses, if it ever
  does; a key that has lapsed is not there.
\<close>

type_synonym redis_keys = "string \<Rightarrow> (redis_text \<times> time option) option"

definition lock_laws :: "'rd lock_cmds \<Rightarrow> ('rd \<Rightarrow> time) \<Rightarrow> ('rd \<Rightarrow> redis_keys) \<Rightarrow> bool" where
  "lock_laws cmds clock keys \<longleftrightarrow>
     (\<forall>k v px rd. 0 < px \<longrightarrow> SETNX_PX cmds k v px rd =
        (if keys rd k = None then (True, snd (SETNX_PX cmds k v px rd)) else (False, rd))) \<and>
     (\<forall>k v px rd. 0 < px \<longrightarrow> keys rd k = None \<longrightarrow>
        clock (snd (SETNX_PX cmds k v px rd)) = clock rd \<and>
        keys (snd (SETNX_PX cmds k v px rd)) = (keys rd)(k \<mapsto> (v, Some (clock rd + px)))) \<and>
     (\<forall>k v rd. clock (SETKEY cmds k v rd) = clock rd \<and> keys (SETKEY cmds k v rd) = (keys rd)(k \<mapsto> (v, None))) \<and>
     (\<forall>k rd. GETKEY cmds k rd = map_option fst (keys rd k)) \<and>
     (\<forall>k rd. clock (DELKEY cmds k rd) = clock rd \<and> keys (DELKEY cmds k rd) = (keys rd)(k := None))"

text \<open>Time passes: a key stays until it lapses, and no key appears.\<close>

definition elapses :: "('rd \<Rightarrow> time) \<Rightarrow> ('rd \<Rightarrow> redis_keys) \<Rightarrow> 'rd \<Rightarrow> 'rd \<Rightarrow> bool" where
  "elapses clock keys rd rd' \<longleftrightarrow> clock rd \<le> clock rd' \<and>
     (\<forall>k. keys rd' k = (case keys rd k of Some (v, Some u) \<Rightarrow> if u \<le> clock rd' then None else Some (v, Some u) | x \<Rightarrow> x))"

section \<open>The lock and the record of the last run\<close>

text \<open>\<open>reachable\<close> is false when the command throws, which these three functions swallow.\<close>

definition releaseLock :: "'rd lock_cmds \<Rightarrow> string \<Rightarrow> bool \<Rightarrow> string \<Rightarrow> string \<Rightarrow> 'rd \<Rightarrow> 'rd" where
  "releaseLock cmds prefix reachable name token rd =
     (if reachable \<and> GETKEY cmds (lockKey prefix name) rd = Some (TokenText token) then DELKEY cmds (lockKey prefix name) rd else rd)"

definition recordRun :: "'rd lock_cmds \<Rightarrow> string \<Rightarrow> bool \<Rightarrow> string \<Rightarrow> JobRunState \<Rightarrow> 'rd \<Rightarrow> 'rd" where
  "recordRun cmds prefix reachable name state rd =
     (if reachable then SETKEY cmds (stateKey prefix name) (StateText state) rd else rd)"

definition getJobState :: "'rd lock_cmds \<Rightarrow> string \<Rightarrow> bool \<Rightarrow> string \<Rightarrow> 'rd \<Rightarrow> JobRunState option" where
  "getJobState cmds prefix reachable name rd =
     (if reachable then (case GETKEY cmds (stateKey prefix name) rd of Some (StateText state) \<Rightarrow> Some state | _ \<Rightarrow> None) else None)"

record JobStatus =
  js_name :: string
  js_cron :: string
  js_description :: string
  js_timezone :: string
  js_state :: "JobRunState option"

definition listJobStates :: "'rd lock_cmds \<Rightarrow> string \<Rightarrow> string \<Rightarrow> bool \<Rightarrow> 'rd \<Rightarrow> JobStatus list" where
  "listJobStates cmds prefix timezone reachable rd =
     map (\<lambda>job. \<lparr>js_name = sj_name job, js_cron = sj_cron job, js_description = sj_description job, js_timezone = timezone,
                  js_state = getJobState cmds prefix reachable (sj_name job) rd\<rparr>) scheduledJobs"

section \<open>A run\<close>

text \<open>
  \<open>runScheduledJob\<close> in the two parts between which other processes act: up to the start of the handler,
  and from the end of the race between handler and timer. \<open>jr_startedAt\<close> is the clock of the process;
  \<open>jr_lockedAt\<close> records when Redis took the lock, for the proofs only. \<open>outage\<close> is what taking the lock throws, if it does.
\<close>

record JobRun =
  jr_name :: string
  jr_token :: string
  jr_startedAt :: time
  jr_lockedAt :: time
  jr_timeoutMs :: int

definition beginRun ::
    "'rd lock_cmds \<Rightarrow> ('rd \<Rightarrow> time) \<Rightarrow> string \<Rightarrow> thrown option \<Rightarrow> string \<Rightarrow> string \<Rightarrow> time \<Rightarrow> 'rd \<Rightarrow> (thrown + JobRun) \<times> 'rd" where
  "beginRun cmds clock prefix outage name token startedAt rd =
     (case findScheduledJob name of
        None \<Rightarrow> (Inl (OtherError (''Unknown scheduled job: '' @ name)), rd)
      | Some job \<Rightarrow>
          (case outage of
             Some e \<Rightarrow> (Inl e, rd)
           | None \<Rightarrow>
               (let (acquired, rd') = SETNX_PX cmds (lockKey prefix name) (TokenText token) (sj_timeoutMs job + 60000) rd in
                if \<not> acquired then (Inl (OtherError (''Scheduled job '' @ name @ '' is already running'')), rd')
                else (Inr \<lparr>jr_name = name, jr_token = token, jr_startedAt = startedAt, jr_lockedAt = clock rd, jr_timeoutMs = sj_timeoutMs job\<rparr>, rd'))))"

text \<open>What the race gives: the handler's outcome, unless the timer fired first.\<close>

definition raceOutcome :: "(int \<Rightarrow> string) \<Rightarrow> JobRun \<Rightarrow> bool \<Rightarrow> thrown + jsval \<Rightarrow> thrown + jsval" where
  "raceOutcome decimal run timerFirst outcome =
     (if timerFirst then Inl (OtherError (''Scheduled job '' @ jr_name run @ '' exceeded '' @ decimal (jr_timeoutMs run) @ ''ms'')) else outcome)"

definition errorText :: "thrown \<Rightarrow> string" where
  "errorText e = take 500 (case e of App a \<Rightarrow> err_message a | PrismaKnown m \<Rightarrow> m | BodySyntaxError m \<Rightarrow> m | OtherError m \<Rightarrow> m)"

definition runState :: "JobRun \<Rightarrow> time \<Rightarrow> thrown + jsval \<Rightarrow> JobRunState" where
  "runState run now result =
     \<lparr>rs_lastRunAt = now, rs_lastDurationMs = now - jr_startedAt run, rs_succeeded = (case result of Inr _ \<Rightarrow> True | Inl _ \<Rightarrow> False),
      rs_lastError = (case result of Inr _ \<Rightarrow> None | Inl e \<Rightarrow> Some (errorText e))\<rparr>"

definition endRun ::
    "'rd lock_cmds \<Rightarrow> string \<Rightarrow> bool \<Rightarrow> bool \<Rightarrow> JobRun \<Rightarrow> time \<Rightarrow> thrown + jsval \<Rightarrow> 'rd \<Rightarrow> (thrown + jsval) \<times> 'rd" where
  "endRun cmds prefix recordable releasable run now result rd =
     (result, releaseLock cmds prefix releasable (jr_name run) (jr_token run)
                (recordRun cmds prefix recordable (jr_name run) (runState run now result) rd))"

text \<open>
  A whole run. \<open>during\<close> is what becomes of Redis while the handler works, \<open>startedAt\<close> and \<open>now\<close> the
  readings of the process's clock before and after.
\<close>

definition runScheduledJob ::
    "'rd lock_cmds \<Rightarrow> ('rd \<Rightarrow> time) \<Rightarrow> (int \<Rightarrow> string) \<Rightarrow> string \<Rightarrow> thrown option \<Rightarrow> bool \<Rightarrow> bool \<Rightarrow> string \<Rightarrow> string \<Rightarrow> time \<Rightarrow> ('rd \<Rightarrow> 'rd)
     \<Rightarrow> bool \<Rightarrow> thrown + jsval \<Rightarrow> time \<Rightarrow> 'rd \<Rightarrow> (thrown + jsval) \<times> 'rd" where
  "runScheduledJob cmds clock decimal prefix outage recordable releasable name token startedAt during timerFirst outcome now rd =
     (case beginRun cmds clock prefix outage name token startedAt rd of
        (Inl e, rd') \<Rightarrow> (Inl e, rd')
      | (Inr run, rd') \<Rightarrow> endRun cmds prefix recordable releasable run now (raceOutcome decimal run timerFirst outcome) (during rd'))"

section \<open>The queue\<close>

text \<open>The queue's operations; adding a job gives its id, if the queue assigned one.\<close>

record 'q queue_cmds =
  q_add :: "string \<Rightarrow> string \<Rightarrow> 'q \<Rightarrow> string option \<times> 'q"
  q_upsertJobScheduler :: "string \<Rightarrow> string \<Rightarrow> string \<Rightarrow> 'q \<Rightarrow> 'q"
  q_getJobSchedulers :: "int \<Rightarrow> int \<Rightarrow> 'q \<Rightarrow> string list"
  q_removeJobScheduler :: "string \<Rightarrow> 'q \<Rightarrow> 'q"

definition enqueueScheduledJob :: "'q queue_cmds \<Rightarrow> string \<Rightarrow> string \<Rightarrow> 'q \<Rightarrow> (thrown + string) \<times> 'q" where
  "enqueueScheduledJob cmds name uuid q =
     (case findScheduledJob name of
        None \<Rightarrow> (Inl (OtherError (''Unknown scheduled job: '' @ name)), q)
      | Some _ \<Rightarrow>
          (case q_add cmds name (''manual-'' @ name @ ''-'' @ uuid) q of
             (None, q') \<Rightarrow> (Inl (OtherError ''Scheduler queue did not assign a job id''), q')
           | (Some jobId, q') \<Rightarrow> if jobId = [] then (Inl (OtherError ''Scheduler queue did not assign a job id''), q') else (Inr jobId, q')))"

definition registerJobs :: "'q queue_cmds \<Rightarrow> string \<Rightarrow> 'q \<Rightarrow> 'q" where
  "registerJobs cmds timezone = fold (\<lambda>job. q_upsertJobScheduler cmds (sj_name job) (sj_cron job) timezone) scheduledJobs"

definition dropLeftovers :: "'q queue_cmds \<Rightarrow> string list \<Rightarrow> 'q \<Rightarrow> 'q" where
  "dropLeftovers cmds = fold (\<lambda>key q. if key \<noteq> [] \<and> key \<notin> set (map sj_name scheduledJobs) then q_removeJobScheduler cmds key q else q)"

definition startScheduler :: "'q queue_cmds \<Rightarrow> string \<Rightarrow> 'q \<Rightarrow> 'q" where
  "startScheduler cmds timezone q =
     (let registered = registerJobs cmds timezone q
      in dropLeftovers cmds (q_getJobSchedulers cmds 0 100 registered) registered)"

section \<open>Steps of all processes\<close>

text \<open>Redis and the runs that have the lock taken and not yet given back.\<close>

record 'rd scheduler =
  sc_redis :: 'rd
  sc_runs :: "JobRun list"

text \<open>Any process may begin a run under a token not in use and any run may end; a run may also end with its process.\<close>

inductive sched_step :: "'rd lock_cmds \<Rightarrow> ('rd \<Rightarrow> time) \<Rightarrow> ('rd \<Rightarrow> redis_keys) \<Rightarrow> string \<Rightarrow> 'rd scheduler \<Rightarrow> 'rd scheduler \<Rightarrow> bool"
  for cmds clock keys prefix where
  wait: "elapses clock keys (sc_redis s) rd \<Longrightarrow> sched_step cmds clock keys prefix s (s\<lparr>sc_redis := rd\<rparr>)"
| refused: "beginRun cmds clock prefix outage name token startedAt (sc_redis s) = (Inl e, rd) \<Longrightarrow>
     sched_step cmds clock keys prefix s (s\<lparr>sc_redis := rd\<rparr>)"
| begun: "beginRun cmds clock prefix outage name token startedAt (sc_redis s) = (Inr run, rd) \<Longrightarrow> token \<notin> jr_token ` set (sc_runs s) \<Longrightarrow>
     sched_step cmds clock keys prefix s (s\<lparr>sc_redis := rd, sc_runs := run # sc_runs s\<rparr>)"
| ended: "run \<in> set (sc_runs s) \<Longrightarrow> endRun cmds prefix recordable releasable run now result (sc_redis s) = (r, rd) \<Longrightarrow>
     sched_step cmds clock keys prefix s (s\<lparr>sc_redis := rd, sc_runs := removeAll run (sc_runs s)\<rparr>)"
| crashed: "sched_step cmds clock keys prefix s (s\<lparr>sc_runs := removeAll run (sc_runs s)\<rparr>)"

inductive sched_reachable :: "'rd lock_cmds \<Rightarrow> ('rd \<Rightarrow> time) \<Rightarrow> ('rd \<Rightarrow> redis_keys) \<Rightarrow> string \<Rightarrow> 'rd scheduler \<Rightarrow> bool"
  for cmds clock keys prefix where
  idle: "sc_runs s = [] \<Longrightarrow> sched_reachable cmds clock keys prefix s"
| stepped: "sched_reachable cmds clock keys prefix s \<Longrightarrow> sched_step cmds clock keys prefix s s' \<Longrightarrow>
     sched_reachable cmds clock keys prefix s'"

section \<open>Runs exclude each other\<close>

definition lapses :: "JobRun \<Rightarrow> time" where
  "lapses r = jr_lockedAt r + (jr_timeoutMs r + 60000)"

definition holdsLock :: "('rd \<Rightarrow> time) \<Rightarrow> ('rd \<Rightarrow> redis_keys) \<Rightarrow> string \<Rightarrow> 'rd \<Rightarrow> JobRun \<Rightarrow> bool" where
  "holdsLock clock keys prefix rd r \<longleftrightarrow>
     jr_lockedAt r \<le> clock rd \<and> (keys rd (lockKey prefix (jr_name r)) = Some (TokenText (jr_token r), Some (lapses r)) \<or> lapses r \<le> clock rd)"

definition apart :: "JobRun \<Rightarrow> JobRun \<Rightarrow> bool" where
  "apart r r' \<longleftrightarrow> (jr_name r = jr_name r' \<and> r \<noteq> r' \<longrightarrow> lapses r \<le> jr_lockedAt r' \<or> lapses r' \<le> jr_lockedAt r)"

definition sched_ok :: "('rd \<Rightarrow> time) \<Rightarrow> ('rd \<Rightarrow> redis_keys) \<Rightarrow> string \<Rightarrow> 'rd scheduler \<Rightarrow> bool" where
  "sched_ok clock keys prefix s \<longleftrightarrow>
     distinct (map jr_token (sc_runs s)) \<and> (\<forall>r\<in>set (sc_runs s). holdsLock clock keys prefix (sc_redis s) r) \<and>
     (\<forall>r\<in>set (sc_runs s). \<forall>r'\<in>set (sc_runs s). apart r r')"

lemma keys_apart [simp]: "stateKey prefix name \<noteq> lockKey prefix name'" "lockKey prefix name' \<noteq> stateKey prefix name"
  by (simp_all add: stateKey_def lockKey_def)

lemma lockKey_inj [simp]: "lockKey prefix name = lockKey prefix name' \<longleftrightarrow> name = name'"
  by (simp add: lockKey_def)

lemma timeouts_positive: "findScheduledJob name = Some job \<Longrightarrow> 0 < sj_timeoutMs job"
  by (auto simp: findScheduledJob_def scheduledJobs_def split: if_splits)

lemma SETNX_free:
  assumes "lock_laws cmds clock keys" "0 < px" "SETNX_PX cmds k v px rd = (True, rd')"
  shows "keys rd k = None" "clock rd' = clock rd" "keys rd' = (keys rd)(k \<mapsto> (v, Some (clock rd + px)))"
proof -
  have free: "SETNX_PX cmds k v px rd = (if keys rd k = None then (True, snd (SETNX_PX cmds k v px rd)) else (False, rd))"
    and set: "keys rd k = None \<longrightarrow> clock (snd (SETNX_PX cmds k v px rd)) = clock rd \<and>
        keys (snd (SETNX_PX cmds k v px rd)) = (keys rd)(k \<mapsto> (v, Some (clock rd + px)))"
    using assms(1,2) unfolding lock_laws_def by blast+
  show k: "keys rd k = None" using free assms(3) by (cases "keys rd k") simp_all
  show "clock rd' = clock rd" "keys rd' = (keys rd)(k \<mapsto> (v, Some (clock rd + px)))"
    using set k assms(3) by simp_all
qed

lemma SETNX_taken:
  assumes "lock_laws cmds clock keys" "0 < px" "SETNX_PX cmds k v px rd = (False, rd')"
  shows "rd' = rd"
proof -
  have "SETNX_PX cmds k v px rd = (if keys rd k = None then (True, snd (SETNX_PX cmds k v px rd)) else (False, rd))"
    using assms(1,2) unfolding lock_laws_def by blast
  with assms(3) show ?thesis by (cases "keys rd k") simp_all
qed

lemma lock_laws_simps:
  assumes "lock_laws cmds clock keys"
  shows "clock (SETKEY cmds k v rd) = clock rd" "keys (SETKEY cmds k v rd) = (keys rd)(k \<mapsto> (v, None))"
    "GETKEY cmds k rd = map_option fst (keys rd k)" "clock (DELKEY cmds k rd) = clock rd" "keys (DELKEY cmds k rd) = (keys rd)(k := None)"
  using assms unfolding lock_laws_def by blast+

lemma beginRun_Inr:
  assumes "lock_laws cmds clock keys" "beginRun cmds clock prefix outage name token startedAt rd = (Inr run, rd')"
  shows "keys rd (lockKey prefix name) = None" "jr_name run = name" "jr_token run = token" "jr_lockedAt run = clock rd"
    "clock rd' = clock rd" "keys rd' = (keys rd)(lockKey prefix name \<mapsto> (TokenText token, Some (lapses run)))" "0 < jr_timeoutMs run"
proof -
  obtain job where job: "findScheduledJob name = Some job"
    and set: "SETNX_PX cmds (lockKey prefix name) (TokenText token) (sj_timeoutMs job + 60000) rd = (True, rd')"
    and run: "run = \<lparr>jr_name = name, jr_token = token, jr_startedAt = startedAt, jr_lockedAt = clock rd, jr_timeoutMs = sj_timeoutMs job\<rparr>"
    using assms(2) by (auto simp: beginRun_def split: option.splits prod.splits if_splits)
  have "0 < sj_timeoutMs job" by (rule timeouts_positive [OF job])
  then have ms: "0 < sj_timeoutMs job + 60000" by simp
  note s = SETNX_free [OF assms(1) ms set]
  show "keys rd (lockKey prefix name) = None" "clock rd' = clock rd"
    "keys rd' = (keys rd)(lockKey prefix name \<mapsto> (TokenText token, Some (lapses run)))" using s by (simp_all add: run lapses_def)
  show "jr_name run = name" "jr_token run = token" "jr_lockedAt run = clock rd" "0 < jr_timeoutMs run"
    using \<open>0 < sj_timeoutMs job\<close> by (simp_all add: run)
qed

lemma beginRun_Inl:
  assumes "lock_laws cmds clock keys" "beginRun cmds clock prefix outage name token startedAt rd = (Inl e, rd')"
  shows "rd' = rd"
proof (cases "findScheduledJob name")
  case None
  with assms(2) show ?thesis by (simp add: beginRun_def)
next
  case (Some job)
  show ?thesis
  proof (cases outage)
    case None
    obtain acquired rd1 where set: "SETNX_PX cmds (lockKey prefix name) (TokenText token) (sj_timeoutMs job + 60000) rd = (acquired, rd1)" by fastforce
    have "\<not> acquired" "rd1 = rd'" using assms(2) None Some set by (auto simp: beginRun_def split: if_splits)
    moreover have "0 < sj_timeoutMs job + 60000" using timeouts_positive [OF Some] by simp
    ultimately show ?thesis using SETNX_taken [OF assms(1), of "sj_timeoutMs job + 60000"] set by simp
  qed (use assms(2) Some in \<open>simp add: beginRun_def\<close>)
qed

lemma endRun_redis:
  assumes "lock_laws cmds clock keys" "endRun cmds prefix recordable releasable run now result rd = (r, rd')"
  shows "clock rd' = clock rd"
    "keys rd (lockKey prefix name) = Some (TokenText token, u) \<Longrightarrow> token \<noteq> jr_token run \<Longrightarrow>
     keys rd' (lockKey prefix name) = Some (TokenText token, u)"
  using assms(2) by (auto simp: endRun_def releaseLock_def recordRun_def lock_laws_simps [OF assms(1)] split: if_splits)

lemma elapses_holdsLock:
  assumes "elapses clock keys rd rd'" "holdsLock clock keys prefix rd r"
  shows "holdsLock clock keys prefix rd' r"
proof -
  have up: "clock rd \<le> clock rd'" and k: "keys rd' (lockKey prefix (jr_name r)) =
      (case keys rd (lockKey prefix (jr_name r)) of Some (v, Some u) \<Rightarrow> if u \<le> clock rd' then None else Some (v, Some u) | x \<Rightarrow> x)"
    using assms(1) unfolding elapses_def by blast+
  show ?thesis using assms(2) up k by (auto simp: holdsLock_def)
qed

lemma begun_keeps:
  assumes laws: "lock_laws cmds clock keys" and ok: "sched_ok clock keys prefix s"
    and run: "beginRun cmds clock prefix outage name token startedAt (sc_redis s) = (Inr run, rd)"
    and fresh: "token \<notin> jr_token ` set (sc_runs s)"
  shows "sched_ok clock keys prefix (s\<lparr>sc_redis := rd, sc_runs := run # sc_runs s\<rparr>)"
proof -
  note b = beginRun_Inr [OF laws run]
  have held: "holdsLock clock keys prefix (sc_redis s) r" if "r \<in> set (sc_runs s)" for r
    using ok that by (simp add: sched_ok_def)
  have old: "lapses r \<le> clock (sc_redis s)" if "r \<in> set (sc_runs s)" "jr_name r = name" for r
    using held [OF that(1)] that(2) b(1) by (simp add: holdsLock_def)
  have new: "holdsLock clock keys prefix rd run" using b by (simp add: holdsLock_def)
  have kept: "holdsLock clock keys prefix rd r" if "r \<in> set (sc_runs s)" for r
    using held [OF that] old [OF that] by (cases "jr_name r = name") (simp_all add: holdsLock_def b(5,6))
  have pair: "apart run r \<and> apart r run" if "r \<in> set (sc_runs s)" for r
    using old [OF that] b(2,4) by (simp add: apart_def)
  have self: "apart run run" by (simp add: apart_def)
  show ?thesis using ok fresh new kept pair self b(3) by (simp add: sched_ok_def)
qed

lemma fewer_runs_ok:
  assumes "sched_ok clock keys prefix s" "\<forall>r\<in>set (removeAll run (sc_runs s)). holdsLock clock keys prefix rd r"
  shows "sched_ok clock keys prefix (s\<lparr>sc_redis := rd, sc_runs := removeAll run (sc_runs s)\<rparr>)"
  using assms by (simp add: sched_ok_def removeAll_filter_not_eq distinct_map_filter)

lemma ended_keeps:
  assumes laws: "lock_laws cmds clock keys" and ok: "sched_ok clock keys prefix s" and run: "run \<in> set (sc_runs s)"
    and ended: "endRun cmds prefix recordable releasable run now result (sc_redis s) = (r, rd)"
  shows "sched_ok clock keys prefix (s\<lparr>sc_redis := rd, sc_runs := removeAll run (sc_runs s)\<rparr>)"
proof (rule fewer_runs_ok [OF ok], intro ballI)
  fix x assume x: "x \<in> set (removeAll run (sc_runs s))"
  have tokens: "inj_on jr_token (set (sc_runs s))" using ok by (simp add: sched_ok_def distinct_map)
  have "jr_token x \<noteq> jr_token run" using x run inj_onD [OF tokens, of x run] by auto
  moreover have "holdsLock clock keys prefix (sc_redis s) x" using ok x by (simp add: sched_ok_def)
  ultimately show "holdsLock clock keys prefix rd x"
    using endRun_redis [OF laws ended] by (auto simp: holdsLock_def)
qed

lemma sched_step_ok:
  assumes laws: "lock_laws cmds clock keys" and "sched_step cmds clock keys prefix s s'" and ok: "sched_ok clock keys prefix s"
  shows "sched_ok clock keys prefix s'"
  using assms(2)
proof (cases rule: sched_step.cases)
  case (wait rd)
  have "holdsLock clock keys prefix rd r" if "r \<in> set (sc_runs s)" for r
    using ok that by (intro elapses_holdsLock [OF wait(2)]) (simp add: sched_ok_def)
  with ok show ?thesis by (simp add: wait(1) sched_ok_def)
next
  case (refused outage name token startedAt e rd)
  with ok beginRun_Inl [OF laws refused(2)] show ?thesis by simp
next
  case (begun outage name token startedAt run rd)
  show ?thesis unfolding begun(1) by (rule begun_keeps [OF laws ok begun(2,3)])
next
  case (ended run recordable releasable now result r rd)
  show ?thesis unfolding ended(1) by (rule ended_keeps [OF laws ok ended(2,3)])
next
  case (crashed run)
  have "\<forall>r\<in>set (removeAll run (sc_runs s)). holdsLock clock keys prefix (sc_redis s) r" using ok by (simp add: sched_ok_def)
  from fewer_runs_ok [OF ok this] show ?thesis by (simp add: crashed)
qed

lemma sched_reachable_ok:
  assumes "lock_laws cmds clock keys" "sched_reachable cmds clock keys prefix s"
  shows "sched_ok clock keys prefix s"
  using assms(2)
proof (induction rule: sched_reachable.induct)
  case (idle s)
  then show ?case by (simp add: sched_ok_def)
next
  case (stepped s s')
  show ?case by (rule sched_step_ok [OF assms(1) stepped(2,3)])
qed

text \<open>
  Whatever the processes do, two runs of one job that are under way at once took their locks at least
  the time-out of the job and a minute apart.
\<close>

theorem scheduled_runs_exclude:
  assumes "lock_laws cmds clock keys" "sched_reachable cmds clock keys prefix s"
    and "r \<in> set (sc_runs s)" "r' \<in> set (sc_runs s)" "jr_name r = jr_name r'" "r \<noteq> r'"
  shows "jr_lockedAt r + jr_timeoutMs r + 60000 \<le> jr_lockedAt r' \<or> jr_lockedAt r' + jr_timeoutMs r' + 60000 \<le> jr_lockedAt r"
proof -
  have "apart r r'" using sched_reachable_ok [OF assms(1,2)] assms(3,4) by (simp add: sched_ok_def)
  then show ?thesis using assms(5,6) by (simp add: apart_def lapses_def add.assoc)
qed

text \<open>
  A run that got the lock ends with its outcome on record and without the lock, and its outcome is that
  of the race, when Redis answers at the end.
\<close>

theorem runScheduledJob_recorded:
  assumes laws: "lock_laws cmds clock keys" and run: "beginRun cmds clock prefix outage name token startedAt rd = (Inr run, rd1)"
  shows "let (result, rd2) = runScheduledJob cmds clock decimal prefix outage True True name token startedAt during timerFirst outcome now rd
    in result = raceOutcome decimal run timerFirst outcome
       \<and> getJobState cmds prefix True name rd2 = Some (runState run now result)
       \<and> (\<forall>u. keys rd2 (lockKey prefix name) \<noteq> Some (TokenText token, u))"
  using beginRun_Inr(2,3) [OF laws run]
  by (auto simp: runScheduledJob_def run endRun_def releaseLock_def recordRun_def getJobState_def lock_laws_simps [OF laws])

text \<open>The hypotheses on Redis hold of a table with a clock, in which a run takes the lock, a second one is refused and the end frees it.\<close>

fun unlapsed :: "time \<Rightarrow> (redis_text \<times> time option) option \<Rightarrow> (redis_text \<times> time option) option" where
  "unlapsed now (Some (v, Some u)) = (if u \<le> now then None else Some (v, Some u))"
| "unlapsed now x = x"

definition liveKeys :: "time \<times> redis_keys \<Rightarrow> redis_keys" where
  "liveKeys rd k = unlapsed (fst rd) (snd rd k)"

lemma liveKeys_upd [simp]: "liveKeys (t, m(k := x)) = (liveKeys (t, m))(k := unlapsed t x)"
  by (simp add: liveKeys_def fun_eq_iff)

definition table_cmds :: "(time \<times> redis_keys) lock_cmds" where
  "table_cmds =
     \<lparr>SETNX_PX = (\<lambda>k v px rd. if liveKeys rd k = None then (True, (fst rd, (snd rd)(k \<mapsto> (v, Some (fst rd + px))))) else (False, rd)),
      SETKEY = (\<lambda>k v rd. (fst rd, (snd rd)(k \<mapsto> (v, None)))),
      GETKEY = (\<lambda>k rd. map_option fst (liveKeys rd k)),
      DELKEY = (\<lambda>k rd. (fst rd, (snd rd)(k := None)))\<rparr>"

lemma table_cmds_laws: "lock_laws table_cmds fst liveKeys"
  by (simp add: lock_laws_def table_cmds_def split_paired_all)

lemma table_cmds_run:
  "let (first, rd1) = beginRun table_cmds fst ''app'' None ''retention-cleanup'' ''a'' 0 (0, \<lambda>_. None);
       (second, rd2) = beginRun table_cmds fst ''app'' None ''retention-cleanup'' ''b'' 1 rd1;
       (ended, rd3) = endRun table_cmds ''app'' True True (projr first) 5 (Inr Null) rd2
   in \<not> isl first \<and> isl second \<and> \<not> isl (fst (beginRun table_cmds fst ''app'' None ''retention-cleanup'' ''c'' 6 rd3))
      \<and> map_option rs_lastDurationMs (getJobState table_cmds ''app'' True ''retention-cleanup'' rd3) = Some 5"
  by (simp add: beginRun_def endRun_def findScheduledJob_def scheduledJobs_def table_cmds_def liveKeys_def releaseLock_def recordRun_def getJobState_def
      runState_def lockKey_def stateKey_def)

section \<open>Registration\<close>

text \<open>What the queue documents: its schedules are a table by key.\<close>

definition queue_laws :: "'q queue_cmds \<Rightarrow> ('q \<Rightarrow> string \<Rightarrow> (string \<times> string) option) \<Rightarrow> bool" where
  "queue_laws cmds table \<longleftrightarrow>
     (\<forall>key cron tz q. table (q_upsertJobScheduler cmds key cron tz q) = (table q)(key \<mapsto> (cron, tz))) \<and>
     (\<forall>key q. table (q_removeJobScheduler cmds key q) = (table q)(key := None))"

lemma queue_laws_simps:
  assumes "queue_laws cmds table"
  shows "table (q_upsertJobScheduler cmds key cron tz q) = (table q)(key \<mapsto> (cron, tz))"
    "table (q_removeJobScheduler cmds key q) = (table q)(key := None)"
  using assms unfolding queue_laws_def by blast+

lemma dropLeftovers_table:
  assumes "queue_laws cmds table"
  shows "table (dropLeftovers cmds listed q) key =
    (if key \<in> set listed \<and> key \<noteq> [] \<and> key \<notin> set (map sj_name scheduledJobs) then None else table q key)"
proof (induction listed arbitrary: q)
  case Nil
  then show ?case by (simp add: dropLeftovers_def)
next
  case (Cons k listed)
  have "dropLeftovers cmds (k # listed) q =
      dropLeftovers cmds listed (if k \<noteq> [] \<and> k \<notin> set (map sj_name scheduledJobs) then q_removeJobScheduler cmds k q else q)"
    by (simp add: dropLeftovers_def)
  then show ?case by (simp add: Cons.IH queue_laws_simps [OF assms] del: set_map)
qed

lemma registerJobs_table:
  assumes "queue_laws cmds table"
  shows "table (registerJobs cmds tz q) =
    (table q)(''retention-cleanup'' \<mapsto> (''15 3 * * *'', tz), ''audit-integrity-verification'' \<mapsto> (''0 4 * * *'', tz))"
  by (simp add: registerJobs_def scheduledJobs_def queue_laws_simps [OF assms])

text \<open>
  After a start every job of the registry has its schedule, and when the first hundred and one entries
  are all there are, nothing else does.
\<close>

theorem startScheduler_exact:
  assumes laws: "queue_laws cmds table" and unnamed: "table q [] = None"
    and listed: "dom (table (registerJobs cmds tz q)) \<subseteq> set (q_getJobSchedulers cmds 0 100 (registerJobs cmds tz q))"
  shows "table (startScheduler cmds tz q) key = map_option (\<lambda>job. (sj_cron job, tz)) (findScheduledJob key)"
proof (cases "key \<in> set (map sj_name scheduledJobs)")
  case True
  then show ?thesis
    by (auto simp: startScheduler_def Let_def dropLeftovers_table [OF laws] registerJobs_table [OF laws] findScheduledJob_def scheduledJobs_def)
next
  case False
  then have key: "table (registerJobs cmds tz q) key = table q key" "findScheduledJob key = None"
    by (auto simp: registerJobs_table [OF laws] findScheduledJob_def scheduledJobs_def)
  have "table (startScheduler cmds tz q) key = None"
  proof (cases "table q key")
    case None
    then show ?thesis by (simp add: startScheduler_def Let_def dropLeftovers_table [OF laws] key)
  next
    case (Some entry)
    then have "key \<in> dom (table (registerJobs cmds tz q))" "key \<noteq> []" using key unnamed by auto
    then show ?thesis using listed False by (simp add: startScheduler_def Let_def dropLeftovers_table [OF laws] subset_iff del: set_map)
  qed
  then show ?thesis by (simp add: key)
qed

end
