(* ===== verification/Spec2Isabelle.thy ===== *)
theory Spec2Isabelle
  imports Rate_Limit Tenant_Scope Crypto Canonical_Json Pagination Audit_Trail Idempotency Idempotency_Concurrent
    Outbox Organizations Roles Auth_Accounts Client_Address Chat Upload_Lifecycle Subscriptions
    Providers Account_Erasure Retention Scheduler
begin

text \<open>
  \<^bold>\<open>Verification of the production backend foundation.\<close> The program under \<open>src/\<close> is a multi-tenant
  HTTP backend in TypeScript: Express handlers and a queue worker over PostgreSQL (through Prisma), Redis
  and BullMQ. This library models its services, one theory per component, as functions on explicit
  tables, and proves what makes them correct.

  \<^bold>\<open>How the program is put together.\<close> A request gets an ambient context (\<open>lib/request-context.ts\<close>),
  is limited by address and user (\<open>middleware/rate-limit.ts\<close>), authenticated and authorised
  (\<open>middleware/access-control.ts\<close>), and handed to a service under \<open>modules/\<close>. Services talk to the
  database through a client with two extensions, tenant scope and soft delete (\<open>lib/tenant-scope.ts\<close>,
  \<open>lib/prisma.ts\<close>); state changes run in audited transactions (\<open>lib/audited-transaction.ts\<close>) that also
  write outbox events (\<open>modules/outbox/\<close>), which a relay moves to a queue and a worker
  (\<open>queues/notification.worker.ts\<close>) delivers. Retried requests are made idempotent
  (\<open>lib/idempotency.ts\<close>).

  \<^bold>\<open>Conventions.\<close> A table is a list of records, newest first; a statement of the client is one of the
  operations of \<open>Transactions\<close>, and a service operation is composed from them as the code composes them.
  A body inside a transaction is a function that throws or returns (\<open>('s, 'a) tx\<close>); a computation outside
  is one whose earlier effects stay when it throws (\<open>('s, 'a) io\<close>). Where the code reads and later
  writes without a transaction, an argument \<open>other\<close> stands for whatever other requests do in between.
  Clocks, random bytes and generated identifiers are the arguments of type \<open>effects\<close>. Errors are values of
  type \<open>thrown\<close>: the application errors of \<open>lib/errors.ts\<close>, the known errors of the client, and others.
  Cryptographic primitives, Redis, the queue, providers and the JWT library are arguments; what is
  assumed of them is a hypothesis of the theorems that need it.

  \<^bold>\<open>Theories.\<close>
  \<^item> \<open>Prelude\<close>: tables, JavaScript values, shared lemmas and collections, the locale \<open>single_use\<close> of
    rows that are taken at most once. \<open>Errors\<close>: \<open>lib/errors.ts\<close>, \<open>lib/api-response.ts\<close>,
    \<open>middleware/error-handler.ts\<close>. \<open>Transactions\<close>: the statements and their laws.
  \<^item> \<open>Rate_Limit\<close> (\<open>lib/rate-limit.ts\<close>): the Redis script and the bounded local fallback, with the locale
    \<open>window_counter\<close> both implement; the window is exact and the fallback never grows beyond its bound.
  \<^item> \<open>Client_Address\<close> (\<open>lib/client-ip.ts\<close>, \<open>middleware/rate-limit.ts\<close>, \<open>auth.abuse.ts\<close>): parsing of addresses,
    buckets, networks and trusted proxies; buckets are exact and a /64 network has one budget.
  \<^item> \<open>Tenant_Scope\<close> (\<open>lib/tenant-scope.ts\<close>, \<open>lib/prisma.ts\<close>, \<open>lib/request-context.ts\<close>): queries cannot see or
    create rows of another organization and fail closed without a context.
  \<^item> \<open>Crypto\<close> (\<open>lib/crypto.ts\<close>, \<open>lib/id.ts\<close>), \<open>Canonical_Json\<close> (canonical texts of idempotency and audit),
    \<open>Pagination\<close> (cursor and offset pages).
  \<^item> \<open>Audit_Trail\<close> (\<open>modules/audit/\<close>, \<open>lib/audited-transaction.ts\<close>, maintenance jobs): signing is tamper
    evident, written events verify, the integrity scan counts correctly.
  \<^item> \<open>Idempotency\<close> (the runner sequentially) and \<open>Idempotency_Concurrent\<close> (a step relation of concurrent
    calls; leases exclude each other, a stored response is final).
  \<^item> \<open>Outbox\<close> (\<open>modules/outbox/\<close>, \<open>queues/\<close>): claims are exclusive within the lease, a completed job is not
    delivered twice, failures are kept, redrives fence off old jobs.
  \<^item> \<open>Accounts\<close> (rows and shared helpers), \<open>Organizations\<close>, \<open>Roles\<close>, \<open>Access_Control\<close>,
    \<open>Auth_Sessions\<close>, \<open>Auth_Credentials\<close>, \<open>Auth_Accounts\<close>: tenancy, membership, permissions and their
    cache, sessions with refresh rotation, one-time codes, passwords, social login and changes of address.
  \<^item> \<open>Content\<close> (rows of uploads and conversations, the effect of the client extensions) and \<open>Chat\<close>
    (\<open>modules/chat/chat.service.ts\<close>): gap-free numbering under overlapping requests, sends that can be
    repeated, complete catch-up.
  \<^item> \<open>Uploads\<close> (\<open>modules/uploads/uploads.service.ts\<close>, \<open>upload-security.ts\<close>, \<open>maintenance/upload-cleanup.ts\<close>) and
    \<open>Upload_Lifecycle\<close>: the locale \<open>upload_guarantee\<close> proves once that every run of the operations stays
    within a guarantee; its instances are the refinement of a state machine, the checks before a
    file is served and the storage quota. The bandwidth quota and the right to download come apart from it.
  \<^item> \<open>Billing\<close> (rows of payments, \<open>modules/stripe/stripe.webhooks.service.ts\<close>), \<open>Charges\<close> (\<open>stripe.shared.ts\<close>,
    \<open>stripe.chargeable.ts\<close>, \<open>stripe.charges.service.ts\<close>, \<open>stripe.refunds.service.ts\<close>), \<open>Charge_Safety\<close> (the
    locale \<open>sent_condition\<close> of conditions on what is sent to the provider, and what follows for charges and
    refunds) and \<open>Subscriptions\<close> (\<open>stripe.payment-methods.service.ts\<close>, \<open>stripe.subscriptions.service.ts\<close>,
    \<open>stripe.checkout.service.ts\<close>): events are stored once and the newest wins, amounts come from
    the item and stay within bounds, an item is paid for once, refunds keep to the policy,
    sessions return to the application, a subscription of another customer is out of reach.
  \<^item> \<open>Platform\<close> (the whole database for what reaches across modules). \<open>Templates\<close>
    (\<open>modules/notifications/templates/\<close>, with the shipped files), \<open>Notifications\<close>
    (\<open>notification-preferences.service.ts\<close>, \<open>unsubscribe.ts\<close>, \<open>email-events.service.ts\<close>, \<open>notifications.service.ts\<close>)
    and \<open>Providers\<close> (\<open>providers.ts\<close>, \<open>email-transport.ts\<close>): every shipped template renders, values never
    become markup, links verify until they expire, unsubscribing and the suppression list stop mail.
  \<^item> \<open>Users\<close> (\<open>modules/users/users.service.ts\<close>) and \<open>Account_Erasure\<close> (\<open>deleteAccount\<close> of
    \<open>auth.account.service.ts\<close>, \<open>account-erasure.service.ts\<close>): a blocked user is cut off, a deleted account is
    anonymous, organizations keep an owner, and the worker ends with every stored object deleted.
  \<^item> \<open>Retention\<close> (\<open>maintenance/retention.ts\<close>): the locale \<open>purgeable\<close>, with one instance per table, proves once that
    purging in batches deletes exactly what is due; the job composes nine of them.
  \<^item> \<open>Scheduler\<close> (\<open>scheduler/scheduler.ts\<close>, \<open>scheduler.registry.ts\<close>): runs of one job under way at once took their locks at
    least its time-out and a minute apart, every run is recorded and gives its lock back, and a start
    leaves exactly the registered schedules.

  \<^bold>\<open>Bounds and fuel.\<close> Recursions are structural or have a measure, except loops that follow pages or batches:
  following cursors needs one request more than there are rows, catching up in a conversation one more
  than there are missing messages, the erasure worker one round more than there are objects, the
  retention job one more than there are rows, and the theorems say that this much fuel gives the whole result.
  Integers are unbounded where the code uses numbers or large integers far from their limits; the
  message counter is refused at the end of the database's 64-bit range, and bytes of addresses and
  identifiers are kept in their range.

  \<^bold>\<open>Not modelled.\<close> Controllers, routes and schemas, the OpenAPI document, metrics, traces and logs,
  process start and shutdown, the gateway of sockets, and the clients of providers are wiring or input and output.
  The validation of the environment runs the schema library. The commands of Redis and of the queue are
  arguments, and the handlers of scheduled jobs are modelled in \<open>Retention\<close>, \<open>Upload_Lifecycle\<close> and \<open>Audit_Trail\<close>.
\<close>

end
